(* ===== verification/Prelude.thy ===== *)
theory Prelude
  imports Main "HOL-Library.Char_ord" "HOL-Library.List_Lexorder" "HOL-Library.Product_Lexorder"
begin

text \<open>
  Shared vocabulary of the development: the fragment of the Python language and its
  standard library that the modelled modules use (strings, exceptions as values), and the
  relational vocabulary of the SQLite control database (tables as row lists).

  Strings. A Python \<open>str\<close> is a HOL \<open>string\<close>; a \<open>char\<close> is read as the
  Unicode code point U+0000 to U+00FF it numbers, so the model speaks about the Latin-1 part
  of Unicode and is exact there (\<open>strip\<close>, \<open>casefold\<close>, the UTF-8 length and the
  character classes of \<open>re\<close> follow the Unicode tables on these 256 code points; the one
  code point whose case folding leaves the range, U+00B5, is left as it is, which no
  comparison of the program with an ASCII name can see).

  Exceptions. A function that may raise returns \<open>'e + 'a\<close>: \<open>Inl e\<close> is the
  exception, \<open>Inr x\<close> the returned value. \<open>rbind\<close> sequences two such computations
  and \<open>check\<close> is the statement \<open>if not b: raise e\<close>.

  Dynamic type tests (\<open>isinstance\<close>) of the source are discharged by HOL's types where a
  definition takes typed arguments; where a value arrives untyped (a mapping of exact
  fields), it is a \<open>pyval\<close> and the tests are modelled.
\<close>

section \<open>Proof collections\<close>

named_theorems record_valid \<open>validation of the record constructors, unfolded\<close>

named_theorems db_ops \<open>definitions of the control-database operations\<close>

named_theorems db_frame \<open>which tables an operation leaves alone\<close>

section \<open>Exceptions as values\<close>

text \<open>
  \<open>UnknownFields\<close> and \<open>MissingFields\<close> are the two \<open>ValueError\<close>s whose message
  spells a list of names; every other message is a string.
\<close>

datatype py_error = ValueError string | UnknownFields "string list" | MissingFields "string list"

definition rbind :: "'e + 'a \<Rightarrow> ('a \<Rightarrow> 'e + 'b) \<Rightarrow> 'e + 'b" where
  "rbind m f = (case m of Inl e \<Rightarrow> Inl e | Inr x \<Rightarrow> f x)"

definition check :: "bool \<Rightarrow> 'e \<Rightarrow> 'e + unit" where
  "check b e = (if b then Inr () else Inl e)"

definition is_ok :: "'e + 'a \<Rightarrow> bool" where
  "is_ok m = (case m of Inl _ \<Rightarrow> False | Inr _ \<Rightarrow> True)"

fun rmap :: "('a \<Rightarrow> 'e + 'b) \<Rightarrow> 'a list \<Rightarrow> 'e + 'b list" where
  "rmap f [] = Inr []"
| "rmap f (x # xs) = rbind (f x) (\<lambda>y. rbind (rmap f xs) (\<lambda>ys. Inr (y # ys)))"

definition py_or :: "string option \<Rightarrow> string \<Rightarrow> string" where
  \<comment> \<open>\<open>value or default\<close>: both None and the empty string are false.\<close>
  "py_or v d = (case v of None \<Rightarrow> d | Some s \<Rightarrow> if s = [] then d else s)"

lemma rbind_Inl [simp]: "rbind (Inl e) f = Inl e"
  by (simp add: rbind_def)

lemma rbind_Inr [simp]: "rbind (Inr x) f = f x"
  by (simp add: rbind_def)

lemma rbind_eq_Inr [simp]: "rbind m f = Inr y \<longleftrightarrow> (\<exists>x. m = Inr x \<and> f x = Inr y)"
  by (cases m) auto

lemma rbind_eq_Inl: "rbind m f = Inl e \<longleftrightarrow> m = Inl e \<or> (\<exists>x. m = Inr x \<and> f x = Inl e)"
  by (cases m) auto

lemma check_True [simp]: "check True e = Inr ()"
  by (simp add: check_def)

lemma check_False [simp]: "check False e = Inl e"
  by (simp add: check_def)

lemma check_eq_Inr [simp]: "check b e = Inr u \<longleftrightarrow> b"
  by (simp add: check_def)

lemma check_eq_Inl: "check b e = Inl e' \<longleftrightarrow> \<not> b \<and> e' = e"
  by (auto simp: check_def)

text \<open>A guard \<open>if b: raise e\<close> in front of a returned value.\<close>

lemma guard_eq_Inr: "(if b then Inl e else m) = Inr x \<longleftrightarrow> \<not> b \<and> m = Inr x"
  by simp

lemma guard_pair_eq_Inr: "(if b then (Inl e, s) else m) = (Inr x, t) \<longleftrightarrow> \<not> b \<and> m = (Inr x, t)"
  by simp

lemma is_ok_simps [simp]: "is_ok (Inl e) = False" "is_ok (Inr x) = True"
  by (simp_all add: is_ok_def)

lemma is_ok_iff: "is_ok m \<longleftrightarrow> (\<exists>x. m = Inr x)"
  by (cases m) auto

lemma is_ok_rbind: "is_ok (rbind m f) \<longleftrightarrow> (\<exists>x. m = Inr x \<and> is_ok (f x))"
  by (cases m) auto

lemma is_ok_check [simp]: "is_ok (check b e) = b"
  by (simp add: check_def)

lemma rmap_eq_Inr_length: "rmap f xs = Inr ys \<Longrightarrow> length ys = length xs"
  by (induction xs arbitrary: ys) auto

lemma rmap_eq_Inr_nth:
  "rmap f xs = Inr ys \<Longrightarrow> i < length xs \<Longrightarrow> f (xs ! i) = Inr (ys ! i)"
proof (induction xs arbitrary: ys i)
  case (Cons x xs)
  then show ?case by (cases i) auto
qed simp

section \<open>Untyped values\<close>

datatype pyval = PNone | PBool bool | PInt int | PStr string

text \<open>A mapping from field names to values; a Python dict has no duplicate keys.\<close>

type_synonym pydict = "(string \<times> pyval) list"

definition opt_str :: "string option \<Rightarrow> pyval" where
  "opt_str v = (case v of None \<Rightarrow> PNone | Some s \<Rightarrow> PStr s)"

lemma opt_str_simps [simp]: "opt_str None = PNone" "opt_str (Some s) = PStr s"
  by (simp_all add: opt_str_def)

section \<open>Strings\<close>

type_synonym codepoint = nat

definition ord :: "char \<Rightarrow> codepoint" where
  "ord c = of_char c"

definition is_space :: "char \<Rightarrow> bool" where
  "is_space c \<longleftrightarrow>
     (let n = ord c in 9 \<le> n \<and> n \<le> 13 \<or> 28 \<le> n \<and> n \<le> 32 \<or> n = 133 \<or> n = 160)"

definition strip :: "string \<Rightarrow> string" where
  "strip s = rev (dropWhile is_space (rev (dropWhile is_space s)))"

definition utf8_len :: "string \<Rightarrow> nat" where
  "utf8_len s = sum_list (map (\<lambda>c. if ord c < 128 then 1 else 2) s)"

definition fold_char :: "char \<Rightarrow> string" where
  "fold_char c =
     (let n = ord c in
      if n = 223 then ''ss''
      else if 65 \<le> n \<and> n \<le> 90 \<or> 192 \<le> n \<and> n \<le> 222 \<and> n \<noteq> 215 then [char_of (n + 32)]
      else [c])"

definition casefold :: "string \<Rightarrow> string" where
  "casefold s = concat (map fold_char s)"

definition startswith :: "'a list \<Rightarrow> 'a list \<Rightarrow> bool" where
  "startswith s p \<longleftrightarrow> take (length p) s = p"

definition endswith :: "'a list \<Rightarrow> 'a list \<Rightarrow> bool" where
  "endswith s p \<longleftrightarrow> startswith (rev s) (rev p)"

fun contains :: "'a list \<Rightarrow> 'a list \<Rightarrow> bool" where
  "contains [] sub = (sub = [])"
| "contains (c # cs) sub = (startswith (c # cs) sub \<or> contains cs sub)"

fun split_on :: "'a \<Rightarrow> 'a list \<Rightarrow> 'a list list" where
  "split_on d [] = [[]]"
| "split_on d (c # cs) =
     (if c = d then [] # split_on d cs
      else (case split_on d cs of [] \<Rightarrow> [[c]] | p # ps \<Rightarrow> (c # p) # ps))"

fun join_on :: "'a \<Rightarrow> 'a list list \<Rightarrow> 'a list" where
  "join_on d [] = []"
| "join_on d [p] = p"
| "join_on d (p # q # ps) = p @ d # join_on d (q # ps)"

fun str_nat :: "nat \<Rightarrow> string" where
  \<comment> \<open>\<open>str(n)\<close> of a non-negative number.\<close>
  "str_nat n = (if n < 10 then [char_of (48 + n)] else str_nat (n div 10) @ [char_of (48 + n mod 10)])"

declare str_nat.simps [simp del]

lemma split_on_not_Nil [simp]: "split_on d s \<noteq> []"
  by (cases s) (auto split: list.splits)

lemma join_split [simp]: "join_on d (split_on d s) = s"
proof (induction s)
  case (Cons c cs)
  obtain p ps where ps: "split_on d cs = p # ps"
    by (cases "split_on d cs") auto
  with Cons.IH show ?case by (cases ps) auto
qed simp

lemma split_on_no_sep: "p \<in> set (split_on d s) \<Longrightarrow> d \<notin> set p"
proof (induction s arbitrary: p)
  case (Cons c cs)
  then show ?case by (cases "split_on d cs") (auto split: if_splits)
qed simp

lemma split_on_free: "d \<notin> set s \<Longrightarrow> split_on d s = [s]"
  by (induction s) auto

lemma split_on_append: "split_on d (s @ d # t) = split_on d s @ split_on d t"
proof (induction s)
  case (Cons c cs)
  then show ?case by (cases "split_on d cs") auto
qed simp

lemma split_join:
  assumes "ps \<noteq> []" and "\<forall>p\<in>set ps. d \<notin> set p"
  shows "split_on d (join_on d ps) = ps"
  using assms
  by (induction d ps rule: join_on.induct) (auto simp: split_on_free split_on_append)

lemma split_on_inj: "split_on d s = split_on d t \<longleftrightarrow> s = t"
  by (metis join_split)

lemma startswith_iff: "startswith s p \<longleftrightarrow> (\<exists>t. s = p @ t)"
proof
  assume "startswith s p"
  then have "s = p @ drop (length p) s"
    unfolding startswith_def by (metis append_take_drop_id)
  then show "\<exists>t. s = p @ t" ..
qed (auto simp: startswith_def)

lemma startswith_Cons_sep:
  "startswith s (p @ [d]) \<longleftrightarrow> (\<exists>t. split_on d s = split_on d p @ split_on d t \<and> s = p @ d # t)"
  by (auto simp: startswith_iff split_on_append)

lemma endswith_iff: "endswith s p \<longleftrightarrow> (\<exists>t. s = t @ p)"
  by (metis endswith_def startswith_iff rev_append rev_rev_ident)

lemma contains_iff: "contains s sub \<longleftrightarrow> (\<exists>t u. s = t @ sub @ u)"
proof (induction s)
  case Nil
  then show ?case by simp
next
  case (Cons c cs)
  show ?case
  proof
    assume "contains (c # cs) sub"
    then consider t where "c # cs = sub @ t" | "contains cs sub"
      by (auto simp: startswith_iff)
    then show "\<exists>t u. c # cs = t @ sub @ u"
    proof cases
      case 1
      then show ?thesis by (metis append_Nil)
    next
      case 2
      with Cons.IH show ?thesis by (metis append_Cons)
    qed
  next
    assume "\<exists>t u. c # cs = t @ sub @ u"
    then obtain t u where eq: "c # cs = t @ sub @ u" by blast
    show "contains (c # cs) sub"
    proof (cases t)
      case Nil
      with eq have "startswith (c # cs) sub" by (auto simp: startswith_iff)
      then show ?thesis by simp
    next
      case (Cons a t')
      with eq have "\<exists>t u. cs = t @ sub @ u" by auto
      with Cons.IH show ?thesis by simp
    qed
  qed
qed

end
