(* ===== verification/Tables.thy ===== *)
theory Tables
  imports Prelude
begin

text \<open>
  The relational vocabulary of the control database. A table is the list of its rows in
  insertion order; a SELECT by primary key is \<open>find_row\<close>, an UPDATE with a WHERE clause
  is \<open>update_rows\<close> and its \<open>cursor.rowcount\<close> is \<open>rowcount\<close>. \<open>cas\<close> is
  the statement \<open>UPDATE t SET state = s' WHERE key = k AND state = s\<close> followed by the test
  \<open>rowcount == 1\<close>, the compare-and-set every state machine of the program runs on.

  The locale \<open>keyed_table\<close> is the contract between a table and its clients (an update
  never rewrites the primary key); \<open>cas_table\<close> adds a state column. Their lemmas are
  proved once and reach each table of the database by interpretation.
\<close>

section \<open>Rows, keys and updates\<close>

definition find_row :: "('r \<Rightarrow> 'k) \<Rightarrow> 'k \<Rightarrow> 'r list \<Rightarrow> 'r option" where
  "find_row key k rows = find (\<lambda>r. key r = k) rows"

definition has_row :: "('r \<Rightarrow> 'k) \<Rightarrow> 'k \<Rightarrow> 'r list \<Rightarrow> bool" where
  "has_row key k rows \<longleftrightarrow> find_row key k rows \<noteq> None"

definition update_rows :: "('r \<Rightarrow> bool) \<Rightarrow> ('r \<Rightarrow> 'r) \<Rightarrow> 'r list \<Rightarrow> 'r list" where
  "update_rows P f rows = map (\<lambda>r. if P r then f r else r) rows"

definition rowcount :: "('r \<Rightarrow> bool) \<Rightarrow> 'r list \<Rightarrow> nat" where
  "rowcount P rows = length (filter P rows)"

definition cas :: "('r \<Rightarrow> 'k) \<Rightarrow> ('r \<Rightarrow> 's) \<Rightarrow> ('s \<Rightarrow> 'r \<Rightarrow> 'r) \<Rightarrow> 'k \<Rightarrow> 's \<Rightarrow> 's \<Rightarrow>
    'r list \<Rightarrow> bool \<times> 'r list" where
  "cas key state touch k s s' rows =
     (rowcount (\<lambda>r. key r = k \<and> state r = s) rows = 1,
      update_rows (\<lambda>r. key r = k \<and> state r = s) (touch s') rows)"

text \<open>A sequence of compare-and-set statements \<open>(k, s, s')\<close>, whatever their outcomes.\<close>

fun cas_run :: "('r \<Rightarrow> 'k) \<Rightarrow> ('r \<Rightarrow> 's) \<Rightarrow> ('s \<Rightarrow> 'r \<Rightarrow> 'r) \<Rightarrow> ('k \<times> 's \<times> 's) list \<Rightarrow>
    'r list \<Rightarrow> 'r list" where
  "cas_run key state touch [] rows = rows"
| "cas_run key state touch ((k, s, s') # ops) rows =
     cas_run key state touch ops (snd (cas key state touch k s s' rows))"

lemma find_row_Nil [simp]: "find_row key k [] = None"
  by (simp add: find_row_def)

lemma find_row_Cons: "find_row key k (r # rows) = (if key r = k then Some r else find_row key k rows)"
  by (simp add: find_row_def)

lemma find_row_SomeD: "find_row key k rows = Some r \<Longrightarrow> r \<in> set rows \<and> key r = k"
  by (auto simp: find_row_def find_Some_iff)

lemma find_row_None_iff: "find_row key k rows = None \<longleftrightarrow> k \<notin> key ` set rows"
  by (auto simp: find_row_def find_None_iff)

lemma has_row_iff: "has_row key k rows \<longleftrightarrow> k \<in> key ` set rows"
  by (auto simp: has_row_def find_row_None_iff)

lemma find_row_append:
  "find_row key k (rows @ rows') =
     (case find_row key k rows of None \<Rightarrow> find_row key k rows' | Some r \<Rightarrow> Some r)"
  by (induction rows) (auto simp: find_row_Cons)

lemma find_row_snoc:
  "find_row key k (rows @ [r]) =
     (case find_row key k rows of None \<Rightarrow> if key r = k then Some r else None | Some r \<Rightarrow> Some r)"
  by (cases "find_row key k rows") (simp_all add: find_row_append find_row_Cons)

lemma find_row_distinct:
  "distinct (map key rows) \<Longrightarrow> r \<in> set rows \<Longrightarrow> find_row key (key r) rows = Some r"
  by (induction rows) (auto simp: find_row_Cons)

lemma rowcount_Cons: "rowcount P (r # rows) = (if P r then Suc (rowcount P rows) else rowcount P rows)"
  by (simp add: rowcount_def)

lemma rowcount_Nil [simp]: "rowcount P [] = 0"
  by (simp add: rowcount_def)

lemma rowcount_0_iff: "rowcount P rows = 0 \<longleftrightarrow> (\<forall>r\<in>set rows. \<not> P r)"
  by (auto simp: rowcount_def filter_empty_conv)

lemma rowcount_key_eq_1:
  assumes "distinct (map key rows)"
  shows "rowcount (\<lambda>r. key r = k \<and> Q r) rows = Suc 0 \<longleftrightarrow> (\<exists>r. find_row key k rows = Some r \<and> Q r)"
  using assms
proof (induction rows)
  case (Cons r rows)
  have "key r = k \<Longrightarrow> rowcount (\<lambda>r. key r = k \<and> Q r) rows = 0"
    using Cons.prems by (auto simp: rowcount_0_iff image_iff)
  with Cons show ?case by (auto simp: rowcount_Cons find_row_Cons)
qed simp

lemma update_rows_id: "(\<And>r. r \<in> set rows \<Longrightarrow> \<not> P r) \<Longrightarrow> update_rows P f rows = rows"
  by (induction rows) (auto simp: update_rows_def)

lemma length_update_rows [simp]: "length (update_rows P f rows) = length rows"
  by (simp add: update_rows_def)

lemma in_set_update_rows:
  "r \<in> set (update_rows P f rows) \<longleftrightarrow> (\<exists>q\<in>set rows. r = (if P q then f q else q))"
  by (auto simp: update_rows_def image_iff)

lemma map_update_rows:
  "(\<And>r. g (f r) = g r) \<Longrightarrow> map g (update_rows P f rows) = map g rows"
  by (simp add: update_rows_def)

lemma find_update_rows:
  assumes "\<And>r. key (f r) = key r"
  shows "find_row key k (update_rows P f rows) =
    map_option (\<lambda>r. if P r then f r else r) (find_row key k rows)"
  using assms by (induction rows) (auto simp: find_row_Cons update_rows_def)

section \<open>The table contract\<close>

locale keyed_table =
  fixes key :: "'r \<Rightarrow> 'k" and touch :: "'v \<Rightarrow> 'r \<Rightarrow> 'r"
  assumes key_touch [simp]: "key (touch v r) = key r"
begin

lemma keys_update: "map key (update_rows P (touch v) rows) = map key rows"
  by (simp add: map_update_rows)

lemma find_update:
  "find_row key k (update_rows P (touch v) rows) =
     map_option (\<lambda>r. if P r then touch v r else r) (find_row key k rows)"
  by (simp add: find_update_rows)

lemma has_row_update: "has_row key k (update_rows P (touch v) rows) = has_row key k rows"
  by (simp add: has_row_def find_update)

lemma update_other:
  "(\<And>r. P r \<Longrightarrow> key r \<noteq> k) \<Longrightarrow> find_row key k (update_rows P (touch v) rows) = find_row key k rows"
  by (cases "find_row key k rows") (auto simp: find_update dest: find_row_SomeD)

end

locale cas_table = keyed_table key touch
  for key :: "'r \<Rightarrow> 'k" and touch :: "'s \<Rightarrow> 'r \<Rightarrow> 'r" +
  fixes state :: "'r \<Rightarrow> 's"
  assumes state_touch [simp]: "state (touch s r) = s"
begin

lemma cas_keys: "map key (snd (cas key state touch k s s' rows)) = map key rows"
  by (simp add: cas_def keys_update)

lemma cas_ok_iff:
  "distinct (map key rows) \<Longrightarrow>
     fst (cas key state touch k s s' rows) \<longleftrightarrow> (\<exists>r. find_row key k rows = Some r \<and> state r = s)"
  by (simp add: cas_def rowcount_key_eq_1)

lemma cas_find_same:
  "find_row key k (snd (cas key state touch k s s' rows)) =
     map_option (\<lambda>r. if state r = s then touch s' r else r) (find_row key k rows)"
  by (cases "find_row key k rows") (auto simp: cas_def find_update dest: find_row_SomeD)

lemma cas_find_other:
  "k' \<noteq> k \<Longrightarrow> find_row key k' (snd (cas key state touch k s s' rows)) = find_row key k' rows"
  by (simp add: cas_def update_other [of "\<lambda>r. key r = k \<and> state r = s"])

lemma cas_failed_same:
  assumes "distinct (map key rows)" and "\<not> fst (cas key state touch k s s' rows)"
  shows "snd (cas key state touch k s s' rows) = rows"
proof -
  have "\<not> (key r = k \<and> state r = s)" if "r \<in> set rows" for r
    using that assms by (auto simp: cas_ok_iff dest: find_row_distinct)
  then show ?thesis by (simp add: cas_def update_rows_id)
qed

lemma cas_once:
  assumes "distinct (map key rows)" and "s \<noteq> s'" and "fst (cas key state touch k s s' rows)"
  shows "\<not> fst (cas key state touch k s s'' (snd (cas key state touch k s s' rows)))"
  using assms by (auto simp: cas_ok_iff cas_keys cas_find_same)

lemma cas_run_keys: "map key (cas_run key state touch ops rows) = map key rows"
  by (induction ops arbitrary: rows) (auto simp: cas_keys)

lemma cas_run_append:
  "cas_run key state touch (ops @ ops') rows =
     cas_run key state touch ops' (cas_run key state touch ops rows)"
  by (induction ops arbitrary: rows) auto

text \<open>A row whose state no legal statement leaves is never touched again.\<close>

lemma terminal_final:
  assumes "find_row key k rows = Some r"
    and "\<And>k' s'. (k', state r, s') \<notin> set ops"
  shows "find_row key k (cas_run key state touch ops rows) = Some r"
  using assms
proof (induction ops arbitrary: rows)
  case (Cons op ops)
  obtain k' s s' where op: "op = (k', s, s')" by (cases op)
  with Cons.prems(2) have "s \<noteq> state r" by auto
  with Cons.prems(1) have "find_row key k (snd (cas key state touch k' s s' rows)) = Some r"
    by (cases "k' = k") (auto simp: cas_find_same cas_find_other)
  then show ?case using Cons.IH Cons.prems(2) op by simp
qed simp

text \<open>Every row moves along the reflexive and transitive closure of the statements run.\<close>

lemma cas_run_moves:
  assumes "find_row key k rows = Some r"
  shows "\<exists>r'. find_row key k (cas_run key state touch ops rows) = Some r' \<and>
    (state r, state r') \<in> {(s, s'). \<exists>k. (k, s, s') \<in> set ops}\<^sup>*"
  using assms
proof (induction ops arbitrary: rows r)
  case (Cons op ops)
  obtain k' s s' where op: "op = (k', s, s')" by (cases op)
  let ?R = "\<lambda>ops. {(s, s'). \<exists>k. (k, s, s') \<in> set ops}"
  obtain q where q: "find_row key k (snd (cas key state touch k' s s' rows)) = Some q"
    and step: "(state r, state q) \<in> (?R (op # ops))\<^sup>*"
    using Cons.prems op
    by (cases "k' = k") (fastforce simp: cas_find_same cas_find_other split: if_splits)+
  from Cons.IH [OF q] obtain r' where
    r': "find_row key k (cas_run key state touch ops (snd (cas key state touch k' s s' rows))) = Some r'"
      and "(state q, state r') \<in> (?R ops)\<^sup>*" by blast
  moreover have "(?R ops)\<^sup>* \<subseteq> (?R (op # ops))\<^sup>*" by (rule rtrancl_mono) auto
  ultimately show ?case using step op by (auto intro: rtrancl_trans)
qed simp

end

end
