(* ===== verification/Control_Records.thy ===== *)
theory Control_Records
  imports Prelude
begin

text \<open>
  The v2 control-plane value records and the validators their constructors run:
  \<open>contracts/v2_identity.py\<close>, \<open>candidate/v2_candidate.py\<close>,
  \<open>profiles/v2_reference.py\<close> and \<open>profiles/v2_endpoints.py\<close>. A record class is a
  HOL record; its constructor (with \<open>__post_init__\<close>) is the \<open>make_\<close> function, which takes
  untyped values and returns the record or the \<open>ValueError\<close> raised. The parse of an
  exact-field mapping is \<open>strict_mapping\<close> followed by the constructor.

  Every module of the source spells its own copy of the validators; where the copies agree
  they share one definition here (the copy of \<open>contracts/v2_identity.py\<close>).
\<close>

section \<open>Validators\<close>

definition p_identifier :: "pyval \<Rightarrow> string \<Rightarrow> py_error + string" where
  "p_identifier v field_name =
     (case v of
        PStr s \<Rightarrow>
          if strip s = [] then Inl (ValueError (field_name @ '' must be a non-empty string''))
          else if utf8_len s > 256 then Inl (ValueError (field_name @ '' is too long''))
          else Inr s
      | _ \<Rightarrow> Inl (ValueError (field_name @ '' must be a non-empty string'')))"

definition p_revision :: "pyval \<Rightarrow> string \<Rightarrow> py_error + int" where
  \<comment> \<open>\<open>isinstance(True, int)\<close> holds in Python, so the source refuses booleans first.\<close>
  "p_revision v field_name =
     (case v of
        PInt n \<Rightarrow> if n < 0 then Inl (ValueError (field_name @ '' must be a non-negative integer''))
                  else Inr n
      | _ \<Rightarrow> Inl (ValueError (field_name @ '' must be a non-negative integer'')))"

text \<open>
  A \<open>datetime\<close>: wall-clock microseconds and the UTC offset in microseconds, if it carries
  one. \<open>datetime.fromisoformat\<close> is a parameter \<open>fromiso\<close> of the definitions that use it;
  nothing is assumed of it.
\<close>

record datetime =
  dt_wall :: int
  dt_offset :: "int option"

type_synonym iso_parser = "string \<Rightarrow> datetime option"

definition replace_Z :: "string \<Rightarrow> string" where
  "replace_Z s = concat (map (\<lambda>c. if c = CHR ''Z'' then ''+00:00'' else [c]) s)"

definition p_timestamp :: "iso_parser \<Rightarrow> pyval \<Rightarrow> string \<Rightarrow> py_error + string" where
  "p_timestamp fromiso v field_name =
     (case v of
        PStr s \<Rightarrow>
          if s = [] then Inl (ValueError (field_name @ '' must be a non-empty timestamp''))
          else (case fromiso (replace_Z s) of
                  None \<Rightarrow> Inl (ValueError (field_name @ '' must be an ISO-8601 timestamp''))
                | Some _ \<Rightarrow> Inr s)
      | _ \<Rightarrow> Inl (ValueError (field_name @ '' must be a non-empty timestamp'')))"

definition p_status :: "pyval \<Rightarrow> string list \<Rightarrow> string \<Rightarrow> py_error + string" where
  \<comment> \<open>\<open>if value not in allowed: raise\<close>; the message lists the allowed spellings.\<close>
  "p_status v allowed field_name =
     (case v of
        PStr s \<Rightarrow> if s \<in> set allowed then Inr s
                  else Inl (ValueError (field_name @ '' must be one of the allowed spellings''))
      | _ \<Rightarrow> Inl (ValueError (field_name @ '' must be one of the allowed spellings'')))"

definition item :: "pydict \<Rightarrow> string \<Rightarrow> pyval" where
  "item d n = (case map_of d n of None \<Rightarrow> PNone | Some v \<Rightarrow> v)"

definition strict_mapping :: "pydict \<Rightarrow> string list \<Rightarrow> py_error + pydict" where
  "strict_mapping data names =
     (let keys = map fst data;
          unknown = sort (filter (\<lambda>k. k \<notin> set names) (remdups keys));
          missing = sort (filter (\<lambda>n. n \<notin> set keys) names)
      in if unknown \<noteq> [] then Inl (UnknownFields unknown)
         else if missing \<noteq> [] then Inl (MissingFields missing)
         else Inr (map (\<lambda>n. (n, item data n)) names))"

definition valid_identifier :: "string \<Rightarrow> bool" where
  "valid_identifier s \<longleftrightarrow> strip s \<noteq> [] \<and> utf8_len s \<le> 256"

lemma p_identifier_eq_Inr [simp]:
  "p_identifier v f = Inr s \<longleftrightarrow> v = PStr s \<and> valid_identifier s"
  by (auto simp: p_identifier_def valid_identifier_def split: pyval.splits if_splits)

lemma p_revision_eq_Inr [simp]: "p_revision v f = Inr n \<longleftrightarrow> v = PInt n \<and> 0 \<le> n"
  by (auto simp: p_revision_def split: pyval.splits if_splits)

lemma p_timestamp_eq_Inr [simp]:
  "p_timestamp fromiso v f = Inr s \<longleftrightarrow> v = PStr s \<and> s \<noteq> [] \<and> fromiso (replace_Z s) \<noteq> None"
  by (auto simp: p_timestamp_def split: pyval.splits if_splits option.splits)

lemma p_status_eq_Inr [simp]: "p_status v allowed f = Inr s \<longleftrightarrow> v = PStr s \<and> s \<in> set allowed"
  by (auto simp: p_status_def split: pyval.splits if_splits)

lemma sort_Nil_iff: "sort xs = [] \<longleftrightarrow> set xs = {}"
  by (metis set_sort set_empty)

lemma strict_mapping_eq_Inr:
  "strict_mapping data names = Inr vs \<longleftrightarrow>
     set (map fst data) = set names \<and> vs = map (\<lambda>n. (n, item data n)) names"
proof -
  have "strict_mapping data names = Inr vs \<longleftrightarrow>
      {k \<in> set (map fst data). k \<notin> set names} = {} \<and>
      {n \<in> set names. n \<notin> set (map fst data)} = {} \<and> map (\<lambda>n. (n, item data n)) names = vs"
    unfolding strict_mapping_def Let_def sort_Nil_iff set_filter set_remdups by auto
  also have "\<dots> \<longleftrightarrow> set (map fst data) = set names \<and> vs = map (\<lambda>n. (n, item data n)) names"
    by blast
  finally show ?thesis .
qed

lemma item_map [simp]: "n \<in> set names \<Longrightarrow> item (map (\<lambda>n. (n, item data n)) names) n = item data n"
  by (induction names) (auto simp: item_def)

section \<open>contracts/v2_identity.py\<close>

record candidate_identity =
  ci_candidate_id :: string
  ci_snapshot_id :: string
  ci_revision :: int

record action_instance =
  ai_action_id :: string
  ai_action_type :: string

record final_writeback_subject =
  fs_subject_id :: string
  fs_candidate_id :: string
  fs_expires_at :: string

definition make_candidate_identity :: "pyval \<Rightarrow> pyval \<Rightarrow> pyval \<Rightarrow> py_error + candidate_identity" where
  "make_candidate_identity cid sid rv =
     rbind (p_identifier cid ''candidate_id'') (\<lambda>c.
     rbind (p_identifier sid ''snapshot_id'') (\<lambda>s.
     rbind (p_revision rv ''revision'') (\<lambda>r.
       Inr \<lparr>ci_candidate_id = c, ci_snapshot_id = s, ci_revision = r\<rparr>)))"

definition make_action_instance :: "pyval \<Rightarrow> pyval \<Rightarrow> py_error + action_instance" where
  "make_action_instance aid atype =
     rbind (p_identifier aid ''action_id'') (\<lambda>a.
     rbind (p_identifier atype ''action_type'') (\<lambda>t.
       Inr \<lparr>ai_action_id = a, ai_action_type = t\<rparr>))"

definition make_final_writeback_subject ::
  "iso_parser \<Rightarrow> pyval \<Rightarrow> pyval \<Rightarrow> pyval \<Rightarrow> py_error + final_writeback_subject" where
  "make_final_writeback_subject fromiso sid cid exp =
     rbind (p_identifier sid ''subject_id'') (\<lambda>s.
     rbind (p_identifier cid ''candidate_id'') (\<lambda>c.
     rbind (p_timestamp fromiso exp ''expires_at'') (\<lambda>e.
       Inr \<lparr>fs_subject_id = s, fs_candidate_id = c, fs_expires_at = e\<rparr>)))"

section \<open>candidate/v2_candidate.py\<close>

record candidate_control =
  cc_candidate_id :: string
  cc_snapshot_id :: string
  cc_revision :: int
  cc_status :: string

record candidate_diff =
  cd_diff_id :: string
  cd_candidate_id :: string
  cd_candidate_revision :: int
  cd_artifact_id :: string

definition candidate_control_statuses :: "string list" where
  "candidate_control_statuses = [''ACTIVE'', ''SUPERSEDED'']"

definition make_candidate_control ::
  "pyval \<Rightarrow> pyval \<Rightarrow> pyval \<Rightarrow> pyval \<Rightarrow> py_error + candidate_control" where
  "make_candidate_control cid sid rv status =
     rbind (p_identifier cid ''candidate_id'') (\<lambda>c.
     rbind (p_identifier sid ''snapshot_id'') (\<lambda>s.
     rbind (p_revision rv ''revision'') (\<lambda>r.
     rbind (p_status status candidate_control_statuses ''status'') (\<lambda>st.
       Inr \<lparr>cc_candidate_id = c, cc_snapshot_id = s, cc_revision = r, cc_status = st\<rparr>))))"

definition make_candidate_diff ::
  "pyval \<Rightarrow> pyval \<Rightarrow> pyval \<Rightarrow> pyval \<Rightarrow> py_error + candidate_diff" where
  "make_candidate_diff did cid rv aid =
     rbind (p_identifier did ''diff_id'') (\<lambda>d.
     rbind (p_identifier cid ''candidate_id'') (\<lambda>c.
     rbind (p_revision rv ''candidate_revision'') (\<lambda>r.
     rbind (p_identifier aid ''artifact_id'') (\<lambda>a.
       Inr \<lparr>cd_diff_id = d, cd_candidate_id = c, cd_candidate_revision = r, cd_artifact_id = a\<rparr>))))"

definition advance_candidate_revision :: "candidate_control \<Rightarrow> py_error + candidate_control" where
  "advance_candidate_revision c =
     make_candidate_control (PStr (cc_candidate_id c)) (PStr (cc_snapshot_id c))
       (PInt (cc_revision c + 1)) (PStr (cc_status c))"

definition candidate_control_from_mapping :: "pydict \<Rightarrow> py_error + candidate_control" where
  "candidate_control_from_mapping data =
     rbind (strict_mapping data [''candidate_id'', ''snapshot_id'', ''revision'', ''status'']) (\<lambda>vs.
       make_candidate_control (item vs ''candidate_id'') (item vs ''snapshot_id'')
         (item vs ''revision'') (item vs ''status''))"

definition candidate_diff_from_mapping :: "pydict \<Rightarrow> py_error + candidate_diff" where
  "candidate_diff_from_mapping data =
     rbind (strict_mapping data [''diff_id'', ''candidate_id'', ''candidate_revision'', ''artifact_id''])
       (\<lambda>vs. make_candidate_diff (item vs ''diff_id'') (item vs ''candidate_id'')
         (item vs ''candidate_revision'') (item vs ''artifact_id''))"

section \<open>profiles/v2_reference.py and profiles/v2_endpoints.py\<close>

record reference_profile =
  rp_id :: string
  rp_revision :: int
  rp_python_version :: string
  rp_pytest_version :: string
  rp_ruff_version :: string
  rp_mypy_version :: string

record provider_endpoint =
  pe_endpoint_id :: string
  pe_provider :: string
  pe_profile_id :: string
  pe_profile_revision :: int

definition declared_version :: "pyval \<Rightarrow> string \<Rightarrow> py_error + string" where
  "declared_version v field_name =
     (case v of
        PStr s \<Rightarrow>
          if strip s = [] then Inl (ValueError (field_name @ '' must be a non-empty declared version''))
          else if utf8_len s > 256 then Inl (ValueError (field_name @ '' is too long''))
          else Inr s
      | _ \<Rightarrow> Inl (ValueError (field_name @ '' must be a non-empty declared version'')))"

text \<open>
  The provider-name pattern \<open>^[A-Za-z0-9][A-Za-z0-9._-]{0,63}$\<close>, used with
  \<open>re.match\<close>: outside MULTILINE mode \<open>$\<close> matches at the end of the string and also
  just before a newline that ends it.
\<close>

definition provider_head_char :: "char \<Rightarrow> bool" where
  "provider_head_char c \<longleftrightarrow>
     (let n = ord c in 48 \<le> n \<and> n \<le> 57 \<or> 65 \<le> n \<and> n \<le> 90 \<or> 97 \<le> n \<and> n \<le> 122)"

definition provider_tail_char :: "char \<Rightarrow> bool" where
  "provider_tail_char c \<longleftrightarrow> provider_head_char c \<or> c \<in> {CHR ''.'', CHR ''_'', CHR ''-''}"

definition provider_name_body :: "string \<Rightarrow> bool" where
  "provider_name_body s =
     (case s of [] \<Rightarrow> False
      | c # cs \<Rightarrow> provider_head_char c \<and> length cs \<le> 63 \<and> list_all provider_tail_char cs)"

definition provider_name_matches :: "string \<Rightarrow> bool" where
  "provider_name_matches s \<longleftrightarrow>
     provider_name_body s \<or> s \<noteq> [] \<and> last s = CHR 0x0A \<and> provider_name_body (butlast s)"

definition provider_name :: "pyval \<Rightarrow> py_error + string" where
  "provider_name v =
     (case v of
        PStr s \<Rightarrow> if provider_name_matches s then Inr s
                  else Inl (ValueError ''provider must be a short identifier'')
      | _ \<Rightarrow> Inl (ValueError ''provider must be a short identifier''))"

definition make_reference_profile ::
  "pyval \<Rightarrow> pyval \<Rightarrow> pyval \<Rightarrow> pyval \<Rightarrow> pyval \<Rightarrow> pyval \<Rightarrow> py_error + reference_profile" where
  "make_reference_profile pid rv py pyt ruff mypy =
     rbind (p_identifier pid ''reference_profile_id'') (\<lambda>i.
     rbind (p_revision rv ''profile_revision'') (\<lambda>r.
     rbind (declared_version py ''python_version'') (\<lambda>v1.
     rbind (declared_version pyt ''pytest_version'') (\<lambda>v2.
     rbind (declared_version ruff ''ruff_version'') (\<lambda>v3.
     rbind (declared_version mypy ''mypy_version'') (\<lambda>v4.
       Inr \<lparr>rp_id = i, rp_revision = r, rp_python_version = v1, rp_pytest_version = v2,
            rp_ruff_version = v3, rp_mypy_version = v4\<rparr>))))))"

definition reference_profile_from_mapping :: "pydict \<Rightarrow> py_error + reference_profile" where
  "reference_profile_from_mapping data =
     rbind (strict_mapping data [''reference_profile_id'', ''profile_revision'', ''python_version'',
         ''pytest_version'', ''ruff_version'', ''mypy_version'']) (\<lambda>vs.
       make_reference_profile (item vs ''reference_profile_id'') (item vs ''profile_revision'')
         (item vs ''python_version'') (item vs ''pytest_version'') (item vs ''ruff_version'')
         (item vs ''mypy_version''))"

definition make_provider_endpoint ::
  "pyval \<Rightarrow> pyval \<Rightarrow> pyval \<Rightarrow> pyval \<Rightarrow> py_error + provider_endpoint" where
  "make_provider_endpoint eid prov pid rv =
     rbind (p_identifier eid ''endpoint_id'') (\<lambda>e.
     rbind (provider_name prov) (\<lambda>p.
     rbind (p_identifier pid ''reference_profile_id'') (\<lambda>i.
     rbind (p_revision rv ''reference_profile_revision'') (\<lambda>r.
       Inr \<lparr>pe_endpoint_id = e, pe_provider = p, pe_profile_id = i, pe_profile_revision = r\<rparr>))))"

definition provider_endpoint_from_mapping :: "pydict \<Rightarrow> py_error + provider_endpoint" where
  "provider_endpoint_from_mapping data =
     rbind (strict_mapping data [''endpoint_id'', ''provider'', ''reference_profile_id'',
         ''reference_profile_revision'']) (\<lambda>vs.
       make_provider_endpoint (item vs ''endpoint_id'') (item vs ''provider'')
         (item vs ''reference_profile_id'') (item vs ''reference_profile_revision''))"

section \<open>What the constructors accept\<close>

lemma declared_version_eq_Inr [simp]:
  "declared_version v f = Inr s \<longleftrightarrow> v = PStr s \<and> valid_identifier s"
  by (auto simp: declared_version_def valid_identifier_def split: pyval.splits if_splits)

lemma provider_name_eq_Inr [simp]:
  "provider_name v = Inr s \<longleftrightarrow> v = PStr s \<and> provider_name_matches s"
  by (auto simp: provider_name_def split: pyval.splits if_splits)

lemma make_candidate_control_eq_Inr [record_valid]:
  "make_candidate_control c s r st = Inr x \<longleftrightarrow>
     c = PStr (cc_candidate_id x) \<and> s = PStr (cc_snapshot_id x) \<and> r = PInt (cc_revision x) \<and>
     st = PStr (cc_status x) \<and> valid_identifier (cc_candidate_id x) \<and>
     valid_identifier (cc_snapshot_id x) \<and> 0 \<le> cc_revision x \<and>
     cc_status x \<in> set candidate_control_statuses"
  by (cases x) (auto simp: make_candidate_control_def)

lemma make_candidate_diff_eq_Inr [record_valid]:
  "make_candidate_diff d c r a = Inr x \<longleftrightarrow>
     d = PStr (cd_diff_id x) \<and> c = PStr (cd_candidate_id x) \<and> r = PInt (cd_candidate_revision x) \<and>
     a = PStr (cd_artifact_id x) \<and> valid_identifier (cd_diff_id x) \<and>
     valid_identifier (cd_candidate_id x) \<and> 0 \<le> cd_candidate_revision x \<and>
     valid_identifier (cd_artifact_id x)"
  by (cases x) (auto simp: make_candidate_diff_def)

lemma make_reference_profile_eq_Inr [record_valid]:
  "make_reference_profile i r a b c d = Inr x \<longleftrightarrow>
     i = PStr (rp_id x) \<and> r = PInt (rp_revision x) \<and> a = PStr (rp_python_version x) \<and>
     b = PStr (rp_pytest_version x) \<and> c = PStr (rp_ruff_version x) \<and>
     d = PStr (rp_mypy_version x) \<and> valid_identifier (rp_id x) \<and> 0 \<le> rp_revision x \<and>
     valid_identifier (rp_python_version x) \<and> valid_identifier (rp_pytest_version x) \<and>
     valid_identifier (rp_ruff_version x) \<and> valid_identifier (rp_mypy_version x)"
  by (cases x) (auto simp: make_reference_profile_def)

lemma make_provider_endpoint_eq_Inr [record_valid]:
  "make_provider_endpoint e p i r = Inr x \<longleftrightarrow>
     e = PStr (pe_endpoint_id x) \<and> p = PStr (pe_provider x) \<and> i = PStr (pe_profile_id x) \<and>
     r = PInt (pe_profile_revision x) \<and> valid_identifier (pe_endpoint_id x) \<and>
     provider_name_matches (pe_provider x) \<and> valid_identifier (pe_profile_id x) \<and>
     0 \<le> pe_profile_revision x"
  by (cases x) (auto simp: make_provider_endpoint_def)

end
