(* ===== verification/Writeback_Contract.thy ===== *)
theory Writeback_Contract
  imports Prelude
begin

text \<open>
  The frozen writeback interface, \<open>contracts/v2_writeback.py\<close>: the transaction states,
  the write operation, the journal entry with its plan and restore plan, the planned write
  bound to the bytes it may replace, the writeback request, and the outcome and recovery
  records. The validated action type is the datatype \<open>write_action\<close>; the closed status
  vocabularies are datatypes, so the membership tests of the outcome records are typing.
\<close>

section \<open>Vocabularies\<close>

datatype write_action = CREATE | REPLACE

datatype transaction_state = PREPARED | WRITING | COMMITTED | UNRESOLVED | ROLLED_BACK

datatype writeback_status = WB_COMMITTED | WB_DENIED | WB_STALE | WB_MISMATCH | WB_FAILED

datatype item_state = APPLIED | PENDING | DRIFTED | UNREADABLE

datatype recovery_status = RC_APPLIED | RC_ROLLED_BACK | RC_BLOCKED | RC_FAILED

definition active_transaction_states :: "transaction_state list" where
  "active_transaction_states = [PREPARED, WRITING, UNRESOLVED]"

definition terminal_transaction_states :: "transaction_state list" where
  "terminal_transaction_states = [COMMITTED, ROLLED_BACK]"

section \<open>Validators\<close>

definition wb_identifier :: "string \<Rightarrow> string \<Rightarrow> py_error + string" where
  \<comment> \<open>This module's copy bounds no length.\<close>
  "wb_identifier s field_name =
     (if strip s = [] then Inl (ValueError (field_name @ '' must be a non-empty string''))
      else Inr s)"

definition wb_revision :: "int \<Rightarrow> py_error + int" where
  "wb_revision n =
     (if n < 0 then Inl (ValueError ''revision must be a non-negative integer'') else Inr n)"

definition bad_segment :: "string \<Rightarrow> bool" where
  "bad_segment part \<longleftrightarrow> part \<in> {'''', ''.'', ''..''}"

definition write_path :: "string \<Rightarrow> py_error + string" where
  "write_path s =
     (if s = [] then Inl (ValueError ''path must be a non-empty string'')
      else if CHR 0x00 \<in> set s \<or> CHR 0x0D \<in> set s \<or> CHR 0x0A \<in> set s
        then Inl (ValueError ''path must not contain control characters'')
      else if CHR 0x5C \<in> set s then Inl (ValueError ''path must use / separators only'')
      else if CHR '':'' \<in> set s
        then Inl (ValueError ''path must not contain a drive or stream separator'')
      else if startswith s ''/'' then Inl (ValueError ''path must be relative, not absolute'')
      else if list_ex bad_segment (split_on CHR ''/'' s)
        then Inl (ValueError ''path must be canonical: no empty, ., or .. segments'')
      else if list_ex (list_ex (\<lambda>c. ord c < 0x20)) (split_on CHR ''/'' s)
        then Inl (ValueError ''path must not contain control characters'')
      else Inr s)"

definition action_type :: "string \<Rightarrow> py_error + write_action" where
  "action_type s =
     (if s = ''CREATE'' then Inr CREATE
      else if s = ''REPLACE'' then Inr REPLACE
      else Inl (ValueError ''action_type must be one of CREATE or REPLACE''))"

fun action_name :: "write_action \<Rightarrow> string" where
  "action_name CREATE = ''CREATE''"
| "action_name REPLACE = ''REPLACE''"

section \<open>Operations, journal entries and plans\<close>

record write_operation =
  wo_action :: write_action
  wo_path :: string
  wo_content :: string

record journal_entry =
  je_position :: int
  je_path :: string
  je_action :: write_action
  je_content :: string
  je_original :: "string option"

record planned_write =
  pw_operation :: write_operation
  pw_expected :: "string option"

definition make_write_operation :: "string \<Rightarrow> string \<Rightarrow> string \<Rightarrow> py_error + write_operation" where
  "make_write_operation atype path content =
     rbind (action_type atype) (\<lambda>a.
     rbind (write_path path) (\<lambda>p.
       Inr \<lparr>wo_action = a, wo_path = p, wo_content = content\<rparr>))"

definition make_journal_entry ::
  "int \<Rightarrow> string \<Rightarrow> string \<Rightarrow> string \<Rightarrow> string option \<Rightarrow> py_error + journal_entry" where
  "make_journal_entry position path atype content original =
     rbind (check (0 \<le> position) (ValueError ''position must be non-negative'')) (\<lambda>_.
     rbind (action_type atype) (\<lambda>a.
     rbind (write_path path) (\<lambda>p.
     rbind (check (\<not> (a = REPLACE \<and> original = None))
       (ValueError ''REPLACE journal entries require original_content'')) (\<lambda>_.
     rbind (check (\<not> (a = CREATE \<and> original \<noteq> None))
       (ValueError ''CREATE journal entries must not carry original_content'')) (\<lambda>_.
       Inr \<lparr>je_position = position, je_path = p, je_action = a, je_content = content,
            je_original = original\<rparr>)))))"

definition make_planned_write :: "write_operation \<Rightarrow> string option \<Rightarrow> py_error + planned_write" where
  "make_planned_write op expected =
     rbind (check (\<not> (wo_action op = CREATE \<and> expected \<noteq> None))
       (ValueError ''CREATE plans must not expect original content'')) (\<lambda>_.
     rbind (check (\<not> (wo_action op = REPLACE \<and> expected = None))
       (ValueError ''REPLACE plans require expected_original'')) (\<lambda>_.
       Inr \<lparr>pw_operation = op, pw_expected = expected\<rparr>))"

definition operation :: "journal_entry \<Rightarrow> py_error + write_operation" where
  "operation e = make_write_operation (action_name (je_action e)) (je_path e) (je_content e)"

definition planned :: "journal_entry \<Rightarrow> py_error + planned_write" where
  "planned e = rbind (operation e) (\<lambda>op. make_planned_write op (je_original e))"

definition planned_restore :: "journal_entry \<Rightarrow> py_error + planned_write" where
  \<comment> \<open>The \<open>assert\<close> is the case None of a REPLACE entry, which the constructor excludes.\<close>
  "planned_restore e =
     (if je_action e \<noteq> REPLACE then Inl (ValueError ''only REPLACE entries define a restore plan'')
      else (case je_original e of
              None \<Rightarrow> Inl (ValueError ''assertion failed'')
            | Some orig \<Rightarrow>
                rbind (make_write_operation ''REPLACE'' (je_path e) orig) (\<lambda>op.
                  make_planned_write op (Some (je_content e)))))"

section \<open>Requests and outcomes\<close>

record writeback_request =
  wq_run_id :: string
  wq_candidate_id :: string
  wq_candidate_revision :: int
  wq_approval_id :: string
  wq_operations :: "write_operation list"

record writeback_outcome =
  wr_status :: writeback_status
  wr_transaction_id :: "string option"
  wr_message :: string

record recovery_item =
  ri_position :: int
  ri_path :: string
  ri_action :: write_action
  ri_state :: item_state

record recovery_preview =
  pv_transaction_id :: string
  pv_state :: transaction_state
  pv_items :: "recovery_item list"
  pv_blocked :: bool

record recovery_outcome =
  rc_status :: recovery_status
  rc_transaction_id :: string
  rc_message :: string

definition make_writeback_request ::
  "string \<Rightarrow> string \<Rightarrow> int \<Rightarrow> string \<Rightarrow> write_operation list \<Rightarrow> py_error + writeback_request" where
  "make_writeback_request run_id candidate_id candidate_revision approval_id operations =
     rbind (wb_identifier run_id ''run_id'') (\<lambda>r.
     rbind (wb_identifier candidate_id ''candidate_id'') (\<lambda>c.
     rbind (wb_revision candidate_revision) (\<lambda>n.
     rbind (wb_identifier approval_id ''approval_id'') (\<lambda>a.
     rbind (check (operations \<noteq> []) (ValueError ''operations must contain at least one write''))
       (\<lambda>_. Inr \<lparr>wq_run_id = r, wq_candidate_id = c, wq_candidate_revision = n,
                  wq_approval_id = a, wq_operations = operations\<rparr>)))))"

definition blocking :: "recovery_item \<Rightarrow> bool" where
  "blocking item \<longleftrightarrow> ri_state item \<in> {DRIFTED, UNREADABLE}"

definition make_recovery_preview ::
  "string \<Rightarrow> transaction_state \<Rightarrow> recovery_item list \<Rightarrow> bool \<Rightarrow> py_error + recovery_preview" where
  "make_recovery_preview tid st items blocked =
     rbind (check (st \<in> set active_transaction_states)
       (ValueError ''preview requires a non-terminal transaction state'')) (\<lambda>_.
     rbind (check (blocked = list_ex blocking items)
       (ValueError ''blocked must match the presence of DRIFTED or UNREADABLE items'')) (\<lambda>_.
       Inr \<lparr>pv_transaction_id = tid, pv_state = st, pv_items = items, pv_blocked = blocked\<rparr>))"

section \<open>What the constructors guarantee\<close>

definition canonical_path :: "string \<Rightarrow> bool" where
  \<comment> \<open>A relative POSIX path in its only spelling.\<close>
  "canonical_path s \<longleftrightarrow>
     s \<noteq> [] \<and> CHR 0x5C \<notin> set s \<and> CHR '':'' \<notin> set s \<and> (\<forall>c\<in>set s. 0x20 \<le> ord c) \<and>
     (\<forall>p\<in>set (split_on CHR ''/'' s). \<not> bad_segment p)"

definition valid_entry :: "journal_entry \<Rightarrow> bool" where
  "valid_entry e \<longleftrightarrow> 0 \<le> je_position e \<and> canonical_path (je_path e) \<and>
     (je_action e = CREATE \<longleftrightarrow> je_original e = None)"

lemma set_split_on: "(\<Union>p\<in>set (split_on d s). set p) = set s - {d}"
proof (induction s)
  case (Cons c cs)
  then show ?case by (cases "split_on d cs") (auto split: if_splits)
qed simp

lemma canonical_not_absolute: "canonical_path s \<Longrightarrow> \<not> startswith s ''/''"
  by (auto simp: canonical_path_def startswith_iff bad_segment_def)

lemma ord_control [simp]: "ord CHR 0x00 < 32" "ord CHR 0x0D < 32" "ord CHR 0x0A < 32"
  by (simp_all add: ord_def)

lemma ord_slash [simp]: "\<not> ord CHR ''/'' < 32"
  by (simp add: ord_def)

lemma control_in_parts:
  "list_ex (list_ex (\<lambda>c. ord c < 0x20)) (split_on CHR ''/'' s) \<longleftrightarrow> (\<exists>c\<in>set s. ord c < 0x20)"
proof -
  have "list_ex (list_ex (\<lambda>c. ord c < 0x20)) (split_on CHR ''/'' s) \<longleftrightarrow>
      (\<exists>c\<in>\<Union> (set ` set (split_on CHR ''/'' s)). ord c < 0x20)"
    by (auto simp: list_ex_iff)
  also have "\<dots> \<longleftrightarrow> (\<exists>c\<in>set s. ord c < 0x20)"
    unfolding set_split_on using ord_slash by blast
  finally show ?thesis .
qed

lemma write_path_guard:
  "write_path s = Inr p \<longleftrightarrow> p = s \<and> s \<noteq> [] \<and>
     (CHR 0x00 \<notin> set s \<and> CHR 0x0D \<notin> set s \<and> CHR 0x0A \<notin> set s) \<and> CHR 0x5C \<notin> set s \<and>
     CHR '':'' \<notin> set s \<and> \<not> startswith s ''/'' \<and> \<not> list_ex bad_segment (split_on CHR ''/'' s) \<and>
     \<not> list_ex (list_ex (\<lambda>c. ord c < 0x20)) (split_on CHR ''/'' s)"
  unfolding write_path_def guard_eq_Inr by blast

lemma write_path_eq_Inr: "write_path s = Inr p \<longleftrightarrow> p = s \<and> canonical_path s"
proof
  assume "write_path s = Inr p"
  then show "p = s \<and> canonical_path s"
    unfolding write_path_guard canonical_path_def control_in_parts
    by (auto simp: list_ex_iff not_less)
next
  assume p: "p = s \<and> canonical_path s"
  then have "CHR 0x00 \<notin> set s \<and> CHR 0x0D \<notin> set s \<and> CHR 0x0A \<notin> set s"
    unfolding canonical_path_def using ord_control by (meson not_less)
  with p show "write_path s = Inr p"
    using canonical_not_absolute [of s]
    unfolding write_path_guard control_in_parts canonical_path_def by (auto simp: list_ex_iff)
qed

lemma action_type_eq_Inr [simp]: "action_type s = Inr a \<longleftrightarrow> s = action_name a"
  by (cases a) (auto simp: action_type_def)

lemma action_name_inj [simp]: "action_name a = action_name b \<longleftrightarrow> a = b"
  by (cases a; cases b) auto

lemma make_write_operation_eq_Inr [record_valid]:
  "make_write_operation a p c = Inr op \<longleftrightarrow>
     a = action_name (wo_action op) \<and> p = wo_path op \<and> c = wo_content op \<and> canonical_path p"
  by (cases op) (auto simp: make_write_operation_def write_path_eq_Inr)

lemma make_journal_entry_eq_Inr [record_valid]:
  "make_journal_entry n p a c orig = Inr e \<longleftrightarrow>
     n = je_position e \<and> p = je_path e \<and> a = action_name (je_action e) \<and> c = je_content e \<and>
     orig = je_original e \<and> valid_entry e"
proof (cases e)
  case (fields n' p' a' c' orig')
  then show ?thesis
    by (cases a') (auto simp: make_journal_entry_def write_path_eq_Inr valid_entry_def)
qed

lemma make_planned_write_eq_Inr [record_valid]:
  "make_planned_write op x = Inr pl \<longleftrightarrow>
     pl = \<lparr>pw_operation = op, pw_expected = x\<rparr> \<and> (wo_action op = CREATE \<longleftrightarrow> x = None)"
  by (cases "wo_action op") (auto simp: make_planned_write_def)

definition entry_op :: "journal_entry \<Rightarrow> write_operation" where
  "entry_op e = \<lparr>wo_action = je_action e, wo_path = je_path e, wo_content = je_content e\<rparr>"

definition entry_plan :: "journal_entry \<Rightarrow> planned_write" where
  "entry_plan e = \<lparr>pw_operation = entry_op e, pw_expected = je_original e\<rparr>"

text \<open>A journal entry that was constructed always yields its plan.\<close>

lemma operation_valid: "valid_entry e \<Longrightarrow> operation e = Inr (entry_op e)"
  by (simp add: operation_def make_write_operation_eq_Inr entry_op_def valid_entry_def)

lemma planned_valid: "valid_entry e \<Longrightarrow> planned e = Inr (entry_plan e)"
  by (simp add: planned_def operation_valid make_planned_write_eq_Inr entry_plan_def entry_op_def
      valid_entry_def)

lemma planned_restore_valid:
  assumes "valid_entry e" and "je_action e = REPLACE" and "je_original e = Some orig"
  shows "planned_restore e =
    Inr \<lparr>pw_operation = \<lparr>wo_action = REPLACE, wo_path = je_path e, wo_content = orig\<rparr>,
         pw_expected = Some (je_content e)\<rparr>"
proof -
  have "make_write_operation ''REPLACE'' (je_path e) orig =
      Inr \<lparr>wo_action = REPLACE, wo_path = je_path e, wo_content = orig\<rparr>"
    using assms(1) by (simp add: make_write_operation_eq_Inr valid_entry_def)
  with assms(2,3) show ?thesis by (simp add: planned_restore_def make_planned_write_eq_Inr)
qed

end
