(* ===== verification/Validation_Contract.thy ===== *)
theory Validation_Contract
  imports Control_Records
begin

text \<open>
  The validation run and result records and the evidence check,
  \<open>contracts/v2_validation.py\<close>. The five control keys of a record are its
  \<open>validation_binding\<close>; \<open>verify_evidence_binding\<close> accepts a result as evidence only
  when result, run and expected binding agree.
\<close>

section \<open>Records\<close>

definition validation_run_statuses :: "string list" where
  "validation_run_statuses = [''PENDING'', ''PASSED'', ''FAILED'']"

definition validation_result_statuses :: "string list" where
  "validation_result_statuses = [''PASSED'', ''FAILED'']"

definition max_validation_error_chars :: nat where
  "max_validation_error_chars = 512"

definition validation_error :: "string \<Rightarrow> pyval \<Rightarrow> py_error + string option" where
  "validation_error status v =
     (if status = ''FAILED'' then
        (case v of
           PStr s \<Rightarrow>
             if s = [] then Inl (ValueError ''FAILED records require a non-empty error message'')
             else if length s > max_validation_error_chars
               then Inl (ValueError ''error message exceeds the bounded length of 512 characters'')
             else Inr (Some s)
         | _ \<Rightarrow> Inl (ValueError ''FAILED records require a non-empty error message''))
      else if v \<noteq> PNone then Inl (ValueError ''only FAILED records carry an error message'')
      else Inr None)"

record validation_binding =
  vb_run_id :: string
  vb_candidate_id :: string
  vb_candidate_revision :: int
  vb_profile_id :: string
  vb_profile_revision :: int

record validation_run =
  vr_validation_run_id :: string
  vr_run_id :: string
  vr_candidate_id :: string
  vr_candidate_revision :: int
  vr_profile_id :: string
  vr_profile_revision :: int
  vr_status :: string
  vr_error :: "string option"

record validation_result =
  vs_validation_run_id :: string
  vs_run_id :: string
  vs_candidate_id :: string
  vs_candidate_revision :: int
  vs_profile_id :: string
  vs_profile_revision :: int
  vs_status :: string
  vs_error :: "string option"

definition make_validation_binding ::
  "pyval \<Rightarrow> pyval \<Rightarrow> pyval \<Rightarrow> pyval \<Rightarrow> pyval \<Rightarrow> py_error + validation_binding" where
  "make_validation_binding rid cid crv pid prv =
     rbind (p_identifier rid ''run_id'') (\<lambda>r.
     rbind (p_identifier cid ''candidate_id'') (\<lambda>c.
     rbind (p_revision crv ''candidate_revision'') (\<lambda>cr.
     rbind (p_identifier pid ''reference_profile_id'') (\<lambda>p.
     rbind (p_revision prv ''reference_profile_revision'') (\<lambda>pr.
       Inr \<lparr>vb_run_id = r, vb_candidate_id = c, vb_candidate_revision = cr, vb_profile_id = p,
            vb_profile_revision = pr\<rparr>)))))"

definition make_validation_run ::
  "pyval \<Rightarrow> pyval \<Rightarrow> pyval \<Rightarrow> pyval \<Rightarrow> pyval \<Rightarrow> pyval \<Rightarrow> pyval \<Rightarrow> pyval \<Rightarrow> py_error + validation_run" where
  "make_validation_run vid rid cid crv pid prv status err =
     rbind (p_identifier vid ''validation_run_id'') (\<lambda>v.
     rbind (p_identifier rid ''run_id'') (\<lambda>r.
     rbind (p_identifier cid ''candidate_id'') (\<lambda>c.
     rbind (p_revision crv ''candidate_revision'') (\<lambda>cr.
     rbind (p_identifier pid ''reference_profile_id'') (\<lambda>p.
     rbind (p_revision prv ''reference_profile_revision'') (\<lambda>pr.
     rbind (p_status status validation_run_statuses ''status'') (\<lambda>s.
     rbind (validation_error s err) (\<lambda>e.
       Inr \<lparr>vr_validation_run_id = v, vr_run_id = r, vr_candidate_id = c, vr_candidate_revision = cr,
            vr_profile_id = p, vr_profile_revision = pr, vr_status = s, vr_error = e\<rparr>))))))))"

definition make_validation_result ::
  "pyval \<Rightarrow> pyval \<Rightarrow> pyval \<Rightarrow> pyval \<Rightarrow> pyval \<Rightarrow> pyval \<Rightarrow> pyval \<Rightarrow> pyval \<Rightarrow> py_error + validation_result" where
  "make_validation_result vid rid cid crv pid prv status err =
     rbind (p_identifier vid ''validation_run_id'') (\<lambda>v.
     rbind (p_identifier rid ''run_id'') (\<lambda>r.
     rbind (p_identifier cid ''candidate_id'') (\<lambda>c.
     rbind (p_revision crv ''candidate_revision'') (\<lambda>cr.
     rbind (p_identifier pid ''reference_profile_id'') (\<lambda>p.
     rbind (p_revision prv ''reference_profile_revision'') (\<lambda>pr.
     rbind (p_status status validation_result_statuses ''status'') (\<lambda>s.
     rbind (validation_error s err) (\<lambda>e.
       Inr \<lparr>vs_validation_run_id = v, vs_run_id = r, vs_candidate_id = c, vs_candidate_revision = cr,
            vs_profile_id = p, vs_profile_revision = pr, vs_status = s, vs_error = e\<rparr>))))))))"

definition run_binding :: "validation_run \<Rightarrow> py_error + validation_binding" where
  "run_binding r =
     make_validation_binding (PStr (vr_run_id r)) (PStr (vr_candidate_id r))
       (PInt (vr_candidate_revision r)) (PStr (vr_profile_id r)) (PInt (vr_profile_revision r))"

definition result_binding :: "validation_result \<Rightarrow> py_error + validation_binding" where
  "result_binding r =
     make_validation_binding (PStr (vs_run_id r)) (PStr (vs_candidate_id r))
       (PInt (vs_candidate_revision r)) (PStr (vs_profile_id r)) (PInt (vs_profile_revision r))"

section \<open>Evidence\<close>

definition verify_evidence_binding ::
  "validation_result \<Rightarrow> validation_run \<Rightarrow> validation_binding \<Rightarrow> py_error + unit" where
  "verify_evidence_binding result run expected =
     (if vs_validation_run_id result \<noteq> vr_validation_run_id run
        then Inl (ValueError ''validation evidence does not belong to the named validation run'')
      else rbind (result_binding result) (\<lambda>rb.
           rbind (run_binding run) (\<lambda>nb.
             if rb \<noteq> nb
               then Inl (ValueError ''validation evidence binding disagrees with its validation run'')
             else if nb \<noteq> expected
               then Inl (ValueError ''validation evidence binding does not match the current run, candidate, or reference profile'')
             else Inr ())))"

definition validation_run_from_mapping :: "pydict \<Rightarrow> py_error + validation_run" where
  "validation_run_from_mapping data =
     rbind (strict_mapping data [''validation_run_id'', ''run_id'', ''candidate_id'',
         ''candidate_revision'', ''reference_profile_id'', ''reference_profile_revision'',
         ''status'', ''error'']) (\<lambda>vs.
       make_validation_run (item vs ''validation_run_id'') (item vs ''run_id'')
         (item vs ''candidate_id'') (item vs ''candidate_revision'') (item vs ''reference_profile_id'')
         (item vs ''reference_profile_revision'') (item vs ''status'') (item vs ''error''))"

definition validation_result_from_mapping :: "pydict \<Rightarrow> py_error + validation_result" where
  "validation_result_from_mapping data =
     rbind (strict_mapping data [''validation_run_id'', ''run_id'', ''candidate_id'',
         ''candidate_revision'', ''reference_profile_id'', ''reference_profile_revision'',
         ''status'', ''error'']) (\<lambda>vs.
       make_validation_result (item vs ''validation_run_id'') (item vs ''run_id'')
         (item vs ''candidate_id'') (item vs ''candidate_revision'') (item vs ''reference_profile_id'')
         (item vs ''reference_profile_revision'') (item vs ''status'') (item vs ''error''))"

section \<open>Lemmas\<close>

definition valid_error :: "string \<Rightarrow> string option \<Rightarrow> bool" where
  "valid_error status err =
     (if status = ''FAILED'' then
        (case err of None \<Rightarrow> False
         | Some s \<Rightarrow> s \<noteq> [] \<and> length s \<le> max_validation_error_chars)
      else err = None)"

lemma validation_error_eq_Inr [simp]:
  "validation_error st v = Inr e \<longleftrightarrow> v = opt_str e \<and> valid_error st e"
  by (auto simp: validation_error_def valid_error_def opt_str_def split: pyval.splits if_splits option.splits)

lemma make_validation_binding_eq_Inr [record_valid]:
  "make_validation_binding r c cr p pr = Inr b \<longleftrightarrow>
     r = PStr (vb_run_id b) \<and> c = PStr (vb_candidate_id b) \<and> cr = PInt (vb_candidate_revision b) \<and>
     p = PStr (vb_profile_id b) \<and> pr = PInt (vb_profile_revision b) \<and>
     valid_identifier (vb_run_id b) \<and> valid_identifier (vb_candidate_id b) \<and>
     0 \<le> vb_candidate_revision b \<and> valid_identifier (vb_profile_id b) \<and> 0 \<le> vb_profile_revision b"
  by (cases b) (auto simp: make_validation_binding_def)

lemma make_validation_run_eq_Inr [record_valid]:
  "make_validation_run v r c cr p pr st e = Inr x \<longleftrightarrow>
     v = PStr (vr_validation_run_id x) \<and> r = PStr (vr_run_id x) \<and> c = PStr (vr_candidate_id x) \<and>
     cr = PInt (vr_candidate_revision x) \<and> p = PStr (vr_profile_id x) \<and>
     pr = PInt (vr_profile_revision x) \<and> st = PStr (vr_status x) \<and> e = opt_str (vr_error x) \<and>
     valid_identifier (vr_validation_run_id x) \<and> valid_identifier (vr_run_id x) \<and>
     valid_identifier (vr_candidate_id x) \<and> 0 \<le> vr_candidate_revision x \<and>
     valid_identifier (vr_profile_id x) \<and> 0 \<le> vr_profile_revision x \<and>
     vr_status x \<in> set validation_run_statuses \<and> valid_error (vr_status x) (vr_error x)"
  by (cases x) (auto simp: make_validation_run_def)

end
