(* ===== verification/Disclosure.thy ===== *)
theory Disclosure
  imports Control_Records Writeback_Contract "HOL-Library.Sublist" "HOL-Library.Multiset"
begin

text \<open>
  The disclosure records and their pure policy, \<open>governance/v2_disclosure.py\<close>: path scopes,
  request sources, grants, per-request authorizations, the canonical order of scopes and
  categories, scope matching, the replay key and the expiry test. The closed status, scope
  kind and outcome vocabularies are datatypes; source categories are strings, because the
  source orders them as strings. The two parsers of untyped grant and authorization mappings
  are not modelled.
\<close>

section \<open>Vocabularies and bounds\<close>

datatype grant_status = G_PENDING | G_ACTIVE | G_REVOKED | G_EXPIRED | G_EXHAUSTED

datatype authorization_status = A_AUTHORIZED | A_CONSUMED

datatype scope_kind = ROOT | FILE | DIRECTORY

datatype authorization_outcome_kind =
    AO_AUTHORIZED | AO_REPLAY | AO_REPLAY_CONFLICT | AO_GRANT_NOT_FOUND | AO_GRANT_PENDING
  | AO_GRANT_REVOKED | AO_GRANT_EXPIRED | AO_GRANT_EXHAUSTED | AO_RUN_MISMATCH
  | AO_ENDPOINT_NOT_FOUND | AO_PROFILE_MISMATCH | AO_SCOPE_EXCEEDED | AO_BUDGET_EXCEEDED

datatype consume_outcome_kind = CO_CONSUMED | CO_NOT_AUTHORIZED | CO_GRANT_NOT_ACTIVE

definition source_categories :: "string list" where
  "source_categories =
     [''HARNESS_PROTOCOL'', ''TASK'', ''FILE_CONTENT'', ''TOOL_RESULT'', ''MEMORY'', ''FEEDBACK'']"

definition path_bearing_categories :: "string list" where
  "path_bearing_categories = [''FILE_CONTENT'']"

definition max_charge_bytes :: int where
  "max_charge_bytes = 65536"

definition max_budget_bytes :: int where
  "max_budget_bytes = 1048576"

definition max_scopes :: nat where
  "max_scopes = 500"

definition max_sources :: nat where
  "max_sources = 1024"

section \<open>Paths, scopes and sources\<close>

definition disc_canonical_path :: "string \<Rightarrow> string \<Rightarrow> py_error + string" where
  "disc_canonical_path s field_name =
     (if s = [] then Inl (ValueError (field_name @ '' must be a non-empty string''))
      else if utf8_len s > 512 then Inl (ValueError (field_name @ '' is too long''))
      else if list_ex (\<lambda>c. ord c < 0x20) s
        then Inl (ValueError (field_name @ '' must not contain control characters''))
      else if CHR 0x5C \<in> set s then Inl (ValueError (field_name @ '' must use / separators only''))
      else if CHR '':'' \<in> set s
        then Inl (ValueError (field_name @ '' must not contain a drive or stream separator''))
      else if startswith s ''/'' then Inl (ValueError (field_name @ '' must be relative, not absolute''))
      else if list_ex bad_segment (split_on CHR ''/'' s)
        then Inl (ValueError (field_name @ '' must be canonical: no empty, ., or .. segments''))
      else Inr s)"

record path_scope =
  ps_kind :: scope_kind
  ps_path :: string

record disclosure_source =
  ds_category :: string
  ds_path :: "string option"

definition make_path_scope :: "scope_kind \<Rightarrow> string \<Rightarrow> py_error + path_scope" where
  "make_path_scope kind path =
     (if kind = ROOT then
        (if path \<noteq> [] then Inl (ValueError ''a ROOT scope carries no path'')
         else Inr \<lparr>ps_kind = kind, ps_path = path\<rparr>)
      else rbind (disc_canonical_path path ''scope path'') (\<lambda>p.
             Inr \<lparr>ps_kind = kind, ps_path = p\<rparr>))"

definition make_disclosure_source :: "string \<Rightarrow> string option \<Rightarrow> py_error + disclosure_source" where
  "make_disclosure_source category path =
     (if category \<notin> set source_categories
        then Inl (ValueError ''source category must be one of the known categories'')
      else if category \<in> set path_bearing_categories then
        (case path of
           None \<Rightarrow> Inl (ValueError (category @ '' sources require a path''))
         | Some p \<Rightarrow> rbind (disc_canonical_path p ''source path'') (\<lambda>q.
             Inr \<lparr>ds_category = category, ds_path = Some q\<rparr>))
      else (case path of
              None \<Rightarrow> Inr \<lparr>ds_category = category, ds_path = None\<rparr>
            | Some _ \<Rightarrow> Inl (ValueError (category @ '' sources carry no path''))))"

fun kind_order :: "scope_kind \<Rightarrow> nat" where
  "kind_order ROOT = 0"
| "kind_order FILE = 1"
| "kind_order DIRECTORY = 2"

definition scope_key :: "path_scope \<Rightarrow> nat \<times> string" where
  "scope_key s = (kind_order (ps_kind s), ps_path s)"

definition canonicalize_scopes :: "path_scope list \<Rightarrow> py_error + path_scope list" where
  "canonicalize_scopes scopes =
     (if scopes = [] then Inl (ValueError ''at least one disclosure scope is required'')
      else if length scopes > max_scopes then Inl (ValueError ''too many disclosure scopes'')
      else if list_ex (\<lambda>s. ps_kind s = ROOT) scopes \<and> length scopes \<noteq> 1
        then Inl (ValueError ''a ROOT scope must be the only scope'')
      else if length (remdups scopes) \<noteq> length scopes
        then Inl (ValueError ''duplicate disclosure scopes are not allowed'')
      else Inr (sort_key scope_key scopes))"

definition canonicalize_categories :: "string list \<Rightarrow> py_error + string list" where
  "canonicalize_categories categories =
     (if \<not> list_all (\<lambda>c. c \<in> set source_categories) categories
        then Inl (ValueError ''allowed categories must come from the known categories'')
      else if categories = [] then Inl (ValueError ''at least one allowed source category is required'')
      else if length (remdups categories) \<noteq> length categories
        then Inl (ValueError ''duplicate source categories are not allowed'')
      else Inr (sort categories))"

definition canonicalize_sources :: "disclosure_source list \<Rightarrow> py_error + disclosure_source list" where
  "canonicalize_sources sources =
     (if sources = [] then Inl (ValueError ''at least one request source is required'')
      else if length sources > max_sources then Inl (ValueError ''too many request sources'')
      else Inr sources)"

section \<open>Scope matching\<close>

definition scope_admits :: "string \<Rightarrow> path_scope \<Rightarrow> bool" where
  "scope_admits canonical scope =
     (case ps_kind scope of
        ROOT \<Rightarrow> True
      | FILE \<Rightarrow> canonical = ps_path scope
      | DIRECTORY \<Rightarrow> canonical = ps_path scope \<or> startswith canonical (ps_path scope @ ''/''))"

definition disclosure_scope_matches :: "string \<Rightarrow> path_scope list \<Rightarrow> py_error + bool" where
  "disclosure_scope_matches path allowed_scopes =
     rbind (disc_canonical_path path ''path'') (\<lambda>canonical.
       Inr (list_ex (scope_admits canonical) allowed_scopes))"

datatype scope_error = SOURCE_CATEGORY | SOURCE_PATH | SourceInvalid py_error

fun check_request_sources ::
  "string list \<Rightarrow> path_scope list \<Rightarrow> disclosure_source list \<Rightarrow> scope_error + unit" where
  "check_request_sources categories scopes [] = Inr ()"
| "check_request_sources categories scopes (src # sources) =
     (if ds_category src \<notin> set categories then Inl SOURCE_CATEGORY
      else case ds_path src of
        None \<Rightarrow> check_request_sources categories scopes sources
      | Some p \<Rightarrow>
          (case disclosure_scope_matches p scopes of
             Inl e \<Rightarrow> Inl (SourceInvalid e)
           | Inr matches \<Rightarrow>
               if matches then check_request_sources categories scopes sources else Inl SOURCE_PATH))"

type_synonym payload_key = "string \<times> string \<times> int \<times> disclosure_source list"

definition authorization_payload_key ::
  "string \<Rightarrow> string \<Rightarrow> int \<Rightarrow> disclosure_source list \<Rightarrow> payload_key" where
  "authorization_payload_key run_id endpoint_id charge_bytes sources =
     (run_id, endpoint_id, charge_bytes, sources)"

section \<open>Grants and authorizations\<close>

record disclosure_grant =
  gr_grant_id :: string
  gr_disclosure_id :: string
  gr_run_id :: string
  gr_profile_id :: string
  gr_profile_revision :: int
  gr_expires_at :: string
  gr_byte_budget :: int
  gr_consumed_bytes :: int
  gr_categories :: "string list"
  gr_scopes :: "path_scope list"
  gr_status :: grant_status

record disclosure_authorization =
  au_authorization_id :: string
  au_grant_id :: string
  au_run_id :: string
  au_request_id :: string
  au_endpoint_id :: string
  au_charge_bytes :: int
  au_status :: authorization_status
  au_sources :: "disclosure_source list"

definition make_disclosure_grant ::
  "iso_parser \<Rightarrow> string \<Rightarrow> string \<Rightarrow> string \<Rightarrow> string \<Rightarrow> int \<Rightarrow> string \<Rightarrow> int \<Rightarrow> int \<Rightarrow> string list \<Rightarrow>
   path_scope list \<Rightarrow> grant_status \<Rightarrow> py_error + disclosure_grant" where
  "make_disclosure_grant fromiso gid did rid pid prv expires budget consumed cats scopes status =
     rbind (p_identifier (PStr gid) ''grant_id'') (\<lambda>g.
     rbind (p_identifier (PStr did) ''disclosure_id'') (\<lambda>d.
     rbind (p_identifier (PStr rid) ''run_id'') (\<lambda>r.
     rbind (p_identifier (PStr pid) ''reference_profile_id'') (\<lambda>p.
     rbind (p_revision (PInt prv) ''reference_profile_revision'') (\<lambda>v.
     rbind (p_timestamp fromiso (PStr expires) ''expires_at'') (\<lambda>e.
     rbind (check (1 \<le> budget \<and> budget \<le> max_budget_bytes)
       (ValueError ''byte_budget is outside the bounded range'')) (\<lambda>_.
     rbind (check (0 \<le> consumed) (ValueError ''consumed_bytes must be a non-negative integer'')) (\<lambda>_.
     rbind (check (consumed \<le> budget)
       (ValueError ''consumed_bytes exceeds the grant byte budget'')) (\<lambda>_.
     rbind (canonicalize_categories cats) (\<lambda>cs.
     rbind (canonicalize_scopes scopes) (\<lambda>ss.
       Inr \<lparr>gr_grant_id = g, gr_disclosure_id = d, gr_run_id = r, gr_profile_id = p,
            gr_profile_revision = v, gr_expires_at = e, gr_byte_budget = budget,
            gr_consumed_bytes = consumed, gr_categories = cs, gr_scopes = ss,
            gr_status = status\<rparr>)))))))))))"

definition make_disclosure_authorization ::
  "string \<Rightarrow> string \<Rightarrow> string \<Rightarrow> string \<Rightarrow> string \<Rightarrow> int \<Rightarrow> authorization_status \<Rightarrow>
   disclosure_source list \<Rightarrow> py_error + disclosure_authorization" where
  "make_disclosure_authorization aid gid rid qid eid charge status sources =
     rbind (p_identifier (PStr aid) ''authorization_id'') (\<lambda>a.
     rbind (p_identifier (PStr gid) ''grant_id'') (\<lambda>g.
     rbind (p_identifier (PStr rid) ''run_id'') (\<lambda>r.
     rbind (p_identifier (PStr qid) ''request_id'') (\<lambda>q.
     rbind (p_identifier (PStr eid) ''endpoint_id'') (\<lambda>e.
     rbind (check (1 \<le> charge \<and> charge \<le> max_charge_bytes)
       (ValueError ''charge_bytes is outside the bounded range'')) (\<lambda>_.
     rbind (canonicalize_sources sources) (\<lambda>ss.
       Inr \<lparr>au_authorization_id = a, au_grant_id = g, au_run_id = r, au_request_id = q,
            au_endpoint_id = e, au_charge_bytes = charge, au_status = status,
            au_sources = ss\<rparr>)))))))"

record authorization_outcome =
  ao_kind :: authorization_outcome_kind
  ao_authorization :: "disclosure_authorization option"
  ao_consumed_bytes :: int
  ao_message :: string

fun disclosure_outcome_message :: "authorization_outcome_kind \<Rightarrow> string" where
  "disclosure_outcome_message AO_AUTHORIZED = ''the request was authorized and charged''"
| "disclosure_outcome_message AO_REPLAY = ''the request was already authorized; the original authorization is returned with no new charge''"
| "disclosure_outcome_message AO_REPLAY_CONFLICT = ''the request id was already authorized with a different payload''"
| "disclosure_outcome_message AO_GRANT_NOT_FOUND = ''no disclosure grant exists for the given id''"
| "disclosure_outcome_message AO_GRANT_PENDING = ''the grant awaits explicit user approval''"
| "disclosure_outcome_message AO_GRANT_REVOKED = ''the grant was revoked''"
| "disclosure_outcome_message AO_GRANT_EXPIRED = ''the grant expired''"
| "disclosure_outcome_message AO_GRANT_EXHAUSTED = ''the grant's byte budget is exhausted''"
| "disclosure_outcome_message AO_RUN_MISMATCH = ''the request run does not match the grant run''"
| "disclosure_outcome_message AO_ENDPOINT_NOT_FOUND = ''the provider endpoint is unknown''"
| "disclosure_outcome_message AO_PROFILE_MISMATCH = ''the endpoint profile binding does not match the grant's reference profile revision''"
| "disclosure_outcome_message AO_SCOPE_EXCEEDED = ''a requested source is outside the grant's categories and path scopes''"
| "disclosure_outcome_message AO_BUDGET_EXCEEDED = ''the charge would exceed the grant's remaining byte budget''"

definition make_authorization_outcome ::
  "authorization_outcome_kind \<Rightarrow> disclosure_authorization option \<Rightarrow> int \<Rightarrow> string \<Rightarrow>
   py_error + authorization_outcome" where
  "make_authorization_outcome kind auth consumed message =
     rbind (check (kind \<in> {AO_AUTHORIZED, AO_REPLAY} \<longleftrightarrow> auth \<noteq> None)
       (ValueError ''exactly AUTHORIZED and REPLAY outcomes carry the authorization record'')) (\<lambda>_.
     rbind (check (0 \<le> consumed) (ValueError ''consumed_bytes must be a non-negative integer'')) (\<lambda>_.
     rbind (check (message = disclosure_outcome_message kind)
       (ValueError ''outcome message must be the closed static message of its kind'')) (\<lambda>_.
       Inr \<lparr>ao_kind = kind, ao_authorization = auth, ao_consumed_bytes = consumed,
            ao_message = message\<rparr>)))"

fun disclosure_consume_outcome_message :: "consume_outcome_kind \<Rightarrow> string" where
  "disclosure_consume_outcome_message CO_CONSUMED = ''the authorization was consumed one-shot''"
| "disclosure_consume_outcome_message CO_NOT_AUTHORIZED = ''the authorization is missing, misbound, or not in the AUTHORIZED state''"
| "disclosure_consume_outcome_message CO_GRANT_NOT_ACTIVE = ''the grant is not active or is expired''"

text \<open>Naive timestamps are read as UTC, so every datetime names an instant.\<close>

definition instant :: "datetime \<Rightarrow> int" where
  "instant d = dt_wall d - (case dt_offset d of None \<Rightarrow> 0 | Some off \<Rightarrow> off)"

definition grant_is_expired :: "iso_parser \<Rightarrow> disclosure_grant \<Rightarrow> datetime \<Rightarrow> py_error + bool" where
  "grant_is_expired fromiso g now =
     (case fromiso (replace_Z (gr_expires_at g)) of
        None \<Rightarrow> Inl (ValueError ''Invalid isoformat string'')
      | Some expires \<Rightarrow> Inr (instant expires \<le> instant now))"

section \<open>Lemmas\<close>

lemma disc_canonical_path_eq_Inr:
  "disc_canonical_path s f = Inr p \<longleftrightarrow> p = s \<and> canonical_path s \<and> utf8_len s \<le> 512"
proof -
  have "disc_canonical_path s f = Inr p \<longleftrightarrow> s \<noteq> [] \<and> \<not> 512 < utf8_len s \<and>
      \<not> list_ex (\<lambda>c. ord c < 0x20) s \<and> CHR 0x5C \<notin> set s \<and> CHR '':'' \<notin> set s \<and>
      \<not> startswith s ''/'' \<and> \<not> list_ex bad_segment (split_on CHR ''/'' s) \<and> p = s"
    unfolding disc_canonical_path_def guard_eq_Inr by blast
  with canonical_not_absolute [of s] show ?thesis
    by (auto simp: canonical_path_def list_ex_iff not_less)
qed

lemma join_on_append:
  "ps \<noteq> [] \<Longrightarrow> qs \<noteq> [] \<Longrightarrow> join_on d (ps @ qs) = join_on d ps @ d # join_on d qs"
proof (induction d ps rule: join_on.induct)
  case (2 d p)
  then show ?case by (cases qs) auto
qed auto

text \<open>A DIRECTORY scope admits a path exactly when its components are a prefix of the path's.\<close>

lemma directory_prefix:
  "p = q \<or> startswith p (q @ ''/'') \<longleftrightarrow> prefix (split_on CHR ''/'' q) (split_on CHR ''/'' p)"
proof
  assume "p = q \<or> startswith p (q @ ''/'')"
  then show "prefix (split_on CHR ''/'' q) (split_on CHR ''/'' p)"
    by (auto simp: startswith_Cons_sep)
next
  assume "prefix (split_on CHR ''/'' q) (split_on CHR ''/'' p)"
  then obtain rest where eq: "split_on CHR ''/'' p = split_on CHR ''/'' q @ rest"
    by (auto elim: prefixE)
  show "p = q \<or> startswith p (q @ ''/'')"
  proof (cases rest)
    case Nil
    with eq show ?thesis by (simp add: split_on_inj)
  next
    case (Cons r rs)
    have "p = join_on CHR ''/'' (split_on CHR ''/'' q @ rest)" unfolding eq [symmetric] by simp
    also have "\<dots> = q @ CHR ''/'' # join_on CHR ''/'' rest"
      using Cons by (simp add: join_on_append)
    finally have "p = (q @ ''/'') @ join_on CHR ''/'' rest" by simp
    then show ?thesis unfolding startswith_iff by blast
  qed
qed

lemma check_request_sources_ok:
  "check_request_sources cats scopes srcs = Inr u \<longleftrightarrow>
     (\<forall>s\<in>set srcs. ds_category s \<in> set cats \<and>
        (\<forall>p. ds_path s = Some p \<longrightarrow> disclosure_scope_matches p scopes = Inr True))"
proof (induction srcs)
  case (Cons s srcs)
  show ?case
  proof (cases "ds_path s")
    case None
    with Cons show ?thesis by auto
  next
    case (Some p)
    with Cons show ?thesis by (cases "disclosure_scope_matches p scopes") auto
  qed
qed simp

lemma remdups_length_eq: "length (remdups xs) = length xs \<longleftrightarrow> distinct xs"
  by (simp add: length_remdups_card_conv card_distinct distinct_card eq_iff card_length)

lemma canonicalize_scopes_eq_Inr:
  "canonicalize_scopes ss = Inr ts \<longleftrightarrow>
     ss \<noteq> [] \<and> length ss \<le> max_scopes \<and> (list_ex (\<lambda>s. ps_kind s = ROOT) ss \<longrightarrow> length ss = 1) \<and>
     distinct ss \<and> ts = sort_key scope_key ss"
  unfolding canonicalize_scopes_def guard_eq_Inr by (auto simp: remdups_length_eq)

lemma canonicalize_categories_eq_Inr:
  "canonicalize_categories cs = Inr ds \<longleftrightarrow>
     set cs \<subseteq> set source_categories \<and> cs \<noteq> [] \<and> distinct cs \<and> ds = sort cs"
  unfolding canonicalize_categories_def guard_eq_Inr by (auto simp: remdups_length_eq list_all_iff)

lemma canonicalize_sources_eq_Inr:
  "canonicalize_sources ss = Inr ts \<longleftrightarrow> ss \<noteq> [] \<and> length ss \<le> max_sources \<and> ts = ss"
  unfolding canonicalize_sources_def guard_eq_Inr by auto

lemma make_disclosure_grant_eq_Inr [record_valid]:
  "make_disclosure_grant fromiso gid did rid pid prv ex bu co cats scopes st = Inr g \<longleftrightarrow>
     valid_identifier gid \<and> valid_identifier did \<and> valid_identifier rid \<and> valid_identifier pid \<and>
     0 \<le> prv \<and> ex \<noteq> [] \<and> fromiso (replace_Z ex) \<noteq> None \<and>
     1 \<le> bu \<and> bu \<le> max_budget_bytes \<and> 0 \<le> co \<and> co \<le> bu \<and>
     canonicalize_categories cats = Inr (gr_categories g) \<and>
     canonicalize_scopes scopes = Inr (gr_scopes g) \<and>
     gr_grant_id g = gid \<and> gr_disclosure_id g = did \<and> gr_run_id g = rid \<and> gr_profile_id g = pid \<and>
     gr_profile_revision g = prv \<and> gr_expires_at g = ex \<and> gr_byte_budget g = bu \<and>
     gr_consumed_bytes g = co \<and> gr_status g = st"
  by (cases g) (auto simp: make_disclosure_grant_def)

lemma make_disclosure_authorization_eq_Inr [record_valid]:
  "make_disclosure_authorization aid gid rid qid eid ch st srcs = Inr a \<longleftrightarrow>
     valid_identifier aid \<and> valid_identifier gid \<and> valid_identifier rid \<and> valid_identifier qid \<and>
     valid_identifier eid \<and> 1 \<le> ch \<and> ch \<le> max_charge_bytes \<and>
     srcs \<noteq> [] \<and> length srcs \<le> max_sources \<and>
     a = \<lparr>au_authorization_id = aid, au_grant_id = gid, au_run_id = rid, au_request_id = qid,
          au_endpoint_id = eid, au_charge_bytes = ch, au_status = st, au_sources = srcs\<rparr>"
  by (auto simp: make_disclosure_authorization_def canonicalize_sources_eq_Inr)

end
