(* ===== verification/Database.thy ===== *)
theory Database
  imports Tables Control_Records Writeback_Contract Validation_Contract Disclosure
begin

text \<open>
  The v2 SQLite control database, \<open>storage/v2_database.py\<close>: its schema and the operations of
  Route A (runs, snapshots, candidates, actions, disclosures, artifacts, writeback approvals
  and writeback transactions with their journal). The candidate, profile and validation
  operations are in \<open>Database_Control\<close>, the disclosure ledger in \<open>Database_Ledger\<close>.

  The database is a record of tables. The \<open>insert_\<close> functions are the INSERT statements
  with the constraints the DDL declares (primary and unique keys, foreign keys with
  \<open>PRAGMA foreign_keys = ON\<close>, CHECK clauses); a violated constraint is
  \<open>sqlite3.IntegrityError\<close>. \<open>transaction\<close> is the context manager: an exception rolls
  back, a normal exit commits.

  An identifier drawn by \<open>uuid4\<close> is an argument \<open>fresh\<close>, the clock reading of
  \<open>CURRENT_TIMESTAMP\<close> an argument \<open>now\<close>. The columns \<open>created_at\<close> that no query
  orders by, \<open>updated_at\<close> and \<open>consumed_at\<close> are written and never read; they are left
  out. Columns with a closed vocabulary are datatypes. Opening and creating the database file
  is not modelled; SQLite integers are unbounded here (every stored quantity but the revision
  counters is bounded by the record validators).
\<close>

section \<open>Schema\<close>

datatype run_status = RUN_CREATED | RUN_RUNNING | RUN_SUCCEEDED | RUN_STOPPED

datatype approval_status = AP_PENDING | AP_CONSUMED

record run_row =
  rn_run_id :: string
  rn_workspace_path :: string
  rn_status :: run_status
  rn_phase :: "string option"
  rn_revision :: int
  rn_created_at :: string

record snapshot_row =
  sn_snapshot_id :: string
  sn_run_id :: string
  sn_revision :: int

record candidate_row =
  cn_candidate_id :: string
  cn_run_id :: string
  cn_snapshot_id :: string
  cn_revision :: int
  cn_status :: string

record action_row =
  ac_action_id :: string
  ac_run_id :: string
  ac_action_type :: string
  ac_status :: string

record disclosure_row =
  di_disclosure_id :: string
  di_run_id :: string
  di_status :: string

record artifact_row =
  af_artifact_id :: string
  af_run_id :: string
  af_kind :: string
  af_location :: string

record approval_row =
  ap_approval_id :: string
  ap_run_id :: string
  ap_candidate_id :: string
  ap_candidate_revision :: int
  ap_status :: approval_status

record transaction_row =
  tx_transaction_id :: string
  tx_run_id :: string
  tx_candidate_id :: string
  tx_state :: transaction_state
  tx_created_at :: string

record journal_row =
  jr_transaction_id :: string
  jr_position :: int
  jr_path :: string
  jr_action_type :: string
  jr_content :: string
  jr_original :: "string option"

record diff_row =
  df_diff_id :: string
  df_run_id :: string
  df_candidate_id :: string
  df_candidate_revision :: int
  df_artifact_id :: string

record grant_row =
  gw_grant_id :: string
  gw_disclosure_id :: string
  gw_run_id :: string
  gw_profile_id :: string
  gw_profile_revision :: int
  gw_expires_at :: string
  gw_byte_budget :: int
  gw_consumed_bytes :: int
  gw_status :: grant_status
  gw_created_at :: string

record category_row =
  gc_grant_id :: string
  gc_position :: nat
  gc_category :: string

record scope_row =
  gs_grant_id :: string
  gs_position :: nat
  gs_kind :: scope_kind
  gs_path :: string

record authorization_row =
  aw_authorization_id :: string
  aw_grant_id :: string
  aw_run_id :: string
  aw_request_id :: string
  aw_endpoint_id :: string
  aw_charge_bytes :: int
  aw_status :: authorization_status

record source_row =
  sr_authorization_id :: string
  sr_position :: nat
  sr_category :: string
  sr_path :: "string option"

record database =
  t_runs :: "run_row list"
  t_snapshots :: "snapshot_row list"
  t_candidates :: "candidate_row list"
  t_actions :: "action_row list"
  t_disclosures :: "disclosure_row list"
  t_artifacts :: "artifact_row list"
  t_approvals :: "approval_row list"
  t_transactions :: "transaction_row list"
  t_journal :: "journal_row list"
  t_profiles :: "reference_profile list"
  t_diffs :: "diff_row list"
  t_validation_runs :: "validation_run list"
  t_endpoints :: "provider_endpoint list"
  t_grants :: "grant_row list"
  t_grant_categories :: "category_row list"
  t_grant_scopes :: "scope_row list"
  t_authorizations :: "authorization_row list"
  t_authorization_sources :: "source_row list"

definition empty_database :: database where
  "empty_database =
     \<lparr>t_runs = [], t_snapshots = [], t_candidates = [], t_actions = [], t_disclosures = [],
      t_artifacts = [], t_approvals = [], t_transactions = [], t_journal = [], t_profiles = [],
      t_diffs = [], t_validation_runs = [], t_endpoints = [], t_grants = [],
      t_grant_categories = [], t_grant_scopes = [], t_authorizations = [],
      t_authorization_sources = []\<rparr>"

definition run_transitions :: "(run_status \<times> run_status) list" where
  "run_transitions =
     [(RUN_CREATED, RUN_RUNNING), (RUN_RUNNING, RUN_SUCCEEDED), (RUN_RUNNING, RUN_STOPPED)]"

definition transaction_transitions :: "(transaction_state \<times> transaction_state) list" where
  "transaction_transitions =
     [(PREPARED, WRITING), (PREPARED, ROLLED_BACK), (WRITING, COMMITTED), (WRITING, UNRESOLVED),
      (WRITING, ROLLED_BACK), (UNRESOLVED, WRITING), (UNRESOLVED, COMMITTED),
      (UNRESOLVED, ROLLED_BACK)]"

section \<open>Errors, transactions and INSERT\<close>

datatype db_error = V2DatabaseError string | IntegrityError | RecordError py_error

type_synonym 'a tx_body = "database \<Rightarrow> db_error + ('a \<times> database)"

type_synonym 'a db_result = "(db_error + 'a) \<times> database"

definition transaction :: "'a tx_body \<Rightarrow> database \<Rightarrow> 'a db_result" where
  "transaction body db =
     (case body db of Inl e \<Rightarrow> (Inl e, db) | Inr (x, db') \<Rightarrow> (Inr x, db'))"

definition require_revision :: "int \<Rightarrow> db_error + int" where
  "require_revision n =
     (if n < 0 then Inl (V2DatabaseError ''revision must be a non-negative integer'') else Inr n)"

definition lift_record :: "py_error + 'a \<Rightarrow> db_error + 'a" where
  "lift_record m = (case m of Inl e \<Rightarrow> Inl (RecordError e) | Inr x \<Rightarrow> Inr x)"

definition insert_run :: "run_row \<Rightarrow> database \<Rightarrow> db_error + database" where
  "insert_run r db =
     (if has_row rn_run_id (rn_run_id r) (t_runs db) \<or> rn_revision r < 0 then Inl IntegrityError
      else Inr (db\<lparr>t_runs := t_runs db @ [r]\<rparr>))"

definition insert_snapshot :: "snapshot_row \<Rightarrow> database \<Rightarrow> db_error + database" where
  "insert_snapshot r db =
     (if has_row sn_snapshot_id (sn_snapshot_id r) (t_snapshots db) \<or> sn_revision r < 0 \<or>
         \<not> has_row rn_run_id (sn_run_id r) (t_runs db) then Inl IntegrityError
      else Inr (db\<lparr>t_snapshots := t_snapshots db @ [r]\<rparr>))"

definition insert_candidate :: "candidate_row \<Rightarrow> database \<Rightarrow> db_error + database" where
  "insert_candidate r db =
     (if has_row cn_candidate_id (cn_candidate_id r) (t_candidates db) \<or> cn_revision r < 0 \<or>
         \<not> has_row rn_run_id (cn_run_id r) (t_runs db) \<or>
         \<not> has_row sn_snapshot_id (cn_snapshot_id r) (t_snapshots db) then Inl IntegrityError
      else Inr (db\<lparr>t_candidates := t_candidates db @ [r]\<rparr>))"

definition insert_action :: "action_row \<Rightarrow> database \<Rightarrow> db_error + database" where
  "insert_action r db =
     (if has_row ac_action_id (ac_action_id r) (t_actions db) \<or>
         \<not> has_row rn_run_id (ac_run_id r) (t_runs db) then Inl IntegrityError
      else Inr (db\<lparr>t_actions := t_actions db @ [r]\<rparr>))"

definition insert_disclosure :: "disclosure_row \<Rightarrow> database \<Rightarrow> db_error + database" where
  "insert_disclosure r db =
     (if has_row di_disclosure_id (di_disclosure_id r) (t_disclosures db) \<or>
         \<not> has_row rn_run_id (di_run_id r) (t_runs db) then Inl IntegrityError
      else Inr (db\<lparr>t_disclosures := t_disclosures db @ [r]\<rparr>))"

definition insert_artifact :: "artifact_row \<Rightarrow> database \<Rightarrow> db_error + database" where
  "insert_artifact r db =
     (if has_row af_artifact_id (af_artifact_id r) (t_artifacts db) \<or>
         \<not> has_row rn_run_id (af_run_id r) (t_runs db) then Inl IntegrityError
      else Inr (db\<lparr>t_artifacts := t_artifacts db @ [r]\<rparr>))"

definition insert_approval :: "approval_row \<Rightarrow> database \<Rightarrow> db_error + database" where
  "insert_approval r db =
     (if has_row ap_approval_id (ap_approval_id r) (t_approvals db) \<or> ap_candidate_revision r < 0 \<or>
         \<not> has_row rn_run_id (ap_run_id r) (t_runs db) \<or>
         \<not> has_row cn_candidate_id (ap_candidate_id r) (t_candidates db) then Inl IntegrityError
      else Inr (db\<lparr>t_approvals := t_approvals db @ [r]\<rparr>))"

definition insert_transaction :: "transaction_row \<Rightarrow> database \<Rightarrow> db_error + database" where
  "insert_transaction r db =
     (if has_row tx_transaction_id (tx_transaction_id r) (t_transactions db) \<or>
         \<not> has_row rn_run_id (tx_run_id r) (t_runs db) \<or>
         \<not> has_row cn_candidate_id (tx_candidate_id r) (t_candidates db) then Inl IntegrityError
      else Inr (db\<lparr>t_transactions := t_transactions db @ [r]\<rparr>))"

definition journal_key :: "journal_row \<Rightarrow> string \<times> int" where
  "journal_key r = (jr_transaction_id r, jr_position r)"

definition insert_journal :: "journal_row \<Rightarrow> database \<Rightarrow> db_error + database" where
  "insert_journal r db =
     (if has_row journal_key (journal_key r) (t_journal db) \<or>
         \<not> has_row tx_transaction_id (jr_transaction_id r) (t_transactions db) then Inl IntegrityError
      else Inr (db\<lparr>t_journal := t_journal db @ [r]\<rparr>))"

fun insert_all :: "('r \<Rightarrow> database \<Rightarrow> db_error + database) \<Rightarrow> 'r list \<Rightarrow> database \<Rightarrow> db_error + database" where
  "insert_all ins [] db = Inr db"
| "insert_all ins (r # rs) db = rbind (ins r db) (insert_all ins rs)"

section \<open>Runs\<close>

definition create_run :: "string \<Rightarrow> string option \<Rightarrow> string \<Rightarrow> string \<Rightarrow> database \<Rightarrow> string db_result" where
  "create_run workspace_path run_id fresh now =
     (let ident = py_or run_id fresh in
      transaction (\<lambda>db.
        rbind (insert_run \<lparr>rn_run_id = ident, rn_workspace_path = workspace_path,
            rn_status = RUN_CREATED, rn_phase = None, rn_revision = 1, rn_created_at = now\<rparr> db)
          (\<lambda>db'. Inr (ident, db'))))"

definition get_run :: "string \<Rightarrow> database \<Rightarrow> run_row option" where
  "get_run run_id db = find_row rn_run_id run_id (t_runs db)"

definition list_runs :: "int \<Rightarrow> database \<Rightarrow> db_error + (string \<times> run_status \<times> string option \<times> int) list" where
  \<comment> \<open>\<open>ORDER BY created_at DESC, run_id\<close>: sort by the second key, then stably and descending
    by the first.\<close>
  "list_runs limit db =
     (if \<not> (1 \<le> limit \<and> limit \<le> 500)
        then Inl (V2DatabaseError ''run list limit must be between 1 and 500'')
      else Inr (take (nat limit)
        (map (\<lambda>r. (rn_run_id r, rn_status r, rn_phase r, rn_revision r))
           (rev (sort_key rn_created_at (rev (sort_key rn_run_id (t_runs db))))))))"

definition bump_run :: "run_status \<times> string option \<Rightarrow> run_row \<Rightarrow> run_row" where
  "bump_run v r = r\<lparr>rn_status := fst v, rn_phase := snd v, rn_revision := rn_revision r + 1\<rparr>"

definition update_run_at ::
  "string \<Rightarrow> int \<Rightarrow> run_status \<Rightarrow> string option \<Rightarrow> database \<Rightarrow> bool \<times> database" where
  \<comment> \<open>\<open>UPDATE runs SET ... WHERE run_id = ? AND revision = ?\<close> and \<open>rowcount == 1\<close>.\<close>
  "update_run_at run_id expected status phase db =
     (let P = (\<lambda>r. rn_run_id r = run_id \<and> rn_revision r = expected)
      in (rowcount P (t_runs db) = 1,
          db\<lparr>t_runs := update_rows P (bump_run (status, phase)) (t_runs db)\<rparr>))"

definition transition_run ::
  "string \<Rightarrow> int \<Rightarrow> run_status \<Rightarrow> string option \<Rightarrow> database \<Rightarrow> bool db_result" where
  "transition_run run_id expected_revision status phase db =
     (case get_run run_id db of
        None \<Rightarrow> (Inr False, db)
      | Some row \<Rightarrow>
          if (rn_status row, status) \<notin> set run_transitions then (Inr False, db)
          else if status = RUN_RUNNING \<and> phase = None then (Inr False, db)
          else if status \<noteq> RUN_RUNNING \<and> phase \<noteq> None then (Inr False, db)
          else transaction (\<lambda>db. Inr (update_run_at run_id expected_revision status phase db)) db)"

definition transition_run_latest ::
  "string \<Rightarrow> run_status \<Rightarrow> string option \<Rightarrow> database \<Rightarrow> bool db_result" where
  "transition_run_latest run_id status phase =
     transaction (\<lambda>db.
       case get_run run_id db of
         None \<Rightarrow> Inr (False, db)
       | Some row \<Rightarrow>
           if (rn_status row, status) \<notin> set run_transitions then Inr (False, db)
           else if (status = RUN_RUNNING) \<noteq> (phase \<noteq> None) then Inr (False, db)
           else Inr (update_run_at run_id (rn_revision row) status phase db))"

section \<open>Snapshots, candidates and the plain records\<close>

definition create_snapshot ::
  "string \<Rightarrow> string option \<Rightarrow> int \<Rightarrow> string \<Rightarrow> database \<Rightarrow> string db_result" where
  "create_snapshot run_id snapshot_id rv fresh db =
     (case require_revision rv of
        Inl e \<Rightarrow> (Inl e, db)
      | Inr n \<Rightarrow>
          let ident = py_or snapshot_id fresh in
          transaction (\<lambda>db.
            rbind (insert_snapshot \<lparr>sn_snapshot_id = ident, sn_run_id = run_id, sn_revision = n\<rparr> db)
              (\<lambda>db'. Inr (ident, db'))) db)"

definition create_candidate ::
  "string \<Rightarrow> string \<Rightarrow> int \<Rightarrow> string option \<Rightarrow> string \<Rightarrow> database \<Rightarrow> string db_result" where
  "create_candidate run_id snapshot_id rv candidate_id fresh db =
     (case require_revision rv of
        Inl e \<Rightarrow> (Inl e, db)
      | Inr n \<Rightarrow>
          let ident = py_or candidate_id fresh in
          transaction (\<lambda>db.
            case find_row sn_snapshot_id snapshot_id (t_snapshots db) of
              None \<Rightarrow> Inl (V2DatabaseError ''candidate run/snapshot mismatch'')
            | Some snapshot \<Rightarrow>
                if sn_run_id snapshot \<noteq> run_id
                  then Inl (V2DatabaseError ''candidate run/snapshot mismatch'')
                else rbind (insert_candidate \<lparr>cn_candidate_id = ident, cn_run_id = run_id,
                       cn_snapshot_id = snapshot_id, cn_revision = n, cn_status = ''ACTIVE''\<rparr> db)
                     (\<lambda>db'. Inr (ident, db'))) db)"

definition set_candidate_revision :: "int \<Rightarrow> candidate_row \<Rightarrow> candidate_row" where
  "set_candidate_revision n r = r\<lparr>cn_revision := n\<rparr>"

definition advance_candidate :: "string \<Rightarrow> int \<Rightarrow> database \<Rightarrow> bool db_result" where
  "advance_candidate candidate_id expected =
     transaction (\<lambda>db.
       let (ok, rows) = cas cn_candidate_id cn_revision set_candidate_revision
                          candidate_id expected (expected + 1) (t_candidates db)
       in Inr (ok, db\<lparr>t_candidates := rows\<rparr>))"

definition create_action :: "string \<Rightarrow> string \<Rightarrow> string option \<Rightarrow> string \<Rightarrow> database \<Rightarrow> string db_result" where
  "create_action run_id atype action_id fresh =
     (let ident = py_or action_id fresh in
      transaction (\<lambda>db.
        rbind (insert_action \<lparr>ac_action_id = ident, ac_run_id = run_id,
            ac_action_type = atype, ac_status = ''RECEIVED''\<rparr> db)
          (\<lambda>db'. Inr (ident, db'))))"

definition create_disclosure :: "string \<Rightarrow> string option \<Rightarrow> string \<Rightarrow> database \<Rightarrow> string db_result" where
  "create_disclosure run_id disclosure_id fresh =
     (let ident = py_or disclosure_id fresh in
      transaction (\<lambda>db.
        rbind (insert_disclosure \<lparr>di_disclosure_id = ident, di_run_id = run_id,
            di_status = ''PENDING''\<rparr> db)
          (\<lambda>db'. Inr (ident, db'))))"

definition create_artifact ::
  "string \<Rightarrow> string \<Rightarrow> string \<Rightarrow> string option \<Rightarrow> string \<Rightarrow> database \<Rightarrow> string db_result" where
  "create_artifact run_id kind location artifact_id fresh =
     (let ident = py_or artifact_id fresh in
      transaction (\<lambda>db.
        rbind (insert_artifact \<lparr>af_artifact_id = ident, af_run_id = run_id, af_kind = kind,
            af_location = location\<rparr> db)
          (\<lambda>db'. Inr (ident, db'))))"

definition get_candidate :: "string \<Rightarrow> database \<Rightarrow> candidate_row option" where
  "get_candidate candidate_id db = find_row cn_candidate_id candidate_id (t_candidates db)"

section \<open>Writeback approvals\<close>

definition set_approval_status :: "approval_status \<Rightarrow> approval_row \<Rightarrow> approval_row" where
  "set_approval_status s r = r\<lparr>ap_status := s\<rparr>"

definition create_writeback_approval ::
  "string \<Rightarrow> string \<Rightarrow> int \<Rightarrow> string option \<Rightarrow> string \<Rightarrow> database \<Rightarrow> string db_result" where
  "create_writeback_approval run_id candidate_id candidate_revision approval_id fresh db =
     (case require_revision candidate_revision of
        Inl e \<Rightarrow> (Inl e, db)
      | Inr n \<Rightarrow>
          let ident = py_or approval_id fresh in
          transaction (\<lambda>db.
            case get_candidate candidate_id db of
              None \<Rightarrow> Inl (V2DatabaseError ''writeback approval run/candidate mismatch'')
            | Some candidate \<Rightarrow>
                if cn_run_id candidate \<noteq> run_id
                  then Inl (V2DatabaseError ''writeback approval run/candidate mismatch'')
                else if cn_revision candidate \<noteq> n
                  then Inl (V2DatabaseError ''writeback approval revision is stale'')
                else rbind (insert_approval \<lparr>ap_approval_id = ident, ap_run_id = run_id,
                       ap_candidate_id = candidate_id, ap_candidate_revision = n,
                       ap_status = AP_PENDING\<rparr> db)
                     (\<lambda>db'. Inr (ident, db'))) db)"

definition consume_writeback_approval :: "string \<Rightarrow> string \<Rightarrow> int \<Rightarrow> database \<Rightarrow> bool db_result" where
  "consume_writeback_approval approval_id candidate_id candidate_revision =
     transaction (\<lambda>db.
       let P = (\<lambda>r. ap_approval_id r = approval_id \<and> ap_candidate_id r = candidate_id \<and>
                  ap_candidate_revision r = candidate_revision \<and> ap_status r = AP_PENDING \<and>
                  list_ex (\<lambda>c. cn_candidate_id c = ap_candidate_id r \<and>
                             cn_revision c = ap_candidate_revision r) (t_candidates db))
       in Inr (rowcount P (t_approvals db) = 1,
               db\<lparr>t_approvals := update_rows P (set_approval_status AP_CONSUMED) (t_approvals db)\<rparr>))"

definition get_writeback_approval :: "string \<Rightarrow> database \<Rightarrow> approval_row option" where
  "get_writeback_approval approval_id db = find_row ap_approval_id approval_id (t_approvals db)"

section \<open>Writeback transactions and their journal\<close>

definition set_tx_state :: "transaction_state \<Rightarrow> transaction_row \<Rightarrow> transaction_row" where
  "set_tx_state s r = r\<lparr>tx_state := s\<rparr>"

definition create_transaction ::
  "string \<Rightarrow> string \<Rightarrow> string option \<Rightarrow> string \<Rightarrow> string \<Rightarrow> database \<Rightarrow> string db_result" where
  "create_transaction run_id candidate_id transaction_id fresh now =
     (let ident = py_or transaction_id fresh in
      transaction (\<lambda>db.
        case get_candidate candidate_id db of
          None \<Rightarrow> Inl (V2DatabaseError ''transaction run/candidate mismatch'')
        | Some candidate \<Rightarrow>
            if cn_run_id candidate \<noteq> run_id
              then Inl (V2DatabaseError ''transaction run/candidate mismatch'')
            else rbind (insert_transaction \<lparr>tx_transaction_id = ident, tx_run_id = run_id,
                   tx_candidate_id = candidate_id, tx_state = PREPARED, tx_created_at = now\<rparr> db)
                 (\<lambda>db'. Inr (ident, db'))))"

definition get_transaction :: "string \<Rightarrow> database \<Rightarrow> transaction_row option" where
  "get_transaction transaction_id db = find_row tx_transaction_id transaction_id (t_transactions db)"

definition get_transaction_journal :: "string \<Rightarrow> database \<Rightarrow> journal_row list" where
  "get_transaction_journal transaction_id db =
     sort_key jr_position (filter (\<lambda>r. jr_transaction_id r = transaction_id) (t_journal db))"

definition list_transactions_in_states :: "transaction_state list \<Rightarrow> database \<Rightarrow> transaction_row list" where
  "list_transactions_in_states states db =
     sort_key (\<lambda>r. (tx_created_at r, tx_transaction_id r))
       (filter (\<lambda>r. tx_state r \<in> set states) (t_transactions db))"

definition transition_transaction ::
  "string \<Rightarrow> transaction_state \<Rightarrow> transaction_state \<Rightarrow> database \<Rightarrow> bool db_result" where
  "transition_transaction transaction_id from_state to_state db =
     (if (from_state, to_state) \<notin> set transaction_transitions
        then (Inl (V2DatabaseError ''illegal transaction transition''), db)
      else transaction (\<lambda>db.
        let (ok, rows) = cas tx_transaction_id tx_state set_tx_state transaction_id
                           from_state to_state (t_transactions db)
        in Inr (ok, db\<lparr>t_transactions := rows\<rparr>)) db)"

definition entry_row :: "string \<Rightarrow> journal_entry \<Rightarrow> journal_row" where
  "entry_row tid e =
     \<lparr>jr_transaction_id = tid, jr_position = je_position e, jr_path = je_path e,
      jr_action_type = action_name (je_action e), jr_content = je_content e,
      jr_original = je_original e\<rparr>"

definition begin_body ::
  "string \<Rightarrow> string \<Rightarrow> int \<Rightarrow> string \<Rightarrow> journal_entry list \<Rightarrow> string \<Rightarrow> string \<Rightarrow> string tx_body" where
  "begin_body run_id candidate_id candidate_revision approval_id entries ident now db =
     (case get_candidate candidate_id db of
        None \<Rightarrow> Inl (V2DatabaseError ''transaction run/candidate mismatch'')
      | Some candidate \<Rightarrow>
          if cn_run_id candidate \<noteq> run_id
            then Inl (V2DatabaseError ''transaction run/candidate mismatch'')
          else if cn_revision candidate \<noteq> candidate_revision
            then Inl (V2DatabaseError ''candidate revision is stale'')
          else (case get_writeback_approval approval_id db of
            None \<Rightarrow> Inl (V2DatabaseError ''writeback approval is missing'')
          | Some approval \<Rightarrow>
              if ap_candidate_id approval \<noteq> candidate_id \<or>
                 ap_candidate_revision approval \<noteq> candidate_revision
                then Inl (V2DatabaseError ''writeback approval does not match the candidate'')
              else if ap_status approval \<noteq> AP_PENDING
                then Inl (V2DatabaseError ''writeback approval is not pending'')
              else (case cas ap_approval_id ap_status set_approval_status approval_id
                        AP_PENDING AP_CONSUMED (t_approvals db) of
                (consumed, rows) \<Rightarrow>
                  if \<not> consumed
                    then Inl (V2DatabaseError ''writeback approval could not be consumed'')
                  else
                    rbind (insert_transaction \<lparr>tx_transaction_id = ident, tx_run_id = run_id,
                        tx_candidate_id = candidate_id, tx_state = PREPARED, tx_created_at = now\<rparr>
                        (db\<lparr>t_approvals := rows\<rparr>))
                      (\<lambda>db1. rbind (insert_all insert_journal (map (entry_row ident) entries) db1)
                        (\<lambda>db2. Inr (ident, db2))))))"

definition begin_writeback_transaction ::
  "string \<Rightarrow> string \<Rightarrow> int \<Rightarrow> string \<Rightarrow> journal_entry list \<Rightarrow> string option \<Rightarrow> string \<Rightarrow> string \<Rightarrow>
   database \<Rightarrow> string db_result" where
  "begin_writeback_transaction run_id candidate_id candidate_revision approval_id entries
     transaction_id fresh now db =
     (case require_revision candidate_revision of
        Inl e \<Rightarrow> (Inl e, db)
      | Inr n \<Rightarrow>
          if entries = []
            then (Inl (V2DatabaseError ''a writeback transaction requires journal entries''), db)
          else transaction
            (begin_body run_id candidate_id n approval_id entries (py_or transaction_id fresh) now) db)"

section \<open>The contract of the context manager\<close>

lemma transaction_error [simp]: "transaction body db = (Inl e, db') \<longleftrightarrow> body db = Inl e \<and> db' = db"
  by (auto simp: transaction_def split: sum.splits)

lemma transaction_ok [simp]: "transaction body db = (Inr x, db') \<longleftrightarrow> body db = Inr (x, db')"
  by (auto simp: transaction_def split: sum.splits)

lemma transaction_state: "snd (transaction body db) = (case body db of Inl _ \<Rightarrow> db | Inr (_, db') \<Rightarrow> db')"
  by (simp add: transaction_def split: sum.splits prod.splits)

lemma lift_record_eq_Inr [simp]: "lift_record m = Inr x \<longleftrightarrow> m = Inr x"
  by (simp add: lift_record_def split: sum.splits)

lemma require_revision_eq_Inr [simp]: "require_revision n = Inr m \<longleftrightarrow> m = n \<and> 0 \<le> n"
  by (auto simp: require_revision_def)

lemma insert_all_append:
  "insert_all ins (rs @ qs) db = rbind (insert_all ins rs db) (insert_all ins qs)"
  by (induction rs arbitrary: db) (auto simp: rbind_def split: sum.splits)

section \<open>The tables as interpretations of the table contract\<close>

interpretation run_table: keyed_table rn_run_id bump_run
  by unfold_locales (simp add: bump_run_def)

interpretation candidate_table: cas_table cn_candidate_id set_candidate_revision cn_revision
  by unfold_locales (simp_all add: set_candidate_revision_def)

interpretation approval_table: cas_table ap_approval_id set_approval_status ap_status
  by unfold_locales (simp_all add: set_approval_status_def)

interpretation transaction_table: cas_table tx_transaction_id set_tx_state tx_state
  by unfold_locales (simp_all add: set_tx_state_def)

section \<open>Writeback transactions\<close>

lemma rowcount_append [simp]: "rowcount P (xs @ ys) = rowcount P xs + rowcount P ys"
  by (simp add: rowcount_def)

lemma insert_transaction_Inr:
  "insert_transaction r db = Inr db' \<longleftrightarrow>
     \<not> has_row tx_transaction_id (tx_transaction_id r) (t_transactions db) \<and>
     has_row rn_run_id (tx_run_id r) (t_runs db) \<and>
     has_row cn_candidate_id (tx_candidate_id r) (t_candidates db) \<and>
     db' = db\<lparr>t_transactions := t_transactions db @ [r]\<rparr>"
  by (auto simp: insert_transaction_def)

lemma insert_journal_rows:
  "insert_all insert_journal rows db = Inr db' \<Longrightarrow>
     db' = db\<lparr>t_journal := t_journal db @ rows\<rparr> \<and> distinct (map journal_key rows) \<and>
     (\<forall>r\<in>set rows. has_row tx_transaction_id (jr_transaction_id r) (t_transactions db) \<and>
        \<not> has_row journal_key (journal_key r) (t_journal db))"
proof (induction rows arbitrary: db)
  case (Cons r rows)
  let ?db = "db\<lparr>t_journal := t_journal db @ [r]\<rparr>"
  have r: "\<not> has_row journal_key (journal_key r) (t_journal db)"
      "has_row tx_transaction_id (jr_transaction_id r) (t_transactions db)"
    and rest: "insert_all insert_journal rows ?db = Inr db'"
    using Cons.prems by (auto simp: insert_journal_def [of r] split: if_splits)
  from Cons.IH [OF rest] r show ?case by (auto simp: has_row_iff)
qed simp

text \<open>What a successful begin has checked and what it leaves.\<close>

definition begun :: "transaction_state \<Rightarrow> string \<Rightarrow> string \<Rightarrow> int \<Rightarrow> string \<Rightarrow> journal_entry list \<Rightarrow> string \<Rightarrow> string \<Rightarrow>
    database \<Rightarrow> database" where
  "begun st run_id candidate_id candidate_revision approval_id entries tid now db =
     db\<lparr>t_approvals := snd (cas ap_approval_id ap_status set_approval_status approval_id
           AP_PENDING AP_CONSUMED (t_approvals db)),
        t_transactions := t_transactions db @
          [\<lparr>tx_transaction_id = tid, tx_run_id = run_id, tx_candidate_id = candidate_id,
            tx_state = st, tx_created_at = now\<rparr>],
        t_journal := t_journal db @ map (entry_row tid) entries\<rparr>"

definition approved :: "string \<Rightarrow> string \<Rightarrow> int \<Rightarrow> string \<Rightarrow> database \<Rightarrow> bool" where
  "approved run_id candidate_id candidate_revision approval_id db \<longleftrightarrow>
     (\<exists>c a. get_candidate candidate_id db = Some c \<and> cn_run_id c = run_id \<and>
        cn_revision c = candidate_revision \<and> get_writeback_approval approval_id db = Some a \<and>
        ap_candidate_id a = candidate_id \<and> ap_candidate_revision a = candidate_revision \<and>
        ap_status a = AP_PENDING)"

lemma distinct_entry_rows:
  "distinct (map journal_key (map (entry_row tid) es)) \<longleftrightarrow> distinct (map je_position es)"
  by (induction es) (auto simp: journal_key_def entry_row_def)

lemma begin_body_Inr:
  assumes "begin_body r c n a es tid now db = Inr (x, db')"
  shows "x = tid" and "approved r c n a db" and "db' = begun PREPARED r c n a es tid now db"
    and "\<not> has_row tx_transaction_id tid (t_transactions db)" and "distinct (map je_position es)"
proof -
  obtain cand where c: "get_candidate c db = Some cand" "cn_run_id cand = r" "cn_revision cand = n"
    using assms by (auto simp: begin_body_def split: option.splits if_splits)
  then obtain appr where a: "get_writeback_approval a db = Some appr" "ap_candidate_id appr = c"
      "ap_candidate_revision appr = n" "ap_status appr = AP_PENDING"
    using assms by (auto simp: begin_body_def split: option.splits if_splits)
  from c a show "approved r c n a db" by (auto simp: approved_def)
  let ?row = "\<lparr>tx_transaction_id = tid, tx_run_id = r, tx_candidate_id = c, tx_state = PREPARED,
      tx_created_at = now\<rparr>"
  obtain ok rows where cas: "cas ap_approval_id ap_status set_approval_status a AP_PENDING AP_CONSUMED
      (t_approvals db) = (ok, rows)" by fastforce
  have rest: "x = tid \<and> (\<exists>db1. insert_transaction ?row (db\<lparr>t_approvals := rows\<rparr>) = Inr db1 \<and>
      insert_all insert_journal (map (entry_row tid) es) db1 = Inr db')"
    using assms c a cas by (auto simp: begin_body_def split: if_splits)
  then show "x = tid" by blast
  from rest obtain db1 where ins: "insert_transaction ?row (db\<lparr>t_approvals := rows\<rparr>) = Inr db1"
    and js: "insert_all insert_journal (map (entry_row tid) es) db1 = Inr db'" by blast
  from ins show "\<not> has_row tx_transaction_id tid (t_transactions db)"
    by (simp add: insert_transaction_Inr)
  show "db' = begun PREPARED r c n a es tid now db"
    using ins insert_journal_rows [OF js] cas by (simp add: insert_transaction_Inr begun_def)
  show "distinct (map je_position es)"
    using insert_journal_rows [OF js] unfolding distinct_entry_rows by blast
qed

lemma begin_Inr:
  assumes "begin_writeback_transaction r c n a es tid fresh now db = (Inr x, db')"
  shows "x = py_or tid fresh" and "approved r c n a db" and "db' = begun PREPARED r c n a es x now db"
    and "\<not> has_row tx_transaction_id x (t_transactions db)" and "distinct (map je_position es)"
    and "es \<noteq> []"
proof -
  have body: "begin_body r c n a es (py_or tid fresh) now db = Inr (x, db')" and "es \<noteq> []"
    using assms by (auto simp: begin_writeback_transaction_def split: sum.splits if_splits)
  then show "x = py_or tid fresh" "approved r c n a db" "db' = begun PREPARED r c n a es x now db"
    "\<not> has_row tx_transaction_id x (t_transactions db)" "distinct (map je_position es)" "es \<noteq> []"
    using begin_body_Inr [OF body] by simp_all
qed

lemma begin_Inl:
  "begin_writeback_transaction r c n a es tid fresh now db = (Inl e, db') \<Longrightarrow> db' = db"
  by (auto simp: begin_writeback_transaction_def split: sum.splits if_splits)

text \<open>A legal transition from the recorded state, and one from another state.\<close>

definition set_tx :: "string \<Rightarrow> transaction_state \<Rightarrow> transaction_state \<Rightarrow> database \<Rightarrow> database" where
  "set_tx tid s s' db =
     db\<lparr>t_transactions := snd (cas tx_transaction_id tx_state set_tx_state tid s s' (t_transactions db))\<rparr>"

lemma transition_transaction_legal:
  "(s, s') \<in> set transaction_transitions \<Longrightarrow>
     transition_transaction tid s s' db =
       (Inr (fst (cas tx_transaction_id tx_state set_tx_state tid s s' (t_transactions db))), set_tx tid s s' db)"
  by (simp add: transition_transaction_def transaction_def set_tx_def split: prod.splits)

lemma transition_transaction_Inr:
  "transition_transaction tid s s' db = (Inr b, db') \<Longrightarrow>
     (s, s') \<in> set transaction_transitions \<and> db' = set_tx tid s s' db"
  by (cases "(s, s') \<in> set transaction_transitions")
    (simp_all add: transition_transaction_legal, simp add: transition_transaction_def)

lemma cas_transaction_once:
  "distinct (map tx_transaction_id (t_transactions db)) \<Longrightarrow>
     fst (cas tx_transaction_id tx_state set_tx_state tid s s' (t_transactions db)) \<longleftrightarrow>
     (\<exists>r. get_transaction tid db = Some r \<and> tx_state r = s)"
  by (simp add: transaction_table.cas_ok_iff get_transaction_def)

lemma get_transaction_set_tx:
  "get_transaction k (set_tx tid s s' db) =
     map_option (\<lambda>r. if k = tid \<and> tx_state r = s then set_tx_state s' r else r) (get_transaction k db)"
  by (cases "k = tid")
    (auto simp: get_transaction_def set_tx_def transaction_table.cas_find_same
      transaction_table.cas_find_other intro!: option.map_ident [symmetric])

lemma set_tx_frame [simp]:
  "get_transaction_journal k (set_tx tid s s' db) = get_transaction_journal k db"
  "t_approvals (set_tx tid s s' db) = t_approvals db"
  "t_journal (set_tx tid s s' db) = t_journal db"
  "map tx_transaction_id (t_transactions (set_tx tid s s' db)) = map tx_transaction_id (t_transactions db)"
  by (simp_all add: get_transaction_journal_def set_tx_def transaction_table.cas_keys)

lemma get_transaction_begun:
  "\<not> has_row tx_transaction_id tid (t_transactions db) \<Longrightarrow>
     get_transaction tid (begun st r c n a es tid now db) =
       Some \<lparr>tx_transaction_id = tid, tx_run_id = r, tx_candidate_id = c, tx_state = st,
             tx_created_at = now\<rparr>"
  by (simp add: get_transaction_def begun_def find_row_snoc has_row_def)

lemma distinct_begun:
  "\<not> has_row tx_transaction_id tid (t_transactions db) \<Longrightarrow>
     distinct (map tx_transaction_id (t_transactions (begun st r c n a es tid now db))) \<longleftrightarrow>
     distinct (map tx_transaction_id (t_transactions db))"
  by (simp add: begun_def has_row_iff)

lemma sorted_positions:
  "map je_position es = map int [0..<length es] \<Longrightarrow> sort_key jr_position (map (entry_row tid) es) = map (entry_row tid) es"
proof -
  assume pos: "map je_position es = map int [0..<length es]"
  have "map jr_position (map (entry_row tid) es) = map int [0..<length es]"
    using pos by (simp add: entry_row_def comp_def)
  then have "sorted (map jr_position (map (entry_row tid) es))" by (simp add: sorted_map)
  then show ?thesis by (rule sort_key_id_if_sorted)
qed

lemma journal_begun:
  assumes "map je_position es = map int [0..<length es]"
    and "\<forall>r\<in>set (t_journal db). jr_transaction_id r \<noteq> tid"
  shows "get_transaction_journal tid (begun st r c n a es tid now db) = map (entry_row tid) es"
proof -
  have "filter (\<lambda>r. jr_transaction_id r = tid) (t_journal db) = []"
    using assms(2) by (simp add: filter_empty_conv)
  moreover have "filter (\<lambda>r. jr_transaction_id r = tid) (map (entry_row tid) es) = map (entry_row tid) es"
    by (rule filter_True) (auto simp: entry_row_def)
  ultimately show ?thesis
    using sorted_positions [OF assms(1)] by (simp add: get_transaction_journal_def begun_def)
qed

lemma transition_begun:
  assumes "\<not> has_row tx_transaction_id tid (t_transactions db)" and "(s, s') \<in> set transaction_transitions"
  shows "transition_transaction tid s s' (begun s r c n a es tid now db) =
    (Inr True, begun s' r c n a es tid now db)"
proof -
  have none: "\<And>x. x \<in> set (t_transactions db) \<Longrightarrow> tx_transaction_id x \<noteq> tid"
    using assms(1) by (auto simp: has_row_iff)
  then have "rowcount (\<lambda>x. tx_transaction_id x = tid \<and> tx_state x = s) (t_transactions db) = 0"
    by (simp add: rowcount_0_iff)
  moreover have "update_rows (\<lambda>x. tx_transaction_id x = tid \<and> tx_state x = s) (set_tx_state s')
      (t_transactions db @ [y]) = t_transactions db @ [set_tx_state s' y]"
    if "tx_transaction_id y = tid" "tx_state y = s" for y
    using none that by (auto simp: update_rows_def intro!: map_idI)
  ultimately show ?thesis
    using assms(2)
    by (simp add: transition_transaction_legal set_tx_def cas_def begun_def rowcount_Cons set_tx_state_def)
qed

section \<open>Runs\<close>

lemma transition_run_latest_ok:
  assumes "distinct (map rn_run_id (t_runs db))" and "get_run run_id db = Some row"
    and "(rn_status row, st) \<in> set run_transitions" and "(st = RUN_RUNNING) = (ph \<noteq> None)"
  shows "\<exists>db'. transition_run_latest run_id st ph db = (Inr True, db') \<and>
    get_run run_id db' = Some (bump_run (st, ph) row) \<and>
    map rn_run_id (t_runs db') = map rn_run_id (t_runs db)"
proof -
  let ?P = "\<lambda>r. rn_run_id r = run_id \<and> rn_revision r = rn_revision row"
  have f: "find_row rn_run_id run_id (t_runs db) = Some row" using assms(2) by (simp add: get_run_def)
  then have "rowcount ?P (t_runs db) = Suc 0" using rowcount_key_eq_1 [OF assms(1)] by auto
  moreover have "find_row rn_run_id run_id (update_rows ?P (bump_run (st, ph)) (t_runs db)) = Some (bump_run (st, ph) row)"
    using f run_table.find_update find_row_SomeD [OF f] by simp
  ultimately show ?thesis
    using assms(2,3,4) run_table.keys_update
    by (simp add: transition_run_latest_def transaction_def update_run_at_def get_run_def)
qed

lemma create_run_ok:
  assumes "\<not> has_row rn_run_id fresh (t_runs db)"
  shows "\<exists>db'. create_run ws None fresh now db = (Inr fresh, db') \<and>
    get_run fresh db' = Some \<lparr>rn_run_id = fresh, rn_workspace_path = ws, rn_status = RUN_CREATED,
      rn_phase = None, rn_revision = 1, rn_created_at = now\<rparr> \<and>
    map rn_run_id (t_runs db') = map rn_run_id (t_runs db) @ [fresh]"
  using assms
  by (simp add: create_run_def py_or_def transaction_def insert_run_def get_run_def find_row_snoc has_row_def)

end
