(* ===== verification/Relaxed_Policy.thy ===== *)
theory Relaxed_Policy
  imports Writeback_Contract "HOL-Library.Sublist"
begin

text \<open>
  The deterministic governance policy, \<open>governance/relaxed_policy.py\<close>: a closed action
  vocabulary, the canonical spelling of a relative path, workspace confinement, sensitive
  names and protected project files. A path is the list of its components. The file system
  enters through the parameter \<open>resolve\<close>, \<open>Path.resolve(strict=False)\<close> on absolute
  component lists: \<open>None\<close> is a raised \<open>OSError\<close>, \<open>RuntimeError\<close> or
  \<open>ValueError\<close>. Nothing is assumed of it.
\<close>

section \<open>The policy\<close>

datatype decision = ALLOW | DENY

type_synonym resolver = "string list \<Rightarrow> string list option"

record action_request =
  ar_action_type :: string
  ar_path :: string
  ar_workspace :: "string list"

definition make_action_request :: "string \<Rightarrow> string \<Rightarrow> string list \<Rightarrow> py_error + action_request" where
  "make_action_request atype path workspace =
     rbind (check (atype \<noteq> []) (ValueError ''action_type must be non-empty'')) (\<lambda>_.
       Inr \<lparr>ar_action_type = atype, ar_path = path, ar_workspace = workspace\<rparr>)"

definition read_actions :: "string list" where
  "read_actions = [''READ_FILE'', ''LIST_FILES'', ''SEARCH_TEXT'']"

definition write_actions :: "string list" where
  "write_actions = [''CREATE'', ''REPLACE'', ''APPLY_PATCH'']"

definition safe_actions :: "string list" where
  "safe_actions = read_actions @ write_actions"

definition protected_roots :: "string list" where
  "protected_roots = [''.git'', ''.github'', ''.venv'', ''config'', ''containers'', ''delivery'',
     ''gates'', ''requirements'', ''spikes'', ''tests'']"

definition protected_files :: "string list" where
  "protected_files = [''AGENTS.md'', ''AGENT_LOG.md'', ''PLAN.md'', ''REFLECTION.md'', ''SPEC.md'',
     ''SPEC_PROCESS.md'', ''.gitignore'', ''pyproject.toml'']"

definition sensitive_names :: "string list" where
  "sensitive_names = [''.env'', ''.env.local'', ''.env.production'', ''credentials.json'',
     ''secrets.json'']"

definition sensitive_suffixes :: "string list" where
  "sensitive_suffixes = [''.pem'', ''.key'', ''.p12'', ''.pfx'']"

text \<open>
  The components of \<open>PurePosixPath(path)\<close> for a relative path: empty and \<open>.\<close> segments
  disappear.
\<close>

definition posix_parts :: "string \<Rightarrow> string list" where
  "posix_parts path = filter (\<lambda>p. p \<noteq> [] \<and> p \<noteq> ''.'') (split_on CHR ''/'' path)"

definition canonical_relative_path :: "string \<Rightarrow> string list option" where
  "canonical_relative_path path =
     (if path = [] \<or> CHR 0x5C \<in> set path \<or> CHR 0x00 \<in> set path then None
      else if list_ex bad_segment (split_on CHR ''/'' path) then None
      else if startswith path ''/'' \<or> CHR '':'' \<in> set path then None
      else let parts = posix_parts path
           in if parts = [] \<or> list_ex bad_segment parts then None else Some parts)"

definition confined :: "resolver \<Rightarrow> string list \<Rightarrow> string list \<Rightarrow> bool" where
  "confined resolve workspace relative =
     (case resolve workspace of
        None \<Rightarrow> False
      | Some root \<Rightarrow>
          (case resolve (root @ relative) of
             None \<Rightarrow> False
           | Some target \<Rightarrow> prefix root target))"

definition is_sensitive :: "string list \<Rightarrow> bool" where
  "is_sensitive parts \<longleftrightarrow>
     list_ex (\<lambda>part.
       casefold part \<in> set (map casefold sensitive_names) \<or>
       startswith (casefold part) ''.env.'' \<or>
       list_ex (endswith (casefold part)) sensitive_suffixes) parts"

definition is_protected :: "string list \<Rightarrow> bool" where
  "is_protected parts \<longleftrightarrow>
     casefold (hd parts) \<in> set (map casefold protected_roots) \<or>
     casefold (last parts) \<in> set (map casefold protected_files)"

definition policy_evaluate :: "resolver \<Rightarrow> action_request \<Rightarrow> decision" where
  "policy_evaluate resolve req =
     (if ar_action_type req \<notin> set safe_actions then DENY
      else case canonical_relative_path (ar_path req) of
        None \<Rightarrow> DENY
      | Some relative \<Rightarrow>
          if \<not> confined resolve (ar_workspace req) relative then DENY
          else if is_sensitive relative then DENY
          else if ar_action_type req \<in> set write_actions \<and> is_protected relative then DENY
          else if ar_action_type req \<in> set write_actions \<and> length relative = 1 \<and>
                  casefold (hd relative) = ''src'' then DENY
          else ALLOW)"

section \<open>Canonical paths\<close>

lemma filter_parts_id: "\<not> list_ex bad_segment ps \<Longrightarrow> filter (\<lambda>p. p \<noteq> [] \<and> p \<noteq> ''.'') ps = ps"
  by (induction ps) (auto simp: bad_segment_def)

lemma canonical_relative_path_Some:
  assumes "canonical_relative_path path = Some parts"
  shows "parts = split_on CHR ''/'' path" and "join_on CHR ''/'' parts = path"
    and "\<forall>p\<in>set parts. \<not> bad_segment p" and "parts \<noteq> []"
proof -
  have ok: "\<not> list_ex bad_segment (split_on CHR ''/'' path)" and p: "parts = posix_parts path"
    using assms by (auto simp: canonical_relative_path_def Let_def split: if_splits)
  then show parts: "parts = split_on CHR ''/'' path"
    by (simp add: posix_parts_def filter_parts_id)
  then show "join_on CHR ''/'' parts = path" "parts \<noteq> []" by simp_all
  show "\<forall>p\<in>set parts. \<not> bad_segment p" using ok parts by (auto simp: list_ex_iff)
qed

text \<open>Every path the writeback contract accepts is a relative path in the policy's sense.\<close>

lemma canonical_relative_path_write_path:
  assumes "canonical_path path"
  shows "canonical_relative_path path = Some (split_on CHR ''/'' path)"
proof -
  have ok: "\<not> list_ex bad_segment (split_on CHR ''/'' path)"
    using assms by (auto simp: canonical_path_def list_ex_iff)
  have "CHR 0x00 \<notin> set path"
    using assms ord_control(1) unfolding canonical_path_def by (meson not_less)
  with assms ok canonical_not_absolute [OF assms] show ?thesis
    by (simp add: canonical_relative_path_def posix_parts_def filter_parts_id canonical_path_def Let_def)
qed

section \<open>What an ALLOW means\<close>

lemma policy_allow_iff:
  "policy_evaluate resolve req = ALLOW \<longleftrightarrow>
     ar_action_type req \<in> set safe_actions \<and>
     (\<exists>parts. canonical_relative_path (ar_path req) = Some parts \<and>
        confined resolve (ar_workspace req) parts \<and> \<not> is_sensitive parts \<and>
        (ar_action_type req \<in> set write_actions \<longrightarrow>
           \<not> is_protected parts \<and> \<not> (length parts = 1 \<and> casefold (hd parts) = ''src'')))"
  by (auto simp: policy_evaluate_def split: option.splits if_splits)

lemma confined_root:
  "confined resolve ws parts \<Longrightarrow>
     \<exists>root target. resolve ws = Some root \<and> resolve (root @ parts) = Some target \<and> prefix root target"
  by (auto simp: confined_def split: option.splits)

lemma policy_deny_unless: "policy_evaluate resolve req \<noteq> ALLOW \<longleftrightarrow> policy_evaluate resolve req = DENY"
  by (cases "policy_evaluate resolve req") auto

end
