(* ===== verification/Secret_Scanner.thy ===== *)
theory Secret_Scanner
  imports Prelude
begin

text \<open>
  The pre-journal secret scanner, \<open>governance/v2_secret_scanner.py\<close>. The regular
  expressions are read as what \<open>re.search\<close> computes for them: the leftmost position at
  which an alternative matches, alternatives tried in order. Greedy repetitions over a
  character class that cannot match what follows are spans of that class, so no
  backtracking is left to model.
\<close>

section \<open>Character classes\<close>

definition is_word :: "char \<Rightarrow> bool" where
  \<comment> \<open>\<open>\w\<close> on code points below 256: alphanumeric or underscore.\<close>
  "is_word c \<longleftrightarrow>
     (let n = ord c in
        48 \<le> n \<and> n \<le> 57 \<or> 65 \<le> n \<and> n \<le> 90 \<or> n = 95 \<or> 97 \<le> n \<and> n \<le> 122 \<or>
        n = 170 \<or> n = 178 \<or> n = 179 \<or> n = 181 \<or> n = 185 \<or> n = 186 \<or> 188 \<le> n \<and> n \<le> 190 \<or>
        192 \<le> n \<and> n \<le> 214 \<or> 216 \<le> n \<and> n \<le> 246 \<or> 248 \<le> n)"

definition is_alnum_lower :: "char \<Rightarrow> bool" where
  "is_alnum_lower c \<longleftrightarrow> (let n = ord c in 48 \<le> n \<and> n \<le> 57 \<or> 97 \<le> n \<and> n \<le> 122)"

definition word_boundary :: "char option \<Rightarrow> char \<Rightarrow> bool" where
  \<comment> \<open>\<open>\b\<close> between the previous character, if any, and the next one.\<close>
  "word_boundary before c \<longleftrightarrow>
     is_word c \<noteq> (case before of None \<Rightarrow> False | Some b \<Rightarrow> is_word b)"

definition run_ge :: "(char \<Rightarrow> bool) \<Rightarrow> nat \<Rightarrow> string \<Rightarrow> bool" where
  "run_ge cls n s \<longleftrightarrow> n \<le> length (takeWhile cls s)"

section \<open>The patterns\<close>

definition assignment_words :: "string list" where
  "assignment_words = [''api_key'', ''api-key'', ''apikey'', ''client_secret'', ''secret'',
     ''access_token'', ''refresh_token'', ''auth_token'', ''token'', ''password'', ''passwd'',
     ''pwd'']"

definition assignment_tail :: "string \<Rightarrow> bool" where
  "assignment_tail s = (case dropWhile is_space s of [] \<Rightarrow> False | c # _ \<Rightarrow> c = CHR ''='' \<or> c = CHR '':'')"

definition assignment_at :: "string \<Rightarrow> string option" where
  "assignment_at s =
     find (\<lambda>w. startswith s w \<and> assignment_tail (drop (length w) s)) assignment_words"

fun assignment_search :: "char option \<Rightarrow> string \<Rightarrow> string option" where
  "assignment_search before [] = None"
| "assignment_search before (c # cs) =
     (case (if word_boundary before c then assignment_at (c # cs) else None) of
        Some w \<Rightarrow> Some w
      | None \<Rightarrow> assignment_search (Some c) cs)"

definition bearer_at :: "string \<Rightarrow> bool" where
  "bearer_at s \<longleftrightarrow>
     (startswith s ''authorization'' \<and>
        (case dropWhile is_space (drop 13 s) of
           [] \<Rightarrow> False
         | c # rest \<Rightarrow> c = CHR '':'' \<and>
             (let t = dropWhile is_space rest in
                startswith t ''bearer'' \<and> run_ge is_space 1 (drop 6 t))))
     \<or> startswith s ''bearer'' \<and> run_ge is_space 1 (drop 6 s)"

fun search :: "(string \<Rightarrow> bool) \<Rightarrow> string \<Rightarrow> bool" where
  "search at [] = at []"
| "search at (c # cs) = (at (c # cs) \<or> search at cs)"

definition pem_private_key_markers :: "string list" where
  "pem_private_key_markers = [
     ''-----begin private key'', ''-----begin rsa private key'', ''-----begin ec private key'',
     ''-----begin dsa private key'', ''-----begin openssh private key'',
     ''-----begin pgp private key'', ''-----begin encrypted private key'']"

definition after :: "string list \<Rightarrow> (string \<Rightarrow> bool) \<Rightarrow> string \<Rightarrow> bool" where
  \<comment> \<open>One of the literal prefixes, then the rest.\<close>
  "after ws k s \<longleftrightarrow> list_ex (\<lambda>w. startswith s w \<and> k (drop (length w) s)) ws"

definition jwt_char :: "char \<Rightarrow> bool" where
  "jwt_char c \<longleftrightarrow> is_alnum_lower c \<or> c = CHR ''_'' \<or> c = CHR ''-''"

definition jwt_dot :: "(string \<Rightarrow> bool) \<Rightarrow> string \<Rightarrow> bool" where
  \<comment> \<open>A segment of at least ten characters, a dot, then the rest.\<close>
  "jwt_dot k s \<longleftrightarrow> run_ge jwt_char 10 s \<and>
     (case dropWhile jwt_char s of [] \<Rightarrow> False | c # rest \<Rightarrow> c = CHR ''.'' \<and> k rest)"

definition provider_token_at :: "string \<Rightarrow> bool" where
  "provider_token_at s \<longleftrightarrow>
     after [''ghp_'', ''gho_'', ''ghu_'', ''ghs_'', ''ghr_''] (run_ge is_alnum_lower 20) s
     \<or> after [''github_pat_''] (run_ge (\<lambda>c. is_alnum_lower c \<or> c = CHR ''_'') 20) s
     \<or> after [''xoxa-'', ''xoxb-'', ''xoxp-'', ''xoxr-'', ''xoxs-'']
         (run_ge (\<lambda>c. is_alnum_lower c \<or> c = CHR ''-'') 10) s
     \<or> after [''sk-proj-'', ''sk-ant-''] (run_ge jwt_char 20) s
     \<or> after [''sk_live_'', ''sk_test_'', ''rk_live_'', ''rk_test_''] (run_ge is_alnum_lower 20) s
     \<or> after [''akia''] (run_ge is_alnum_lower 16) s
     \<or> after [''aiza''] (run_ge jwt_char 35) s
     \<or> after [''npm_''] (run_ge is_alnum_lower 30) s
     \<or> after [''ey''] (jwt_dot (jwt_dot (run_ge jwt_char 10))) s"

section \<open>The scanner\<close>

definition find_secret_marker :: "string \<Rightarrow> string option" where
  "find_secret_marker text =
     (if text = [] then None
      else let lowered = casefold text in
        case assignment_search None lowered of
          Some w \<Rightarrow> Some (w @ ''='')
        | None \<Rightarrow>
            if search bearer_at lowered then Some ''bearer-token''
            else case find (contains lowered) pem_private_key_markers of
              Some marker \<Rightarrow> Some marker
            | None \<Rightarrow> if search provider_token_at lowered then Some ''provider-token'' else None)"

definition contains_secret_like_content :: "string \<Rightarrow> bool" where
  "contains_secret_like_content text \<longleftrightarrow> find_secret_marker text \<noteq> None"

section \<open>Detection\<close>

lemma assignment_at_SomeD: "assignment_at s = Some w \<Longrightarrow> w \<in> set assignment_words"
  by (auto simp: assignment_at_def find_Some_iff)

lemma assignment_search_SomeD: "assignment_search before s = Some w \<Longrightarrow> w \<in> set assignment_words"
  by (induction before s rule: assignment_search.induct)
    (auto split: option.splits if_splits dest: assignment_at_SomeD)

lemma assignment_at_hit:
  assumes "w \<in> set assignment_words" and "list_all is_space ws" and "c = CHR ''='' \<or> c = CHR '':''"
  shows "assignment_at (w @ ws @ c # v) \<noteq> None"
proof -
  have "\<not> is_space c" using assms(3) by (auto simp: is_space_def ord_def)
  then have "dropWhile is_space (ws @ c # v) = c # v"
    using assms(2) by (simp add: list_all_iff dropWhile_append2)
  with assms(3) have "startswith (w @ ws @ c # v) w \<and>
      assignment_tail (drop (length w) (w @ ws @ c # v))"
    by (auto simp: assignment_tail_def startswith_def)
  with assms(1) show ?thesis unfolding assignment_at_def find_None_iff by blast
qed

lemma assignment_search_hit:
  assumes "assignment_at s \<noteq> None" and "s \<noteq> []"
    and "word_boundary (if u = [] then before else Some (last u)) (hd s)"
  shows "assignment_search before (u @ s) \<noteq> None"
  using assms
proof (induction u arbitrary: before)
  case Nil
  then show ?case by (cases s) (auto split: option.splits)
next
  case (Cons c u)
  then have "assignment_search (Some c) (u @ s) \<noteq> None" by (cases u) auto
  then show ?case by (auto split: option.splits)
qed

lemma search_hit: "at s \<Longrightarrow> search at (u @ s)"
proof (induction u)
  case Nil
  then show ?case by (cases s) auto
qed auto

lemma search_iff: "search at s \<longleftrightarrow> (\<exists>u v. s = u @ v \<and> at v)"
proof (induction s)
  case (Cons c cs)
  show ?case
  proof
    assume "search at (c # cs)"
    then consider "at (c # cs)" | u v where "cs = u @ v" "at v" using Cons.IH by auto
    then show "\<exists>u v. c # cs = u @ v \<and> at v"
      by cases (metis append_Nil, metis append_Cons)
  next
    assume "\<exists>u v. c # cs = u @ v \<and> at v"
    then show "search at (c # cs)" using search_hit by metis
  qed
qed auto

end
