(* ===== verification/Workspace_Port.thy ===== *)
theory Workspace_Port
  imports Writeback_Contract "HOL-Library.AList"
begin

text \<open>
  The filesystem authority the writeback and recovery services depend on, the protocol
  \<open>V2WorkspacePort\<close> of \<open>contracts/v2_writeback.py\<close>, and its in-memory implementation
  \<open>InMemoryWorkspacePort\<close> of \<open>tools/v2_dispatcher.py\<close>. A port is a record of
  operations over a workspace state \<open>'w\<close>; reads leave the state alone, \<open>apply_plan\<close> and
  \<open>remove_expected\<close> return the new state beside their result. \<open>ContentMismatch\<close> is
  \<open>WorkspaceContentMismatchError\<close>, \<open>PortFault\<close> any other exception.

  The locale \<open>workspace_port\<close> states the protocol's documented promises over the contents
  \<open>view\<close> of the workspace, faults included; \<open>reliable_port\<close> adds that on a path that is
  \<open>ready\<close> an operation whose expectation holds does succeed and keeps every path ready. The clients' lemmas are proved in these locales.
\<close>

section \<open>The protocol\<close>

datatype port_error = ContentMismatch string | PortFault string

record 'w port =
  read_text :: "string \<Rightarrow> 'w \<Rightarrow> port_error + string option"
  file_exists :: "string \<Rightarrow> 'w \<Rightarrow> port_error + bool"
  validate_op :: "write_operation \<Rightarrow> 'w \<Rightarrow> port_error + unit"
  apply_plan :: "planned_write \<Rightarrow> 'w \<Rightarrow> (port_error + unit) \<times> 'w"
  remove_expected :: "string \<Rightarrow> string \<Rightarrow> 'w \<Rightarrow> (port_error + unit) \<times> 'w"

abbreviation plan_path :: "planned_write \<Rightarrow> string" where
  "plan_path pl \<equiv> wo_path (pw_operation pl)"

abbreviation plan_content :: "planned_write \<Rightarrow> string" where
  "plan_content pl \<equiv> wo_content (pw_operation pl)"

definition well_planned :: "planned_write \<Rightarrow> bool" where
  "well_planned pl \<longleftrightarrow> canonical_path (plan_path pl) \<and>
     (wo_action (pw_operation pl) = CREATE \<longleftrightarrow> pw_expected pl = None)"

locale workspace_port =
  fixes P :: "'w port" and view :: "'w \<Rightarrow> string \<Rightarrow> string option"
  assumes read_view: "read_text P p w = Inr x \<Longrightarrow> view w p = x"
    and apply_ok: "well_planned pl \<Longrightarrow> apply_plan P pl w = (Inr (), w') \<Longrightarrow>
      view w (plan_path pl) = pw_expected pl \<and>
      view w' = (view w)(plan_path pl \<mapsto> plan_content pl)"
    and apply_error: "well_planned pl \<Longrightarrow> apply_plan P pl w = (Inl e, w') \<Longrightarrow>
      view w' = view w \<or>
      view w (plan_path pl) = pw_expected pl \<and> view w' = (view w)(plan_path pl \<mapsto> plan_content pl)"
    and remove_ok: "remove_expected P p c w = (Inr (), w') \<Longrightarrow>
      view w p = Some c \<and> view w' = (view w)(p := None)"
    and remove_error: "remove_expected P p c w = (Inl e, w') \<Longrightarrow> view w' = view w"

locale reliable_port = workspace_port P view
  for P :: "'w port" and view :: "'w \<Rightarrow> string \<Rightarrow> string option" +
  fixes ready :: "'w \<Rightarrow> string \<Rightarrow> bool"
  assumes ready_read: "ready w p \<Longrightarrow> read_text P p w = Inr (view w p)"
    and ready_apply: "well_planned pl \<Longrightarrow> ready w (plan_path pl) \<Longrightarrow>
      view w (plan_path pl) = pw_expected pl \<Longrightarrow>
      \<exists>w'. apply_plan P pl w = (Inr (), w') \<and> (\<forall>q. ready w q \<longrightarrow> ready w' q)"
    and ready_remove: "ready w p \<Longrightarrow> view w p = Some c \<Longrightarrow>
      \<exists>w'. remove_expected P p c w = (Inr (), w') \<and> (\<forall>q. ready w q \<longrightarrow> ready w' q)"

lemma entry_plan_well_planned [simp]: "valid_entry e \<Longrightarrow> well_planned (entry_plan e)"
  by (simp add: well_planned_def entry_plan_def entry_op_def valid_entry_def)

section \<open>The in-memory port\<close>

type_synonym files = "(string \<times> string) list"

definition mem_replace :: "string \<Rightarrow> string \<Rightarrow> files \<Rightarrow> files" where
  "mem_replace path content fs = AList.update path content fs"

definition mem_read_text :: "string \<Rightarrow> files \<Rightarrow> port_error + string option" where
  "mem_read_text path fs = Inr (map_of fs path)"

definition mem_exists :: "string \<Rightarrow> files \<Rightarrow> port_error + bool" where
  "mem_exists path fs = Inr (map_of fs path \<noteq> None)"

definition mem_validate :: "write_operation \<Rightarrow> files \<Rightarrow> port_error + unit" where
  "mem_validate op fs =
     (if wo_action op = CREATE \<and> map_of fs (wo_path op) \<noteq> None
        then Inl (PortFault ''CREATE target already exists'')
      else if wo_action op = REPLACE \<and> map_of fs (wo_path op) = None
        then Inl (PortFault ''REPLACE target does not exist'')
      else Inr ())"

definition mem_apply :: "planned_write \<Rightarrow> files \<Rightarrow> (port_error + unit) \<times> files" where
  "mem_apply pl fs =
     (case mem_validate (pw_operation pl) fs of
        Inl e \<Rightarrow> (Inl e, fs)
      | Inr _ \<Rightarrow>
          if wo_action (pw_operation pl) = REPLACE \<and> map_of fs (plan_path pl) \<noteq> pw_expected pl
            then (Inl (ContentMismatch ''target changed after preflight; refusing to overwrite''), fs)
          else (Inr (), mem_replace (plan_path pl) (plan_content pl) fs))"

definition mem_remove_expected :: "string \<Rightarrow> string \<Rightarrow> files \<Rightarrow> (port_error + unit) \<times> files" where
  "mem_remove_expected path expected fs =
     (if map_of fs path \<noteq> Some expected
        then (Inl (ContentMismatch ''target changed after observation; refusing to remove''), fs)
      else (Inr (), AList.delete path fs))"

definition memory_port :: "files port" where
  "memory_port = \<lparr>read_text = mem_read_text, file_exists = mem_exists, validate_op = mem_validate,
     apply_plan = mem_apply, remove_expected = mem_remove_expected\<rparr>"

lemmas memory_port_defs =
  memory_port_def mem_read_text_def mem_validate_def mem_apply_def mem_remove_expected_def mem_replace_def

interpretation memory: reliable_port memory_port map_of "\<lambda>_ _. True"
proof
  fix pl :: planned_write and w w' :: files and e :: port_error and p c :: string
  show "read_text memory_port p w = Inr x \<Longrightarrow> map_of w p = x" for x
    by (simp add: memory_port_defs)
  show "well_planned pl \<Longrightarrow> apply_plan memory_port pl w = (Inr (), w') \<Longrightarrow>
      map_of w (plan_path pl) = pw_expected pl \<and> map_of w' = (map_of w)(plan_path pl \<mapsto> plan_content pl)"
    by (cases "wo_action (pw_operation pl)")
      (auto simp: memory_port_defs well_planned_def update_conv' split: if_splits)
  show "well_planned pl \<Longrightarrow> apply_plan memory_port pl w = (Inl e, w') \<Longrightarrow>
      map_of w' = map_of w \<or> map_of w (plan_path pl) = pw_expected pl \<and>
      map_of w' = (map_of w)(plan_path pl \<mapsto> plan_content pl)"
    by (auto simp: memory_port_defs split: if_splits)
  show "remove_expected memory_port p c w = (Inr (), w') \<Longrightarrow>
      map_of w p = Some c \<and> map_of w' = (map_of w)(p := None)"
    by (auto simp: memory_port_defs delete_conv' split: if_splits)
  show "remove_expected memory_port p c w = (Inl e, w') \<Longrightarrow> map_of w' = map_of w"
    by (auto simp: memory_port_defs split: if_splits)
  show "read_text memory_port p w = Inr (map_of w p)" by (simp add: memory_port_defs)
  show "well_planned pl \<Longrightarrow> map_of w (plan_path pl) = pw_expected pl \<Longrightarrow>
      \<exists>w'. apply_plan memory_port pl w = (Inr (), w') \<and> (\<forall>q. True \<longrightarrow> True)"
    by (cases "wo_action (pw_operation pl)") (auto simp: memory_port_defs well_planned_def)
  show "map_of w p = Some c \<Longrightarrow>
      \<exists>w'. remove_expected memory_port p c w = (Inr (), w') \<and> (\<forall>q. True \<longrightarrow> True)"
    by (simp add: memory_port_defs)
qed

end
