(* ===== verification/Workspace_Disk.thy ===== *)
theory Workspace_Disk
  imports Workspace_Port Relaxed_Policy
begin

text \<open>
  The real path boundary, \<open>workspace/v2_boundary.py\<close>, and the local-disk port built on it,
  \<open>workspace/v2_disk.py\<close>.

  The disk below the workspace root is a map from component lists to objects; a regular file
  holds its decoded text or \<open>None\<close> when its bytes are not UTF-8. \<open>Link\<close> is a symbolic
  link or any Windows reparse point. \<open>os.lstat\<close> walks the components: a missing one gives
  \<open>FileNotFoundError\<close>, one that is not a directory another \<open>OSError\<close>, and
  \<open>stat_fault\<close> is the set of paths the operating system refuses to inspect. \<open>read_fault\<close>
  is the set of files whose bytes cannot be read. Every mutation consumes one element of
  \<open>faults\<close>: where \<open>apply\<close> fails, if it does, and whether the clean-up of the temporary file
  (whose \<open>OSError\<close> the code suppresses) succeeds. A temporary name is drawn by
  \<open>uuid4\<close> and never one of the workspace's own paths; the temporaries left behind are counted
  in \<open>orphans\<close>, beside the tree. \<open>fsync\<close> has no effect on the contents.

  \<open>Path.resolve\<close> is the parameter \<open>resolver\<close> of \<open>Relaxed_Policy\<close>; nothing is assumed
  of it.
\<close>

section \<open>The disk\<close>

datatype node = Dir | Reg "string option" | Link | Other

datatype stat_result = Found node | NotFound | OsError

datatype apply_fault = Healthy | TempFault | PublishFault | UnlinkFault

record disk =
  tree :: "string list \<Rightarrow> node option"
  root_is_dir :: bool
  stat_fault :: "string list \<Rightarrow> bool"
  read_fault :: "string list \<Rightarrow> bool"
  faults :: "(apply_fault \<times> bool) list"
  orphans :: nat

record boundary =
  is_windows :: bool
  bd_root :: "string list"
  bd_resolve :: resolver

definition blocks_walk :: "node option \<Rightarrow> stat_result option" where
  "blocks_walk n = (case n of None \<Rightarrow> Some NotFound | Some Dir \<Rightarrow> None | Some _ \<Rightarrow> Some OsError)"

text \<open>The walk from directory \<open>here\<close> along \<open>parts\<close>.\<close>

fun walk :: "(string list \<Rightarrow> node option) \<Rightarrow> string list \<Rightarrow> string list \<Rightarrow> stat_result" where
  "walk t here [] = (case t here of None \<Rightarrow> NotFound | Some n \<Rightarrow> Found n)"
| "walk t here [c] = (case t (here @ [c]) of None \<Rightarrow> NotFound | Some n \<Rightarrow> Found n)"
| "walk t here (c # d # cs) =
     (case blocks_walk (t (here @ [c])) of
        Some r \<Rightarrow> r
      | None \<Rightarrow> walk t (here @ [c]) (d # cs))"

definition lstat :: "disk \<Rightarrow> string list \<Rightarrow> stat_result" where
  "lstat w parts = (if stat_fault w parts then OsError else walk (tree w) [] parts)"

section \<open>The boundary\<close>

definition dos_reserved_stems :: "string list" where
  "dos_reserved_stems =
     [''con'', ''prn'', ''aux'', ''nul''] @
     map (\<lambda>d. ''com'' @ [d]) ''123456789'' @ map (\<lambda>d. ''lpt'' @ [d]) ''123456789''"

definition rstrip_dots :: "string \<Rightarrow> string" where
  "rstrip_dots s = rev (dropWhile (\<lambda>c. c = CHR '' '' \<or> c = CHR ''.'') (rev s))"

fun check_components :: "boundary \<Rightarrow> string list \<Rightarrow> py_error + unit" where
  "check_components B [] = Inr ()"
| "check_components B (part # parts) =
     (if list_ex (\<lambda>c. ord c < 0x20) part
        then Inl (ValueError ''path must not contain control characters'')
      else if is_windows B \<and> part \<noteq> rstrip_dots part
        then Inl (ValueError ''component ends with a dot or space that Win32 would strip'')
      else if is_windows B \<and> casefold (hd (split_on CHR ''.'' part)) \<in> set dos_reserved_stems
        then Inl (ValueError ''component is a reserved device name'')
      else check_components B parts)"

definition bd_canonical_relative :: "boundary \<Rightarrow> string \<Rightarrow> py_error + string list" where
  "bd_canonical_relative B path =
     (if path = [] then Inl (ValueError ''path must be a non-empty string'')
      else if CHR 0x00 \<in> set path \<or> CHR 0x0D \<in> set path \<or> CHR 0x0A \<in> set path
        then Inl (ValueError ''path must not contain control characters'')
      else if CHR 0x5C \<in> set path then Inl (ValueError ''path must use / separators only'')
      else if CHR '':'' \<in> set path
        then Inl (ValueError ''path must not contain a drive or stream separator'')
      else if startswith path ''/'' then Inl (ValueError ''path must be relative, not absolute'')
      else if list_ex bad_segment (split_on CHR ''/'' path)
        then Inl (ValueError ''path must be canonical: no empty, ., or .. segments'')
      else rbind (check_components B (split_on CHR ''/'' path)) (\<lambda>_. Inr (posix_parts path)))"

definition is_reparse_or_link :: "disk \<Rightarrow> string list \<Rightarrow> bool" where
  "is_reparse_or_link w parts \<longleftrightarrow> lstat w parts = Found Link"

definition resolve_path :: "boundary \<Rightarrow> string \<Rightarrow> disk \<Rightarrow> py_error + string list" where
  \<comment> \<open>The components of \<open>ResolvedPathV2.absolute\<close> below the root.\<close>
  "resolve_path B path w =
     rbind (bd_canonical_relative B path) (\<lambda>parts.
       if \<not> root_is_dir w
         then Inl (ValueError ''workspace root is not an existing directory'')
       else if list_ex (\<lambda>i. is_reparse_or_link w (take i parts)) [1..<Suc (length parts)]
         then Inl (ValueError ''path passes through a link or reparse point'')
       else (case (bd_resolve B (bd_root B), bd_resolve B (bd_root B @ parts)) of
               (Some root, Some target) \<Rightarrow>
                 if prefix root target then Inr parts
                 else Inl (ValueError ''path escapes the workspace'')
             | _ \<Rightarrow> Inl (ValueError ''path could not be resolved'')))"

definition check_read :: "boundary \<Rightarrow> string \<Rightarrow> disk \<Rightarrow> py_error + string list option" where
  "check_read B path w =
     rbind (resolve_path B path w) (\<lambda>parts.
       case lstat w parts of
         NotFound \<Rightarrow> Inr None
       | OsError \<Rightarrow> Inl (ValueError ''target is unreadable'')
       | Found (Reg _) \<Rightarrow> Inr (Some parts)
       | Found _ \<Rightarrow> Inl (ValueError ''target is not a regular file''))"

definition check_write_target ::
  "boundary \<Rightarrow> string \<Rightarrow> write_action \<Rightarrow> disk \<Rightarrow> py_error + string list" where
  "check_write_target B path atype w =
     rbind (resolve_path B path w) (\<lambda>parts.
       case lstat w (butlast parts) of
         Found Dir \<Rightarrow>
           (case lstat w parts of
              NotFound \<Rightarrow>
                if atype = REPLACE then Inl (ValueError ''REPLACE target does not exist'')
                else Inr parts
            | OsError \<Rightarrow> Inl (ValueError ''target is unreadable'')
            | Found n \<Rightarrow>
                if atype = CREATE then Inl (ValueError ''CREATE target already exists'')
                else (case n of Reg _ \<Rightarrow> Inr parts
                      | _ \<Rightarrow> Inl (ValueError ''REPLACE target is not a regular file'')))
       | Found _ \<Rightarrow> Inl (ValueError ''parent is not a directory'')
       | _ \<Rightarrow> Inl (ValueError ''parent directory is missing or unreadable''))"

definition recheck_before_mutation ::
  "boundary \<Rightarrow> string list \<Rightarrow> write_action \<Rightarrow> disk \<Rightarrow> py_error + unit" where
  "recheck_before_mutation B parts atype w =
     rbind (check_write_target B (join_on CHR ''/'' parts) atype w) (\<lambda>_. Inr ())"

section \<open>The local-disk port\<close>

fun fault_of :: "py_error + 'a \<Rightarrow> port_error + 'a" where
  "fault_of (Inr x) = Inr x"
| "fault_of (Inl (ValueError m)) = Inl (PortFault m)"
| "fault_of (Inl e) = Inl (PortFault ''invalid value'')"

definition read_bytes :: "disk \<Rightarrow> string list \<Rightarrow> string option" where
  \<comment> \<open>\<open>read_bytes().decode("utf-8")\<close>; None is a raised \<open>OSError\<close> or \<open>UnicodeDecodeError\<close>.\<close>
  "read_bytes w parts =
     (if read_fault w parts then None
      else (case walk (tree w) [] parts of Found (Reg x) \<Rightarrow> x | _ \<Rightarrow> None))"

definition disk_read_text :: "boundary \<Rightarrow> string \<Rightarrow> disk \<Rightarrow> port_error + string option" where
  "disk_read_text B path w =
     rbind (fault_of (check_read B path w)) (\<lambda>r.
       case r of
         None \<Rightarrow> Inr None
       | Some parts \<Rightarrow>
           (case read_bytes w parts of
              None \<Rightarrow> Inl (PortFault ''file could not be read'')
            | Some text \<Rightarrow> Inr (Some text)))"

definition disk_exists :: "boundary \<Rightarrow> string \<Rightarrow> disk \<Rightarrow> port_error + bool" where
  "disk_exists B path w = rbind (fault_of (check_read B path w)) (\<lambda>r. Inr (r \<noteq> None))"

definition disk_validate :: "boundary \<Rightarrow> write_operation \<Rightarrow> disk \<Rightarrow> port_error + unit" where
  "disk_validate B op w =
     rbind (fault_of (check_write_target B (wo_path op) (wo_action op) w)) (\<lambda>_. Inr ())"

definition verify_expected_original :: "string list \<Rightarrow> string option \<Rightarrow> disk \<Rightarrow> port_error + unit" where
  "verify_expected_original parts expected w =
     (case read_bytes w parts of
        None \<Rightarrow> Inl (ContentMismatch ''target could not be compared before replacement'')
      | Some current \<Rightarrow>
          if Some current \<noteq> expected
            then Inl (ContentMismatch ''target changed after preflight; refusing to overwrite'')
          else Inr ())"

definition publish :: "string list \<Rightarrow> string \<Rightarrow> disk \<Rightarrow> disk" where
  "publish parts content w = w\<lparr>tree := (tree w)(parts \<mapsto> Reg (Some content))\<rparr>"

definition drop_temp :: "bool \<Rightarrow> disk \<Rightarrow> disk" where
  \<comment> \<open>\<open>with suppress(OSError): os.unlink(temp)\<close>.\<close>
  "drop_temp cleaned w = (if cleaned then w else w\<lparr>orphans := Suc (orphans w)\<rparr>)"

text \<open>
  The guarded part of \<open>apply\<close> after the temporary file is written: the recheck, the
  comparison of a REPLACE and the publication, on whatever the disk holds by then.
\<close>

definition disk_publish ::
  "boundary \<Rightarrow> planned_write \<Rightarrow> string list \<Rightarrow> apply_fault \<Rightarrow> bool \<Rightarrow> disk \<Rightarrow> (port_error + unit) \<times> disk" where
  "disk_publish B pl parts fault cleaned w =
     (let a = wo_action (pw_operation pl); c = plan_content pl in
      case fault_of (recheck_before_mutation B parts a w) of
        Inl e \<Rightarrow> (Inl e, drop_temp cleaned w)
      | Inr _ \<Rightarrow>
          if a = CREATE then
            (if fault = PublishFault then (Inl (PortFault ''os.link failed''), drop_temp cleaned w)
             else if fault = UnlinkFault
               then (Inl (PortFault ''os.unlink failed''), drop_temp cleaned (publish parts c w))
             else (Inr (), publish parts c w))
          else (case verify_expected_original parts (pw_expected pl) w of
              Inl e \<Rightarrow> (Inl e, drop_temp cleaned w)
            | Inr _ \<Rightarrow>
                if fault = PublishFault
                  then (Inl (PortFault ''os.replace failed''), drop_temp cleaned w)
                else (Inr (), publish parts c w)))"

definition next_fault :: "disk \<Rightarrow> (apply_fault \<times> bool) \<times> disk" where
  "next_fault w =
     (case faults w of [] \<Rightarrow> ((Healthy, True), w) | f # fs \<Rightarrow> (f, w\<lparr>faults := fs\<rparr>))"

definition disk_apply :: "boundary \<Rightarrow> planned_write \<Rightarrow> disk \<Rightarrow> (port_error + unit) \<times> disk" where
  "disk_apply B pl w0 =
     (case next_fault w0 of
        ((fault, cleaned), w) \<Rightarrow>
          (case fault_of (check_write_target B (plan_path pl) (wo_action (pw_operation pl)) w) of
             Inl e \<Rightarrow> (Inl e, w)
           | Inr parts \<Rightarrow>
               if fault = TempFault
                 then (Inl (PortFault ''temporary file could not be written''), drop_temp cleaned w)
               else disk_publish B pl parts fault cleaned w))"

definition disk_remove_expected ::
  "boundary \<Rightarrow> string \<Rightarrow> string \<Rightarrow> disk \<Rightarrow> (port_error + unit) \<times> disk" where
  "disk_remove_expected B path expected w0 =
     (case next_fault w0 of
        ((fault, _), w) \<Rightarrow>
          (case fault_of (check_read B path w) of
             Inl e \<Rightarrow> (Inl e, w)
           | Inr None \<Rightarrow> (Inl (ContentMismatch ''target is absent; refusing to remove''), w)
           | Inr (Some parts) \<Rightarrow>
               (case read_bytes w parts of
                  None \<Rightarrow> (Inl (ContentMismatch ''target could not be compared before removal''), w)
                | Some current \<Rightarrow>
                    if current \<noteq> expected
                      then (Inl (ContentMismatch
                              ''target changed after observation; refusing to remove''), w)
                    else if fault \<noteq> Healthy then (Inl (PortFault ''unlink failed''), w)
                    else (Inr (), w\<lparr>tree := (tree w)(parts := None)\<rparr>))))"

definition disk_port :: "boundary \<Rightarrow> disk port" where
  "disk_port B = \<lparr>read_text = disk_read_text B, file_exists = disk_exists B,
     validate_op = disk_validate B, apply_plan = disk_apply B,
     remove_expected = disk_remove_expected B\<rparr>"

text \<open>The text contents of the workspace: what each path names, read without faults.\<close>

definition disk_view :: "disk \<Rightarrow> string \<Rightarrow> string option" where
  "disk_view w path =
     (case walk (tree w) [] (split_on CHR ''/'' path) of Found (Reg x) \<Rightarrow> x | _ \<Rightarrow> None)"


section \<open>Walking the tree\<close>

definition real_parents :: "(string list \<Rightarrow> node option) \<Rightarrow> string list \<Rightarrow> bool" where
  "real_parents t parts \<longleftrightarrow> (\<forall>i. 0 < i \<and> i < length parts \<longrightarrow> t (take i parts) = Some Dir)"

definition text_of :: "stat_result \<Rightarrow> string option" where
  "text_of r = (case r of Found (Reg x) \<Rightarrow> x | _ \<Rightarrow> None)"

lemma text_of_simps [simp]:
  "text_of NotFound = None" "text_of OsError = None" "text_of (Found (Reg x)) = x"
  by (simp_all add: text_of_def)

lemma text_of_eq_Some: "text_of r = Some x \<longleftrightarrow> r = Found (Reg (Some x))"
  by (auto simp: text_of_def split: stat_result.splits node.splits)

lemma disk_view_eq: "disk_view w path = text_of (walk (tree w) [] (split_on CHR ''/'' path))"
  by (simp add: disk_view_def text_of_def)

lemma blocks_walk_Dir [simp]: "blocks_walk (Some Dir) = None"
  by (simp add: blocks_walk_def)

lemma blocks_walk_None [simp]: "blocks_walk n = None \<longleftrightarrow> n = Some Dir"
  by (auto simp: blocks_walk_def split: option.splits node.splits)

lemma blocks_walk_Some: "blocks_walk n = Some r \<Longrightarrow> r = NotFound \<or> r = OsError"
  by (auto simp: blocks_walk_def split: option.splits node.splits)

lemma walk_Found:
  "parts \<noteq> [] \<Longrightarrow> walk t here parts = Found n \<longleftrightarrow>
     t (here @ parts) = Some n \<and>
     (\<forall>i. 0 < i \<and> i < length parts \<longrightarrow> t (here @ take i parts) = Some Dir)"
proof (induction t here parts rule: walk.induct)
  case (3 t here c d cs)
  have split: "(\<forall>i. 0 < i \<and> i < length (c # d # cs) \<longrightarrow> t (here @ take i (c # d # cs)) = Some Dir) \<longleftrightarrow>
      t (here @ [c]) = Some Dir \<and>
      (\<forall>i. 0 < i \<and> i < length (d # cs) \<longrightarrow> t ((here @ [c]) @ take i (d # cs)) = Some Dir)"
    (is "(\<forall>i. 0 < i \<and> i < _ \<longrightarrow> ?P i) \<longleftrightarrow> _ \<and> (\<forall>i. 0 < i \<and> i < _ \<longrightarrow> ?Q i)")
  proof (intro iffI conjI allI impI)
    assume all: "\<forall>i. 0 < i \<and> i < length (c # d # cs) \<longrightarrow> ?P i"
    from all [rule_format, of 1] show "t (here @ [c]) = Some Dir" by simp
    show "?Q i" if "0 < i \<and> i < length (d # cs)" for i
      using all [rule_format, of "Suc i"] that by simp
  next
    fix i
    assume Q: "t (here @ [c]) = Some Dir \<and> (\<forall>i. 0 < i \<and> i < length (d # cs) \<longrightarrow> ?Q i)"
      and i: "0 < i \<and> i < length (c # d # cs)"
    then obtain j where "i = Suc j" by (cases i) auto
    with Q i show "?P i" by (cases "j = 0") auto
  qed
  show ?case
  proof (cases "t (here @ [c]) = Some Dir")
    case True
    then have "walk t here (c # d # cs) = walk t (here @ [c]) (d # cs)" by (simp add: blocks_walk_def)
    with 3 True show ?thesis unfolding split by simp
  next
    case False
    then obtain r where "blocks_walk (t (here @ [c])) = Some r" by (cases "blocks_walk (t (here @ [c]))") auto
    with False show ?thesis unfolding split by (auto dest: blocks_walk_Some)
  qed
qed (auto split: option.splits)

lemma walk_root_Found:
  "parts \<noteq> [] \<Longrightarrow> walk t [] parts = Found n \<longleftrightarrow> t parts = Some n \<and> real_parents t parts"
  by (simp add: walk_Found real_parents_def)

lemma real_parents_self: "real_parents (t(qs := v)) qs = real_parents t qs"
proof -
  have "(t(qs := v)) (take i qs) = t (take i qs)" if "i < length qs" for i
  proof -
    from that have "length (take i qs) \<noteq> length qs" by simp
    then have "take i qs \<noteq> qs" by metis
    then show ?thesis by (rule fun_upd_other)
  qed
  then show ?thesis unfolding real_parents_def by presburger
qed

text \<open>
  Changing one object that is no directory into another one changes the text of exactly that path.
\<close>

definition node_text :: "node option \<Rightarrow> string option" where
  "node_text v = (case v of Some (Reg x) \<Rightarrow> x | _ \<Rightarrow> None)"

lemma node_text_simps [simp]: "node_text None = None" "node_text (Some (Reg x)) = x"
  by (simp_all add: node_text_def)

lemma node_text_eq_Some: "node_text v = Some x \<longleftrightarrow> v = Some (Reg (Some x))"
  by (auto simp: node_text_def split: option.splits node.splits)

lemma option_ext: "(\<And>x. a = Some x \<longleftrightarrow> b = Some x) \<Longrightarrow> a = b"
  by (metis not_None_eq)

lemma text_of_walk:
  "parts \<noteq> [] \<Longrightarrow> text_of (walk t [] parts) = (if real_parents t parts then node_text (t parts) else None)"
  by (rule option_ext) (auto simp: text_of_eq_Some walk_root_Found node_text_eq_Some)

lemma real_parents_update:
  assumes "qs \<noteq> parts" and "t parts \<noteq> Some Dir" and "v \<noteq> Some Dir"
  shows "real_parents (t(parts := v)) qs = real_parents t qs"
proof -
  have "(t(parts := v)) (take i qs) = Some Dir \<longleftrightarrow> t (take i qs) = Some Dir" for i
    using assms(2,3) by simp
  then show ?thesis unfolding real_parents_def by blast
qed

lemma text_update:
  assumes "qs \<noteq> []" and "parts \<noteq> []" and "t parts \<noteq> Some Dir" and "v \<noteq> Some Dir"
  shows "text_of (walk (t(parts := v)) [] qs) =
    (if qs = parts then (if real_parents t parts then node_text v else None)
     else text_of (walk t [] qs))"
  using assms by (simp add: text_of_walk real_parents_update real_parents_self)

section \<open>What the boundary guarantees\<close>

lemma bd_canonical_relative_Inr:
  assumes "bd_canonical_relative B path = Inr parts"
  shows "parts = split_on CHR ''/'' path"
proof -
  have "\<not> list_ex bad_segment (split_on CHR ''/'' path)" and "parts = posix_parts path"
    using assms unfolding bd_canonical_relative_def guard_eq_Inr by auto
  then show ?thesis by (simp add: posix_parts_def filter_parts_id)
qed

lemma link_free_iff:
  "\<not> list_ex (\<lambda>i. is_reparse_or_link w (take i parts)) [1..<Suc (length parts)] \<longleftrightarrow>
     (\<forall>i. 0 < i \<and> i \<le> length parts \<longrightarrow> lstat w (take i parts) \<noteq> Found Link)"
proof -
  have "i \<in> set [1..<Suc (length parts)] \<longleftrightarrow> 0 < i \<and> i \<le> length parts" for i by auto
  then show ?thesis unfolding list_ex_iff is_reparse_or_link_def by blast
qed

lemma resolve_path_iff:
  "resolve_path B path w = Inr parts \<longleftrightarrow>
     bd_canonical_relative B path = Inr parts \<and> root_is_dir w \<and>
     (\<forall>i. 0 < i \<and> i \<le> length parts \<longrightarrow> lstat w (take i parts) \<noteq> Found Link) \<and>
     (\<exists>root target. bd_resolve B (bd_root B) = Some root \<and>
        bd_resolve B (bd_root B @ parts) = Some target \<and> prefix root target)"
proof -
  have K: "(case (r, t) of (Some root, Some target) \<Rightarrow> if prefix root target then Inr parts' else Inl e
           | _ \<Rightarrow> Inl e') = Inr parts \<longleftrightarrow>
      parts' = parts \<and> (\<exists>root target. r = Some root \<and> t = Some target \<and> prefix root target)"
    for r t :: "string list option" and parts' and e e' :: py_error
    by (auto split: option.splits if_splits)
  have one_point: "(\<exists>x. A x \<and> b \<and> C x \<and> x = a \<and> D x) \<longleftrightarrow> A a \<and> b \<and> C a \<and> D a"
    for A C D :: "string list \<Rightarrow> bool" and a b by blast
  show ?thesis
    unfolding resolve_path_def rbind_eq_Inr guard_eq_Inr link_free_iff not_not K
    by (rule one_point)
qed

lemma resolve_path_Inr:
  assumes "resolve_path B path w = Inr parts"
  shows "parts = split_on CHR ''/'' path" and "root_is_dir w"
    and "\<And>i. 0 < i \<Longrightarrow> i \<le> length parts \<Longrightarrow> lstat w (take i parts) \<noteq> Found Link"
  using assms bd_canonical_relative_Inr unfolding resolve_path_iff by blast+

lemma lstat_walk: "lstat w parts \<noteq> OsError \<Longrightarrow> walk (tree w) [] parts = lstat w parts"
  by (simp add: lstat_def split: if_splits)

lemma check_read_Inr:
  assumes "check_read B path w = Inr r"
  shows "r = None \<and> walk (tree w) [] (split_on CHR ''/'' path) = NotFound \<or>
    (\<exists>x. r = Some (split_on CHR ''/'' path) \<and>
       walk (tree w) [] (split_on CHR ''/'' path) = Found (Reg x))"
proof -
  obtain parts where p: "resolve_path B path w = Inr parts" using assms by (auto simp: check_read_def)
  note split = resolve_path_Inr(1) [OF p]
  show ?thesis
  proof (cases "lstat w parts")
    case (Found n)
    with assms p split lstat_walk [of w parts] show ?thesis by (cases n) (auto simp: check_read_def)
  qed (use assms p split lstat_walk [of w parts] in \<open>auto simp: check_read_def\<close>)
qed

lemma check_write_target_lstat:
  assumes "check_write_target B path a w = Inr parts"
  shows "resolve_path B path w = Inr parts" and "lstat w (butlast parts) = Found Dir"
    and "a = CREATE \<and> lstat w parts = NotFound \<or> a = REPLACE \<and> (\<exists>x. lstat w parts = Found (Reg x))"
proof -
  obtain qs where q: "resolve_path B path w = Inr qs" using assms by (auto simp: check_write_target_def)
  have dir: "lstat w (butlast qs) = Found Dir"
    using assms q by (auto simp: check_write_target_def split: stat_result.splits node.splits)
  have "parts = qs \<and>
    (a = CREATE \<and> lstat w qs = NotFound \<or> a = REPLACE \<and> (\<exists>x. lstat w qs = Found (Reg x)))"
  proof (cases "lstat w qs")
    case (Found n)
    with assms q dir show ?thesis by (cases n; cases a) (auto simp: check_write_target_def)
  qed (use assms q dir in \<open>cases a; auto simp: check_write_target_def\<close>)+
  with q dir show "resolve_path B path w = Inr parts" "lstat w (butlast parts) = Found Dir"
    "a = CREATE \<and> lstat w parts = NotFound \<or> a = REPLACE \<and> (\<exists>x. lstat w parts = Found (Reg x))"
    by auto
qed

lemma check_write_target_Inr:
  assumes "check_write_target B path a w = Inr parts"
  shows "parts = split_on CHR ''/'' path" and "walk (tree w) [] (butlast parts) = Found Dir"
    and "a = CREATE \<Longrightarrow> walk (tree w) [] parts = NotFound"
    and "a = REPLACE \<Longrightarrow> \<exists>x. walk (tree w) [] parts = Found (Reg x)"
  using check_write_target_lstat [OF assms] resolve_path_Inr(1) lstat_walk by force+

lemma real_parents_butlast:
  assumes "parts \<noteq> []" and "walk t [] (butlast parts) = Found Dir"
  shows "real_parents t parts"
proof (cases "butlast parts = []")
  case True
  then have "length parts \<le> 1" by (metis One_nat_def diff_is_0_eq length_butlast list.size(3))
  then have "\<not> (0 < i \<and> i < length parts)" for i by linarith
  then show ?thesis unfolding real_parents_def by blast
next
  case False
  with assms(2) have d: "t (butlast parts) = Some Dir" "real_parents t (butlast parts)"
    by (simp_all add: walk_root_Found)
  have "t (take i parts) = Some Dir" if i: "0 < i" "i < length parts" for i
  proof (cases "i = length parts - 1")
    case True
    with d(1) show ?thesis by (simp add: butlast_conv_take)
  next
    case False
    with i have "i < length (butlast parts)" by simp
    moreover from this have "take i (butlast parts) = take i parts"
      by (simp add: take_butlast)
    ultimately show ?thesis using d(2) i(1) unfolding real_parents_def by metis
  qed
  then show ?thesis by (simp add: real_parents_def)
qed

lemma walk_not_Dir:
  assumes "parts \<noteq> []" and "real_parents t parts"
    and "walk t [] parts = NotFound \<or> walk t [] parts = Found (Reg x)"
  shows "t parts \<noteq> Some Dir"
  using assms walk_root_Found [of parts t Dir] by auto

lemma publish_view:
  assumes "check_write_target B path a w = Inr parts"
  shows "disk_view (publish parts c w) = (disk_view w)(path \<mapsto> c)"
proof
  fix q
  have parts: "parts = split_on CHR ''/'' path" and ne: "parts \<noteq> []"
    using check_write_target_Inr(1) [OF assms] by simp_all
  have rp: "real_parents (tree w) parts"
    using ne check_write_target_Inr(2) [OF assms] by (rule real_parents_butlast)
  have "\<exists>x. walk (tree w) [] parts = NotFound \<or> walk (tree w) [] parts = Found (Reg x)"
    using check_write_target_Inr(3,4) [OF assms] by (cases a) auto
  then have "tree w parts \<noteq> Some Dir" using walk_not_Dir [OF ne rp] by blast
  then show "disk_view (publish parts c w) q = ((disk_view w)(path \<mapsto> c)) q"
    using ne rp parts by (auto simp: disk_view_eq publish_def text_update split_on_inj)
qed

lemma fault_of_Inr [simp]: "fault_of m = Inr x \<longleftrightarrow> m = Inr x"
  by (cases m rule: fault_of.cases) auto

lemma disk_view_more [simp]:
  "disk_view (drop_temp b w) = disk_view w" "disk_view (w\<lparr>faults := fs\<rparr>) = disk_view w"
  "disk_view (w\<lparr>orphans := n\<rparr>) = disk_view w"
  by (auto simp: disk_view_def drop_temp_def)

lemma next_fault_view: "next_fault w0 = (f, w) \<Longrightarrow> disk_view w = disk_view w0"
  by (auto simp: next_fault_def split: list.splits)

lemma recheck_Inr:
  "recheck_before_mutation B parts a w = Inr u \<longleftrightarrow>
     (\<exists>x. check_write_target B (join_on CHR ''/'' parts) a w = Inr x)"
  by (simp add: recheck_before_mutation_def)

lemma read_bytes_view:
  "read_bytes w (split_on CHR ''/'' path) = Some x \<Longrightarrow> disk_view w path = Some x"
  by (auto simp: read_bytes_def disk_view_def split: if_splits)

lemma verify_expected_Inr:
  assumes "verify_expected_original (split_on CHR ''/'' path) x w = Inr u"
  shows "x \<noteq> None \<and> disk_view w path = x"
proof -
  obtain c where "read_bytes w (split_on CHR ''/'' path) = Some c" "x = Some c"
    using assms by (auto simp: verify_expected_original_def split: option.splits if_splits)
  then show ?thesis by (simp add: read_bytes_view)
qed

text \<open>
  The guarded publication, on any disk: whatever happened since the first check, either nothing
  changes, or the target held exactly the planned original and now holds the planned content.
\<close>

lemma disk_publish_cases:
  assumes "well_planned pl" and "parts = split_on CHR ''/'' (plan_path pl)"
    and "disk_publish B pl parts fault cleaned w = (r, w')"
  shows "is_ok r \<Longrightarrow> disk_view w (plan_path pl) = pw_expected pl \<and>
      disk_view w' = (disk_view w)(plan_path pl \<mapsto> plan_content pl)"
    and "\<not> is_ok r \<Longrightarrow> disk_view w' = disk_view w \<or> disk_view w (plan_path pl) = pw_expected pl \<and>
      disk_view w' = (disk_view w)(plan_path pl \<mapsto> plan_content pl)"
proof -
  let ?a = "wo_action (pw_operation pl)" and ?p = "plan_path pl" and ?c = "plan_content pl"
  have path: "join_on CHR ''/'' parts = ?p" using assms(2) by simp
  have pub: "disk_view (publish parts ?c w) = (disk_view w)(?p \<mapsto> ?c)"
    if "check_write_target B ?p ?a w = Inr x" for x
    using that publish_view check_write_target_Inr(1) assms(2) by metis
  have create: "disk_view w ?p = pw_expected pl"
    if "check_write_target B ?p ?a w = Inr x" "?a = CREATE" for x
  proof -
    have "disk_view w ?p = None"
      using check_write_target_Inr(1,3) [OF that(1)] that(2) assms(2) by (simp add: disk_view_eq)
    with assms(1) that(2) show ?thesis by (simp add: well_planned_def)
  qed
  have replace: "disk_view w ?p = pw_expected pl"
    if "verify_expected_original parts (pw_expected pl) w = Inr u" for u
    using verify_expected_Inr that assms(2) by metis
  let ?A = "disk_view w ?p = pw_expected pl \<and> disk_view w' = (disk_view w)(?p \<mapsto> ?c)"
  have "if is_ok r then ?A else disk_view w' = disk_view w \<or> ?A"
  proof (cases "fault_of (recheck_before_mutation B parts ?a w)")
    case (Inl e)
    then have "disk_publish B pl parts fault cleaned w = (Inl e, drop_temp cleaned w)"
      by (simp add: disk_publish_def)
    with assms(3) have "r = Inl e" "w' = drop_temp cleaned w" by simp_all
    then show ?thesis by simp
  next
    case (Inr u)
    then obtain x where t: "check_write_target B ?p ?a w = Inr x"
      by (auto simp: recheck_before_mutation_def path)
    show ?thesis
    proof (cases ?a)
      case CREATE
      with assms(3) Inr pub [OF t] create [OF t] show ?thesis
        by (cases fault) (auto simp: disk_publish_def)
    next
      case REPLACE
      let ?v = "verify_expected_original parts (pw_expected pl) w"
      have "disk_publish B pl parts fault cleaned w =
        (case ?v of Inl e \<Rightarrow> (Inl e, drop_temp cleaned w)
         | Inr _ \<Rightarrow> if fault = PublishFault
             then (Inl (PortFault ''os.replace failed''), drop_temp cleaned w)
             else (Inr (), publish parts ?c w))"
        using REPLACE Inr by (simp add: disk_publish_def)
      then consider e where "r = Inl e" "w' = drop_temp cleaned w"
        | u where "?v = Inr u" "w' = publish parts ?c w"
        using assms(3) by (cases ?v) (auto split: if_splits)
      then show ?thesis
        by cases (use pub [OF t] replace in simp_all)
    qed
  qed
  then show "is_ok r \<Longrightarrow> ?A" "\<not> is_ok r \<Longrightarrow> disk_view w' = disk_view w \<or> ?A" by simp_all
qed

lemma disk_apply_cases:
  assumes "disk_apply B pl w0 = (r, w')"
  obtains (refused) "\<not> is_ok r" "disk_view w' = disk_view w0"
  | (published) fault cleaned w where "disk_view w = disk_view w0"
      "disk_publish B pl (split_on CHR ''/'' (plan_path pl)) fault cleaned w = (r, w')"
proof -
  obtain fault cleaned w where f: "next_fault w0 = ((fault, cleaned), w)" by (metis surj_pair)
  note view = next_fault_view [OF f]
  let ?t = "fault_of (check_write_target B (plan_path pl) (wo_action (pw_operation pl)) w)"
  show thesis
  proof (cases ?t)
    case (Inl e)
    with assms f view show thesis by (intro refused) (auto simp: disk_apply_def)
  next
    case (Inr parts)
    then have "parts = split_on CHR ''/'' (plan_path pl)" using check_write_target_Inr(1) by simp
    with assms f view Inr show thesis
      by (cases "fault = TempFault") (auto simp: disk_apply_def intro: refused published)
  qed
qed

lemma disk_remove_Inr:
  assumes "disk_remove_expected B p c w0 = (Inr (), w')"
  shows "disk_view w0 p = Some c" and "disk_view w' = (disk_view w0)(p := None)"
proof -
  obtain fault cleaned w where f: "next_fault w0 = ((fault, cleaned), w)" by (metis surj_pair)
  note view = next_fault_view [OF f]
  let ?ps = "split_on CHR ''/'' p"
  obtain parts where r: "check_read B p w = Inr (Some parts)" and c: "read_bytes w parts = Some c"
    and w': "w' = w\<lparr>tree := (tree w)(parts := None)\<rparr>"
    using assms f
    by (auto simp: disk_remove_expected_def split: sum.splits option.splits if_splits)
  from check_read_Inr [OF r] obtain x where ps: "parts = ?ps" and x: "walk (tree w) [] ?ps = Found (Reg x)"
    by auto
  have now: "disk_view w p = Some c" using read_bytes_view c ps by simp
  with view show "disk_view w0 p = Some c" by simp
  have node: "tree w ?ps = Some (Reg x)" using x by (simp add: walk_root_Found)
  show "disk_view w' = (disk_view w0)(p := None)"
  proof
    show "disk_view w' q = ((disk_view w0)(p := None)) q" for q
      using node ps unfolding view [symmetric] w'
      by (auto simp: disk_view_eq text_update split_on_inj)
  qed
qed

lemma disk_remove_Inl:
  assumes "disk_remove_expected B p c w0 = (Inl e, w')"
  shows "disk_view w' = disk_view w0"
proof -
  obtain fault cleaned w where f: "next_fault w0 = ((fault, cleaned), w)" by (metis surj_pair)
  have "w' = w"
    using assms f
    by (auto simp: disk_remove_expected_def split: sum.splits option.splits if_splits)
  with next_fault_view [OF f] show ?thesis by simp
qed

lemma disk_read_Inr:
  assumes "disk_read_text B p w = Inr x"
  shows "disk_view w p = x"
proof -
  obtain r where r: "check_read B p w = Inr r" using assms by (auto simp: disk_read_text_def)
  from check_read_Inr [OF r] show ?thesis
  proof (elim disjE exE conjE)
    assume "r = None" "walk (tree w) [] (split_on CHR ''/'' p) = NotFound"
    with assms r show ?thesis by (simp add: disk_read_text_def disk_view_eq)
  next
    fix y assume "r = Some (split_on CHR ''/'' p)" "walk (tree w) [] (split_on CHR ''/'' p) = Found (Reg y)"
    with assms r show ?thesis
      by (cases "read_bytes w (split_on CHR ''/'' p)") (auto simp: disk_read_text_def dest: read_bytes_view)
  qed
qed

text \<open>The local disk keeps the protocol's promises, whatever faults it meets.\<close>

interpretation local_disk: workspace_port "disk_port B" disk_view for B
proof
  fix pl :: planned_write and w w' :: disk and e :: port_error and p c :: string
  show "read_text (disk_port B) p w = Inr x \<Longrightarrow> disk_view w p = x" for x
    by (simp add: disk_port_def disk_read_Inr)
  show "disk_view w (plan_path pl) = pw_expected pl \<and>
      disk_view w' = (disk_view w)(plan_path pl \<mapsto> plan_content pl)"
    if wp: "well_planned pl" and ok: "apply_plan (disk_port B) pl w = (Inr (), w')"
  proof -
    from ok have "disk_apply B pl w = (Inr (), w')" by (simp add: disk_port_def)
    then show ?thesis
    proof (cases rule: disk_apply_cases)
      case (published fault cleaned v)
      with disk_publish_cases(1) [OF wp refl published(2)] show ?thesis by simp
    qed simp
  qed
  show "disk_view w' = disk_view w \<or> disk_view w (plan_path pl) = pw_expected pl \<and>
      disk_view w' = (disk_view w)(plan_path pl \<mapsto> plan_content pl)"
    if wp: "well_planned pl" and err: "apply_plan (disk_port B) pl w = (Inl e, w')"
  proof -
    from err have "disk_apply B pl w = (Inl e, w')" by (simp add: disk_port_def)
    then show ?thesis
    proof (cases rule: disk_apply_cases)
      case (published fault cleaned v)
      with disk_publish_cases(2) [OF wp refl published(2)] show ?thesis by simp
    qed simp
  qed
  show "remove_expected (disk_port B) p c w = (Inr (), w') \<Longrightarrow>
      disk_view w p = Some c \<and> disk_view w' = (disk_view w)(p := None)"
    using disk_remove_Inr by (simp add: disk_port_def)
  show "remove_expected (disk_port B) p c w = (Inl e, w') \<Longrightarrow> disk_view w' = disk_view w"
    using disk_remove_Inl by (simp add: disk_port_def)
qed

section \<open>A healthy disk\<close>

text \<open>
  A path is ready when no fault is pending, its boundary check passes, it is absent or a UTF-8
  text, and its parent is a real directory.
\<close>

definition disk_ready :: "boundary \<Rightarrow> disk \<Rightarrow> string \<Rightarrow> bool" where
  "disk_ready B w path \<longleftrightarrow>
     faults w = [] \<and> (\<forall>ps. \<not> stat_fault w ps \<and> \<not> read_fault w ps) \<and>
     is_ok (disk_read_text B path w) \<and> lstat w (butlast (split_on CHR ''/'' path)) = Found Dir"

definition serviceable :: "(string list \<Rightarrow> node option) \<Rightarrow> string list \<Rightarrow> bool" where
  "serviceable t parts \<longleftrightarrow> walk t [] (butlast parts) = Found Dir \<and>
     (t parts = None \<or> (\<exists>x. t parts = Some (Reg (Some x))))"

lemma walk_parents:
  assumes "real_parents t parts" and "parts \<noteq> []"
  shows "walk t [] parts = (case t parts of None \<Rightarrow> NotFound | Some n \<Rightarrow> Found n)"
proof -
  have "\<forall>i. 0 < i \<and> i < length parts \<longrightarrow> t (here @ take i parts) = Some Dir \<Longrightarrow> parts \<noteq> [] \<Longrightarrow>
    walk t here parts = (case t (here @ parts) of None \<Rightarrow> NotFound | Some n \<Rightarrow> Found n)" for here
  proof (induction t here parts rule: walk.induct)
    case (3 t here c d cs)
    have c: "t (here @ [c]) = Some Dir" using 3(2) [rule_format, of 1] by simp
    then have b: "blocks_walk (t (here @ [c])) = None" by simp
    have "t ((here @ [c]) @ take i (d # cs)) = Some Dir" if "0 < i \<and> i < length (d # cs)" for i
      using 3(2) [rule_format, of "Suc i"] that by simp
    with 3(1) [OF b] have "walk t (here @ [c]) (d # cs) =
        (case t ((here @ [c]) @ d # cs) of None \<Rightarrow> NotFound | Some n \<Rightarrow> Found n)" by blast
    with b show ?case by simp
  qed auto
  from this [of "[]"] assms show ?thesis by (simp add: real_parents_def)
qed

lemma serviceable_walk:
  assumes "serviceable t parts" and "parts \<noteq> []"
  shows "real_parents t parts" and "walk t [] parts = (case t parts of None \<Rightarrow> NotFound | Some n \<Rightarrow> Found n)"
proof -
  show "real_parents t parts"
    using assms real_parents_butlast unfolding serviceable_def by blast
  then show "walk t [] parts = (case t parts of None \<Rightarrow> NotFound | Some n \<Rightarrow> Found n)"
    using assms(2) by (rule walk_parents)
qed

lemma disk_ready_iff:
  "disk_ready B w path \<longleftrightarrow>
     faults w = [] \<and> (\<forall>ps. \<not> stat_fault w ps \<and> \<not> read_fault w ps) \<and>
     resolve_path B path w = Inr (split_on CHR ''/'' path) \<and> serviceable (tree w) (split_on CHR ''/'' path)"
  (is "_ \<longleftrightarrow> ?ok \<and> ?clean \<and> ?res \<and> _")
proof -
  let ?ps = "split_on CHR ''/'' path"
  have "disk_ready B w path \<longleftrightarrow> ?ok \<and> ?clean \<and> is_ok (disk_read_text B path w) \<and>
      walk (tree w) [] (butlast ?ps) = Found Dir"
    by (auto simp: disk_ready_def lstat_def)
  moreover have "is_ok (disk_read_text B path w) \<longleftrightarrow>
      ?res \<and> (tree w ?ps = None \<or> (\<exists>x. tree w ?ps = Some (Reg (Some x))))"
    if clean: ?clean and dir: "walk (tree w) [] (butlast ?ps) = Found Dir"
  proof -
    have w: "lstat w ?ps = (case tree w ?ps of None \<Rightarrow> NotFound | Some n \<Rightarrow> Found n)"
      using walk_parents [OF real_parents_butlast [OF split_on_not_Nil dir] split_on_not_Nil] clean
      by (simp add: lstat_def)
    then have r: "read_bytes w ?ps = node_text (tree w ?ps)"
      using clean by (cases "tree w ?ps") (auto simp: read_bytes_def lstat_def node_text_def split: node.splits)
    show ?thesis
    proof (cases "resolve_path B path w")
      case (Inl e)
      then show ?thesis by (cases e) (simp_all add: disk_read_text_def check_read_def)
    next
      case (Inr parts)
      then have [simp]: "parts = ?ps" by (rule resolve_path_Inr(1))
      show ?thesis
        using Inr w r
        by (cases "tree w ?ps" rule: option.exhaust; cases "the (tree w ?ps)")
          (auto simp: disk_read_text_def check_read_def split: option.splits)
    qed
  qed
  ultimately show ?thesis unfolding serviceable_def by blast
qed

lemma walk_Link_update:
  assumes "t ps \<noteq> Some Dir" and "v \<noteq> Some Dir" and "v \<noteq> Some Link" and "ps \<noteq> []" and "rs \<noteq> []"
    and "walk (t(ps := v)) [] rs = Found Link"
  shows "walk t [] rs = Found Link"
  using assms by (auto simp: walk_root_Found real_parents_update split: if_splits)

text \<open>Changing one object that is no directory keeps every path serviceable and resolved.\<close>

lemma disk_ready_update:
  assumes ready: "disk_ready B w q" and ps: "ps \<noteq> []" "tree w ps \<noteq> Some Dir"
    and v: "v = None \<or> (\<exists>x. v = Some (Reg (Some x)))"
  shows "disk_ready B (w\<lparr>tree := (tree w)(ps := v)\<rparr>) q"
proof -
  let ?t = "(tree w)(ps := v)" and ?qs = "split_on CHR ''/'' q"
  have r: "faults w = []" "\<forall>ps. \<not> stat_fault w ps \<and> \<not> read_fault w ps"
    "resolve_path B q w = Inr ?qs" and s: "serviceable (tree w) ?qs"
    using ready by (simp_all add: disk_ready_iff)
  have vd: "v \<noteq> Some Dir" "v \<noteq> Some Link" using v by auto
  have dir: "walk ?t [] (butlast ?qs) = Found Dir"
  proof (cases "butlast ?qs = []")
    case True
    with s ps show ?thesis by (simp add: serviceable_def)
  next
    case False
    with s have "tree w (butlast ?qs) = Some Dir" "real_parents (tree w) (butlast ?qs)"
      by (simp_all add: serviceable_def walk_root_Found)
    moreover from this ps have "butlast ?qs \<noteq> ps" by auto
    ultimately show ?thesis using False ps vd by (simp add: walk_root_Found real_parents_update)
  qed
  have "serviceable ?t ?qs" using s v dir by (auto simp: serviceable_def)
  moreover have "resolve_path B q (w\<lparr>tree := ?t\<rparr>) = Inr ?qs"
  proof -
    have "lstat (w\<lparr>tree := ?t\<rparr>) (take i ?qs) \<noteq> Found Link" if "0 < i" "i \<le> length ?qs" for i
    proof
      assume "lstat (w\<lparr>tree := ?t\<rparr>) (take i ?qs) = Found Link"
      then have "walk ?t [] (take i ?qs) = Found Link" using r(2) by (simp add: lstat_def)
      moreover have "take i ?qs \<noteq> []" using that by simp
      ultimately have "walk (tree w) [] (take i ?qs) = Found Link"
        using walk_Link_update ps vd by blast
      then have "lstat w (take i ?qs) = Found Link" using r(2) by (simp add: lstat_def)
      with resolve_path_Inr(3) [OF r(3)] that show False by blast
    qed
    with r(3) show ?thesis unfolding resolve_path_iff by simp
  qed
  ultimately show ?thesis using r(1,2) by (simp add: disk_ready_iff)
qed

lemma ready_view:
  assumes "disk_ready B w p"
  shows "tree w (split_on CHR ''/'' p) = map_option (\<lambda>x. Reg (Some x)) (disk_view w p)"
proof -
  let ?ps = "split_on CHR ''/'' p"
  have s: "serviceable (tree w) ?ps" using assms by (simp add: disk_ready_iff)
  then show ?thesis
    using serviceable_walk(2) [OF s] by (auto simp: disk_view_eq serviceable_def)
qed

lemma ready_read_bytes:
  assumes "disk_ready B w p"
  shows "read_bytes w (split_on CHR ''/'' p) = disk_view w p"
  using assms by (simp add: read_bytes_def disk_view_def disk_ready_def)

lemma ready_check_write:
  assumes "disk_ready B w p" and "a = CREATE \<longleftrightarrow> disk_view w p = None"
  shows "check_write_target B p a w = Inr (split_on CHR ''/'' p)"
proof -
  let ?ps = "split_on CHR ''/'' p"
  have r: "resolve_path B p w = Inr ?ps" and s: "serviceable (tree w) ?ps" "\<And>qs. lstat w qs = walk (tree w) [] qs"
    using assms(1) by (simp_all add: disk_ready_iff lstat_def)
  then show ?thesis
    using assms(2) ready_view [OF assms(1)] serviceable_walk(2) [OF s(1)]
    by (cases a; cases "disk_view w p") (auto simp: check_write_target_def serviceable_def)
qed

lemma disk_ready_apply:
  assumes "well_planned pl" and "disk_ready B w (plan_path pl)"
    and "disk_view w (plan_path pl) = pw_expected pl"
  shows "disk_apply B pl w = (Inr (), publish (split_on CHR ''/'' (plan_path pl)) (plan_content pl) w)"
proof -
  let ?a = "wo_action (pw_operation pl)" and ?ps = "split_on CHR ''/'' (plan_path pl)"
  have a: "?a = CREATE \<longleftrightarrow> disk_view w (plan_path pl) = None"
    using assms(1,3) by (simp add: well_planned_def)
  have t: "check_write_target B (plan_path pl) ?a w = Inr ?ps" using assms(2) a by (rule ready_check_write)
  have "next_fault w = ((Healthy, True), w)" using assms(2) by (simp add: next_fault_def disk_ready_def)
  then show ?thesis
    using t a assms(3) ready_read_bytes [OF assms(2)]
    by (cases ?a; cases "pw_expected pl")
      (auto simp: disk_apply_def disk_publish_def recheck_before_mutation_def verify_expected_original_def)
qed

lemma disk_ready_remove:
  assumes "disk_ready B w p" and "disk_view w p = Some c"
  shows "disk_remove_expected B p c w =
    (Inr (), w\<lparr>tree := (tree w)(split_on CHR ''/'' p := None)\<rparr>)"
proof -
  let ?ps = "split_on CHR ''/'' p"
  have r: "resolve_path B p w = Inr ?ps" and s: "serviceable (tree w) ?ps" "\<And>qs. lstat w qs = walk (tree w) [] qs"
    using assms(1) by (simp_all add: disk_ready_iff lstat_def)
  then have "check_read B p w = Inr (Some ?ps)"
    using assms(2) ready_view [OF assms(1)] serviceable_walk(2) [OF s(1)] by (simp add: check_read_def)
  then show ?thesis
    using assms ready_read_bytes [OF assms(1)]
    by (simp add: disk_remove_expected_def next_fault_def disk_ready_def)
qed

lemma ready_not_Dir: "disk_ready B w p \<Longrightarrow> tree w (split_on CHR ''/'' p) \<noteq> Some Dir"
  by (auto simp: ready_view)

interpretation healthy_disk: reliable_port "disk_port B" disk_view "disk_ready B" for B
proof
  fix pl :: planned_write and w :: disk and p c :: string
  show "disk_ready B w p \<Longrightarrow> read_text (disk_port B) p w = Inr (disk_view w p)"
    by (auto simp: disk_port_def disk_ready_def is_ok_iff dest: disk_read_Inr)
  show "\<exists>w'. apply_plan (disk_port B) pl w = (Inr (), w') \<and> (\<forall>q. disk_ready B w q \<longrightarrow> disk_ready B w' q)"
    if "well_planned pl" "disk_ready B w (plan_path pl)" "disk_view w (plan_path pl) = pw_expected pl"
    using disk_ready_apply [OF that] ready_not_Dir [OF that(2)]
    by (auto simp: disk_port_def publish_def intro: disk_ready_update)
  show "\<exists>w'. remove_expected (disk_port B) p c w = (Inr (), w') \<and>
      (\<forall>q. disk_ready B w q \<longrightarrow> disk_ready B w' q)"
    if "disk_ready B w p" "disk_view w p = Some c"
    using disk_ready_remove [OF that] ready_not_Dir [OF that(1)]
    by (auto simp: disk_port_def intro: disk_ready_update)
qed

end
