(* ===== verification/Writeback_Service.thy ===== *)
theory Writeback_Service
  imports Database Relaxed_Policy Secret_Scanner Workspace_Disk
begin

text \<open>
  The approval-bound atomic writeback, \<open>persistence/v2_writeback.py\<close>. The service runs over
  any workspace port. Another process may change the workspace while the service writes:
  \<open>env i\<close> is what it does to the workspace just before the \<open>i\<close>-th apply
  (\<open>\<lambda>_ w. w\<close> when nobody interferes). The identifier of the new transaction and the clock are
  arguments, as in \<open>Database\<close>.

  A result \<open>Inl e\<close> is an exception that leaves \<open>request_writeback\<close>: only
  \<open>sqlite3.IntegrityError\<close> does, since the handler catches \<open>V2DatabaseError\<close>.
\<close>

section \<open>The service\<close>

definition wb_outcome :: "writeback_status \<Rightarrow> string option \<Rightarrow> string \<Rightarrow> writeback_outcome" where
  "wb_outcome st tid msg = \<lparr>wr_status = st, wr_transaction_id = tid, wr_message = msg\<rparr>"

definition lower :: "string \<Rightarrow> string" where
  "lower s = map (\<lambda>c. if ord c = 223 then c else hd (fold_char c)) s"

text \<open>
  The loop over the operations that validates each target, reads the original and builds the
  journal. \<open>Inl\<close> is an early return (or a raised exception), \<open>Inr\<close> the entries.
\<close>

fun preflight :: "'w port \<Rightarrow> int \<Rightarrow> write_operation list \<Rightarrow> 'w \<Rightarrow>
    (db_error + writeback_outcome) + journal_entry list" where
  "preflight P pos [] w = Inr []"
| "preflight P pos (op # ops) w =
     (case (validate_op P op w, read_text P (wo_path op) w) of
        (Inr _, Inr current) \<Rightarrow>
          if current \<noteq> None \<and> find_secret_marker (the current) \<noteq> None
            then Inl (Inr (wb_outcome WB_DENIED None (''secret-like original content refused: '' @ wo_path op)))
          else if wo_action op = CREATE \<and> current \<noteq> None
            then Inl (Inr (wb_outcome WB_MISMATCH None (''CREATE target already exists: '' @ wo_path op)))
          else if wo_action op = REPLACE \<and> current = None
            then Inl (Inr (wb_outcome WB_MISMATCH None (''REPLACE target does not exist: '' @ wo_path op)))
          else (case make_journal_entry pos (wo_path op) (action_name (wo_action op)) (wo_content op) current of
                  Inl e \<Rightarrow> Inl (Inl (RecordError e))
                | Inr entry \<Rightarrow> rbind (preflight P (pos + 1) ops w) (\<lambda>entries. Inr (entry # entries)))
      | _ \<Rightarrow> Inl (Inr (wb_outcome WB_MISMATCH None
               (''target is not a valid '' @ action_name (wo_action op) @ '' target: '' @ wo_path op))))"

text \<open>The apply loop inside \<open>try\<close>: it stops at the first exception.\<close>

fun apply_entries :: "'w port \<Rightarrow> (nat \<Rightarrow> 'w \<Rightarrow> 'w) \<Rightarrow> nat \<Rightarrow> journal_entry list \<Rightarrow> 'w \<Rightarrow>
    (port_error + unit) \<times> 'w" where
  "apply_entries P env i [] w = (Inr (), w)"
| "apply_entries P env i (e # es) w =
     (case planned e of
        Inl _ \<Rightarrow> (Inl (PortFault ''invalid plan''), w)
      | Inr pl \<Rightarrow>
          (case apply_plan P pl (env i w) of
             (Inl err, w') \<Rightarrow> (Inl err, w')
           | (Inr _, w') \<Rightarrow> apply_entries P env (Suc i) es w'))"

definition find_denied :: "resolver \<Rightarrow> string list \<Rightarrow> write_operation list \<Rightarrow> write_operation option" where
  "find_denied resolve workspace ops =
     find (\<lambda>op. policy_evaluate resolve \<lparr>ar_action_type = action_name (wo_action op),
       ar_path = wo_path op, ar_workspace = workspace\<rparr> = DENY) ops"

definition find_secret_op :: "write_operation list \<Rightarrow> write_operation option" where
  "find_secret_op ops = find (\<lambda>op. find_secret_marker (wo_content op) \<noteq> None) ops"

text \<open>The checks before the journal is built: the early return, if any.\<close>

definition refuse :: "resolver \<Rightarrow> string list \<Rightarrow> writeback_request \<Rightarrow> database \<Rightarrow> writeback_outcome option" where
  "refuse resolve workspace req db =
     (case get_candidate (wq_candidate_id req) db of
        None \<Rightarrow> Some (wb_outcome WB_DENIED None ''unknown candidate for this run'')
      | Some candidate \<Rightarrow>
          if cn_run_id candidate \<noteq> wq_run_id req
            then Some (wb_outcome WB_DENIED None ''unknown candidate for this run'')
          else if cn_revision candidate \<noteq> wq_candidate_revision req
            then Some (wb_outcome WB_STALE None ''candidate revision is stale'')
          else if (case get_writeback_approval (wq_approval_id req) db of
                     None \<Rightarrow> True
                   | Some approval \<Rightarrow>
                       ap_status approval \<noteq> AP_PENDING \<or>
                       ap_candidate_id approval \<noteq> wq_candidate_id req \<or>
                       ap_candidate_revision approval \<noteq> wq_candidate_revision req)
            then Some (wb_outcome WB_DENIED None
                   ''writeback approval is missing, consumed, or mismatched'')
          else if \<not> distinct (map wo_path (wq_operations req))
            then Some (wb_outcome WB_DENIED None ''duplicate target paths in one writeback'')
          else (case find_denied resolve workspace (wq_operations req) of
              Some op \<Rightarrow> Some (wb_outcome WB_DENIED None (''policy denied write to '' @ wo_path op))
            | None \<Rightarrow>
                (case find_secret_op (wq_operations req) of
                   Some op \<Rightarrow> Some (wb_outcome WB_DENIED None (''secret-like content refused: '' @ wo_path op))
                 | None \<Rightarrow> None)))"

definition fault_message :: "port_error \<Rightarrow> string \<Rightarrow> string" where
  "fault_message err tid =
     (case err of
        ContentMismatch _ \<Rightarrow> ''external change detected; refusing to overwrite; transaction '' @ tid @
          '' is UNRESOLVED and awaits recovery''
      | PortFault _ \<Rightarrow> ''write fault; transaction '' @ tid @ '' is UNRESOLVED and awaits recovery'')"

text \<open>
  From the committed journal on: enter WRITING, apply, commit or record the fault.
\<close>

definition write_and_commit :: "'w port \<Rightarrow> (nat \<Rightarrow> 'w \<Rightarrow> 'w) \<Rightarrow> string \<Rightarrow> journal_entry list \<Rightarrow>
    database \<Rightarrow> 'w \<Rightarrow> (db_error + writeback_outcome) \<times> database \<times> 'w" where
  "write_and_commit P env tid entries db w =
     (case transition_transaction tid PREPARED WRITING db of
        (Inl e, db1) \<Rightarrow> (Inl e, db1, w)
      | (Inr entered, db1) \<Rightarrow>
          if \<not> entered
            then (Inr (wb_outcome WB_FAILED (Some tid)
                    ''transaction could not enter WRITING; awaiting recovery''), db1, w)
          else (case apply_entries P env 0 entries w of
              (Inl err, w') \<Rightarrow>
                (Inr (wb_outcome WB_FAILED (Some tid) (fault_message err tid)),
                 snd (transition_transaction tid WRITING UNRESOLVED db1), w')
            | (Inr _, w') \<Rightarrow>
                (case transition_transaction tid WRITING COMMITTED db1 of
                   (Inl e, db2) \<Rightarrow> (Inl e, db2, w')
                 | (Inr ok, db2) \<Rightarrow>
                     if \<not> ok
                       then (Inr (wb_outcome WB_FAILED (Some tid)
                               ''transaction could not commit; state changed concurrently''), db2, w')
                     else (Inr (wb_outcome WB_COMMITTED (Some tid) (str_nat (length entries) @ '' write(s) committed'')), db2, w'))))"

definition request_writeback :: "'w port \<Rightarrow> (nat \<Rightarrow> 'w \<Rightarrow> 'w) \<Rightarrow> resolver \<Rightarrow> string list \<Rightarrow>
    writeback_request \<Rightarrow> string \<Rightarrow> string \<Rightarrow> database \<Rightarrow> 'w \<Rightarrow>
    (db_error + writeback_outcome) \<times> database \<times> 'w" where
  "request_writeback P env resolve workspace req fresh now db w =
     (case refuse resolve workspace req db of
        Some out \<Rightarrow> (Inr out, db, w)
      | None \<Rightarrow>
          (case preflight P 0 (wq_operations req) w of
             Inl early \<Rightarrow> (early, db, w)
           | Inr entries \<Rightarrow>
               (case begin_writeback_transaction (wq_run_id req) (wq_candidate_id req)
                       (wq_candidate_revision req) (wq_approval_id req) entries None fresh now db of
                  (Inl (V2DatabaseError msg), db1) \<Rightarrow>
                    (Inr (if contains (lower msg) ''stale''
                            then wb_outcome WB_STALE None ''candidate revision is stale''
                          else wb_outcome WB_DENIED None (''writeback was rejected: '' @ msg)), db1, w)
                | (Inl e, db1) \<Rightarrow> (Inl e, db1, w)
                | (Inr tid, db1) \<Rightarrow> write_and_commit P env tid entries db1 w)))"

section \<open>What the checks establish\<close>

definition op_allowed :: "resolver \<Rightarrow> string list \<Rightarrow> write_operation \<Rightarrow> bool" where
  "op_allowed resolve workspace op \<longleftrightarrow>
     policy_evaluate resolve \<lparr>ar_action_type = action_name (wo_action op), ar_path = wo_path op,
       ar_workspace = workspace\<rparr> = ALLOW \<and> find_secret_marker (wo_content op) = None"

lemma refuse_None:
  assumes "refuse resolve workspace req db = None"
  shows "approved (wq_run_id req) (wq_candidate_id req) (wq_candidate_revision req) (wq_approval_id req) db"
    and "distinct (map wo_path (wq_operations req))"
    and "\<forall>op\<in>set (wq_operations req). op_allowed resolve workspace op"
proof -
  obtain c where c: "get_candidate (wq_candidate_id req) db = Some c"
    using assms by (auto simp: refuse_def split: option.splits)
  note guards = assms [unfolded refuse_def c option.case]
  have run: "cn_run_id c = wq_run_id req" using guards by (auto split: if_splits)
  have rv: "cn_revision c = wq_candidate_revision req" using guards run by (auto split: if_splits)
  obtain a where a: "get_writeback_approval (wq_approval_id req) db = Some a" "ap_status a = AP_PENDING"
      "ap_candidate_id a = wq_candidate_id req" "ap_candidate_revision a = wq_candidate_revision req"
    using guards run rv by (auto split: if_splits option.splits)
  with c run rv show "approved (wq_run_id req) (wq_candidate_id req) (wq_candidate_revision req)
      (wq_approval_id req) db" by (auto simp: approved_def)
  show d: "distinct (map wo_path (wq_operations req))"
    using guards run rv a by (auto split: if_splits)
  have "find_denied resolve workspace (wq_operations req) = None" "find_secret_op (wq_operations req) = None"
    using guards run rv a d by (auto split: option.splits)
  then show "\<forall>op\<in>set (wq_operations req). op_allowed resolve workspace op"
    by (auto simp: find_denied_def find_secret_op_def find_None_iff op_allowed_def
        policy_deny_unless [symmetric])
qed

lemma preflight_step:
  assumes "preflight P pos (op # ops) w = Inr es"
  obtains e rest where "es = e # rest" "preflight P (pos + 1) ops w = Inr rest"
    "validate_op P op w = Inr ()" "read_text P (wo_path op) w = Inr (je_original e)" "valid_entry e"
    "je_position e = pos" "entry_op e = op"
    "\<forall>x. je_original e = Some x \<longrightarrow> find_secret_marker x = None"
proof -
  obtain current where v: "validate_op P op w = Inr ()" and r: "read_text P (wo_path op) w = Inr current"
    using assms by (cases "validate_op P op w"; cases "read_text P (wo_path op) w") auto
  note guards = assms [unfolded preflight.simps v r prod.case sum.case guard_eq_Inr]
  from guards obtain e rest where
    e: "make_journal_entry pos (wo_path op) (action_name (wo_action op)) (wo_content op) current = Inr e"
    and rest: "preflight P (pos + 1) ops w = Inr rest" "es = e # rest"
    and s: "\<not> (current \<noteq> None \<and> find_secret_marker (the current) \<noteq> None)"
    by (auto split: sum.splits)
  from e have f: "je_position e = pos" "entry_op e = op" "je_original e = current" "valid_entry e"
    by (auto simp: make_journal_entry_eq_Inr entry_op_def)
  with r s show thesis by (intro that [OF rest(2,1) v]) auto
qed

lemma preflight_Inr:
  assumes "preflight P pos ops w = Inr es"
  shows "map entry_op es = ops" and "map je_position es = map (\<lambda>i. pos + int i) [0..<length es]"
    and "\<forall>e\<in>set es. valid_entry e \<and> read_text P (je_path e) w = Inr (je_original e) \<and>
      (\<forall>x. je_original e = Some x \<longrightarrow> find_secret_marker x = None)"
proof -
  have "map entry_op es = ops \<and> map je_position es = map (\<lambda>i. pos + int i) [0..<length es] \<and>
    (\<forall>e\<in>set es. valid_entry e \<and> read_text P (je_path e) w = Inr (je_original e) \<and>
      (\<forall>x. je_original e = Some x \<longrightarrow> find_secret_marker x = None))"
    using assms
  proof (induction ops arbitrary: pos es)
    case (Cons op ops)
    from Cons.prems obtain e rest where e: "es = e # rest" "preflight P (pos + 1) ops w = Inr rest"
      "read_text P (wo_path op) w = Inr (je_original e)" "valid_entry e" "je_position e = pos"
      "entry_op e = op" "\<forall>x. je_original e = Some x \<longrightarrow> find_secret_marker x = None"
      by (rule preflight_step)
    have "wo_path op = je_path e" using e(6) by (auto simp: entry_op_def)
    moreover have "map (\<lambda>i. pos + int i) [0..<length (e # rest)] =
        pos # map (\<lambda>i. pos + 1 + int i) [0..<length rest]"
      by (simp add: upt_conv_Cons map_Suc_upt [symmetric] del: upt_Suc)
    ultimately show ?case using Cons.IH [OF e(2)] e by simp
  qed simp
  then show "map entry_op es = ops" "map je_position es = map (\<lambda>i. pos + int i) [0..<length es]"
    "\<forall>e\<in>set es. valid_entry e \<and> read_text P (je_path e) w = Inr (je_original e) \<and>
      (\<forall>x. je_original e = Some x \<longrightarrow> find_secret_marker x = None)" by auto
qed

lemma entry_op_path: "map wo_path (map entry_op es) = map je_path es"
  by (simp add: entry_op_def)

section \<open>Applying a journal over a port\<close>

definition written :: "journal_entry list \<Rightarrow> (string \<Rightarrow> string option) \<Rightarrow> string \<Rightarrow> string option" where
  "written es v = foldl (\<lambda>v e. v(je_path e \<mapsto> je_content e)) v es"

lemma written_simps [simp]:
  "written [] v = v" "written (e # es) v = written es (v(je_path e \<mapsto> je_content e))"
  by (simp_all add: written_def)

lemma written_other: "p \<notin> je_path ` set es \<Longrightarrow> written es v p = v p"
  by (induction es arbitrary: v) auto

lemma written_in:
  "distinct (map je_path es) \<Longrightarrow> e \<in> set es \<Longrightarrow> written es v (je_path e) = Some (je_content e)"
proof (induction es arbitrary: v)
  case (Cons a es)
  then show ?case by (cases "e = a") (auto simp: written_other)
qed simp

context workspace_port
begin

lemma apply_entries_step:
  assumes "valid_entry e"
  shows "apply_entries P env i (e # es) w =
    (case apply_plan P (entry_plan e) (env i w) of
       (Inl err, w') \<Rightarrow> (Inl err, w') | (Inr _, w') \<Rightarrow> apply_entries P env (Suc i) es w')"
  using assms by (simp add: planned_valid)

lemma apply_entry_ok:
  assumes "valid_entry e" and "apply_plan P (entry_plan e) w = (Inr u, w')"
  shows "view w (je_path e) = je_original e \<and> view w' = (view w)(je_path e \<mapsto> je_content e)"
  using apply_ok [OF entry_plan_well_planned [OF assms(1)]] assms(2)
  by (simp add: entry_plan_def entry_op_def)

lemma apply_entry_error:
  assumes "valid_entry e" and "apply_plan P (entry_plan e) w = (Inl err, w')"
  shows "view w' = view w \<or>
    view w (je_path e) = je_original e \<and> view w' = (view w)(je_path e \<mapsto> je_content e)"
  using apply_error [OF entry_plan_well_planned [OF assms(1)] assms(2)]
  by (simp add: entry_plan_def entry_op_def)

text \<open>
  Without interference: success writes every entry over its original, an error leaves a prefix
  of the journal applied.
\<close>

lemma apply_entries_ok:
  assumes "\<forall>e\<in>set es. valid_entry e" and "apply_entries P (\<lambda>_ w. w) i es w = (Inr u, w')"
  shows "view w' = written es (view w)"
  using assms
proof (induction es arbitrary: i w)
  case (Cons e es)
  have v: "valid_entry e" using Cons.prems(1) by simp
  obtain r w1 where a: "apply_plan P (entry_plan e) w = (r, w1)" by fastforce
  with Cons.prems(2) v obtain x where r: "r = Inr x" and rest: "apply_entries P (\<lambda>_ w. w) (Suc i) es w1 = (Inr u, w')"
    by (cases r) (auto simp: apply_entries_step simp del: apply_entries.simps)
  have w1: "view w1 = (view w)(je_path e \<mapsto> je_content e)" using apply_entry_ok [OF v a [unfolded r]] ..
  have "view w' = written es (view w1)" using Cons.IH [OF _ rest] Cons.prems(1) by simp
  then show ?case by (simp only: written_simps w1)
qed simp

lemma apply_entries_error:
  assumes "\<forall>e\<in>set es. valid_entry e" and "apply_entries P (\<lambda>_ w. w) i es w = (Inl err, w')"
  shows "\<exists>k. view w' = written (take k es) (view w)"
  using assms
proof (induction es arbitrary: i w)
  case (Cons e es)
  have v: "valid_entry e" using Cons.prems(1) by simp
  obtain r w1 where a: "apply_plan P (entry_plan e) w = (r, w1)" by fastforce
  show ?case
  proof (cases r)
    case (Inl x)
    with Cons.prems(2) v a have "w' = w1" by (simp add: apply_entries_step del: apply_entries.simps)
    with apply_entry_error [OF v a [unfolded Inl]]
    have "view w' = written (take 0 (e # es)) (view w) \<or> view w' = written (take 1 (e # es)) (view w)"
      by auto
    then show ?thesis by blast
  next
    case (Inr x)
    with Cons.prems(2) v a have "apply_entries P (\<lambda>_ w. w) (Suc i) es w1 = (Inl err, w')"
      by (simp add: apply_entries_step del: apply_entries.simps)
    from Cons.IH [OF _ this] Cons.prems(1) obtain k where "view w' = written (take k es) (view w1)" by auto
    moreover have "view w1 = (view w)(je_path e \<mapsto> je_content e)"
      using apply_entry_ok [OF v a [unfolded Inr]] ..
    ultimately have "view w' = written (take (Suc k) (e # es)) (view w)" by (simp only: take_Suc_Cons written_simps)
    then show ?thesis by blast
  qed
qed simp

text \<open>
  With interference: a write that succeeds found exactly its journaled original at that moment.
\<close>

lemma apply_entries_found:
  assumes "\<forall>e\<in>set es. valid_entry e" and "apply_entries P env i es w = (Inr u, w')" and "k < length es"
  shows "view (env (i + k) (snd (apply_entries P env i (take k es) w))) (je_path (es ! k)) =
    je_original (es ! k)"
  using assms
proof (induction es arbitrary: i w k)
  case (Cons e es)
  have v: "valid_entry e" using Cons.prems(1) by simp
  obtain r w1 where a: "apply_plan P (entry_plan e) (env i w) = (r, w1)" by fastforce
  with Cons.prems(2) v obtain x where r: "r = Inr x" and rest: "apply_entries P env (Suc i) es w1 = (Inr u, w')"
    by (cases r) (auto simp: apply_entries_step simp del: apply_entries.simps)
  show ?case
  proof (cases k)
    case 0
    with apply_entry_ok [OF v a [unfolded r]] show ?thesis by simp
  next
    case (Suc j)
    have "snd (apply_entries P env i (take k (e # es)) w) = snd (apply_entries P env (Suc i) (take j es) w1)"
      using a v Suc r by (simp add: apply_entries_step del: apply_entries.simps)
    with Cons.IH [OF _ rest, of j] Cons.prems(1,3) Suc show ?thesis by simp
  qed
qed simp

text \<open>The originals of the preflight are the contents of the workspace.\<close>

lemma preflight_view:
  assumes "preflight P pos ops w = Inr es" and "e \<in> set es"
  shows "view w (je_path e) = je_original e"
  using preflight_Inr(3) [OF assms(1)] assms(2) by (intro read_view) blast

end

context reliable_port
begin

lemma apply_entries_total:
  assumes "\<forall>e\<in>set es. valid_entry e \<and> ready w (je_path e) \<and> view w (je_path e) = je_original e"
    and "distinct (map je_path es)"
  shows "\<exists>w'. apply_entries P (\<lambda>_ w. w) i es w = (Inr (), w') \<and> (\<forall>q. ready w q \<longrightarrow> ready w' q)"
  using assms
proof (induction es arbitrary: i w)
  case (Cons e es)
  have v: "valid_entry e" using Cons.prems(1) by simp
  have "\<exists>w1. apply_plan P (entry_plan e) w = (Inr (), w1) \<and> (\<forall>q. ready w q \<longrightarrow> ready w1 q)"
    using Cons.prems(1) ready_apply [OF entry_plan_well_planned [OF v]]
    by (simp add: entry_plan_def entry_op_def)
  then obtain w1 where a: "apply_plan P (entry_plan e) w = (Inr (), w1)"
    and keep: "\<forall>q. ready w q \<longrightarrow> ready w1 q" by blast
  have "view w1 = (view w)(je_path e \<mapsto> je_content e)" using apply_entry_ok [OF v a] by simp
  then have "\<forall>x\<in>set es. valid_entry x \<and> ready w1 (je_path x) \<and> view w1 (je_path x) = je_original x"
    using Cons.prems keep by (metis distinct.simps(2) fun_upd_other image_eqI list.set_intros(2) list.set_map list.simps(9))
  from Cons.IH [OF this, of "Suc i"] Cons.prems(2) obtain w' where
    "apply_entries P (\<lambda>_ w. w) (Suc i) es w1 = (Inr (), w')" "\<forall>q. ready w1 q \<longrightarrow> ready w' q" by auto
  with a v keep show ?case by (simp add: apply_entries_step del: apply_entries.simps)
qed simp

end

section \<open>The two ways a request can end\<close>

abbreviation begun_for :: "transaction_state \<Rightarrow> writeback_request \<Rightarrow> journal_entry list \<Rightarrow> string \<Rightarrow> string \<Rightarrow>
    database \<Rightarrow> database" where
  "begun_for st req \<equiv> begun st (wq_run_id req) (wq_candidate_id req) (wq_candidate_revision req) (wq_approval_id req)"

abbreviation approved_for :: "writeback_request \<Rightarrow> database \<Rightarrow> bool" where
  "approved_for req \<equiv> approved (wq_run_id req) (wq_candidate_id req) (wq_candidate_revision req) (wq_approval_id req)"

lemma write_and_commit_begun:
  assumes "\<not> has_row tx_transaction_id tid (t_transactions db)"
  shows "write_and_commit P env tid es (begun PREPARED r c n a es' tid now db) w =
    (case apply_entries P env 0 es w of
       (Inl err, w') \<Rightarrow> (Inr (wb_outcome WB_FAILED (Some tid) (fault_message err tid)),
                        begun UNRESOLVED r c n a es' tid now db, w')
     | (Inr _, w') \<Rightarrow> (Inr (wb_outcome WB_COMMITTED (Some tid) (str_nat (length es) @ '' write(s) committed'')),
                      begun COMMITTED r c n a es' tid now db, w'))"
  using transition_begun [OF assms, of PREPARED WRITING] transition_begun [OF assms, of WRITING UNRESOLVED]
    transition_begun [OF assms, of WRITING COMMITTED]
  by (simp add: write_and_commit_def transaction_transitions_def split: prod.splits sum.splits)

lemma preflight_early:
  "preflight P pos ops w = Inl (Inr out) \<Longrightarrow>
     wr_status out \<in> {WB_DENIED, WB_MISMATCH} \<and> wr_transaction_id out = None"
proof (induction ops arbitrary: pos)
  case (Cons op ops)
  then show ?case
    by (cases "validate_op P op w"; cases "read_text P (wo_path op) w")
      (auto simp: wb_outcome_def rbind_eq_Inl split: if_splits sum.splits)
qed simp

lemma refuse_early:
  "refuse resolve workspace req db = Some out \<Longrightarrow>
     wr_status out \<in> {WB_DENIED, WB_STALE} \<and> wr_transaction_id out = None"
  by (auto simp: refuse_def wb_outcome_def split: option.splits if_splits)

lemma request_writeback_cases:
  assumes "request_writeback P env resolve workspace req fresh now db w = (r, db', w')"
  obtains (early) "db' = db" "w' = w"
      "\<And>out. r = Inr out \<Longrightarrow> wr_status out \<in> {WB_DENIED, WB_STALE, WB_MISMATCH} \<and> wr_transaction_id out = None"
  | (journaled) es where "refuse resolve workspace req db = None"
      "preflight P 0 (wq_operations req) w = Inr es" "es \<noteq> []" "distinct (map je_path es)"
      "\<not> has_row tx_transaction_id fresh (t_transactions db)"
      "(r, db', w') = (case apply_entries P env 0 es w of
         (Inl err, v) \<Rightarrow> (Inr (wb_outcome WB_FAILED (Some fresh) (fault_message err fresh)),
                         begun_for UNRESOLVED req es fresh now db, v)
       | (Inr _, v) \<Rightarrow> (Inr (wb_outcome WB_COMMITTED (Some fresh) (str_nat (length es) @ '' write(s) committed'')),
                        begun_for COMMITTED req es fresh now db, v))"
proof (cases "refuse resolve workspace req db")
  case (Some out)
  with assms refuse_early [OF Some] show thesis by (intro early) (auto simp: request_writeback_def)
next
  case None
  note refused = this
  show thesis
  proof (cases "preflight P 0 (wq_operations req) w")
    case (Inl x)
    with assms refused have "r = x" "db' = db" "w' = w" by (auto simp: request_writeback_def)
    with Inl preflight_early [of P 0 "wq_operations req" w] show thesis by (intro early) auto
  next
    case (Inr es)
    have d: "distinct (map je_path es)"
      using refuse_None(2) [OF refused] preflight_Inr(1) [OF Inr] entry_op_path [of es] by simp
    let ?b = "begin_writeback_transaction (wq_run_id req) (wq_candidate_id req)
        (wq_candidate_revision req) (wq_approval_id req) es None fresh now db"
    obtain b db1 where b: "?b = (b, db1)" by fastforce
    show thesis
    proof (cases b)
      case (Inl e)
      with b have "db1 = db" using begin_Inl by blast
      with assms refused Inr b Inl show thesis
        by (intro early) (auto simp: request_writeback_def wb_outcome_def split: db_error.splits)
    next
      case (Inr tid)
      note bg = begin_Inr [OF b [unfolded Inr]]
      have tid: "tid = fresh" using bg(1) by (simp add: py_or_def)
      have "(r, db', w') = write_and_commit P env fresh es (begun_for PREPARED req es fresh now db) w"
        using assms refused \<open>preflight P 0 (wq_operations req) w = Inr es\<close> b Inr bg(3)
        unfolding tid by (simp add: request_writeback_def)
      with bg(4,6) d refused \<open>preflight P 0 (wq_operations req) w = Inr es\<close> show thesis
        unfolding tid by (intro journaled) (simp_all add: write_and_commit_begun)
    qed
  qed
qed

lemma approval_begun:
  assumes "approved r c n a db"
  shows "\<exists>x. get_writeback_approval a (begun st r c n a es tid now db) = Some x \<and> ap_status x = AP_CONSUMED"
  using assms approval_table.cas_find_same [of a AP_PENDING AP_CONSUMED "t_approvals db"]
  by (auto simp: approved_def get_writeback_approval_def begun_def set_approval_status_def)

lemma outcome_status:
  "(Inr out, db', w') = (case x of
       (Inl err, v) \<Rightarrow> (Inr (wb_outcome WB_FAILED t (m err)), d, v)
     | (Inr (u::unit), v) \<Rightarrow> (Inr (wb_outcome WB_COMMITTED t msg), d', v)) \<Longrightarrow>
     wr_transaction_id out = t \<and>
     (wr_status out = WB_COMMITTED \<and> db' = d' \<and> x = (Inr (), w') \<or>
      wr_status out = WB_FAILED \<and> db' = d \<and> (\<exists>err. x = (Inl err, w')))"
  by (cases x; cases "fst x") (auto simp: wb_outcome_def)

context workspace_port
begin

lemma journaled_result:
  assumes "request_writeback P env resolve workspace req fresh now db w = (Inr out, db', w')"
    and "wr_status out \<in> {WB_COMMITTED, WB_FAILED}"
  obtains es st where "refuse resolve workspace req db = None"
    "preflight P 0 (wq_operations req) w = Inr es" "es \<noteq> []" "distinct (map je_path es)"
    "\<not> has_row tx_transaction_id fresh (t_transactions db)"
    "\<forall>e\<in>set es. valid_entry e \<and> view w (je_path e) = je_original e" "map entry_op es = wq_operations req"
    "wr_transaction_id out = Some fresh" "db' = begun_for st req es fresh now db"
    "wr_status out = WB_COMMITTED \<and> st = COMMITTED \<and> apply_entries P env 0 es w = (Inr (), w') \<or>
     wr_status out = WB_FAILED \<and> st = UNRESOLVED \<and> (\<exists>err. apply_entries P env 0 es w = (Inl err, w'))"
  using assms(1)
proof (cases rule: request_writeback_cases)
  case early
  with assms(2) show thesis by auto
next
  case (journaled es)
  have "\<forall>e\<in>set es. valid_entry e \<and> view w (je_path e) = je_original e"
    using preflight_Inr(3) [OF journaled(2)] preflight_view [OF journaled(2)] by blast
  with that [OF journaled(1-5) _ preflight_Inr(1) [OF journaled(2)]] outcome_status [OF journaled(6)]
  show thesis by blast
qed

lemma written_request:
  assumes "map entry_op es = wq_operations req" and "distinct (map je_path es)" and "v' = written es v"
  shows "\<forall>op\<in>set (wq_operations req). v' (wo_path op) = Some (wo_content op)"
    and "\<forall>p. p \<notin> wo_path ` set (wq_operations req) \<longrightarrow> v' p = v p"
proof -
  show "\<forall>op\<in>set (wq_operations req). v' (wo_path op) = Some (wo_content op)"
    using written_in [OF assms(2)] unfolding assms(1) [symmetric] assms(3) by (auto simp: entry_op_def)
  have "wo_path ` set (wq_operations req) = je_path ` set es"
    unfolding assms(1) [symmetric] by (auto simp: entry_op_def image_iff)
  then show "\<forall>p. p \<notin> wo_path ` set (wq_operations req) \<longrightarrow> v' p = v p"
    by (simp add: assms(3) written_other)
qed

lemma committed:
  assumes "request_writeback P (\<lambda>_ w. w) resolve workspace req fresh now db w = (Inr out, db', w')"
    and "wr_status out = WB_COMMITTED"
  shows "approved_for req db" and "distinct (map wo_path (wq_operations req))"
    and "\<forall>op\<in>set (wq_operations req). op_allowed resolve workspace op"
    and "\<forall>op\<in>set (wq_operations req). view w' (wo_path op) = Some (wo_content op)"
    and "\<forall>p. p \<notin> wo_path ` set (wq_operations req) \<longrightarrow> view w' p = view w p"
    and "\<exists>a. get_writeback_approval (wq_approval_id req) db' = Some a \<and> ap_status a = AP_CONSUMED"
    and "wr_transaction_id out = Some fresh"
    and "\<exists>tx. get_transaction fresh db' = Some tx \<and> tx_state tx = COMMITTED"
proof -
  have "wr_status out \<in> {WB_COMMITTED, WB_FAILED}" using assms(2) by simp
  with assms(1) obtain es st where j: "refuse resolve workspace req db = None"
    "distinct (map je_path es)" "\<not> has_row tx_transaction_id fresh (t_transactions db)"
    "\<forall>e\<in>set es. valid_entry e \<and> view w (je_path e) = je_original e" "map entry_op es = wq_operations req"
    "wr_transaction_id out = Some fresh" "db' = begun_for st req es fresh now db"
    "st = COMMITTED" "apply_entries P (\<lambda>_ w. w) 0 es w = (Inr (), w')"
    by (rule journaled_result) (use assms(2) in auto)
  note checks = refuse_None [OF j(1)]
  then show "approved_for req db" "distinct (map wo_path (wq_operations req))"
    "\<forall>op\<in>set (wq_operations req). op_allowed resolve workspace op" by blast+
  have "view w' = written es (view w)" using apply_entries_ok [OF _ j(9)] j(4) by blast
  from written_request [OF j(5,2) this]
  show "\<forall>op\<in>set (wq_operations req). view w' (wo_path op) = Some (wo_content op)"
    "\<forall>p. p \<notin> wo_path ` set (wq_operations req) \<longrightarrow> view w' p = view w p" by blast+
  show "\<exists>a. get_writeback_approval (wq_approval_id req) db' = Some a \<and> ap_status a = AP_CONSUMED"
    unfolding j(7) using checks(1) by (rule approval_begun)
  show "wr_transaction_id out = Some fresh" by (rule j(6))
  show "\<exists>tx. get_transaction fresh db' = Some tx \<and> tx_state tx = COMMITTED"
    unfolding j(7) using get_transaction_begun [OF j(3)] j(8) by simp
qed

end

context workspace_port
begin

lemma committed_found:
  assumes "request_writeback P env resolve workspace req fresh now db w = (Inr out, db', w')"
    and "wr_status out = WB_COMMITTED"
  shows "\<exists>es. map entry_op es = wq_operations req \<and>
    (\<forall>i<length es. view w (je_path (es ! i)) = je_original (es ! i) \<and>
       view (env i (snd (apply_entries P env 0 (take i es) w))) (je_path (es ! i)) = je_original (es ! i))"
proof -
  have "wr_status out \<in> {WB_COMMITTED, WB_FAILED}" using assms(2) by simp
  with assms(1) obtain es where j: "\<forall>e\<in>set es. valid_entry e \<and> view w (je_path e) = je_original e"
    "map entry_op es = wq_operations req" "apply_entries P env 0 es w = (Inr (), w')"
    by (rule journaled_result) (use assms(2) in auto)
  then have "view (env i (snd (apply_entries P env 0 (take i es) w))) (je_path (es ! i)) = je_original (es ! i)"
    if "i < length es" for i
    using apply_entries_found [of es env 0 w "()" w' i] that by auto
  with j show ?thesis by auto
qed

lemma failed_writeback:
  assumes "request_writeback P (\<lambda>_ w. w) resolve workspace req fresh now db w = (Inr out, db', w')"
    and "wr_status out = WB_FAILED"
  shows "\<exists>es k. map entry_op es = wq_operations req \<and> view w' = written (take k es) (view w) \<and>
    (\<forall>op\<in>set (wq_operations req). view w' (wo_path op) \<in> {view w (wo_path op), Some (wo_content op)}) \<and>
    (\<forall>p. p \<notin> wo_path ` set (wq_operations req) \<longrightarrow> view w' p = view w p)"
    and "wr_transaction_id out = Some fresh"
    and "\<exists>tx. get_transaction fresh db' = Some tx \<and> tx_state tx = UNRESOLVED"
    and "\<exists>a. get_writeback_approval (wq_approval_id req) db' = Some a \<and> ap_status a = AP_CONSUMED"
proof -
  have "wr_status out \<in> {WB_COMMITTED, WB_FAILED}" using assms(2) by simp
  with assms(1) obtain es st err where j: "refuse resolve workspace req db = None"
    "distinct (map je_path es)" "\<not> has_row tx_transaction_id fresh (t_transactions db)"
    "\<forall>e\<in>set es. valid_entry e \<and> view w (je_path e) = je_original e" "map entry_op es = wq_operations req"
    "wr_transaction_id out = Some fresh" "db' = begun_for st req es fresh now db"
    "st = UNRESOLVED" "apply_entries P (\<lambda>_ w. w) 0 es w = (Inl err, w')"
    by (rule journaled_result) (use assms(2) in auto)
  show "wr_transaction_id out = Some fresh" by (rule j(6))
  show "\<exists>tx. get_transaction fresh db' = Some tx \<and> tx_state tx = UNRESOLVED"
    unfolding j(7) using get_transaction_begun [OF j(3)] j(8) by simp
  show "\<exists>a. get_writeback_approval (wq_approval_id req) db' = Some a \<and> ap_status a = AP_CONSUMED"
    unfolding j(7) using refuse_None(1) [OF j(1)] by (rule approval_begun)
  obtain k where k: "view w' = written (take k es) (view w)" using apply_entries_error [OF _ j(9)] j(4) by blast
  have dk: "distinct (map je_path (take k es))" using j(2) by (simp add: take_map [symmetric])
  have in_out: "view w' p = view w p" if "p \<notin> je_path ` set (take k es)" for p
    using that unfolding k by (rule written_other)
  have "view w' (je_path e) \<in> {view w (je_path e), Some (je_content e)}" if e: "e \<in> set es" for e
  proof (cases "je_path e \<in> je_path ` set (take k es)")
    case True
    then obtain x where x: "x \<in> set (take k es)" "je_path x = je_path e" by auto
    then have "x = e" using j(2) e by (metis in_set_takeD inj_on_contraD distinct_map)
    with written_in [OF dk x(1), of "view w"] show ?thesis unfolding k by simp
  qed (simp add: in_out)
  then have "\<forall>op\<in>set (wq_operations req). view w' (wo_path op) \<in> {view w (wo_path op), Some (wo_content op)}"
    unfolding j(5) [symmetric] by (auto simp: entry_op_def)
  moreover have "\<forall>p. p \<notin> wo_path ` set (wq_operations req) \<longrightarrow> view w' p = view w p"
    unfolding j(5) [symmetric] by (auto simp: entry_op_def image_iff intro!: in_out dest: in_set_takeD)
  ultimately show "\<exists>es k. map entry_op es = wq_operations req \<and> view w' = written (take k es) (view w) \<and>
      (\<forall>op\<in>set (wq_operations req). view w' (wo_path op) \<in> {view w (wo_path op), Some (wo_content op)}) \<and>
      (\<forall>p. p \<notin> wo_path ` set (wq_operations req) \<longrightarrow> view w' p = view w p)"
    using j(5) k by blast
qed

end

text \<open>A journaled writeback spends its approval: the same approval is refused ever after.\<close>

lemma consumed_refused:
  assumes "get_writeback_approval (wq_approval_id req) db = Some a" and "ap_status a = AP_CONSUMED"
  shows "refuse resolve workspace req db \<noteq> None"
  using refuse_None(1) [of resolve workspace req db] assms by (auto simp: approved_def)

end
