(* ===== verification/Recovery_Service.thy ===== *)
theory Recovery_Service
  imports Writeback_Service
begin

text \<open>
  Durable transaction recovery, \<open>persistence/v2_recovery.py\<close>: the byte-comparison verdict on
  every journal row, the preview, completing the writes and rolling them back. Everything is
  decided from the database and the workspace.
\<close>

section \<open>The service\<close>

definition pending_transaction_ids :: "database \<Rightarrow> string list" where
  "pending_transaction_ids db =
     map tx_transaction_id (list_transactions_in_states active_transaction_states db)"

text \<open>The loop over the journal rows; \<open>n\<close> is the expected position.\<close>

fun load_entries :: "string \<Rightarrow> int \<Rightarrow> journal_row list \<Rightarrow> py_error + journal_entry list" where
  "load_entries tid n [] = Inr []"
| "load_entries tid n (row # rows) =
     (if jr_position row \<noteq> n
        then Inl (ValueError ''transaction journal positions are corrupted; refusing recovery'')
      else if jr_transaction_id row \<noteq> tid
        then Inl (ValueError ''transaction journal row is bound to a different transaction; refusing recovery'')
      else rbind (make_journal_entry (jr_position row) (jr_path row) (jr_action_type row)
                    (jr_content row) (jr_original row))
        (\<lambda>e. rbind (load_entries tid (n + 1) rows) (\<lambda>es. Inr (e # es))))"

definition load_active :: "string \<Rightarrow> database \<Rightarrow> py_error + transaction_row \<times> journal_entry list" where
  "load_active tid db =
     (case get_transaction tid db of
        None \<Rightarrow> Inl (ValueError ''recovery requires a non-terminal transaction'')
      | Some tx \<Rightarrow>
          if tx_state tx \<notin> set active_transaction_states
            then Inl (ValueError ''recovery requires a non-terminal transaction'')
          else if get_transaction_journal tid db = []
            then Inl (ValueError ''transaction journal is empty or corrupted; refusing recovery'')
          else rbind (load_entries tid 0 (get_transaction_journal tid db)) (\<lambda>es. Inr (tx, es)))"

definition entry_state :: "'w port \<Rightarrow> journal_entry \<Rightarrow> 'w \<Rightarrow> item_state" where
  "entry_state P e w =
     (case read_text P (je_path e) w of
        Inl _ \<Rightarrow> UNREADABLE
      | Inr current \<Rightarrow>
          if current = Some (je_content e) then APPLIED
          else if current = je_original e then PENDING
          else DRIFTED)"

definition recovery_item_of :: "'w port \<Rightarrow> 'w \<Rightarrow> journal_entry \<Rightarrow> recovery_item" where
  "recovery_item_of P w e =
     \<lparr>ri_position = je_position e, ri_path = je_path e, ri_action = je_action e,
      ri_state = entry_state P e w\<rparr>"

definition preview :: "'w port \<Rightarrow> string \<Rightarrow> database \<Rightarrow> 'w \<Rightarrow> py_error + recovery_preview" where
  "preview P tid db w =
     rbind (load_active tid db) (\<lambda>(tx, entries).
       let items = map (recovery_item_of P w) entries
       in make_recovery_preview tid (tx_state tx) items (list_ex blocking items))"

definition rc_outcome :: "recovery_status \<Rightarrow> string \<Rightarrow> string \<Rightarrow> recovery_outcome" where
  "rc_outcome st tid msg = \<lparr>rc_status = st, rc_transaction_id = tid, rc_message = msg\<rparr>"

text \<open>The two loops over \<open>zip(entries, items)\<close>, inside \<open>try\<close>.\<close>

fun apply_pending :: "'w port \<Rightarrow> (journal_entry \<times> recovery_item) list \<Rightarrow> 'w \<Rightarrow> (port_error + unit) \<times> 'w" where
  "apply_pending P [] w = (Inr (), w)"
| "apply_pending P ((e, verdict) # rest) w =
     (if ri_state verdict = PENDING then
        (case planned e of
           Inl _ \<Rightarrow> (Inl (PortFault ''invalid plan''), w)
         | Inr pl \<Rightarrow>
             (case apply_plan P pl w of
                (Inl err, w') \<Rightarrow> (Inl err, w')
              | (Inr _, w') \<Rightarrow> apply_pending P rest w'))
      else apply_pending P rest w)"

definition undo :: "'w port \<Rightarrow> journal_entry \<Rightarrow> 'w \<Rightarrow> (port_error + unit) \<times> 'w" where
  "undo P e w =
     (if je_action e = CREATE then remove_expected P (je_path e) (je_content e) w
      else (case planned_restore e of
              Inl _ \<Rightarrow> (Inl (PortFault ''invalid plan''), w)
            | Inr pl \<Rightarrow> apply_plan P pl w))"

fun undo_applied :: "'w port \<Rightarrow> (journal_entry \<times> recovery_item) list \<Rightarrow> 'w \<Rightarrow> (port_error + unit) \<times> 'w" where
  "undo_applied P [] w = (Inr (), w)"
| "undo_applied P ((e, verdict) # rest) w =
     (if ri_state verdict \<noteq> APPLIED then undo_applied P rest w
      else (case undo P e w of
              (Inl err, w') \<Rightarrow> (Inl err, w')
            | (Inr _, w') \<Rightarrow> undo_applied P rest w'))"

definition apply_fault_message :: "port_error \<Rightarrow> string" where
  "apply_fault_message err =
     (case err of
        ContentMismatch _ \<Rightarrow> ''external change detected during recovery; transaction remains UNRESOLVED''
      | PortFault _ \<Rightarrow> ''recovery write fault; transaction remains UNRESOLVED'')"

definition rollback_fault_message :: "port_error \<Rightarrow> string" where
  "rollback_fault_message err =
     (case err of
        ContentMismatch _ \<Rightarrow> ''external change detected during rollback; transaction remains non-terminal''
      | PortFault _ \<Rightarrow> ''rollback fault; transaction remains non-terminal'')"

text \<open>\<open>apply\<close> once the transaction is in WRITING.\<close>

definition complete_writing :: "'w port \<Rightarrow> string \<Rightarrow> (journal_entry \<times> recovery_item) list \<Rightarrow> database \<Rightarrow> 'w \<Rightarrow>
    (db_error + recovery_outcome) \<times> database \<times> 'w" where
  "complete_writing P tid work db w =
     (case apply_pending P work w of
        (Inl err, w') \<Rightarrow>
          (Inr (rc_outcome RC_FAILED tid (apply_fault_message err)),
           snd (transition_transaction tid WRITING UNRESOLVED db), w')
      | (Inr _, w') \<Rightarrow>
          (case transition_transaction tid WRITING COMMITTED db of
             (Inl e, db') \<Rightarrow> (Inl e, db', w')
           | (Inr ok, db') \<Rightarrow>
               if \<not> ok
                 then (Inr (rc_outcome RC_FAILED tid ''transaction could not commit during recovery''), db', w')
               else (Inr (rc_outcome RC_APPLIED tid (str_nat (length work) @ '' journal write(s) applied'')), db', w')))"

definition recovery_apply :: "'w port \<Rightarrow> string \<Rightarrow> database \<Rightarrow> 'w \<Rightarrow>
    (db_error + recovery_outcome) \<times> database \<times> 'w" where
  "recovery_apply P tid db w =
     (case load_active tid db of
        Inl e \<Rightarrow> (Inl (RecordError e), db, w)
      | Inr (tx, entries) \<Rightarrow>
          let items = map (recovery_item_of P w) entries in
          if list_ex blocking items
            then (Inr (rc_outcome RC_BLOCKED tid
                    ''recovery is blocked by drifted or unreadable targets''), db, w)
          else if tx_state tx \<in> {PREPARED, UNRESOLVED} then
            (case transition_transaction tid (tx_state tx) WRITING db of
               (Inl e, db1) \<Rightarrow> (Inl e, db1, w)
             | (Inr ok, db1) \<Rightarrow>
                 if \<not> ok
                   then (Inr (rc_outcome RC_FAILED tid ''transaction changed state during recovery''), db1, w)
                 else complete_writing P tid (zip entries items) db1 w)
          else complete_writing P tid (zip entries items) db w)"

definition rollback :: "'w port \<Rightarrow> string \<Rightarrow> database \<Rightarrow> 'w \<Rightarrow>
    (db_error + recovery_outcome) \<times> database \<times> 'w" where
  "rollback P tid db w =
     (case load_active tid db of
        Inl e \<Rightarrow> (Inl (RecordError e), db, w)
      | Inr (tx, entries) \<Rightarrow>
          let items = map (recovery_item_of P w) entries in
          if list_ex blocking items
            then (Inr (rc_outcome RC_BLOCKED tid
                    ''recovery is blocked by drifted or unreadable targets''), db, w)
          else (case undo_applied P (zip entries items) w of
              (Inl err, w') \<Rightarrow> (Inr (rc_outcome RC_FAILED tid (rollback_fault_message err)), db, w')
            | (Inr _, w') \<Rightarrow>
                (case transition_transaction tid (tx_state tx) ROLLED_BACK db of
                   (Inl e, db') \<Rightarrow> (Inl e, db', w')
                 | (Inr ok, db') \<Rightarrow>
                     if \<not> ok
                       then (Inr (rc_outcome RC_FAILED tid ''transaction could not enter ROLLED_BACK''), db', w')
                     else (Inr (rc_outcome RC_ROLLED_BACK tid (str_nat (length entries) @ '' journal write(s) rolled back'')), db', w'))))"

section \<open>Loading the journal\<close>

lemma load_entries_rows:
  assumes "\<forall>e\<in>set es. valid_entry e" and "map je_position es = map (\<lambda>i. n + int i) [0..<length es]"
  shows "load_entries tid n (map (entry_row tid) es) = Inr es"
  using assms
proof (induction es arbitrary: n)
  case (Cons e es)
  have "map (\<lambda>i. n + int i) [0..<length (e # es)] = n # map (\<lambda>i. n + 1 + int i) [0..<length es]"
    by (simp add: upt_conv_Cons map_Suc_upt [symmetric] del: upt_Suc)
  with Cons.prems have pos: "je_position e = n" "map je_position es = map (\<lambda>i. n + 1 + int i) [0..<length es]"
    by simp_all
  have "make_journal_entry (jr_position (entry_row tid e)) (jr_path (entry_row tid e))
      (jr_action_type (entry_row tid e)) (jr_content (entry_row tid e)) (jr_original (entry_row tid e)) = Inr e"
    using Cons.prems(1) unfolding make_journal_entry_eq_Inr by (simp add: entry_row_def)
  with Cons.IH [OF _ pos(2)] Cons.prems(1) pos(1) show ?case by (simp add: entry_row_def)
qed simp

lemma load_active_begun:
  assumes "\<forall>e\<in>set es. valid_entry e" and "map je_position es = map int [0..<length es]" and "es \<noteq> []"
    and "\<not> has_row tx_transaction_id tid (t_transactions db)"
    and "\<forall>row\<in>set (t_journal db). jr_transaction_id row \<noteq> tid"
    and "st \<in> set active_transaction_states"
  shows "\<exists>tx. load_active tid (begun st r c n a es tid now db) = Inr (tx, es) \<and> tx_state tx = st"
  using assms load_entries_rows [of es 0 tid]
  by (simp add: load_active_def get_transaction_begun journal_begun)

text \<open>A journal that loads is non-empty, contiguous from position 0 and valid.\<close>

lemma load_entries_Inr:
  "load_entries tid n rows = Inr es \<Longrightarrow>
     (\<forall>e\<in>set es. valid_entry e) \<and> map (entry_row tid) es = rows \<and>
     map je_position es = map (\<lambda>i. n + int i) [0..<length es]"
proof (induction rows arbitrary: n es)
  case (Cons row rows)
  from Cons.prems obtain e rest where r: "jr_position row = n" "jr_transaction_id row = tid"
    and e: "make_journal_entry (jr_position row) (jr_path row) (jr_action_type row) (jr_content row)
      (jr_original row) = Inr e"
    and rest: "load_entries tid (n + 1) rows = Inr rest" "es = e # rest"
    by (auto split: if_splits)
  have "entry_row tid e = row" "valid_entry e" "je_position e = n"
    using e r by (auto simp: make_journal_entry_eq_Inr entry_row_def)
  moreover have "map (\<lambda>i. n + int i) [0..<length es] = n # map (\<lambda>i. n + 1 + int i) [0..<length rest]"
    using rest(2) by (simp add: upt_conv_Cons map_Suc_upt [symmetric] del: upt_Suc)
  ultimately show ?case using Cons.IH [OF rest(1)] rest(2) by simp
qed simp

section \<open>Verdicts and loops over a port\<close>

definition undone :: "(journal_entry \<times> recovery_item) list \<Rightarrow> (string \<Rightarrow> string option) \<Rightarrow> string \<Rightarrow> string option" where
  "undone work v =
     foldl (\<lambda>v (e, it). if ri_state it = APPLIED then v(je_path e := je_original e) else v) v work"

definition completed :: "(journal_entry \<times> recovery_item) list \<Rightarrow> (string \<Rightarrow> string option) \<Rightarrow> string \<Rightarrow> string option" where
  "completed work v =
     foldl (\<lambda>v (e, it). if ri_state it = PENDING then v(je_path e \<mapsto> je_content e) else v) v work"

abbreviation verdicts :: "'w port \<Rightarrow> 'w \<Rightarrow> journal_entry list \<Rightarrow> (journal_entry \<times> recovery_item) list" where
  "verdicts P w es \<equiv> zip es (map (recovery_item_of P w) es)"

definition settled :: "(string \<Rightarrow> string option) \<Rightarrow> journal_entry \<Rightarrow> bool" where
  \<comment> \<open>The target holds either its journaled original or the intended content.\<close>
  "settled v e \<longleftrightarrow> v (je_path e) = je_original e \<or> v (je_path e) = Some (je_content e)"

lemma undone_simps [simp]:
  "undone [] v = v"
  "undone ((e, it) # work) v =
     undone work (if ri_state it = APPLIED then v(je_path e := je_original e) else v)"
  by (simp_all add: undone_def)

lemma completed_simps [simp]:
  "completed [] v = v"
  "completed ((e, it) # work) v =
     completed work (if ri_state it = PENDING then v(je_path e \<mapsto> je_content e) else v)"
  by (simp_all add: completed_def)

lemma undone_other: "p \<notin> je_path ` fst ` set work \<Longrightarrow> undone work v p = v p"
  by (induction work arbitrary: v) (auto split: if_splits)

lemma completed_other: "p \<notin> je_path ` fst ` set work \<Longrightarrow> completed work v p = v p"
  by (induction work arbitrary: v) (auto split: if_splits)

lemma undone_in:
  assumes "distinct (map (je_path \<circ> fst) work)" and "(e, it) \<in> set work"
  shows "undone work v (je_path e) = (if ri_state it = APPLIED then je_original e else v (je_path e))"
  using assms
proof (induction work arbitrary: v)
  case (Cons x work)
  obtain e' it' where x: "x = (e', it')" by (cases x)
  show ?case
  proof (cases "(e, it) = x")
    case True
    with Cons.prems(1) x show ?thesis by (subst x, simp only: undone_simps) (auto simp: undone_other image_image)
  next
    case False
    with Cons.prems have "(e, it) \<in> set work" by simp
    moreover from this Cons.prems(1) x have "je_path e \<noteq> je_path e'" by force
    ultimately show ?thesis using Cons.IH Cons.prems(1) x by simp
  qed
qed simp

lemma completed_in:
  assumes "distinct (map (je_path \<circ> fst) work)" and "(e, it) \<in> set work"
  shows "completed work v (je_path e) = (if ri_state it = PENDING then Some (je_content e) else v (je_path e))"
  using assms
proof (induction work arbitrary: v)
  case (Cons x work)
  obtain e' it' where x: "x = (e', it')" by (cases x)
  show ?case
  proof (cases "(e, it) = x")
    case True
    with Cons.prems(1) x show ?thesis by (subst x, simp only: completed_simps) (auto simp: completed_other image_image)
  next
    case False
    with Cons.prems have "(e, it) \<in> set work" by simp
    moreover from this Cons.prems(1) x have "je_path e \<noteq> je_path e'" by force
    ultimately show ?thesis using Cons.IH Cons.prems(1) x by simp
  qed
qed simp

lemma entry_original_cases:
  assumes "valid_entry e"
  obtains "je_action e = CREATE" "je_original e = None"
  | orig where "je_action e = REPLACE" "je_original e = Some orig"
  using assms by (cases "je_action e"; cases "je_original e") (auto simp: valid_entry_def)

lemma undo_create: "je_action e = CREATE \<Longrightarrow> undo P e w = remove_expected P (je_path e) (je_content e) w"
  by (simp add: undo_def)

lemma undo_replace:
  assumes "valid_entry e" and "je_action e = REPLACE" and "je_original e = Some orig"
  shows "undo P e w = apply_plan P
      \<lparr>pw_operation = \<lparr>wo_action = REPLACE, wo_path = je_path e, wo_content = orig\<rparr>,
       pw_expected = Some (je_content e)\<rparr> w"
  using assms by (simp add: undo_def planned_restore_valid)

lemma restore_well_planned [simp]:
  "valid_entry e \<Longrightarrow> well_planned \<lparr>pw_operation = \<lparr>wo_action = REPLACE, wo_path = je_path e, wo_content = orig\<rparr>,
     pw_expected = Some x\<rparr>"
  by (simp add: well_planned_def valid_entry_def)

context workspace_port
begin

lemma undo_ok:
  assumes "valid_entry e" and "undo P e w = (Inr u, w')"
  shows "view w (je_path e) = Some (je_content e) \<and> view w' = (view w)(je_path e := je_original e)"
  using assms(1)
proof (cases rule: entry_original_cases)
  case 1
  with assms(2) remove_ok [of "je_path e" "je_content e" w w'] show ?thesis by (simp add: undo_create)
next
  case (2 orig)
  with assms apply_ok [OF restore_well_planned [OF assms(1)], of orig "je_content e" w w'] show ?thesis
    by (simp add: undo_replace)
qed

lemma undo_error:
  assumes "valid_entry e" and "undo P e w = (Inl err, w')"
  shows "view w' = view w \<or>
    view w (je_path e) = Some (je_content e) \<and> view w' = (view w)(je_path e := je_original e)"
  using assms(1)
proof (cases rule: entry_original_cases)
  case 1
  with assms(2) remove_error [of "je_path e" "je_content e" w err w'] show ?thesis by (simp add: undo_create)
next
  case (2 orig)
  with assms apply_error [OF restore_well_planned [OF assms(1)], of orig "je_content e" w err w'] show ?thesis
    by (simp add: undo_replace)
qed

text \<open>Whatever happens, a rollback leaves a prefix of the applied entries undone.\<close>

lemma undo_applied_prefix:
  assumes "\<forall>(e, it)\<in>set work. valid_entry e" and "undo_applied P work w = (r, w')"
  shows "if is_ok r then view w' = undone work (view w) else (\<exists>k. view w' = undone (take k work) (view w))"
  using assms
proof (induction work arbitrary: w)
  case (Cons x work)
  obtain e it where x: "x = (e, it)" by (cases x)
  have v: "valid_entry e" using Cons.prems(1) x by simp
  have valid: "\<forall>(e, it)\<in>set work. valid_entry e" using Cons.prems(1) by auto
  have lift: "if is_ok r then view w' = undone (x # work) (view w)
      else (\<exists>k. view w' = undone (take k (x # work)) (view w))"
    if step: "undo_applied P work w1 = (r, w')"
      and w1: "view w1 = (if ri_state it = APPLIED then (view w)(je_path e := je_original e) else view w)"
    for w1
  proof (cases "is_ok r")
    case True
    with Cons.IH [OF valid step] show ?thesis unfolding x w1 [symmetric] undone_simps by simp
  next
    case False
    with Cons.IH [OF valid step] obtain k where "view w' = undone (take k work) (view w1)" by auto
    then have "view w' = undone (take (Suc k) (x # work)) (view w)" by (simp only: take_Suc_Cons x undone_simps w1)
    with False show ?thesis by (simp only: if_False) blast
  qed
  show ?case
  proof (cases "ri_state it = APPLIED")
    case False
    with Cons.prems(2) x show ?thesis by (intro lift [of w]) auto
  next
    case True
    obtain r1 w1 where u: "undo P e w = (r1, w1)" by fastforce
    show ?thesis
    proof (cases r1)
      case (Inr y)
      with Cons.prems(2) x True u undo_ok [OF v u [unfolded Inr]] show ?thesis by (intro lift [of w1]) auto
    next
      case (Inl err)
      with Cons.prems(2) x True u have r: "r = Inl err" "w' = w1" by auto
      with undo_error [OF v u [unfolded Inl]]
      have "view w' = undone (take 0 (x # work)) (view w) \<or> view w' = undone (take 1 (x # work)) (view w)"
        using x True by auto
      then have "\<exists>k. view w' = undone (take k (x # work)) (view w)" by blast
      with r show ?thesis by simp
    qed
  qed
qed simp

lemma apply_pending_prefix:
  assumes "\<forall>(e, it)\<in>set work. valid_entry e" and "apply_pending P work w = (r, w')"
  shows "if is_ok r then view w' = completed work (view w) else (\<exists>k. view w' = completed (take k work) (view w))"
  using assms
proof (induction work arbitrary: w)
  case (Cons x work)
  obtain e it where x: "x = (e, it)" by (cases x)
  have v: "valid_entry e" using Cons.prems(1) x by simp
  have valid: "\<forall>(e, it)\<in>set work. valid_entry e" using Cons.prems(1) by auto
  have lift: "if is_ok r then view w' = completed (x # work) (view w)
      else (\<exists>k. view w' = completed (take k (x # work)) (view w))"
    if step: "apply_pending P work w1 = (r, w')"
      and w1: "view w1 = (if ri_state it = PENDING then (view w)(je_path e \<mapsto> je_content e) else view w)"
    for w1
  proof (cases "is_ok r")
    case True
    with Cons.IH [OF valid step] show ?thesis unfolding x w1 [symmetric] completed_simps by simp
  next
    case False
    with Cons.IH [OF valid step] obtain k where "view w' = completed (take k work) (view w1)" by auto
    then have "view w' = completed (take (Suc k) (x # work)) (view w)"
      by (simp only: take_Suc_Cons x completed_simps w1)
    with False show ?thesis by (simp only: if_False) blast
  qed
  show ?case
  proof (cases "ri_state it = PENDING")
    case False
    with Cons.prems(2) x show ?thesis by (intro lift [of w]) auto
  next
    case True
    obtain r1 w1 where u: "apply_plan P (entry_plan e) w = (r1, w1)" by fastforce
    show ?thesis
    proof (cases r1)
      case (Inr y)
      with Cons.prems(2) x True u apply_entry_ok [OF v u [unfolded Inr]] show ?thesis
        by (intro lift [of w1]) (auto simp: planned_valid [OF v])
    next
      case (Inl err)
      with Cons.prems(2) x True u have r: "r = Inl err" "w' = w1" by (auto simp: planned_valid [OF v])
      with apply_entry_error [OF v u [unfolded Inl]]
      have "view w' = completed (take 0 (x # work)) (view w) \<or> view w' = completed (take 1 (x # work)) (view w)"
        using x True by auto
      then have "\<exists>k. view w' = completed (take k (x # work)) (view w)" by blast
      with r show ?thesis by simp
    qed
  qed
qed simp

end

context reliable_port
begin

lemma entry_state_ready:
  "ready w (je_path e) \<Longrightarrow> entry_state P e w =
     (if view w (je_path e) = Some (je_content e) then APPLIED
      else if view w (je_path e) = je_original e then PENDING else DRIFTED)"
  by (simp add: entry_state_def ready_read)

lemma not_blocked:
  assumes "\<forall>e\<in>set es. ready w (je_path e) \<and> settled (view w) e"
  shows "\<not> list_ex blocking (map (recovery_item_of P w) es)"
  using assms by (auto simp: list_ex_iff blocking_def recovery_item_of_def entry_state_ready settled_def)

lemma undo_total:
  assumes "valid_entry e" and "ready w (je_path e)" and "view w (je_path e) = Some (je_content e)"
  shows "\<exists>w'. undo P e w = (Inr (), w') \<and> (\<forall>q. ready w q \<longrightarrow> ready w' q)"
  using assms(1)
proof (cases rule: entry_original_cases)
  case 1
  with ready_remove [OF assms(2,3)] show ?thesis by (simp add: undo_create)
next
  case (2 orig)
  with ready_apply [OF restore_well_planned [OF assms(1)], of w orig "je_content e"] assms show ?thesis
    by (simp add: undo_replace)
qed

lemma undo_applied_total:
  assumes "\<forall>(e, it)\<in>set work. valid_entry e \<and> ready w (je_path e) \<and>
      (ri_state it = APPLIED \<longrightarrow> view w (je_path e) = Some (je_content e))"
    and "distinct (map (je_path \<circ> fst) work)"
  shows "\<exists>w'. undo_applied P work w = (Inr (), w')"
  using assms
proof (induction work arbitrary: w)
  case (Cons x work)
  obtain e it where x: "x = (e, it)" by (cases x)
  have e: "valid_entry e" "ready w (je_path e)" "ri_state it = APPLIED \<longrightarrow> view w (je_path e) = Some (je_content e)"
    using Cons.prems(1) x by auto
  have later: "\<forall>(e', it')\<in>set work. valid_entry e' \<and> ready w (je_path e') \<and> je_path e' \<noteq> je_path e \<and>
      (ri_state it' = APPLIED \<longrightarrow> view w (je_path e') = Some (je_content e'))"
    using Cons.prems x by force
  show ?case
  proof (cases "ri_state it = APPLIED")
    case False
    have "\<exists>w'. undo_applied P work w = (Inr (), w')"
      using later Cons.prems(2) by (intro Cons.IH) auto
    with False x show ?thesis by simp
  next
    case True
    obtain w1 where u: "undo P e w = (Inr (), w1)" and keep: "\<forall>q. ready w q \<longrightarrow> ready w1 q"
      using undo_total [OF e(1,2)] e(3) True by blast
    have "view w1 = (view w)(je_path e := je_original e)" using undo_ok [OF e(1) u] ..
    then have "\<exists>w'. undo_applied P work w1 = (Inr (), w')"
      using later keep Cons.prems(2) by (intro Cons.IH) auto
    with True x u show ?thesis by simp
  qed
qed simp

lemma apply_pending_total:
  assumes "\<forall>(e, it)\<in>set work. valid_entry e \<and> ready w (je_path e) \<and>
      (ri_state it = PENDING \<longrightarrow> view w (je_path e) = je_original e)"
    and "distinct (map (je_path \<circ> fst) work)"
  shows "\<exists>w'. apply_pending P work w = (Inr (), w')"
  using assms
proof (induction work arbitrary: w)
  case (Cons x work)
  obtain e it where x: "x = (e, it)" by (cases x)
  have e: "valid_entry e" "ready w (je_path e)" "ri_state it = PENDING \<longrightarrow> view w (je_path e) = je_original e"
    using Cons.prems(1) x by auto
  have later: "\<forall>(e', it')\<in>set work. valid_entry e' \<and> ready w (je_path e') \<and> je_path e' \<noteq> je_path e \<and>
      (ri_state it' = PENDING \<longrightarrow> view w (je_path e') = je_original e')"
    using Cons.prems x by force
  show ?case
  proof (cases "ri_state it = PENDING")
    case False
    have "\<exists>w'. apply_pending P work w = (Inr (), w')"
      using later Cons.prems(2) by (intro Cons.IH) auto
    with False x show ?thesis by simp
  next
    case True
    have "\<exists>w1. apply_plan P (entry_plan e) w = (Inr (), w1) \<and> (\<forall>q. ready w q \<longrightarrow> ready w1 q)"
      using ready_apply [OF entry_plan_well_planned [OF e(1)]] e(2,3) True
      by (simp add: entry_plan_def entry_op_def)
    then obtain w1 where u: "apply_plan P (entry_plan e) w = (Inr (), w1)"
      and keep: "\<forall>q. ready w q \<longrightarrow> ready w1 q" by blast
    have "view w1 = (view w)(je_path e \<mapsto> je_content e)" using apply_entry_ok [OF e(1) u] ..
    then have "\<exists>w'. apply_pending P work w1 = (Inr (), w')"
      using later keep Cons.prems(2) by (intro Cons.IH) auto
    with True x u show ?thesis by (simp add: planned_valid [OF e(1)])
  qed
qed simp

end

section \<open>Recovery of a settled transaction\<close>

text \<open>The contents with every journaled original restored.\<close>

definition restored :: "journal_entry list \<Rightarrow> (string \<Rightarrow> string option) \<Rightarrow> string \<Rightarrow> string option" where
  "restored es v p = (case find (\<lambda>e. je_path e = p) es of None \<Rightarrow> v p | Some e \<Rightarrow> je_original e)"

lemma find_path:
  assumes "distinct (map je_path es)" and "e \<in> set es"
  shows "find (\<lambda>x. je_path x = je_path e) es = Some e"
  using assms by (induction es) (auto simp: image_iff)

lemma restored_in: "distinct (map je_path es) \<Longrightarrow> e \<in> set es \<Longrightarrow> restored es v (je_path e) = je_original e"
  by (simp add: restored_def find_path)

lemma restored_other: "p \<notin> je_path ` set es \<Longrightarrow> restored es v p = v p"
  by (cases "find (\<lambda>e. je_path e = p) es") (auto simp: restored_def find_Some_iff)

lemma load_active_Inr:
  assumes "load_active tid db = Inr (tx, es)"
  shows "get_transaction tid db = Some tx" and "tx_state tx \<in> set active_transaction_states"
    and "\<forall>e\<in>set es. valid_entry e" and "map (entry_row tid) es = get_transaction_journal tid db"
    and "es \<noteq> []"
proof -
  have t: "get_transaction tid db = Some tx" "tx_state tx \<in> set active_transaction_states"
    "get_transaction_journal tid db \<noteq> []" "load_entries tid 0 (get_transaction_journal tid db) = Inr es"
    using assms by (auto simp: load_active_def split: option.splits if_splits)
  then show "get_transaction tid db = Some tx" "tx_state tx \<in> set active_transaction_states"
    "\<forall>e\<in>set es. valid_entry e" "map (entry_row tid) es = get_transaction_journal tid db" "es \<noteq> []"
    using load_entries_Inr [OF t(4)] by auto
qed

lemma active_transitions:
  assumes "s \<in> set active_transaction_states"
  shows "(s, ROLLED_BACK) \<in> set transaction_transitions" and "s \<noteq> WRITING \<Longrightarrow> (s, WRITING) \<in> set transaction_transitions"
    and "s \<noteq> WRITING \<longleftrightarrow> s \<in> {PREPARED, UNRESOLVED}"
  using assms by (auto simp: active_transaction_states_def transaction_transitions_def)

lemma transition_current:
  assumes "distinct (map tx_transaction_id (t_transactions db))" and "get_transaction tid db = Some tx"
    and "(tx_state tx, s') \<in> set transaction_transitions"
  shows "transition_transaction tid (tx_state tx) s' db = (Inr True, set_tx tid (tx_state tx) s' db)"
  using assms by (simp add: transition_transaction_legal cas_transaction_once)

lemma distinct_verdicts: "map (je_path \<circ> fst) (verdicts P w es) = map je_path es"
  by (simp add: map_fst_zip flip: map_map)

lemma in_verdicts: "(e, it) \<in> set (verdicts P w es) \<longleftrightarrow> e \<in> set es \<and> it = recovery_item_of P w e"
  by (auto simp: zip_map2 zip_same_conv_map)

context reliable_port
begin

lemma rollback_settled:
  assumes load: "load_active tid db = Inr (tx, es)" and keys: "distinct (map tx_transaction_id (t_transactions db))"
    and paths: "distinct (map je_path es)" and settled: "\<forall>e\<in>set es. ready w (je_path e) \<and> settled (view w) e"
  shows "\<exists>w'. rollback P tid db w =
      (Inr (rc_outcome RC_ROLLED_BACK tid (str_nat (length es) @ '' journal write(s) rolled back'')),
       set_tx tid (tx_state tx) ROLLED_BACK db, w') \<and>
    view w' = restored es (view w)"
proof -
  let ?work = "verdicts P w es"
  have valid: "\<forall>(e, it)\<in>set ?work. valid_entry e"
    using load_active_Inr(3) [OF load] by (auto simp: in_verdicts)
  have "\<forall>(e, it)\<in>set ?work. valid_entry e \<and> ready w (je_path e) \<and>
      (ri_state it = APPLIED \<longrightarrow> view w (je_path e) = Some (je_content e))"
    using load_active_Inr(3) [OF load] settled
    by (auto simp: in_verdicts recovery_item_of_def entry_state_ready split: if_splits)
  moreover have "distinct (map (je_path \<circ> fst) ?work)" using paths by (simp only: distinct_verdicts)
  ultimately obtain w' where u: "undo_applied P ?work w = (Inr (), w')" using undo_applied_total by blast
  have v: "view w' = undone ?work (view w)" using undo_applied_prefix [OF valid u] by simp
  have "undone ?work (view w) p = restored es (view w) p" for p
  proof (cases "p \<in> je_path ` set es")
    case True
    then obtain e where e: "e \<in> set es" and p: "p = je_path e" by blast
    have "(e, recovery_item_of P w e) \<in> set ?work" using e by (simp add: in_verdicts)
    from undone_in [OF _ this, of "view w"] paths e settled show ?thesis
      by (auto simp: distinct_verdicts p restored_in recovery_item_of_def entry_state_ready settled_def)
  next
    case False
    moreover from this have "p \<notin> je_path ` fst ` set ?work" by (auto simp: in_verdicts)
    ultimately show ?thesis by (simp add: undone_other restored_other)
  qed
  with v have "view w' = restored es (view w)" by auto
  moreover have "transition_transaction tid (tx_state tx) ROLLED_BACK db =
      (Inr True, set_tx tid (tx_state tx) ROLLED_BACK db)"
    using keys load_active_Inr(1,2) [OF load] active_transitions(1) by (intro transition_current) auto
  ultimately show ?thesis
    using load u not_blocked [OF settled] by (simp add: rollback_def Let_def)
qed

lemma completed_view:
  assumes paths: "distinct (map je_path es)" and settled: "\<forall>e\<in>set es. ready w (je_path e) \<and> settled (view w) e"
  shows "completed (verdicts P w es) (view w) = written es (view w)"
proof
  fix p
  show "completed (verdicts P w es) (view w) p = written es (view w) p"
  proof (cases "p \<in> je_path ` set es")
    case True
    then obtain e where e: "e \<in> set es" and p: "p = je_path e" by blast
    have "(e, recovery_item_of P w e) \<in> set (verdicts P w es)" using e by (simp add: in_verdicts)
    from completed_in [OF _ this, of "view w"] paths e settled show ?thesis
      by (auto simp: distinct_verdicts p written_in recovery_item_of_def entry_state_ready settled_def)
  next
    case False
    moreover from this have "p \<notin> je_path ` fst ` set (verdicts P w es)" by (auto simp: in_verdicts)
    ultimately show ?thesis by (simp add: completed_other written_other)
  qed
qed

lemma complete_writing_settled:
  assumes valid: "\<forall>e\<in>set es. valid_entry e" and keys: "distinct (map tx_transaction_id (t_transactions db))"
    and tx: "get_transaction tid db = Some tx" "tx_state tx = WRITING"
    and paths: "distinct (map je_path es)" and settled: "\<forall>e\<in>set es. ready w (je_path e) \<and> settled (view w) e"
  shows "\<exists>w'. complete_writing P tid (verdicts P w es) db w =
      (Inr (rc_outcome RC_APPLIED tid (str_nat (length es) @ '' journal write(s) applied'')), set_tx tid WRITING COMMITTED db, w') \<and>
    view w' = written es (view w)"
proof -
  let ?work = "verdicts P w es"
  have v: "\<forall>(e, it)\<in>set ?work. valid_entry e" using valid by (auto simp: in_verdicts)
  have "\<forall>(e, it)\<in>set ?work. valid_entry e \<and> ready w (je_path e) \<and>
      (ri_state it = PENDING \<longrightarrow> view w (je_path e) = je_original e)"
    using valid settled
    by (auto simp: in_verdicts recovery_item_of_def entry_state_ready split: if_splits)
  moreover have "distinct (map (je_path \<circ> fst) ?work)" using paths by (simp only: distinct_verdicts)
  ultimately obtain w' where u: "apply_pending P ?work w = (Inr (), w')" using apply_pending_total by blast
  have "view w' = written es (view w)"
    using apply_pending_prefix [OF v u] completed_view [OF paths settled] by simp
  moreover have "transition_transaction tid WRITING COMMITTED db = (Inr True, set_tx tid WRITING COMMITTED db)"
    using transition_current [OF keys tx(1), of COMMITTED] tx(2) by (simp add: transaction_transitions_def)
  ultimately show ?thesis using u by (simp add: complete_writing_def)
qed

lemma recovery_apply_settled:
  assumes load: "load_active tid db = Inr (tx, es)" and keys: "distinct (map tx_transaction_id (t_transactions db))"
    and paths: "distinct (map je_path es)" and settled: "\<forall>e\<in>set es. ready w (je_path e) \<and> settled (view w) e"
  shows "\<exists>db' w'. recovery_apply P tid db w =
      (Inr (rc_outcome RC_APPLIED tid (str_nat (length es) @ '' journal write(s) applied'')), db', w') \<and>
    get_transaction tid db' = Some (set_tx_state COMMITTED tx) \<and> view w' = written es (view w)"
proof -
  note valid = load_active_Inr(3) [OF load] and tx = load_active_Inr(1,2) [OF load]
  note free = not_blocked [OF settled]
  show ?thesis
  proof (cases "tx_state tx = WRITING")
    case True
    from complete_writing_settled [OF valid keys tx(1) True paths settled] obtain w' where
      "complete_writing P tid (verdicts P w es) db w =
        (Inr (rc_outcome RC_APPLIED tid (str_nat (length es) @ '' journal write(s) applied'')), set_tx tid WRITING COMMITTED db, w')"
      "view w' = written es (view w)" by blast
    with True load free tx(1) show ?thesis
      by (auto simp: recovery_apply_def Let_def get_transaction_set_tx)
  next
    case False
    let ?db = "set_tx tid (tx_state tx) WRITING db"
    have t: "transition_transaction tid (tx_state tx) WRITING db = (Inr True, ?db)"
      using keys tx active_transitions(2) False by (intro transition_current) auto
    have g: "get_transaction tid ?db = Some (set_tx_state WRITING tx)"
      using tx(1) by (simp add: get_transaction_set_tx)
    have k: "distinct (map tx_transaction_id (t_transactions ?db))" using keys by simp
    from complete_writing_settled [OF valid k g _ paths settled] obtain w' where
      "complete_writing P tid (verdicts P w es) ?db w =
        (Inr (rc_outcome RC_APPLIED tid (str_nat (length es) @ '' journal write(s) applied'')), set_tx tid WRITING COMMITTED ?db, w')"
      "view w' = written es (view w)" by (auto simp: set_tx_state_def)
    moreover have "get_transaction tid (set_tx tid WRITING COMMITTED ?db) = Some (set_tx_state COMMITTED tx)"
      unfolding get_transaction_set_tx [of tid tid WRITING] g by (simp add: set_tx_state_def)
    moreover have "tx_state tx \<in> {PREPARED, UNRESOLVED}" using active_transitions(3) [OF tx(2)] False by blast
    ultimately show ?thesis
      using load free t by (simp add: recovery_apply_def)
  qed
qed

end

section \<open>Crashes\<close>

text \<open>
  The states a writeback can leave behind when the process dies or a fault stops it: right after
  the journal is committed, after any number of writes, or through the fault handler.
\<close>

inductive crash_state :: "'w port \<Rightarrow> resolver \<Rightarrow> string list \<Rightarrow> writeback_request \<Rightarrow> string \<Rightarrow> string \<Rightarrow>
    database \<Rightarrow> 'w \<Rightarrow> database \<Rightarrow> 'w \<Rightarrow> bool"
  for P resolve workspace req fresh now db w where
  crash_prepared: "refuse resolve workspace req db = None \<Longrightarrow>
     preflight P 0 (wq_operations req) w = Inr es \<Longrightarrow>
     begin_writeback_transaction (wq_run_id req) (wq_candidate_id req) (wq_candidate_revision req)
       (wq_approval_id req) es None fresh now db = (Inr tid, db1) \<Longrightarrow>
     crash_state P resolve workspace req fresh now db w db1 w"
| crash_writing: "refuse resolve workspace req db = None \<Longrightarrow>
     preflight P 0 (wq_operations req) w = Inr es \<Longrightarrow>
     begin_writeback_transaction (wq_run_id req) (wq_candidate_id req) (wq_candidate_revision req)
       (wq_approval_id req) es None fresh now db = (Inr tid, db1) \<Longrightarrow>
     transition_transaction tid PREPARED WRITING db1 = (Inr True, db2) \<Longrightarrow>
     apply_entries P (\<lambda>_ w. w) 0 (take k es) w = (r, w') \<Longrightarrow>
     crash_state P resolve workspace req fresh now db w db2 w'"
| crash_fault: "request_writeback P (\<lambda>_ w. w) resolve workspace req fresh now db w = (Inr out, db', w') \<Longrightarrow>
     wr_status out = WB_FAILED \<Longrightarrow>
     crash_state P resolve workspace req fresh now db w db' w'"

text \<open>
  What a crash leaves: the journal of the whole request in a non-terminal transaction, and a
  prefix of the writes.
\<close>

definition interrupted :: "writeback_request \<Rightarrow> journal_entry list \<Rightarrow> transaction_state \<Rightarrow> nat \<Rightarrow> string \<Rightarrow> string \<Rightarrow>
    database \<Rightarrow> (string \<Rightarrow> string option) \<Rightarrow> database \<Rightarrow> (string \<Rightarrow> string option) \<Rightarrow> bool" where
  "interrupted req es st k fresh now db v db' v' \<longleftrightarrow>
     map entry_op es = wq_operations req \<and> es \<noteq> [] \<and> distinct (map je_path es) \<and>
     map je_position es = map int [0..<length es] \<and>
     (\<forall>e\<in>set es. valid_entry e \<and> v (je_path e) = je_original e) \<and>
     \<not> has_row tx_transaction_id fresh (t_transactions db) \<and> st \<in> set active_transaction_states \<and>
     db' = begun_for st req es fresh now db \<and> v' = written (take k es) v"

context workspace_port
begin

lemma interruptedI:
  assumes pre: "preflight P 0 (wq_operations req) w = Inr es" and ref: "refuse resolve workspace req db = None"
    and ne: "es \<noteq> []" and key: "\<not> has_row tx_transaction_id fresh (t_transactions db)"
    and st: "st \<in> set active_transaction_states" and v': "view w' = written (take k es) (view w)"
  shows "interrupted req es st k fresh now db (view w) (begun_for st req es fresh now db) (view w')"
proof -
  have "distinct (map je_path es)"
    using refuse_None(2) [OF ref] preflight_Inr(1) [OF pre] entry_op_path [of es] by simp
  moreover have "\<forall>e\<in>set es. valid_entry e \<and> view w (je_path e) = je_original e"
    using preflight_Inr(3) [OF pre] preflight_view [OF pre] by blast
  ultimately show ?thesis
    using preflight_Inr(1,2) [OF pre] ne key st v' by (simp add: interrupted_def)
qed

lemma apply_entries_prefix:
  assumes "\<forall>e\<in>set es. valid_entry e" and "apply_entries P (\<lambda>_ w. w) i es w = (r, w')"
  shows "\<exists>k. view w' = written (take k es) (view w)"
proof (cases r)
  case (Inr u)
  with apply_entries_ok [OF assms(1)] assms(2) have "view w' = written (take (length es) es) (view w)" by simp
  then show ?thesis by blast
qed (use apply_entries_error assms in blast)

lemma crash_state_interrupted:
  assumes "crash_state P resolve workspace req fresh now db w db' w'"
  shows "\<exists>es st k. interrupted req es st k fresh now db (view w) db' (view w')"
  using assms
proof cases
  case (crash_prepared es tid)
  note 1 = this
  note bg = begin_Inr [OF 1(4)]
  have tid: "tid = fresh" using bg(1) by (simp add: py_or_def)
  from interruptedI [OF 1(3,2) bg(6), of fresh PREPARED w 0] bg(4) show ?thesis
    unfolding bg(3) 1(1) tid by (auto simp: active_transaction_states_def)
next
  case (crash_writing es tid db1 k r)
  note 2 = this
  note bg = begin_Inr [OF 2(3)]
  have tid: "tid = fresh" using bg(1) by (simp add: py_or_def)
  have valid: "\<forall>e\<in>set (take k es). valid_entry e"
    using preflight_Inr(3) [OF 2(2)] by (blast dest: in_set_takeD)
  obtain j where "view w' = written (take j (take k es)) (view w)"
    using apply_entries_prefix [OF valid 2(5)] by blast
  then have v: "view w' = written (take (min j k) es) (view w)" by simp
  have "db' = begun_for WRITING req es fresh now db"
    using 2(4) transition_begun [OF bg(4), of PREPARED WRITING] unfolding bg(3) tid
    by (simp add: transaction_transitions_def)
  with interruptedI [OF 2(2,1) bg(6), of fresh WRITING w' "min j k"] bg(4) v show ?thesis
    unfolding tid by (auto simp: active_transaction_states_def)
next
  case (crash_fault out)
  note 3 = this
  from 3(1) show ?thesis
  proof (cases rule: request_writeback_cases)
    case early
    with 3(2) show ?thesis by auto
  next
    case (journaled es)
    have valid: "\<forall>e\<in>set es. valid_entry e" using preflight_Inr(3) [OF journaled(2)] by blast
    obtain err where a: "apply_entries P (\<lambda>_ w. w) 0 es w = (Inl err, w')"
        and db': "db' = begun_for UNRESOLVED req es fresh now db"
      using journaled(6) 3(2) by (auto simp: wb_outcome_def split: prod.splits sum.splits)
    from apply_entries_prefix [OF valid a] obtain k where "view w' = written (take k es) (view w)" by blast
    with interruptedI [OF journaled(2,1,3,5), of UNRESOLVED w' k] db' show ?thesis
      by (auto simp: active_transaction_states_def)
  qed
qed

end

lemma interrupted_settled:
  assumes "interrupted req es st k fresh now db v db' v'" and "e \<in> set es"
  shows "settled v' e"
proof -
  have d: "distinct (map je_path es)" and v: "v (je_path e) = je_original e" and v': "v' = written (take k es) v"
    using assms by (auto simp: interrupted_def)
  show ?thesis
  proof (cases "je_path e \<in> je_path ` set (take k es)")
    case True
    then obtain x where x: "x \<in> set (take k es)" "je_path x = je_path e" by auto
    then have "x = e" using d assms(2) by (metis in_set_takeD inj_on_contraD distinct_map)
    moreover have "distinct (map je_path (take k es))" using d by (simp add: take_map [symmetric])
    ultimately show ?thesis using written_in x v' by (simp add: settled_def)
  qed (use v v' in \<open>simp add: written_other settled_def\<close>)
qed

lemma interrupted_restored:
  assumes "interrupted req es st k fresh now db v db' v'"
  shows "restored es v' = v"
proof
  fix p
  have d: "distinct (map je_path es)" and v: "\<forall>e\<in>set es. v (je_path e) = je_original e"
    and v': "v' = written (take k es) v" using assms by (auto simp: interrupted_def)
  show "restored es v' p = v p"
  proof (cases "p \<in> je_path ` set es")
    case True
    with d v show ?thesis by (auto simp: restored_in)
  next
    case False
    then have "p \<notin> je_path ` set (take k es)" by (auto dest: in_set_takeD)
    with False v' show ?thesis by (simp add: restored_other written_other)
  qed
qed

lemma interrupted_load:
  assumes "interrupted req es st k fresh now db v db' v'"
    and "\<forall>row\<in>set (t_journal db). jr_transaction_id row \<noteq> fresh"
  shows "\<exists>tx. load_active fresh db' = Inr (tx, es) \<and> tx_state tx = st"
  using assms by (auto simp: interrupted_def intro!: load_active_begun)

lemma interrupted_keys:
  "interrupted req es st k fresh now db v db' v' \<Longrightarrow>
     distinct (map tx_transaction_id (t_transactions db')) = distinct (map tx_transaction_id (t_transactions db))"
  by (auto simp: interrupted_def distinct_begun)

context reliable_port
begin

lemma crash_rollback:
  assumes crash: "crash_state P resolve workspace req fresh now db w db' w'"
    and keys: "distinct (map tx_transaction_id (t_transactions db))"
    and unused: "\<forall>row\<in>set (t_journal db). jr_transaction_id row \<noteq> fresh"
    and same: "view w2 = view w'" and ready: "\<forall>op\<in>set (wq_operations req). ready w2 (wo_path op)"
  shows "\<exists>out db2 w3. rollback P fresh db' w2 = (Inr out, db2, w3) \<and> rc_status out = RC_ROLLED_BACK \<and>
    view w3 = view w \<and> (\<exists>tx. get_transaction fresh db2 = Some tx \<and> tx_state tx = ROLLED_BACK)"
proof -
  obtain es st k where i: "interrupted req es st k fresh now db (view w) db' (view w')"
    using crash_state_interrupted [OF crash] by blast
  obtain tx where load: "load_active fresh db' = Inr (tx, es)" using interrupted_load [OF i unused] by blast
  have paths: "distinct (map je_path es)" and ops: "map entry_op es = wq_operations req"
    using i by (auto simp: interrupted_def)
  have "ready w2 (je_path e)" if "e \<in> set es" for e
    using ready that unfolding ops [symmetric] by (auto simp: entry_op_def)
  then have settled: "\<forall>e\<in>set es. ready w2 (je_path e) \<and> settled (view w2) e"
    using interrupted_settled [OF i] same by simp
  have keys': "distinct (map tx_transaction_id (t_transactions db'))" using keys interrupted_keys [OF i] by simp
  from rollback_settled [OF load keys' paths settled] show ?thesis
    using load_active_Inr(1) [OF load] interrupted_restored [OF i] same
    by (auto simp: rc_outcome_def get_transaction_set_tx set_tx_state_def)
qed

lemma crash_apply:
  assumes crash: "crash_state P resolve workspace req fresh now db w db' w'"
    and keys: "distinct (map tx_transaction_id (t_transactions db))"
    and unused: "\<forall>row\<in>set (t_journal db). jr_transaction_id row \<noteq> fresh"
    and same: "view w2 = view w'" and ready: "\<forall>op\<in>set (wq_operations req). ready w2 (wo_path op)"
  shows "\<exists>out db2 w3. recovery_apply P fresh db' w2 = (Inr out, db2, w3) \<and> rc_status out = RC_APPLIED \<and>
    (\<forall>op\<in>set (wq_operations req). view w3 (wo_path op) = Some (wo_content op)) \<and>
    (\<forall>p. p \<notin> wo_path ` set (wq_operations req) \<longrightarrow> view w3 p = view w p) \<and>
    (\<exists>tx. get_transaction fresh db2 = Some tx \<and> tx_state tx = COMMITTED)"
proof -
  obtain es st k where i: "interrupted req es st k fresh now db (view w) db' (view w')"
    using crash_state_interrupted [OF crash] by blast
  obtain tx where load: "load_active fresh db' = Inr (tx, es)" using interrupted_load [OF i unused] by blast
  have paths: "distinct (map je_path es)" and ops: "map entry_op es = wq_operations req"
    using i by (auto simp: interrupted_def)
  have op: "op \<in> set (wq_operations req) \<longleftrightarrow> (\<exists>e\<in>set es. op = entry_op e)" for op
    unfolding ops [symmetric] by auto
  have "wo_path (entry_op e) = je_path e" for e by (simp add: entry_op_def)
  then have settled: "\<forall>e\<in>set es. ready w2 (je_path e) \<and> settled (view w2) e"
    using interrupted_settled [OF i] same ready op by metis
  have keys': "distinct (map tx_transaction_id (t_transactions db'))" using keys interrupted_keys [OF i] by simp
  have dom: "wo_path ` set (wq_operations req) = je_path ` set es"
    unfolding ops [symmetric] by (auto simp: entry_op_def image_iff)
  have old: "view w' p = view w p" if "p \<notin> je_path ` set es" for p
  proof -
    from that have "p \<notin> je_path ` set (take k es)" by (auto dest: in_set_takeD)
    with i show ?thesis by (simp add: interrupted_def written_other)
  qed
  from recovery_apply_settled [OF load keys' paths settled] obtain db2 w3 where
    "recovery_apply P fresh db' w2 = (Inr (rc_outcome RC_APPLIED fresh (str_nat (length es) @ '' journal write(s) applied'')), db2, w3)"
    and tx': "get_transaction fresh db2 = Some (set_tx_state COMMITTED tx)" and w3: "view w3 = written es (view w2)"
    by blast
  moreover have "\<forall>op\<in>set (wq_operations req). view w3 (wo_path op) = Some (wo_content op)"
    using written_in [OF paths] unfolding w3 ops [symmetric] by (auto simp: entry_op_def)
  moreover have "\<forall>p. p \<notin> wo_path ` set (wq_operations req) \<longrightarrow> view w3 p = view w p"
    unfolding dom w3 same by (simp add: written_other old)
  ultimately show ?thesis by (auto simp: rc_outcome_def set_tx_state_def)
qed

end

end
