(* ===== verification/Database_Control.thy ===== *)
theory Database_Control
  imports Database
begin

text \<open>
  Route B1 of \<open>storage/v2_database.py\<close>: the candidate control projection, reference
  profiles, candidate diffs, and validation runs with their one-shot, currency-checked
  completion. Read operations revalidate the stored row through the record constructors, so a
  corrupted row is a \<open>RecordError\<close>.
\<close>

section \<open>INSERT statements\<close>

definition profile_key :: "reference_profile \<Rightarrow> string \<times> int" where
  "profile_key r = (rp_id r, rp_revision r)"

definition insert_profile :: "reference_profile \<Rightarrow> database \<Rightarrow> db_error + database" where
  "insert_profile r db =
     (if has_row profile_key (profile_key r) (t_profiles db) \<or> rp_revision r < 0 then Inl IntegrityError
      else Inr (db\<lparr>t_profiles := t_profiles db @ [r]\<rparr>))"

definition diff_key :: "diff_row \<Rightarrow> string \<times> int" where
  "diff_key r = (df_candidate_id r, df_candidate_revision r)"

definition insert_diff :: "diff_row \<Rightarrow> database \<Rightarrow> db_error + database" where
  "insert_diff r db =
     (if has_row df_diff_id (df_diff_id r) (t_diffs db) \<or> has_row diff_key (diff_key r) (t_diffs db) \<or>
         df_candidate_revision r < 0 \<or> \<not> has_row rn_run_id (df_run_id r) (t_runs db) \<or>
         \<not> has_row cn_candidate_id (df_candidate_id r) (t_candidates db) \<or>
         \<not> has_row af_artifact_id (df_artifact_id r) (t_artifacts db) then Inl IntegrityError
      else Inr (db\<lparr>t_diffs := t_diffs db @ [r]\<rparr>))"

definition insert_validation_run :: "validation_run \<Rightarrow> database \<Rightarrow> db_error + database" where
  "insert_validation_run r db =
     (if has_row vr_validation_run_id (vr_validation_run_id r) (t_validation_runs db) \<or>
         vr_candidate_revision r < 0 \<or> vr_profile_revision r < 0 \<or>
         vr_status r \<notin> set validation_run_statuses \<or>
         (case vr_error r of None \<Rightarrow> False | Some e \<Rightarrow> length e > 512) \<or>
         \<not> has_row rn_run_id (vr_run_id r) (t_runs db) \<or>
         \<not> has_row cn_candidate_id (vr_candidate_id r) (t_candidates db) \<or>
         \<not> has_row profile_key (vr_profile_id r, vr_profile_revision r) (t_profiles db)
        then Inl IntegrityError
      else Inr (db\<lparr>t_validation_runs := t_validation_runs db @ [r]\<rparr>))"

section \<open>Candidates and profiles\<close>

definition get_candidate_control :: "string \<Rightarrow> database \<Rightarrow> db_error + candidate_control option" where
  "get_candidate_control candidate_id db =
     (case get_candidate candidate_id db of
        None \<Rightarrow> Inr None
      | Some row \<Rightarrow>
          rbind (lift_record (make_candidate_control (PStr (cn_candidate_id row))
              (PStr (cn_snapshot_id row)) (PInt (cn_revision row)) (PStr (cn_status row))))
            (\<lambda>c. Inr (Some c)))"

definition read_profile :: "reference_profile \<Rightarrow> py_error + reference_profile" where
  "read_profile row =
     make_reference_profile (PStr (rp_id row)) (PInt (rp_revision row)) (PStr (rp_python_version row))
       (PStr (rp_pytest_version row)) (PStr (rp_ruff_version row)) (PStr (rp_mypy_version row))"

definition create_reference_profile :: "reference_profile \<Rightarrow> database \<Rightarrow> unit db_result" where
  "create_reference_profile profile =
     transaction (\<lambda>db.
       if has_row profile_key (profile_key profile) (t_profiles db)
         then Inl (V2DatabaseError ''reference profile revision already exists'')
       else rbind (insert_profile profile db) (\<lambda>db'. Inr ((), db')))"

definition get_reference_profile ::
  "string \<Rightarrow> int \<Rightarrow> database \<Rightarrow> db_error + reference_profile option" where
  "get_reference_profile profile_id profile_revision db =
     rbind (require_revision profile_revision) (\<lambda>n.
       case find_row profile_key (profile_id, n) (t_profiles db) of
         None \<Rightarrow> Inr None
       | Some row \<Rightarrow> rbind (lift_record (read_profile row)) (\<lambda>p. Inr (Some p)))"

section \<open>Candidate diffs\<close>

definition create_candidate_diff ::
  "string \<Rightarrow> string \<Rightarrow> int \<Rightarrow> string \<Rightarrow> string option \<Rightarrow> string \<Rightarrow> database \<Rightarrow> string db_result" where
  "create_candidate_diff run_id candidate_id candidate_revision artifact_id diff_id fresh db =
     (case require_revision candidate_revision of
        Inl e \<Rightarrow> (Inl e, db)
      | Inr n \<Rightarrow>
          let ident = py_or diff_id fresh in
          transaction (\<lambda>db.
            case get_candidate candidate_id db of
              None \<Rightarrow> Inl (V2DatabaseError ''candidate run mismatch'')
            | Some candidate \<Rightarrow>
                if cn_run_id candidate \<noteq> run_id then Inl (V2DatabaseError ''candidate run mismatch'')
                else if cn_revision candidate \<noteq> n
                  then Inl (V2DatabaseError ''candidate revision is stale'')
                else (case find_row af_artifact_id artifact_id (t_artifacts db) of
                  None \<Rightarrow> Inl (V2DatabaseError ''artifact run mismatch'')
                | Some artifact \<Rightarrow>
                    if af_run_id artifact \<noteq> run_id then Inl (V2DatabaseError ''artifact run mismatch'')
                    else if has_row diff_key (candidate_id, n) (t_diffs db)
                      then Inl (V2DatabaseError ''a candidate diff revision is already recorded'')
                    else rbind (insert_diff \<lparr>df_diff_id = ident, df_run_id = run_id,
                           df_candidate_id = candidate_id, df_candidate_revision = n,
                           df_artifact_id = artifact_id\<rparr> db)
                         (\<lambda>db'. Inr (ident, db')))) db)"

definition get_candidate_diff :: "string \<Rightarrow> int \<Rightarrow> database \<Rightarrow> db_error + candidate_diff option" where
  "get_candidate_diff candidate_id candidate_revision db =
     rbind (require_revision candidate_revision) (\<lambda>n.
       case find_row diff_key (candidate_id, n) (t_diffs db) of
         None \<Rightarrow> Inr None
       | Some row \<Rightarrow>
           rbind (lift_record (make_candidate_diff (PStr (df_diff_id row)) (PStr (df_candidate_id row))
               (PInt (df_candidate_revision row)) (PStr (df_artifact_id row))))
             (\<lambda>d. Inr (Some d)))"

section \<open>Validation runs\<close>

definition create_validation_run ::
  "string \<Rightarrow> string \<Rightarrow> int \<Rightarrow> string \<Rightarrow> int \<Rightarrow> string option \<Rightarrow> string \<Rightarrow> database \<Rightarrow> string db_result" where
  "create_validation_run run_id candidate_id candidate_revision profile_id profile_revision
     validation_run_id fresh db =
     (case rbind (require_revision candidate_revision) (\<lambda>_. require_revision profile_revision) of
        Inl e \<Rightarrow> (Inl e, db)
      | Inr _ \<Rightarrow>
          let ident = py_or validation_run_id fresh in
          transaction (\<lambda>db.
            case get_candidate candidate_id db of
              None \<Rightarrow> Inl (V2DatabaseError ''validation run/candidate mismatch'')
            | Some candidate \<Rightarrow>
                if cn_run_id candidate \<noteq> run_id
                  then Inl (V2DatabaseError ''validation run/candidate mismatch'')
                else if cn_revision candidate \<noteq> candidate_revision
                  then Inl (V2DatabaseError ''candidate revision is stale'')
                else if \<not> has_row profile_key (profile_id, profile_revision) (t_profiles db)
                  then Inl (V2DatabaseError ''reference profile revision is unknown'')
                else rbind (insert_validation_run \<lparr>vr_validation_run_id = ident, vr_run_id = run_id,
                       vr_candidate_id = candidate_id, vr_candidate_revision = candidate_revision,
                       vr_profile_id = profile_id, vr_profile_revision = profile_revision,
                       vr_status = ''PENDING'', vr_error = None\<rparr> db)
                     (\<lambda>db'. Inr (ident, db'))) db)"

definition find_validation_run :: "string \<Rightarrow> database \<Rightarrow> validation_run option" where
  "find_validation_run vid db = find_row vr_validation_run_id vid (t_validation_runs db)"

definition get_validation_run :: "string \<Rightarrow> database \<Rightarrow> db_error + validation_run option" where
  "get_validation_run vid db =
     (case find_validation_run vid db of
        None \<Rightarrow> Inr None
      | Some row \<Rightarrow>
          rbind (lift_record (make_validation_run (PStr (vr_validation_run_id row)) (PStr (vr_run_id row))
              (PStr (vr_candidate_id row)) (PInt (vr_candidate_revision row)) (PStr (vr_profile_id row))
              (PInt (vr_profile_revision row)) (PStr (vr_status row)) (opt_str (vr_error row))))
            (\<lambda>v. Inr (Some v)))"

definition complete_validation :: "string \<times> string option \<Rightarrow> validation_run \<Rightarrow> validation_run" where
  "complete_validation v r = r\<lparr>vr_status := fst v, vr_error := snd v\<rparr>"

definition check_result_shape :: "string \<Rightarrow> string option \<Rightarrow> db_error + unit" where
  "check_result_shape status err =
     (if status \<noteq> ''PASSED'' \<and> status \<noteq> ''FAILED''
        then Inl (V2DatabaseError ''validation result status must be PASSED or FAILED'')
      else if status = ''FAILED'' then
        (case err of
           None \<Rightarrow> Inl (V2DatabaseError ''FAILED validation results require a non-empty error message'')
         | Some e \<Rightarrow>
             if e = []
               then Inl (V2DatabaseError ''FAILED validation results require a non-empty error message'')
             else if length e > max_validation_error_chars
               then Inl (V2DatabaseError ''validation result error message exceeds the bounded length'')
             else Inr ())
      else if err \<noteq> None
        then Inl (V2DatabaseError ''only FAILED validation results carry an error message'')
      else Inr ())"

definition record_validation_result ::
  "string \<Rightarrow> string \<Rightarrow> string option \<Rightarrow> database \<Rightarrow> bool db_result" where
  "record_validation_result vid status err db =
     (case check_result_shape status err of
        Inl e \<Rightarrow> (Inl e, db)
      | Inr _ \<Rightarrow>
        transaction (\<lambda>db.
          case find_validation_run vid db of
            None \<Rightarrow> Inr (False, db)
          | Some run \<Rightarrow>
              if vr_status run \<noteq> ''PENDING'' then Inr (False, db)
              else (case get_candidate (vr_candidate_id run) db of
                None \<Rightarrow> Inl (V2DatabaseError ''the validation candidate no longer belongs to the run'')
              | Some candidate \<Rightarrow>
                  if cn_run_id candidate \<noteq> vr_run_id run
                    then Inl (V2DatabaseError ''the validation candidate no longer belongs to the run'')
                  else if cn_revision candidate \<noteq> vr_candidate_revision run
                    then Inl (V2DatabaseError ''candidate revision is stale'')
                  else (case find_row profile_key (vr_profile_id run, vr_profile_revision run) (t_profiles db) of
                    None \<Rightarrow> Inl (V2DatabaseError ''reference profile revision is missing'')
                  | Some profile \<Rightarrow>
                      (case read_profile profile of
                         Inl _ \<Rightarrow> Inl (V2DatabaseError ''reference profile revision is corrupted'')
                       | Inr _ \<Rightarrow>
                           let P = (\<lambda>r. vr_validation_run_id r = vid \<and> vr_status r = ''PENDING'')
                           in Inr (rowcount P (t_validation_runs db) = 1,
                                db\<lparr>t_validation_runs :=
                                     update_rows P (complete_validation (status, err)) (t_validation_runs db)\<rparr>))))) db)"

section \<open>Validation runs satisfy the table contract\<close>

interpretation validation_table: keyed_table vr_validation_run_id complete_validation
  by unfold_locales (simp add: complete_validation_def)

end
