(* ===== verification/Database_Ledger.thy ===== *)
theory Database_Ledger
  imports Database_Control
begin

text \<open>
  Route B2 of \<open>storage/v2_database.py\<close>: provider endpoints, disclosure grants with their
  category and scope child rows, and the disclosure ledger, the atomic charge of a request
  against its grant and the one-shot consume of an authorization. The consume-time clock is an
  argument \<open>now\<close> of type \<open>datetime\<close>, as the code injects it.
\<close>

section \<open>INSERT statements\<close>

definition insert_endpoint :: "provider_endpoint \<Rightarrow> database \<Rightarrow> db_error + database" where
  "insert_endpoint r db =
     (if has_row pe_endpoint_id (pe_endpoint_id r) (t_endpoints db) \<or> pe_profile_revision r < 0
        then Inl IntegrityError
      else Inr (db\<lparr>t_endpoints := t_endpoints db @ [r]\<rparr>))"

definition insert_grant :: "grant_row \<Rightarrow> database \<Rightarrow> db_error + database" where
  "insert_grant r db =
     (if has_row gw_grant_id (gw_grant_id r) (t_grants db) \<or>
         has_row gw_disclosure_id (gw_disclosure_id r) (t_grants db) \<or>
         gw_profile_revision r < 0 \<or> gw_byte_budget r < 1 \<or> gw_consumed_bytes r < 0 \<or>
         \<not> has_row di_disclosure_id (gw_disclosure_id r) (t_disclosures db) \<or>
         \<not> has_row rn_run_id (gw_run_id r) (t_runs db) then Inl IntegrityError
      else Inr (db\<lparr>t_grants := t_grants db @ [r]\<rparr>))"

definition category_key :: "category_row \<Rightarrow> string \<times> nat" where
  "category_key r = (gc_grant_id r, gc_position r)"

definition category_unique :: "category_row \<Rightarrow> string \<times> string" where
  "category_unique r = (gc_grant_id r, gc_category r)"

definition insert_category :: "category_row \<Rightarrow> database \<Rightarrow> db_error + database" where
  "insert_category r db =
     (if has_row category_key (category_key r) (t_grant_categories db) \<or>
         has_row category_unique (category_unique r) (t_grant_categories db) \<or>
         \<not> has_row gw_grant_id (gc_grant_id r) (t_grants db) then Inl IntegrityError
      else Inr (db\<lparr>t_grant_categories := t_grant_categories db @ [r]\<rparr>))"

definition scope_row_key :: "scope_row \<Rightarrow> string \<times> nat" where
  "scope_row_key r = (gs_grant_id r, gs_position r)"

definition scope_unique :: "scope_row \<Rightarrow> string \<times> scope_kind \<times> string" where
  "scope_unique r = (gs_grant_id r, gs_kind r, gs_path r)"

definition insert_scope :: "scope_row \<Rightarrow> database \<Rightarrow> db_error + database" where
  "insert_scope r db =
     (if has_row scope_row_key (scope_row_key r) (t_grant_scopes db) \<or>
         has_row scope_unique (scope_unique r) (t_grant_scopes db) \<or>
         \<not> has_row gw_grant_id (gs_grant_id r) (t_grants db) then Inl IntegrityError
      else Inr (db\<lparr>t_grant_scopes := t_grant_scopes db @ [r]\<rparr>))"

definition authorization_unique :: "authorization_row \<Rightarrow> string \<times> string" where
  "authorization_unique r = (aw_grant_id r, aw_request_id r)"

definition insert_authorization :: "authorization_row \<Rightarrow> database \<Rightarrow> db_error + database" where
  "insert_authorization r db =
     (if has_row aw_authorization_id (aw_authorization_id r) (t_authorizations db) \<or>
         has_row authorization_unique (authorization_unique r) (t_authorizations db) \<or>
         aw_charge_bytes r < 1 \<or> \<not> has_row gw_grant_id (aw_grant_id r) (t_grants db) \<or>
         \<not> has_row rn_run_id (aw_run_id r) (t_runs db) \<or>
         \<not> has_row pe_endpoint_id (aw_endpoint_id r) (t_endpoints db) then Inl IntegrityError
      else Inr (db\<lparr>t_authorizations := t_authorizations db @ [r]\<rparr>))"

definition source_row_key :: "source_row \<Rightarrow> string \<times> nat" where
  "source_row_key r = (sr_authorization_id r, sr_position r)"

definition insert_source :: "source_row \<Rightarrow> database \<Rightarrow> db_error + database" where
  "insert_source r db =
     (if has_row source_row_key (source_row_key r) (t_authorization_sources db) \<or>
         \<not> has_row aw_authorization_id (sr_authorization_id r) (t_authorizations db)
        then Inl IntegrityError
      else Inr (db\<lparr>t_authorization_sources := t_authorization_sources db @ [r]\<rparr>))"

section \<open>Provider endpoints\<close>

definition endpoint_record :: "string \<Rightarrow> database \<Rightarrow> db_error + provider_endpoint option" where
  "endpoint_record endpoint_id db =
     (case find_row pe_endpoint_id endpoint_id (t_endpoints db) of
        None \<Rightarrow> Inr None
      | Some row \<Rightarrow>
          rbind (lift_record (make_provider_endpoint (PStr (pe_endpoint_id row)) (PStr (pe_provider row))
              (PStr (pe_profile_id row)) (PInt (pe_profile_revision row))))
            (\<lambda>e. Inr (Some e)))"

definition create_provider_endpoint :: "provider_endpoint \<Rightarrow> database \<Rightarrow> unit db_result" where
  "create_provider_endpoint endpoint =
     transaction (\<lambda>db.
       if has_row pe_endpoint_id (pe_endpoint_id endpoint) (t_endpoints db)
         then Inl (V2DatabaseError ''provider endpoint already exists'')
       else rbind (insert_endpoint endpoint db) (\<lambda>db'. Inr ((), db')))"

definition get_provider_endpoint :: "string \<Rightarrow> database \<Rightarrow> db_error + provider_endpoint option" where
  "get_provider_endpoint endpoint_id db = endpoint_record endpoint_id db"

section \<open>Grants\<close>

definition grant_categories :: "string \<Rightarrow> database \<Rightarrow> string list" where
  "grant_categories grant_id db =
     map gc_category (sort_key gc_position
       (filter (\<lambda>r. gc_grant_id r = grant_id) (t_grant_categories db)))"

definition grant_scopes :: "string \<Rightarrow> database \<Rightarrow> py_error + path_scope list" where
  "grant_scopes grant_id db =
     rmap (\<lambda>r. make_path_scope (gs_kind r) (gs_path r))
       (sort_key gs_position (filter (\<lambda>r. gs_grant_id r = grant_id) (t_grant_scopes db)))"

definition grant_record :: "iso_parser \<Rightarrow> string \<Rightarrow> database \<Rightarrow> db_error + disclosure_grant option" where
  "grant_record fromiso grant_id db =
     (case find_row gw_grant_id grant_id (t_grants db) of
        None \<Rightarrow> Inr None
      | Some row \<Rightarrow>
          rbind (lift_record (grant_scopes grant_id db)) (\<lambda>scopes.
          rbind (lift_record (make_disclosure_grant fromiso (gw_grant_id row) (gw_disclosure_id row)
              (gw_run_id row) (gw_profile_id row) (gw_profile_revision row) (gw_expires_at row)
              (gw_byte_budget row) (gw_consumed_bytes row) (grant_categories grant_id db) scopes
              (gw_status row)))
            (\<lambda>g. Inr (Some g))))"

definition category_rows :: "string \<Rightarrow> string list \<Rightarrow> category_row list" where
  "category_rows gid cats =
     map (\<lambda>(i, c). \<lparr>gc_grant_id = gid, gc_position = i, gc_category = c\<rparr>) (enumerate 0 cats)"

definition scope_rows :: "string \<Rightarrow> path_scope list \<Rightarrow> scope_row list" where
  "scope_rows gid scopes =
     map (\<lambda>(i, s). \<lparr>gs_grant_id = gid, gs_position = i, gs_kind = ps_kind s, gs_path = ps_path s\<rparr>)
       (enumerate 0 scopes)"

definition create_disclosure_grant ::
  "iso_parser \<Rightarrow> string \<Rightarrow> string \<Rightarrow> string \<Rightarrow> int \<Rightarrow> string \<Rightarrow> int \<Rightarrow> string list \<Rightarrow> path_scope list \<Rightarrow>
   string option \<Rightarrow> string \<Rightarrow> string \<Rightarrow> database \<Rightarrow> string db_result" where
  "create_disclosure_grant fromiso run_id disclosure_id profile_id profile_revision expires_at
     byte_budget categories paths grant_id fresh now db =
     (case make_disclosure_grant fromiso (py_or grant_id fresh) disclosure_id run_id profile_id
         profile_revision expires_at byte_budget 0 categories paths G_PENDING of
        Inl e \<Rightarrow> (Inl (V2DatabaseError ''disclosure grant record is invalid''), db)
      | Inr g \<Rightarrow>
        transaction (\<lambda>db.
          case find_row di_disclosure_id (gr_disclosure_id g) (t_disclosures db) of
            None \<Rightarrow> Inl (V2DatabaseError ''disclosure grant run/disclosure mismatch'')
          | Some disclosure \<Rightarrow>
              if di_run_id disclosure \<noteq> gr_run_id g
                then Inl (V2DatabaseError ''disclosure grant run/disclosure mismatch'')
              else if \<not> has_row profile_key (gr_profile_id g, gr_profile_revision g) (t_profiles db)
                then Inl (V2DatabaseError ''reference profile revision is unknown'')
              else if has_row gw_disclosure_id (gr_disclosure_id g) (t_grants db)
                then Inl (V2DatabaseError ''a disclosure grant already exists for this disclosure'')
              else
                rbind (insert_grant \<lparr>gw_grant_id = gr_grant_id g, gw_disclosure_id = gr_disclosure_id g,
                    gw_run_id = gr_run_id g, gw_profile_id = gr_profile_id g,
                    gw_profile_revision = gr_profile_revision g, gw_expires_at = gr_expires_at g,
                    gw_byte_budget = gr_byte_budget g, gw_consumed_bytes = 0, gw_status = G_PENDING,
                    gw_created_at = now\<rparr> db) (\<lambda>db1.
                rbind (insert_all insert_category (category_rows (gr_grant_id g) (gr_categories g)) db1) (\<lambda>db2.
                rbind (insert_all insert_scope (scope_rows (gr_grant_id g) (gr_scopes g)) db2) (\<lambda>db3.
                  Inr (gr_grant_id g, db3))))) db)"

definition get_disclosure_grant :: "iso_parser \<Rightarrow> string \<Rightarrow> database \<Rightarrow> db_error + disclosure_grant option" where
  "get_disclosure_grant fromiso grant_id db = grant_record fromiso grant_id db"

definition get_disclosure_grant_by_disclosure ::
  "iso_parser \<Rightarrow> string \<Rightarrow> database \<Rightarrow> db_error + disclosure_grant option" where
  "get_disclosure_grant_by_disclosure fromiso disclosure_id db =
     (case find_row gw_disclosure_id disclosure_id (t_grants db) of
        None \<Rightarrow> Inr None
      | Some row \<Rightarrow> grant_record fromiso (gw_grant_id row) db)"

definition set_grant_status :: "grant_status \<Rightarrow> grant_row \<Rightarrow> grant_row" where
  "set_grant_status s r = r\<lparr>gw_status := s\<rparr>"

definition activate_disclosure_grant :: "string \<Rightarrow> database \<Rightarrow> bool db_result" where
  "activate_disclosure_grant grant_id =
     transaction (\<lambda>db.
       let (ok, rows) = cas gw_grant_id gw_status set_grant_status grant_id G_PENDING G_ACTIVE (t_grants db)
       in Inr (ok, db\<lparr>t_grants := rows\<rparr>))"

definition revoke_disclosure_grant :: "string \<Rightarrow> database \<Rightarrow> bool db_result" where
  "revoke_disclosure_grant grant_id =
     transaction (\<lambda>db.
       let P = (\<lambda>r. gw_grant_id r = grant_id \<and> gw_status r \<in> {G_PENDING, G_ACTIVE})
       in Inr (rowcount P (t_grants db) = 1,
               db\<lparr>t_grants := update_rows P (set_grant_status G_REVOKED) (t_grants db)\<rparr>))"

definition list_disclosure_grants ::
  "iso_parser \<Rightarrow> int \<Rightarrow> database \<Rightarrow> db_error + disclosure_grant list" where
  "list_disclosure_grants fromiso limit db =
     (if \<not> (1 \<le> limit \<and> limit \<le> 500)
        then Inl (V2DatabaseError ''grant list limit must be between 1 and 500'')
      else rbind (rmap (\<lambda>r. grant_record fromiso (gw_grant_id r) db)
             (take (nat limit) (sort_key (\<lambda>r. (gw_created_at r, gw_grant_id r)) (t_grants db))))
           (\<lambda>gs. Inr (List.map_filter id gs)))"

section \<open>Authorizations\<close>

definition authorization_sources :: "string \<Rightarrow> database \<Rightarrow> py_error + disclosure_source list" where
  "authorization_sources aid db =
     rmap (\<lambda>r. make_disclosure_source (sr_category r) (sr_path r))
       (sort_key sr_position (filter (\<lambda>r. sr_authorization_id r = aid) (t_authorization_sources db)))"

definition authorization_record ::
  "string \<Rightarrow> database \<Rightarrow> db_error + disclosure_authorization option" where
  "authorization_record aid db =
     (case find_row aw_authorization_id aid (t_authorizations db) of
        None \<Rightarrow> Inr None
      | Some row \<Rightarrow>
          rbind (lift_record (authorization_sources aid db)) (\<lambda>sources.
          rbind (lift_record (make_disclosure_authorization (aw_authorization_id row) (aw_grant_id row)
              (aw_run_id row) (aw_request_id row) (aw_endpoint_id row) (aw_charge_bytes row)
              (aw_status row) sources))
            (\<lambda>a. Inr (Some a))))"

definition get_disclosure_authorization ::
  "string \<Rightarrow> database \<Rightarrow> db_error + disclosure_authorization option" where
  "get_disclosure_authorization aid db = authorization_record aid db"

definition source_rows :: "string \<Rightarrow> disclosure_source list \<Rightarrow> source_row list" where
  "source_rows aid sources =
     map (\<lambda>(i, s). \<lparr>sr_authorization_id = aid, sr_position = i, sr_category = ds_category s,
                    sr_path = ds_path s\<rparr>)
       (enumerate 0 sources)"

definition charge_grant :: "int \<Rightarrow> grant_row \<Rightarrow> grant_row" where
  \<comment> \<open>\<open>SET consumed_bytes = ?, status = CASE WHEN ? >= byte_budget THEN 'EXHAUSTED' ELSE status END\<close>\<close>
  "charge_grant new_total r =
     r\<lparr>gw_consumed_bytes := new_total,
       gw_status := (if gw_byte_budget r \<le> new_total then G_EXHAUSTED else gw_status r)\<rparr>"

definition outcome ::
  "authorization_outcome_kind \<Rightarrow> disclosure_authorization option \<Rightarrow> int \<Rightarrow> db_error + authorization_outcome" where
  "outcome kind authorization consumed =
     lift_record (make_authorization_outcome kind authorization consumed (disclosure_outcome_message kind))"

definition finish ::
  "authorization_outcome_kind \<Rightarrow> disclosure_authorization option \<Rightarrow> int \<Rightarrow> authorization_outcome tx_body" where
  "finish kind authorization consumed db = rbind (outcome kind authorization consumed) (\<lambda>r. Inr (r, db))"

definition commit_charge ::
  "disclosure_grant \<Rightarrow> disclosure_authorization \<Rightarrow> authorization_outcome tx_body" where
  "commit_charge g prepared db =
     (let new_consumed = gr_consumed_bytes g + au_charge_bytes prepared in
      rbind (insert_authorization
          \<lparr>aw_authorization_id = au_authorization_id prepared, aw_grant_id = au_grant_id prepared,
           aw_run_id = au_run_id prepared, aw_request_id = au_request_id prepared,
           aw_endpoint_id = au_endpoint_id prepared, aw_charge_bytes = au_charge_bytes prepared,
           aw_status = A_AUTHORIZED\<rparr> db) (\<lambda>db1.
      rbind (insert_all insert_source
          (source_rows (au_authorization_id prepared) (au_sources prepared)) db1) (\<lambda>db2.
      finish AO_AUTHORIZED (Some prepared) new_consumed
        (db2\<lparr>t_grants := update_rows (\<lambda>r. gw_grant_id r = au_grant_id prepared)
                          (charge_grant new_consumed) (t_grants db2)\<rparr>))))"

definition authorize_active ::
  "disclosure_grant \<Rightarrow> disclosure_authorization \<Rightarrow> authorization_outcome tx_body" where
  \<comment> \<open>The part of the transaction behind the grant's own status and expiry.\<close>
  "authorize_active g prepared db =
     rbind (endpoint_record (au_endpoint_id prepared) db) (\<lambda>endpoint_opt.
       case endpoint_opt of
         None \<Rightarrow> finish AO_ENDPOINT_NOT_FOUND None (gr_consumed_bytes g) db
       | Some endpoint \<Rightarrow>
           if pe_profile_id endpoint \<noteq> gr_profile_id g \<or>
              pe_profile_revision endpoint \<noteq> gr_profile_revision g
             then finish AO_PROFILE_MISMATCH None (gr_consumed_bytes g) db
           else (case find_row authorization_unique (au_grant_id prepared, au_request_id prepared)
                   (t_authorizations db) of
             Some existing \<Rightarrow>
               rbind (authorization_record (aw_authorization_id existing) db) (\<lambda>previous_opt.
                 case previous_opt of
                   None \<Rightarrow> Inl (RecordError (ValueError ''NoneType has no attribute run_id''))
                 | Some previous \<Rightarrow>
                     if authorization_payload_key (au_run_id previous) (au_endpoint_id previous)
                          (au_charge_bytes previous) (au_sources previous)
                        = authorization_payload_key (au_run_id prepared) (au_endpoint_id prepared)
                          (au_charge_bytes prepared) (au_sources prepared)
                       then finish AO_REPLAY (Some previous) (gr_consumed_bytes g) db
                     else finish AO_REPLAY_CONFLICT None (gr_consumed_bytes g) db)
           | None \<Rightarrow>
               (case check_request_sources (gr_categories g) (gr_scopes g) (au_sources prepared) of
                  Inl (SourceInvalid e) \<Rightarrow> Inl (RecordError e)
                | Inl _ \<Rightarrow> finish AO_SCOPE_EXCEEDED None (gr_consumed_bytes g) db
                | Inr _ \<Rightarrow>
                    if gr_consumed_bytes g + au_charge_bytes prepared > gr_byte_budget g
                      then finish AO_BUDGET_EXCEEDED None (gr_consumed_bytes g) db
                    else commit_charge g prepared db)))"

definition authorize_body ::
  "iso_parser \<Rightarrow> disclosure_authorization \<Rightarrow> datetime \<Rightarrow> authorization_outcome tx_body" where
  "authorize_body fromiso prepared now db =
     rbind (grant_record fromiso (au_grant_id prepared) db) (\<lambda>grant_opt.
       case grant_opt of
         None \<Rightarrow> finish AO_GRANT_NOT_FOUND None 0 db
       | Some g \<Rightarrow>
           if gr_run_id g \<noteq> au_run_id prepared then finish AO_RUN_MISMATCH None (gr_consumed_bytes g) db
           else (case gr_status g of
             G_PENDING \<Rightarrow> finish AO_GRANT_PENDING None (gr_consumed_bytes g) db
           | G_REVOKED \<Rightarrow> finish AO_GRANT_REVOKED None (gr_consumed_bytes g) db
           | G_EXHAUSTED \<Rightarrow> finish AO_GRANT_EXHAUSTED None (gr_consumed_bytes g) db
           | G_EXPIRED \<Rightarrow> finish AO_GRANT_EXPIRED None (gr_consumed_bytes g) db
           | G_ACTIVE \<Rightarrow>
               rbind (lift_record (grant_is_expired fromiso g now)) (\<lambda>expired.
                 if expired then
                   finish AO_GRANT_EXPIRED None (gr_consumed_bytes g)
                     (db\<lparr>t_grants := snd (cas gw_grant_id gw_status set_grant_status
                           (au_grant_id prepared) G_ACTIVE G_EXPIRED (t_grants db))\<rparr>)
                 else authorize_active g prepared db)))"

definition authorize_disclosure_request ::
  "iso_parser \<Rightarrow> string \<Rightarrow> string \<Rightarrow> string \<Rightarrow> string \<Rightarrow> int \<Rightarrow> disclosure_source list \<Rightarrow> datetime \<Rightarrow>
   string option \<Rightarrow> string \<Rightarrow> database \<Rightarrow> authorization_outcome db_result" where
  "authorize_disclosure_request fromiso grant_id run_id request_id endpoint_id charge_bytes sources now
     authorization_id fresh db =
     (if \<not> (1 \<le> charge_bytes \<and> charge_bytes \<le> max_charge_bytes)
        then (Inl (V2DatabaseError ''charge_bytes is outside the bounded range''), db)
      else (case canonicalize_sources sources of
        Inl e \<Rightarrow> (Inl (RecordError e), db)
      | Inr requested \<Rightarrow>
          (case make_disclosure_authorization (py_or authorization_id fresh) grant_id run_id request_id
               endpoint_id charge_bytes A_AUTHORIZED requested of
             Inl e \<Rightarrow> (Inl (V2DatabaseError ''disclosure authorization record is invalid''), db)
           | Inr prepared \<Rightarrow> transaction (authorize_body fromiso prepared now) db)))"

definition set_authorization_status :: "authorization_status \<Rightarrow> authorization_row \<Rightarrow> authorization_row" where
  "set_authorization_status s r = r\<lparr>aw_status := s\<rparr>"

definition consume_body ::
  "iso_parser \<Rightarrow> string \<Rightarrow> string \<Rightarrow> string \<Rightarrow> string \<Rightarrow> datetime \<Rightarrow> consume_outcome_kind tx_body" where
  "consume_body fromiso authorization_id grant_id run_id request_id now db =
     (case find_row aw_authorization_id authorization_id (t_authorizations db) of
        None \<Rightarrow> Inr (CO_NOT_AUTHORIZED, db)
      | Some row \<Rightarrow>
          if aw_grant_id row \<noteq> grant_id \<or> aw_run_id row \<noteq> run_id \<or> aw_request_id row \<noteq> request_id \<or>
             aw_status row \<noteq> A_AUTHORIZED then Inr (CO_NOT_AUTHORIZED, db)
          else rbind (grant_record fromiso grant_id db) (\<lambda>grant_opt.
            case grant_opt of
              None \<Rightarrow> Inl (V2DatabaseError ''the authorization grant is missing'')
            | Some g \<Rightarrow>
                if gr_status g \<noteq> G_ACTIVE then Inr (CO_GRANT_NOT_ACTIVE, db)
                else rbind (lift_record (grant_is_expired fromiso g now)) (\<lambda>expired.
                  if expired then Inr (CO_GRANT_NOT_ACTIVE, db)
                  else rbind (endpoint_record (aw_endpoint_id row) db) (\<lambda>endpoint_opt.
                    case endpoint_opt of
                      None \<Rightarrow> Inl (V2DatabaseError ''the authorization provider endpoint is missing'')
                    | Some endpoint \<Rightarrow>
                        if pe_profile_id endpoint \<noteq> gr_profile_id g \<or>
                           pe_profile_revision endpoint \<noteq> gr_profile_revision g
                          then Inl (V2DatabaseError ''the endpoint profile binding no longer matches the grant'')
                        else (case cas aw_authorization_id aw_status set_authorization_status
                                authorization_id A_AUTHORIZED A_CONSUMED (t_authorizations db) of
                          (ok, rows) \<Rightarrow>
                            Inr (if ok then CO_CONSUMED else CO_NOT_AUTHORIZED,
                                 db\<lparr>t_authorizations := rows\<rparr>))))))"

definition consume_disclosure_authorization ::
  "iso_parser \<Rightarrow> string \<Rightarrow> string \<Rightarrow> string \<Rightarrow> string \<Rightarrow> datetime \<Rightarrow> database \<Rightarrow> consume_outcome_kind db_result" where
  "consume_disclosure_authorization fromiso authorization_id grant_id run_id request_id now =
     transaction (consume_body fromiso authorization_id grant_id run_id request_id now)"

section \<open>The ledger tables satisfy the table contract\<close>

interpretation grant_table: cas_table gw_grant_id set_grant_status gw_status
  by unfold_locales (simp_all add: set_grant_status_def)

interpretation charge_table: keyed_table gw_grant_id charge_grant
  by unfold_locales (simp add: charge_grant_def)

interpretation authorization_table: cas_table aw_authorization_id set_authorization_status aw_status
  by unfold_locales (simp_all add: set_authorization_status_def)

section \<open>What an authorization changes\<close>

lemma finish_Inr:
  "finish k a c db = Inr (r, db') \<Longrightarrow>
     db' = db \<and> ao_kind r = k \<and> ao_authorization r = a \<and> ao_consumed_bytes r = c"
  by (auto simp: finish_def outcome_def make_authorization_outcome_def)

lemma insert_source_rows:
  "insert_all insert_source rows db = Inr db' \<Longrightarrow>
     db' = db\<lparr>t_authorization_sources := t_authorization_sources db @ rows\<rparr>"
proof (induction rows arbitrary: db)
  case (Cons r rows)
  then have "insert_all insert_source rows
      (db\<lparr>t_authorization_sources := t_authorization_sources db @ [r]\<rparr>) = Inr db'"
    by (auto simp: insert_source_def [of r] split: if_splits)
  from Cons.IH [OF this] show ?case by simp
qed simp

definition prepared_row :: "disclosure_authorization \<Rightarrow> authorization_row" where
  "prepared_row a =
     \<lparr>aw_authorization_id = au_authorization_id a, aw_grant_id = au_grant_id a, aw_run_id = au_run_id a,
      aw_request_id = au_request_id a, aw_endpoint_id = au_endpoint_id a,
      aw_charge_bytes = au_charge_bytes a, aw_status = A_AUTHORIZED\<rparr>"

definition charged :: "disclosure_authorization \<Rightarrow> int \<Rightarrow> database \<Rightarrow> database" where
  "charged a new_consumed db =
     db\<lparr>t_authorizations := t_authorizations db @ [prepared_row a],
        t_authorization_sources := t_authorization_sources db @ source_rows (au_authorization_id a) (au_sources a),
        t_grants := update_rows (\<lambda>r. gw_grant_id r = au_grant_id a) (charge_grant new_consumed) (t_grants db)\<rparr>"

lemma insert_authorization_Inr:
  "insert_authorization r db = Inr db' \<longleftrightarrow>
     \<not> has_row aw_authorization_id (aw_authorization_id r) (t_authorizations db) \<and>
     \<not> has_row authorization_unique (authorization_unique r) (t_authorizations db) \<and>
     1 \<le> aw_charge_bytes r \<and> has_row gw_grant_id (aw_grant_id r) (t_grants db) \<and>
     has_row rn_run_id (aw_run_id r) (t_runs db) \<and>
     has_row pe_endpoint_id (aw_endpoint_id r) (t_endpoints db) \<and>
     db' = db\<lparr>t_authorizations := t_authorizations db @ [r]\<rparr>"
  unfolding insert_authorization_def guard_eq_Inr by auto

lemma commit_charge_Inr:
  assumes "commit_charge g a db = Inr (r, db')"
  shows "ao_kind r = AO_AUTHORIZED" and "ao_authorization r = Some a"
    and "ao_consumed_bytes r = gr_consumed_bytes g + au_charge_bytes a"
    and "db' = charged a (gr_consumed_bytes g + au_charge_bytes a) db"
    and "\<not> has_row aw_authorization_id (au_authorization_id a) (t_authorizations db)"
proof -
  let ?n = "gr_consumed_bytes g + au_charge_bytes a"
  obtain db1 db2 where i: "insert_authorization (prepared_row a) db = Inr db1"
    and s: "insert_all insert_source (source_rows (au_authorization_id a) (au_sources a)) db1 = Inr db2"
    and f: "finish AO_AUTHORIZED (Some a) ?n (db2\<lparr>t_grants := update_rows
      (\<lambda>r. gw_grant_id r = au_grant_id a) (charge_grant ?n) (t_grants db2)\<rparr>) = Inr (r, db')"
    using assms by (auto simp: commit_charge_def Let_def prepared_row_def)
  note f' = finish_Inr [OF f] and s' = insert_source_rows [OF s]
  have i': "db1 = db\<lparr>t_authorizations := t_authorizations db @ [prepared_row a]\<rparr>"
    "\<not> has_row aw_authorization_id (au_authorization_id a) (t_authorizations db)"
    using i by (simp_all add: insert_authorization_Inr prepared_row_def)
  show "ao_kind r = AO_AUTHORIZED" "ao_authorization r = Some a" "ao_consumed_bytes r = ?n"
    using f' by auto
  show "\<not> has_row aw_authorization_id (au_authorization_id a) (t_authorizations db)" by (rule i'(2))
  show "db' = charged a ?n db" using f' i'(1) s' by (simp add: charged_def)
qed

definition expired_grant :: "string \<Rightarrow> database \<Rightarrow> database" where
  "expired_grant gid db =
     db\<lparr>t_grants := snd (cas gw_grant_id gw_status set_grant_status gid G_ACTIVE G_EXPIRED (t_grants db))\<rparr>"

lemma authorize_active_cases:
  assumes "authorize_active g a db = Inr (r, db')"
  shows "ao_kind r = AO_AUTHORIZED \<and> commit_charge g a db = Inr (r, db') \<and>
      gr_consumed_bytes g + au_charge_bytes a \<le> gr_byte_budget g \<and>
      check_request_sources (gr_categories g) (gr_scopes g) (au_sources a) = Inr () \<and>
      find_row authorization_unique (au_grant_id a, au_request_id a) (t_authorizations db) = None \<or>
    ao_kind r \<noteq> AO_AUTHORIZED \<and> db' = db"
proof -
  obtain eo where e: "endpoint_record (au_endpoint_id a) db = Inr eo"
    using assms by (auto simp: authorize_active_def)
  show ?thesis
  proof (cases eo)
    case None
    with assms e show ?thesis by (auto simp: authorize_active_def dest!: finish_Inr)
  next
    case (Some ep)
    show ?thesis
    proof (cases "find_row authorization_unique (au_grant_id a, au_request_id a) (t_authorizations db)")
      case (Some row)
      with assms e \<open>eo = Some ep\<close> show ?thesis
        by (auto simp: authorize_active_def dest!: finish_Inr split: if_splits option.splits)
    next
      case None
      show ?thesis
      proof (cases "check_request_sources (gr_categories g) (gr_scopes g) (au_sources a)")
        case (Inl x)
        with assms e \<open>eo = Some ep\<close> None show ?thesis
          by (cases x) (auto simp: authorize_active_def dest!: finish_Inr split: if_splits)
      next
        case (Inr u)
        with assms e \<open>eo = Some ep\<close> None show ?thesis
          by (auto simp: authorize_active_def dest!: finish_Inr split: if_splits dest: commit_charge_Inr(1))
      qed
    qed
  qed
qed

text \<open>Everything a request for authorization can do to the database.\<close>

lemma authorize_cases:
  assumes "authorize_disclosure_request fromiso gid rid qid eid charge sources now aid fresh db = (Inr r, db')"
  obtains (charged) a g where "grant_record fromiso gid db = Inr (Some g)" "gr_status g = G_ACTIVE"
      "gr_run_id g = rid" "grant_is_expired fromiso g now = Inr False"
      "au_authorization_id a = py_or aid fresh" "au_grant_id a = gid" "au_run_id a = rid"
      "au_request_id a = qid" "au_endpoint_id a = eid" "au_charge_bytes a = charge" "1 \<le> charge"
      "ao_kind r = AO_AUTHORIZED" "commit_charge g a db = Inr (r, db')"
      "gr_consumed_bytes g + charge \<le> gr_byte_budget g"
      "check_request_sources (gr_categories g) (gr_scopes g) (au_sources a) = Inr ()"
      "find_row authorization_unique (gid, qid) (t_authorizations db) = None" "au_sources a = sources"
  | (expired) "ao_kind r = AO_GRANT_EXPIRED" "db' = expired_grant gid db"
  | (unchanged) "ao_kind r \<noteq> AO_AUTHORIZED" "db' = db"
proof -
  obtain ss a where c: "1 \<le> charge" and ss: "canonicalize_sources sources = Inr ss"
    and a: "make_disclosure_authorization (py_or aid fresh) gid rid qid eid charge A_AUTHORIZED ss = Inr a"
    and body: "authorize_body fromiso a now db = Inr (r, db')"
    using assms unfolding authorize_disclosure_request_def by (auto split: if_splits sum.splits)
  have f: "au_authorization_id a = py_or aid fresh" "au_grant_id a = gid" "au_run_id a = rid"
      "au_request_id a = qid" "au_endpoint_id a = eid" "au_charge_bytes a = charge"
      and src: "au_sources a = sources"
    using a ss by (auto simp: make_disclosure_authorization_eq_Inr canonicalize_sources_eq_Inr)
  obtain go where go: "grant_record fromiso gid db = Inr go" using body f(2) by (auto simp: authorize_body_def)
  show thesis
  proof (cases go)
    case None
    with body go f(2) show thesis by (intro unchanged) (auto simp: authorize_body_def dest!: finish_Inr)
  next
    case (Some g)
    show thesis
    proof (cases "gr_run_id g = rid \<and> gr_status g = G_ACTIVE")
      case False
      with body go f(2,3) Some show thesis
        by (intro unchanged)
          (auto simp: authorize_body_def dest!: finish_Inr split: if_splits grant_status.splits)
    next
      case True
      then obtain x where x: "grant_is_expired fromiso g now = Inr x"
        using body go f(2,3) Some by (auto simp: authorize_body_def)
      show thesis
      proof (cases x)
        case True
        with body go f(2,3) Some \<open>gr_run_id g = rid \<and> gr_status g = G_ACTIVE\<close> x show thesis
          by (intro expired) (auto simp: authorize_body_def expired_grant_def lift_record_def dest!: finish_Inr)
      next
        case False
        with body go f(2,3) Some \<open>gr_run_id g = rid \<and> gr_status g = G_ACTIVE\<close> x
        have act: "authorize_active g a db = Inr (r, db')" by (simp add: authorize_body_def lift_record_def)
        from authorize_active_cases [OF act] show thesis
        proof (elim disjE conjE)
          assume ok: "ao_kind r = AO_AUTHORIZED" "commit_charge g a db = Inr (r, db')"
            "gr_consumed_bytes g + au_charge_bytes a \<le> gr_byte_budget g"
            "check_request_sources (gr_categories g) (gr_scopes g) (au_sources a) = Inr ()"
            "find_row authorization_unique (au_grant_id a, au_request_id a) (t_authorizations db) = None"
          show thesis
            by (rule charged [of g a])
              (use go Some \<open>gr_run_id g = rid \<and> gr_status g = G_ACTIVE\<close> x False f src c ok in auto)
        next
          assume "ao_kind r \<noteq> AO_AUTHORIZED" "db' = db"
          then show thesis by (rule unchanged)
        qed
      qed
    qed
  qed
qed

section \<open>What a consume changes\<close>

definition consumed_auth :: "string \<Rightarrow> database \<Rightarrow> database" where
  "consumed_auth aid db =
     db\<lparr>t_authorizations := snd (cas aw_authorization_id aw_status set_authorization_status aid
          A_AUTHORIZED A_CONSUMED (t_authorizations db))\<rparr>"

lemma consume_body_cases:
  assumes "consume_body fromiso aid gid rid qid now db = Inr (k, db')"
  obtains (refused) "k \<noteq> CO_CONSUMED" "db' = db"
  | (consumed) row g where "find_row aw_authorization_id aid (t_authorizations db) = Some row"
      "aw_grant_id row = gid" "aw_run_id row = rid" "aw_request_id row = qid" "aw_status row = A_AUTHORIZED"
      "grant_record fromiso gid db = Inr (Some g)" "gr_status g = G_ACTIVE"
      "grant_is_expired fromiso g now = Inr False" "db' = consumed_auth aid db"
      "k = (if fst (cas aw_authorization_id aw_status set_authorization_status aid A_AUTHORIZED A_CONSUMED
              (t_authorizations db)) then CO_CONSUMED else CO_NOT_AUTHORIZED)"
proof (cases "find_row aw_authorization_id aid (t_authorizations db)")
  case None
  with assms show thesis by (intro refused) (auto simp: consume_body_def)
next
  case (Some row)
  show thesis
  proof (cases "aw_grant_id row = gid \<and> aw_run_id row = rid \<and> aw_request_id row = qid \<and> aw_status row = A_AUTHORIZED")
    case False
    with assms Some show thesis by (intro refused) (auto simp: consume_body_def split: if_splits)
  next
    case True
    note body = assms [unfolded consume_body_def Some option.case]
    from body True obtain g where g: "grant_record fromiso gid db = Inr (Some g)"
      by (auto split: option.splits)
    show thesis
    proof (cases "gr_status g = G_ACTIVE \<and> grant_is_expired fromiso g now = Inr False")
      case False
      with body True g show thesis
        by (intro refused) (auto split: if_splits option.splits)
    next
      case act: True
      obtain ok rows where cas: "cas aw_authorization_id aw_status set_authorization_status aid A_AUTHORIZED
          A_CONSUMED (t_authorizations db) = (ok, rows)" by fastforce
      with body True g act have "k = (if ok then CO_CONSUMED else CO_NOT_AUTHORIZED) \<and>
          db' = db\<lparr>t_authorizations := rows\<rparr>"
        by (auto simp: lift_record_def split: option.splits if_splits)
      with cas Some True g act show thesis
        by (intro consumed [of row g]) (auto simp: consumed_auth_def)
    qed
  qed
qed

lemma find_consumed_auth:
  "find_row aw_authorization_id k (t_authorizations (consumed_auth aid db)) =
     map_option (\<lambda>r. if k = aid \<and> aw_status r = A_AUTHORIZED then set_authorization_status A_CONSUMED r else r)
       (find_row aw_authorization_id k (t_authorizations db))"
  by (cases "k = aid")
    (auto simp: consumed_auth_def authorization_table.cas_find_same authorization_table.cas_find_other
      intro!: option.map_ident [symmetric])

text \<open>A consumed authorization is refused, whatever is asked and whenever.\<close>

lemma consumed_refused_again:
  assumes "find_row aw_authorization_id aid (t_authorizations db) = Some row" and "aw_status row = A_CONSUMED"
  shows "consume_disclosure_authorization fromiso aid gid rid qid now db = (Inr CO_NOT_AUTHORIZED, db)"
  using assms by (simp add: consume_disclosure_authorization_def transaction_def consume_body_def)

text \<open>The charged database read back: the grant row carries the new total.\<close>

lemma find_charged_grant:
  "find_row gw_grant_id gid (t_grants (charged a n db)) =
     map_option (\<lambda>r. if gid = au_grant_id a then charge_grant n r else r) (find_row gw_grant_id gid (t_grants db))"
  by (cases "find_row gw_grant_id gid (t_grants db)")
    (auto simp: charged_def charge_table.find_update dest: find_row_SomeD)

lemma grant_record_row:
  assumes "grant_record fromiso gid db = Inr (Some g)"
  obtains row where "find_row gw_grant_id gid (t_grants db) = Some row" "gw_status row = gr_status g"
    "gw_consumed_bytes row = gr_consumed_bytes g" "gw_byte_budget row = gr_byte_budget g"
    "gr_consumed_bytes g \<le> gr_byte_budget g" "gr_grant_id g = gid"
  using assms
  by (auto simp: grant_record_def make_disclosure_grant_def split: option.splits dest: find_row_SomeD intro!: that)

lemma grant_record_charged:
  assumes "grant_record fromiso gid db = Inr (Some g)" and "au_grant_id a = gid"
    and "0 \<le> n" and "n \<le> gr_byte_budget g"
  shows "grant_record fromiso gid (charged a n db) =
    Inr (Some (g\<lparr>gr_consumed_bytes := n,
      gr_status := (if gr_byte_budget g \<le> n then G_EXHAUSTED else gr_status g)\<rparr>))"
proof -
  obtain row where row: "find_row gw_grant_id gid (t_grants db) = Some row"
    using assms(1) by (auto simp: grant_record_def split: option.splits)
  have "grant_scopes gid (charged a n db) = grant_scopes gid db"
    "grant_categories gid (charged a n db) = grant_categories gid db"
    by (simp_all add: grant_scopes_def grant_categories_def charged_def)
  with assms row show ?thesis
    by (auto simp: grant_record_def find_charged_grant make_disclosure_grant_def charge_grant_def)
qed

section \<open>A concrete ledger\<close>

definition demo_clock :: iso_parser where
  "demo_clock s = (if s = ''2030'' then Some \<lparr>dt_wall = 2030, dt_offset = Some 0\<rparr> else None)"

definition demo_now :: datetime where
  "demo_now = \<lparr>dt_wall = 2026, dt_offset = Some 0\<rparr>"

definition demo_ledger :: "int \<Rightarrow> database" where
  \<comment> \<open>One active grant with the given budget.\<close>
  "demo_ledger budget = empty_database
     \<lparr>t_runs := [\<lparr>rn_run_id = ''r1'', rn_workspace_path = ''/ws'', rn_status = RUN_RUNNING,
        rn_phase = Some ''AGENT_LOOP'', rn_revision = 2, rn_created_at = ''1''\<rparr>],
      t_disclosures := [\<lparr>di_disclosure_id = ''d1'', di_run_id = ''r1'', di_status = ''PENDING''\<rparr>],
      t_endpoints := [\<lparr>pe_endpoint_id = ''e1'', pe_provider = ''acme'', pe_profile_id = ''p1'',
        pe_profile_revision = 0\<rparr>],
      t_grants := [\<lparr>gw_grant_id = ''g1'', gw_disclosure_id = ''d1'', gw_run_id = ''r1'', gw_profile_id = ''p1'',
        gw_profile_revision = 0, gw_expires_at = ''2030'', gw_byte_budget = budget, gw_consumed_bytes = 0,
        gw_status = G_ACTIVE, gw_created_at = ''1''\<rparr>],
      t_grant_categories := [\<lparr>gc_grant_id = ''g1'', gc_position = 0, gc_category = ''TASK''\<rparr>],
      t_grant_scopes := [\<lparr>gs_grant_id = ''g1'', gs_position = 0, gs_kind = ROOT, gs_path = []\<rparr>]\<rparr>"

definition demo_authorize :: "int \<Rightarrow> authorization_outcome db_result" where
  "demo_authorize budget = authorize_disclosure_request demo_clock ''g1'' ''r1'' ''q1'' ''e1'' 100
     [\<lparr>ds_category = ''TASK'', ds_path = None\<rparr>] demo_now None ''x1'' (demo_ledger budget)"

fun authorized_kind :: "authorization_outcome db_result \<Rightarrow> (authorization_outcome_kind \<times> int) option" where
  "authorized_kind (Inr r, db) = Some (ao_kind r, ao_consumed_bytes r)"
| "authorized_kind (Inl e, db) = None"

lemma demo_authorized: "authorized_kind (demo_authorize 500) = Some (AO_AUTHORIZED, 100)"
  by code_simp

lemma demo_exhausting: "authorized_kind (demo_authorize 100) = Some (AO_AUTHORIZED, 100)"
  by code_simp

lemma authorized_kind_Some:
  "authorized_kind x = Some (k, c) \<Longrightarrow> \<exists>r. x = (Inr r, snd x) \<and> ao_kind r = k \<and> ao_consumed_bytes r = c"
  by (cases x rule: authorized_kind.cases) auto

section \<open>Properties\<close>

text \<open>
  Claim C20. What AUTHORIZED means. A request that is authorized was made for an active, unexpired
  grant of its own run, every source is in the grant's categories and, if it names a path, inside
  one of its scopes; the grant is charged exactly once with exactly the charged bytes, and the
  total stays within the budget.
\<close>

theorem authorized_charge:
  assumes "authorize_disclosure_request fromiso gid rid qid eid charge sources now aid fresh db = (Inr r, db')"
    and "ao_kind r = AO_AUTHORIZED"
  shows "\<exists>g row row'. grant_record fromiso gid db = Inr (Some g) \<and> gr_status g = G_ACTIVE \<and> gr_run_id g = rid \<and>
    grant_is_expired fromiso g now = Inr False \<and>
    (\<forall>s\<in>set sources. ds_category s \<in> set (gr_categories g) \<and>
       (\<forall>p. ds_path s = Some p \<longrightarrow> list_ex (scope_admits p) (gr_scopes g))) \<and>
    find_row gw_grant_id gid (t_grants db) = Some row \<and> find_row gw_grant_id gid (t_grants db') = Some row' \<and>
    gw_consumed_bytes row' = gw_consumed_bytes row + charge \<and> gw_consumed_bytes row' = ao_consumed_bytes r \<and>
    gw_consumed_bytes row' \<le> gw_byte_budget row' \<and> gw_byte_budget row' = gw_byte_budget row"
  using assms(1)
proof (cases rule: authorize_cases)
  case (charged a g)
  note c = commit_charge_Inr [OF charged(13)]
  obtain row where row: "find_row gw_grant_id gid (t_grants db) = Some row"
    "gw_consumed_bytes row = gr_consumed_bytes g" "gw_byte_budget row = gr_byte_budget g"
    using grant_record_row [OF charged(1)] by metis
  have "find_row gw_grant_id gid (t_grants db') = Some (charge_grant (gr_consumed_bytes g + charge) row)"
    unfolding c(4) by (simp add: find_charged_grant row(1) charged(6,10))
  moreover have "\<forall>s\<in>set sources. ds_category s \<in> set (gr_categories g) \<and>
       (\<forall>p. ds_path s = Some p \<longrightarrow> list_ex (scope_admits p) (gr_scopes g))"
    using charged(15) unfolding charged(17) check_request_sources_ok
    by (auto simp: disclosure_scope_matches_def disc_canonical_path_eq_Inr)
  ultimately show ?thesis
    using charged row c(3) by (auto simp: charge_grant_def)
qed (use assms(2) in auto)

theorem authorized_charge_witness:
  "\<exists>g row row'. grant_record demo_clock ''g1'' (demo_ledger 500) = Inr (Some g) \<and> gr_status g = G_ACTIVE \<and>
    find_row gw_grant_id ''g1'' (t_grants (demo_ledger 500)) = Some row \<and>
    find_row gw_grant_id ''g1'' (t_grants (snd (demo_authorize 500))) = Some row' \<and>
    gw_consumed_bytes row' = gw_consumed_bytes row + 100"
proof -
  obtain r where r: "demo_authorize 500 = (Inr r, snd (demo_authorize 500))" "ao_kind r = AO_AUTHORIZED"
    using authorized_kind_Some [OF demo_authorized] by blast
  from authorized_charge [OF r(1) [unfolded demo_authorize_def [of 500]] r(2)] show ?thesis
    unfolding demo_authorize_def [of 500, symmetric] by blast
qed




text \<open>
  A consume is authoritative and one-shot. It succeeds only for an authorization in the
  AUTHORIZED state bound to the given grant, run and request, whose grant is active and unexpired at
  consume time; it then marks exactly that authorization CONSUMED, and every later consume of it is
  refused and changes nothing.
\<close>

theorem consume_one_shot:
  assumes "consume_disclosure_authorization fromiso aid gid rid qid now db = (Inr CO_CONSUMED, db')"
  shows "(\<exists>row g. find_row aw_authorization_id aid (t_authorizations db) = Some row \<and>
      aw_status row = A_AUTHORIZED \<and> aw_grant_id row = gid \<and> aw_run_id row = rid \<and> aw_request_id row = qid \<and>
      grant_record fromiso gid db = Inr (Some g) \<and> gr_status g = G_ACTIVE \<and>
      grant_is_expired fromiso g now = Inr False \<and>
      find_row aw_authorization_id aid (t_authorizations db') = Some (row\<lparr>aw_status := A_CONSUMED\<rparr>)) \<and>
    (\<forall>k. k \<noteq> aid \<longrightarrow> find_row aw_authorization_id k (t_authorizations db') =
       find_row aw_authorization_id k (t_authorizations db)) \<and>
    (\<forall>gid2 rid2 qid2 now2. consume_disclosure_authorization fromiso aid gid2 rid2 qid2 now2 db' =
       (Inr CO_NOT_AUTHORIZED, db'))"
proof -
  have "consume_body fromiso aid gid rid qid now db = Inr (CO_CONSUMED, db')"
    using assms by (simp add: consume_disclosure_authorization_def)
  then show ?thesis
  proof (cases rule: consume_body_cases)
    case (consumed row g)
    have find: "find_row aw_authorization_id aid (t_authorizations db') = Some (row\<lparr>aw_status := A_CONSUMED\<rparr>)"
      unfolding consumed(9) using consumed(1,5) by (simp add: find_consumed_auth set_authorization_status_def)
    have other: "find_row aw_authorization_id k (t_authorizations db') =
       find_row aw_authorization_id k (t_authorizations db)" if "k \<noteq> aid" for k
      unfolding consumed(9) consumed_auth_def using that by (simp add: authorization_table.cas_find_other)
    from consumed_refused_again [OF find] have "consume_disclosure_authorization fromiso aid gid2 rid2 qid2 now2 db' =
       (Inr CO_NOT_AUTHORIZED, db')" for gid2 rid2 qid2 now2 by simp
    with consumed find other show ?thesis by blast
  qed simp
qed

definition demo_consume :: "int \<Rightarrow> consume_outcome_kind db_result" where
  "demo_consume budget = consume_disclosure_authorization demo_clock ''x1'' ''g1'' ''r1'' ''q1'' demo_now
     (snd (demo_authorize budget))"

lemma demo_consumed: "fst (demo_consume 500) = Inr CO_CONSUMED"
  by code_simp

theorem consume_one_shot_witness:
  "consume_disclosure_authorization demo_clock ''x1'' ''g1'' ''r1'' ''q1'' demo_now (snd (demo_consume 500)) =
     (Inr CO_NOT_AUTHORIZED, snd (demo_consume 500))"
proof -
  have "demo_consume 500 = (Inr CO_CONSUMED, snd (demo_consume 500))" using demo_consumed by (metis prod.collapse)
  from consume_one_shot [OF this [unfolded demo_consume_def [of 500]]] show ?thesis
    unfolding demo_consume_def [of 500, symmetric] by blast
qed

text \<open>
  A charge that uses up the budget disables its own authorization. When an authorized
  request brings the grant to exactly its byte budget, the grant is flipped to EXHAUSTED in the same
  transaction; the consume that must precede the provider call requires an ACTIVE grant, so the
  authorization that was just charged is refused with GRANT_NOT_ACTIVE, whenever it is presented.
\<close>

theorem exhausting_charge_unusable:
  assumes "authorize_disclosure_request fromiso gid rid qid eid charge sources now aid fresh db = (Inr r, db')"
    and "ao_kind r = AO_AUTHORIZED"
    and "find_row gw_grant_id gid (t_grants db) = Some row" and "ao_consumed_bytes r = gw_byte_budget row"
  shows "consume_disclosure_authorization fromiso (py_or aid fresh) gid rid qid later db' =
    (Inr CO_GRANT_NOT_ACTIVE, db')"
  using assms(1)
proof (cases rule: authorize_cases)
  case (charged a g)
  note c = commit_charge_Inr [OF charged(13)]
  have budget: "gr_consumed_bytes g + charge = gr_byte_budget g"
    using grant_record_row [OF charged(1)] assms(3,4) c(3) charged(10) by (metis option.inject)
  have "gr_consumed_bytes g \<ge> 0"
    using charged(1) by (auto simp: grant_record_def make_disclosure_grant_def split: option.splits)
  then have "grant_record fromiso gid db' = Inr (Some (g\<lparr>gr_consumed_bytes := gr_byte_budget g, gr_status := G_EXHAUSTED\<rparr>))"
    unfolding c(4) charged(10) budget using charged(1,6,11) budget by (subst grant_record_charged) auto
  moreover have "find_row aw_authorization_id (py_or aid fresh) (t_authorizations db') = Some (prepared_row a)"
    unfolding c(4) charged_def using c(5) charged(5)
    by (simp add: find_row_snoc has_row_def prepared_row_def)
  ultimately show ?thesis
    using charged(6-8)
    by (simp add: consume_disclosure_authorization_def transaction_def consume_body_def prepared_row_def)
qed (use assms(2) in auto)

theorem exhausting_charge_unusable_witness:
  "consume_disclosure_authorization demo_clock ''x1'' ''g1'' ''r1'' ''q1'' demo_now (snd (demo_authorize 100)) =
     (Inr CO_GRANT_NOT_ACTIVE, snd (demo_authorize 100))"
proof -
  obtain r where r: "demo_authorize 100 = (Inr r, snd (demo_authorize 100))" "ao_kind r = AO_AUTHORIZED"
    "ao_consumed_bytes r = 100" using authorized_kind_Some [OF demo_exhausting] by blast
  have "find_row gw_grant_id ''g1'' (t_grants (demo_ledger 100)) = Some (hd (t_grants (demo_ledger 100)))"
    "gw_byte_budget (hd (t_grants (demo_ledger 100))) = 100"
    by (simp_all add: demo_ledger_def find_row_Cons)
  with exhausting_charge_unusable [OF r(1) [unfolded demo_authorize_def [of 100]] r(2)] r(3) show ?thesis
    unfolding demo_authorize_def [of 100, symmetric] by (simp add: py_or_def)
qed

end
