(* ===== verification/Database_Edits.thy ===== *)
theory Database_Edits
  imports Database_Ledger
begin

text \<open>
  What can happen to the control database. \<open>db_step\<close> has one rule per operation of
  \<open>V2Database\<close> that writes, with any arguments and any outcome; \<open>reachable\<close> are the
  databases a sequence of such calls makes from the empty one.

  \<open>edit\<close> is the alphabet of single statements these operations are made of, each with the
  guard under which the program runs it. Every operation is a finite sequence of edits
  (\<open>db_step_edits\<close>), so an invariant of the database is checked on the edits only.
\<close>

section \<open>The operations as steps\<close>

inductive db_step :: "iso_parser \<Rightarrow> database \<Rightarrow> database \<Rightarrow> bool" for F :: iso_parser where
  step_create_run: "create_run ws rid fresh now db = (r, db') \<Longrightarrow> db_step F db db'"
| step_transition_run: "transition_run rid n st ph db = (r, db') \<Longrightarrow> db_step F db db'"
| step_transition_run_latest: "transition_run_latest rid st ph db = (r, db') \<Longrightarrow> db_step F db db'"
| step_create_snapshot: "create_snapshot rid sid n fresh db = (r, db') \<Longrightarrow> db_step F db db'"
| step_create_candidate: "create_candidate rid sid n cid fresh db = (r, db') \<Longrightarrow> db_step F db db'"
| step_advance_candidate: "advance_candidate cid n db = (r, db') \<Longrightarrow> db_step F db db'"
| step_create_action: "create_action rid aty acid fresh db = (r, db') \<Longrightarrow> db_step F db db'"
| step_create_disclosure: "create_disclosure rid did fresh db = (r, db') \<Longrightarrow> db_step F db db'"
| step_create_artifact: "create_artifact rid kind loc afid fresh db = (r, db') \<Longrightarrow> db_step F db db'"
| step_create_approval: "create_writeback_approval rid cid n apid fresh db = (r, db') \<Longrightarrow> db_step F db db'"
| step_consume_approval: "consume_writeback_approval apid cid n db = (r, db') \<Longrightarrow> db_step F db db'"
| step_create_transaction: "create_transaction rid cid tid fresh now db = (r, db') \<Longrightarrow> db_step F db db'"
| step_transition_transaction: "transition_transaction tid s s' db = (r, db') \<Longrightarrow> db_step F db db'"
| step_begin: "begin_writeback_transaction rid cid n apid es tid fresh now db = (r, db') \<Longrightarrow> db_step F db db'"
| step_create_profile: "create_reference_profile p db = (r, db') \<Longrightarrow> db_step F db db'"
| step_create_diff: "create_candidate_diff rid cid n afid did fresh db = (r, db') \<Longrightarrow> db_step F db db'"
| step_create_validation: "create_validation_run rid cid n pid pn vid fresh db = (r, db') \<Longrightarrow> db_step F db db'"
| step_record_validation: "record_validation_result vid st err db = (r, db') \<Longrightarrow> db_step F db db'"
| step_create_endpoint: "create_provider_endpoint e db = (r, db') \<Longrightarrow> db_step F db db'"
| step_create_grant: "create_disclosure_grant F rid did pid pn ex budget cats paths gid fresh now db = (r, db') \<Longrightarrow> db_step F db db'"
| step_activate_grant: "activate_disclosure_grant gid db = (r, db') \<Longrightarrow> db_step F db db'"
| step_revoke_grant: "revoke_disclosure_grant gid db = (r, db') \<Longrightarrow> db_step F db db'"
| step_authorize: "authorize_disclosure_request F gid rid qid eid charge sources at aid fresh db = (r, db') \<Longrightarrow> db_step F db db'"
| step_consume: "consume_disclosure_authorization F aid gid rid qid at db = (r, db') \<Longrightarrow> db_step F db db'"

definition reachable :: "iso_parser \<Rightarrow> database \<Rightarrow> bool" where
  "reachable F db \<longleftrightarrow> (db_step F)\<^sup>*\<^sup>* empty_database db"

lemma reachable_empty: "reachable F empty_database"
  by (simp add: reachable_def)

lemma reachable_step: "reachable F db \<Longrightarrow> db_step F db db' \<Longrightarrow> reachable F db'"
  by (simp add: reachable_def rtranclp.rtrancl_into_rtrancl)

section \<open>The alphabet of edits\<close>

definition belongs :: "string \<Rightarrow> string \<Rightarrow> int \<Rightarrow> database \<Rightarrow> bool" where
  \<comment> \<open>The candidate is one of the run and at that revision.\<close>
  "belongs cid rid n db \<longleftrightarrow>
     (\<exists>c. get_candidate cid db = Some c \<and> cn_run_id c = rid \<and> cn_revision c = n)"

definition owned :: "string \<Rightarrow> string \<Rightarrow> database \<Rightarrow> bool" where
  "owned cid rid db \<longleftrightarrow> (\<exists>c. get_candidate cid db = Some c \<and> cn_run_id c = rid)"

inductive edit :: "database \<Rightarrow> database \<Rightarrow> bool" where
  edit_run: "insert_run r db = Inr db' \<Longrightarrow> rn_status r = RUN_CREATED \<Longrightarrow> rn_phase r = None \<Longrightarrow>
     rn_revision r = 1 \<Longrightarrow> edit db db'"
| edit_bump: "get_run rid db = Some row \<Longrightarrow> (rn_status row, st) \<in> set run_transitions \<Longrightarrow>
     (st = RUN_RUNNING) = (ph \<noteq> None) \<Longrightarrow> edit db (snd (update_run_at rid n st ph db))"
| edit_snapshot: "insert_snapshot r db = Inr db' \<Longrightarrow> edit db db'"
| edit_candidate: "insert_candidate r db = Inr db' \<Longrightarrow>
     \<exists>s. find_row sn_snapshot_id (cn_snapshot_id r) (t_snapshots db) = Some s \<and> sn_run_id s = cn_run_id r \<Longrightarrow>
     edit db db'"
| edit_advance: "edit db (db\<lparr>t_candidates := snd (cas cn_candidate_id cn_revision set_candidate_revision
     cid n (n + 1) (t_candidates db))\<rparr>)"
| edit_action: "insert_action r db = Inr db' \<Longrightarrow> edit db db'"
| edit_disclosure: "insert_disclosure r db = Inr db' \<Longrightarrow> edit db db'"
| edit_artifact: "insert_artifact r db = Inr db' \<Longrightarrow> edit db db'"
| edit_approval: "insert_approval r db = Inr db' \<Longrightarrow> ap_status r = AP_PENDING \<Longrightarrow>
     belongs (ap_candidate_id r) (ap_run_id r) (ap_candidate_revision r) db \<Longrightarrow> edit db db'"
| edit_consume_approval: "(\<And>r. P r \<Longrightarrow> ap_status r = AP_PENDING) \<Longrightarrow>
     edit db (db\<lparr>t_approvals := update_rows P (set_approval_status AP_CONSUMED) (t_approvals db)\<rparr>)"
| edit_transaction: "insert_transaction r db = Inr db' \<Longrightarrow> tx_state r = PREPARED \<Longrightarrow>
     owned (tx_candidate_id r) (tx_run_id r) db \<Longrightarrow> edit db db'"
| edit_tx_state: "(s, s') \<in> set transaction_transitions \<Longrightarrow> edit db (set_tx tid s s' db)"
| edit_journal: "insert_journal r db = Inr db' \<Longrightarrow> edit db db'"
| edit_profile: "insert_profile r db = Inr db' \<Longrightarrow> edit db db'"
| edit_diff: "insert_diff r db = Inr db' \<Longrightarrow>
     belongs (df_candidate_id r) (df_run_id r) (df_candidate_revision r) db \<Longrightarrow> edit db db'"
| edit_validation: "insert_validation_run r db = Inr db' \<Longrightarrow> vr_status r = ''PENDING'' \<Longrightarrow> vr_error r = None \<Longrightarrow>
     belongs (vr_candidate_id r) (vr_run_id r) (vr_candidate_revision r) db \<Longrightarrow> edit db db'"
| edit_complete: "check_result_shape st err = Inr () \<Longrightarrow>
     edit db (db\<lparr>t_validation_runs := update_rows (\<lambda>r. vr_validation_run_id r = vid \<and> vr_status r = ''PENDING'')
       (complete_validation (st, err)) (t_validation_runs db)\<rparr>)"
| edit_endpoint: "insert_endpoint r db = Inr db' \<Longrightarrow> edit db db'"
| edit_grant: "insert_grant r db = Inr db' \<Longrightarrow> gw_status r = G_PENDING \<Longrightarrow> gw_consumed_bytes r = 0 \<Longrightarrow> edit db db'"
| edit_category: "insert_category r db = Inr db' \<Longrightarrow> edit db db'"
| edit_scope: "insert_scope r db = Inr db' \<Longrightarrow> edit db db'"
| edit_grant_state: "s' \<in> {G_ACTIVE, G_EXPIRED, G_REVOKED} \<Longrightarrow>
     (\<And>r. P r \<Longrightarrow> (gw_status r, s') \<in> {(G_PENDING, G_ACTIVE), (G_PENDING, G_REVOKED), (G_ACTIVE, G_EXPIRED),
        (G_ACTIVE, G_REVOKED)}) \<Longrightarrow>
     edit db (db\<lparr>t_grants := update_rows P (set_grant_status s') (t_grants db)\<rparr>)"
| edit_charge: "find_row gw_grant_id (aw_grant_id r) (t_grants db) = Some g \<Longrightarrow> gw_status g = G_ACTIVE \<Longrightarrow>
     gw_run_id g = aw_run_id r \<Longrightarrow> gw_consumed_bytes g + aw_charge_bytes r \<le> gw_byte_budget g \<Longrightarrow>
     insert_authorization r db = Inr db' \<Longrightarrow> aw_status r = A_AUTHORIZED \<Longrightarrow>
     edit db (db'\<lparr>t_grants := update_rows (\<lambda>q. gw_grant_id q = aw_grant_id r)
       (charge_grant (gw_consumed_bytes g + aw_charge_bytes r)) (t_grants db)\<rparr>)"
| edit_source: "insert_source r db = Inr db' \<Longrightarrow> edit db db'"
| edit_consume: "edit db (consumed_auth aid db)"

section \<open>Every operation is a sequence of edits\<close>

lemma transaction_edits:
  assumes "transaction body db = (r, db')" and "\<And>x d. body db = Inr (x, d) \<Longrightarrow> edit\<^sup>*\<^sup>* db d"
  shows "edit\<^sup>*\<^sup>* db db'"
  using assms by (cases r) auto

lemma insert_all_edits:
  "insert_all ins rows db = Inr db' \<Longrightarrow> (\<And>r d d'. ins r d = Inr d' \<Longrightarrow> edit d d') \<Longrightarrow> edit\<^sup>*\<^sup>* db db'"
proof (induction rows arbitrary: db)
  case (Cons r rows)
  then obtain d where "ins r db = Inr d" and rest: "insert_all ins rows d = Inr db'" by auto
  with Cons.prems(2) have "edit db d" by blast
  with Cons.IH [OF rest Cons.prems(2)] show ?case by (simp add: converse_rtranclp_into_rtranclp)
qed simp

lemma bump_edits:
  "get_run rid db = Some row \<Longrightarrow> (rn_status row, st) \<in> set run_transitions \<Longrightarrow>
     (st = RUN_RUNNING) = (ph \<noteq> None) \<Longrightarrow> update_run_at rid n st ph db = (x, db') \<Longrightarrow> edit\<^sup>*\<^sup>* db db'"
  using edit_bump [of rid db row st ph n] by auto

lemma run_edits:
  "create_run ws rid' fresh now db = (r, db') \<Longrightarrow> edit\<^sup>*\<^sup>* db db'"
  "transition_run rid n st ph db = (r2, db') \<Longrightarrow> edit\<^sup>*\<^sup>* db db'"
  "transition_run_latest rid st ph db = (r2, db') \<Longrightarrow> edit\<^sup>*\<^sup>* db db'"
proof -
  assume "create_run ws rid' fresh now db = (r, db')"
  then show "edit\<^sup>*\<^sup>* db db'"
    by (auto simp: create_run_def Let_def elim!: transaction_edits intro!: edit_run)
next
  assume t: "transition_run rid n st ph db = (r2, db')"
  show "edit\<^sup>*\<^sup>* db db'"
  proof (cases "get_run rid db")
    case None
    with t show ?thesis by (simp add: transition_run_def)
  next
    case (Some row)
    with t show ?thesis
      by (auto simp: transition_run_def elim!: transaction_edits bump_edits [OF Some, rotated 2] split: if_splits)
  qed
next
  assume "transition_run_latest rid st ph db = (r2, db')"
  then show "edit\<^sup>*\<^sup>* db db'" unfolding transition_run_latest_def
  proof (rule transaction_edits)
    fix x d
    assume b: "(case get_run rid db of None \<Rightarrow> Inr (False, db)
       | Some row \<Rightarrow> if (rn_status row, st) \<notin> set run_transitions then Inr (False, db)
           else if (st = RUN_RUNNING) \<noteq> (ph \<noteq> None) then Inr (False, db)
           else Inr (update_run_at rid (rn_revision row) st ph db)) = (Inr (x, d) :: db_error + bool \<times> database)"
    show "edit\<^sup>*\<^sup>* db d"
      by (cases "get_run rid db") (use b in \<open>auto elim!: bump_edits [rotated 3] split: if_splits\<close>)
  qed
qed

lemmas single_edits = edit_snapshot edit_candidate edit_action edit_disclosure edit_artifact edit_approval
  edit_consume_approval edit_transaction edit_profile edit_diff edit_validation edit_endpoint

lemmas one_edit = single_edits [unfolded belongs_def owned_def, THEN r_into_rtranclp [of edit]]

lemma create_edits:
  "create_snapshot rid sid n fresh db = (r, db') \<Longrightarrow> edit\<^sup>*\<^sup>* db db'"
  "create_candidate rid sid' n cid fresh db = (r, db') \<Longrightarrow> edit\<^sup>*\<^sup>* db db'"
  "create_action rid aty acid fresh db = (r, db') \<Longrightarrow> edit\<^sup>*\<^sup>* db db'"
  "create_disclosure rid did fresh db = (r, db') \<Longrightarrow> edit\<^sup>*\<^sup>* db db'"
  "create_artifact rid kind loc afid fresh db = (r, db') \<Longrightarrow> edit\<^sup>*\<^sup>* db db'"
  by (auto simp: create_snapshot_def create_candidate_def create_action_def create_disclosure_def create_artifact_def
      Let_def elim!: transaction_edits intro: one_edit split: sum.splits option.splits if_splits)

lemma advance_edits: "advance_candidate cid n db = (r, db') \<Longrightarrow> edit\<^sup>*\<^sup>* db db'"
  using edit_advance [of db cid n]
  by (auto simp: advance_candidate_def elim!: transaction_edits split: prod.splits)

lemma approval_edits:
  "create_writeback_approval rid cid n apid' fresh db = (r, db') \<Longrightarrow> edit\<^sup>*\<^sup>* db db'"
  "consume_writeback_approval apid cid n db = (r2, db') \<Longrightarrow> edit\<^sup>*\<^sup>* db db'"
  by (auto simp: create_writeback_approval_def consume_writeback_approval_def belongs_def Let_def
      elim!: transaction_edits intro: one_edit split: sum.splits option.splits if_splits)

lemma owned_approvals [simp]: "owned cid rid (db\<lparr>t_approvals := rows\<rparr>) = owned cid rid db"
  by (simp add: owned_def get_candidate_def)

lemma transaction_row_edits:
  "create_transaction rid cid tid' fresh now db = (r, db') \<Longrightarrow> edit\<^sup>*\<^sup>* db db'"
  "transition_transaction tid s s' db = (r2, db') \<Longrightarrow> edit\<^sup>*\<^sup>* db db'"
proof -
  assume "create_transaction rid cid tid' fresh now db = (r, db')"
  then show "edit\<^sup>*\<^sup>* db db'"
    by (auto simp: create_transaction_def owned_def Let_def elim!: transaction_edits
        intro: one_edit split: sum.splits option.splits if_splits)
next
  assume "transition_transaction tid s s' db = (r2, db')"
  then show "edit\<^sup>*\<^sup>* db db'"
    by (cases "(s, s') \<in> set transaction_transitions")
      (auto simp: transition_transaction_legal intro: edit_tx_state, simp add: transition_transaction_def)
qed

lemma begin_edits:
  assumes "begin_writeback_transaction rid cid n apid es tid fresh now db = (r, db')"
  shows "edit\<^sup>*\<^sup>* db db'"
proof (cases r)
  case (Inl e)
  with assms begin_Inl show ?thesis by fastforce
next
  case (Inr x)
  with assms have body: "begin_body rid cid n apid es (py_or tid fresh) now db = Inr (x, db')"
    by (auto simp: begin_writeback_transaction_def split: sum.splits if_splits)
  let ?rows = "snd (cas ap_approval_id ap_status set_approval_status apid AP_PENDING AP_CONSUMED (t_approvals db))"
  let ?db = "db\<lparr>t_approvals := ?rows\<rparr>"
  have own: "owned cid rid ?db"
    using begin_body_Inr(2) [OF body] by (auto simp: approved_def owned_def get_candidate_def)
  obtain d where i: "insert_transaction \<lparr>tx_transaction_id = py_or tid fresh, tx_run_id = rid, tx_candidate_id = cid,
      tx_state = PREPARED, tx_created_at = now\<rparr> ?db = Inr d"
    and j: "insert_all insert_journal (map (entry_row (py_or tid fresh)) es) d = Inr db'"
    using body by (auto simp: begin_body_def split: option.splits if_splits prod.splits)
  have "edit\<^sup>*\<^sup>* db ?db" unfolding cas_def snd_conv by (rule one_edit) simp
  moreover have "edit ?db d" using i own by (intro edit_transaction) auto
  moreover have "edit\<^sup>*\<^sup>* d db'" using j by (rule insert_all_edits) (rule edit_journal)
  ultimately show ?thesis by (meson rtranclp_trans r_into_rtranclp)
qed

lemma control_edits:
  "create_reference_profile p db = (r, db') \<Longrightarrow> edit\<^sup>*\<^sup>* db db'"
  "create_candidate_diff rid cid n afid did fresh db = (r2, db') \<Longrightarrow> edit\<^sup>*\<^sup>* db db'"
  "create_validation_run rid cid n pid pn vid fresh db = (r2, db') \<Longrightarrow> edit\<^sup>*\<^sup>* db db'"
  by (auto simp: create_reference_profile_def create_candidate_diff_def create_validation_run_def belongs_def Let_def
      elim!: transaction_edits intro: one_edit split: sum.splits option.splits if_splits)

lemma record_edits: "record_validation_result vid st err db = (r, db') \<Longrightarrow> edit\<^sup>*\<^sup>* db db'"
  using edit_complete [of st err db vid]
  by (auto simp: record_validation_result_def Let_def elim!: transaction_edits
      split: sum.splits option.splits if_splits)

lemma endpoint_edits: "create_provider_endpoint e db = (r, db') \<Longrightarrow> edit\<^sup>*\<^sup>* db db'"
  by (auto simp: create_provider_endpoint_def elim!: transaction_edits intro: one_edit split: if_splits)

lemma grant_edits:
  assumes "create_disclosure_grant F rid did pid pn ex budget cats paths gid fresh now db = (r, db')"
  shows "edit\<^sup>*\<^sup>* db db'"
proof (cases "make_disclosure_grant F (py_or gid fresh) did rid pid pn ex budget 0 cats paths G_PENDING")
  case (Inl e)
  with assms show ?thesis by (simp add: create_disclosure_grant_def)
next
  case (Inr g)
  note t = assms [unfolded create_disclosure_grant_def Inr sum.case]
  show ?thesis using t
  proof (rule transaction_edits)
    fix x d
    let ?row = "\<lparr>gw_grant_id = gr_grant_id g, gw_disclosure_id = gr_disclosure_id g,
        gw_run_id = gr_run_id g, gw_profile_id = gr_profile_id g,
        gw_profile_revision = gr_profile_revision g, gw_expires_at = gr_expires_at g,
        gw_byte_budget = gr_byte_budget g, gw_consumed_bytes = 0, gw_status = G_PENDING, gw_created_at = now\<rparr>"
    assume "(case find_row di_disclosure_id (gr_disclosure_id g) (t_disclosures db) of
            None \<Rightarrow> Inl (V2DatabaseError ''disclosure grant run/disclosure mismatch'')
          | Some disclosure \<Rightarrow>
              if di_run_id disclosure \<noteq> gr_run_id g
                then Inl (V2DatabaseError ''disclosure grant run/disclosure mismatch'')
              else if \<not> has_row profile_key (gr_profile_id g, gr_profile_revision g) (t_profiles db)
                then Inl (V2DatabaseError ''reference profile revision is unknown'')
              else if has_row gw_disclosure_id (gr_disclosure_id g) (t_grants db)
                then Inl (V2DatabaseError ''a disclosure grant already exists for this disclosure'')
              else rbind (insert_grant ?row db) (\<lambda>db1.
                rbind (insert_all insert_category (category_rows (gr_grant_id g) (gr_categories g)) db1) (\<lambda>db2.
                rbind (insert_all insert_scope (scope_rows (gr_grant_id g) (gr_scopes g)) db2) (\<lambda>db3.
                  Inr (gr_grant_id g, db3))))) = Inr (x, d)"
    then obtain d1 d2 where 1: "insert_grant ?row db = Inr d1"
      and 2: "insert_all insert_category (category_rows (gr_grant_id g) (gr_categories g)) d1 = Inr d2"
      and 3: "insert_all insert_scope (scope_rows (gr_grant_id g) (gr_scopes g)) d2 = Inr d"
      by (auto split: option.splits if_splits)
    have "edit db d1" using 1 by (rule edit_grant) simp_all
    moreover have "edit\<^sup>*\<^sup>* d1 d2" using 2 by (rule insert_all_edits) (rule edit_category)
    moreover have "edit\<^sup>*\<^sup>* d2 d" using 3 by (rule insert_all_edits) (rule edit_scope)
    ultimately show "edit\<^sup>*\<^sup>* db d" by (meson rtranclp_trans r_into_rtranclp)
  qed
qed

lemma grant_state_edits:
  "activate_disclosure_grant gid db = (r, db') \<Longrightarrow> edit\<^sup>*\<^sup>* db db'"
  "revoke_disclosure_grant gid db = (r, db') \<Longrightarrow> edit\<^sup>*\<^sup>* db db'"
  by (auto simp: activate_disclosure_grant_def revoke_disclosure_grant_def cas_def Let_def elim!: transaction_edits
      intro: edit_grant_state [THEN r_into_rtranclp [of edit]])

lemma grant_record_run: "grant_record F gid db = Inr (Some g) \<Longrightarrow>
    find_row gw_grant_id gid (t_grants db) = Some row \<Longrightarrow> gw_run_id row = gr_run_id g"
  by (auto simp: grant_record_def make_disclosure_grant_def)

lemma insert_source_grants:
  "insert_all insert_source rows d = Inr d2 \<Longrightarrow>
     insert_all insert_source rows (d\<lparr>t_grants := G\<rparr>) = Inr (d2\<lparr>t_grants := G\<rparr>)"
proof (induction rows arbitrary: d)
  case (Cons r rows)
  let ?d = "d\<lparr>t_authorization_sources := t_authorization_sources d @ [r]\<rparr>"
  have rest: "insert_all insert_source rows ?d = Inr d2" and ins: "insert_source r d = Inr ?d"
    using Cons.prems by (auto simp: insert_source_def [of r] split: if_splits)
  have "insert_source r (d\<lparr>t_grants := G\<rparr>) = Inr (?d\<lparr>t_grants := G\<rparr>)"
    using ins by (auto simp: insert_source_def split: if_splits)
  with Cons.IH [OF rest] show ?case by simp
qed simp

lemma charge_edits:
  assumes g: "grant_record F (au_grant_id a) db = Inr (Some g)" "gr_status g = G_ACTIVE" "gr_run_id g = au_run_id a"
    and budget: "gr_consumed_bytes g + au_charge_bytes a \<le> gr_byte_budget g"
    and c: "commit_charge g a db = Inr (r, db')"
  shows "edit\<^sup>*\<^sup>* db db'"
proof -
  let ?n = "gr_consumed_bytes g + au_charge_bytes a"
  obtain row where row: "find_row gw_grant_id (au_grant_id a) (t_grants db) = Some row" "gw_status row = gr_status g"
    "gw_consumed_bytes row = gr_consumed_bytes g" "gw_byte_budget row = gr_byte_budget g"
    using g(1) by (rule grant_record_row)
  obtain db1 db2 where i: "insert_authorization (prepared_row a) db = Inr db1"
    and s: "insert_all insert_source (source_rows (au_authorization_id a) (au_sources a)) db1 = Inr db2"
    using c by (auto simp: commit_charge_def Let_def prepared_row_def)
  let ?grants = "update_rows (\<lambda>q. gw_grant_id q = au_grant_id a) (charge_grant ?n) (t_grants db)"
  let ?charged = "db1\<lparr>t_grants := ?grants\<rparr>"
  have "edit db ?charged"
    using edit_charge [of "prepared_row a" db row db1] row g grant_record_run [OF g(1) row(1)] budget i
    by (simp add: prepared_row_def)
  moreover have "insert_all insert_source (source_rows (au_authorization_id a) (au_sources a)) ?charged =
      Inr (db2\<lparr>t_grants := ?grants\<rparr>)" using s by (rule insert_source_grants)
  then have "edit\<^sup>*\<^sup>* ?charged (db2\<lparr>t_grants := ?grants\<rparr>)" by (rule insert_all_edits) (rule edit_source)
  moreover have "db' = db2\<lparr>t_grants := ?grants\<rparr>"
    using commit_charge_Inr(4) [OF c] insert_source_rows [OF s] i by (simp add: insert_authorization_Inr charged_def)
  ultimately show ?thesis by (simp add: converse_rtranclp_into_rtranclp)
qed

lemma authorize_edits:
  assumes "authorize_disclosure_request F gid rid qid eid charge sources at aid fresh db = (r, db')"
  shows "edit\<^sup>*\<^sup>* db db'"
proof (cases r)
  case (Inl e)
  with assms show ?thesis by (auto simp: authorize_disclosure_request_def split: if_splits sum.splits)
next
  case (Inr out)
  from assms [unfolded Inr] show ?thesis
  proof (cases rule: authorize_cases)
    case (charged a g)
    with charge_edits [of F a db g out db'] show ?thesis by simp
  next
    case expired
    then show ?thesis
      by (auto simp: expired_grant_def cas_def intro!: edit_grant_state r_into_rtranclp)
  qed simp
qed

lemma consume_edits:
  assumes "consume_disclosure_authorization F aid gid rid qid at db = (r, db')"
  shows "edit\<^sup>*\<^sup>* db db'"
  using assms unfolding consume_disclosure_authorization_def
  by (rule transaction_edits) (auto elim: consume_body_cases intro: edit_consume)

lemmas operation_edits = run_edits create_edits advance_edits approval_edits transaction_row_edits begin_edits
  control_edits record_edits endpoint_edits grant_edits grant_state_edits authorize_edits consume_edits

lemma db_step_edits: "db_step F db db' \<Longrightarrow> edit\<^sup>*\<^sup>* db db'"
  by (induction rule: db_step.induct) (erule operation_edits)+

lemma db_steps_edits: "(db_step F)\<^sup>*\<^sup>* db db' \<Longrightarrow> edit\<^sup>*\<^sup>* db db'"
  by (induction rule: rtranclp_induct) (auto dest: db_step_edits)

text \<open>An invariant of the edits holds of every reachable database.\<close>

lemma reachable_edits:
  assumes "reachable F db" and "I empty_database" and "\<And>d d'. edit d d' \<Longrightarrow> I d \<Longrightarrow> I d'"
  shows "I db"
proof -
  have "edit\<^sup>*\<^sup>* empty_database db" using assms(1) db_steps_edits by (simp add: reachable_def)
  then show ?thesis by (induction rule: rtranclp_induct) (use assms(2,3) in auto)
qed

end
