(* ===== verification/Database_Invariants.thy ===== *)
theory Database_Invariants
  imports Database_Edits
begin

text \<open>
  Invariants of the control database, proved on the edits and so of every reachable database:
  primary keys and uniqueness, references, the ownership of candidates by runs, the life cycle
  of runs and validation runs, and the accounts of the disclosure ledger. Then what no later
  operation can undo: a consumed approval or authorization, a final transaction state, a
  finished run and a recorded validation result.
\<close>

section \<open>Keys\<close>

definition keys_ok :: "database \<Rightarrow> bool" where
  "keys_ok db \<longleftrightarrow>
     distinct (map rn_run_id (t_runs db)) \<and> distinct (map sn_snapshot_id (t_snapshots db)) \<and>
     distinct (map cn_candidate_id (t_candidates db)) \<and> distinct (map ac_action_id (t_actions db)) \<and>
     distinct (map di_disclosure_id (t_disclosures db)) \<and> distinct (map af_artifact_id (t_artifacts db)) \<and>
     distinct (map ap_approval_id (t_approvals db)) \<and> distinct (map tx_transaction_id (t_transactions db)) \<and>
     distinct (map journal_key (t_journal db)) \<and> distinct (map profile_key (t_profiles db)) \<and>
     distinct (map df_diff_id (t_diffs db)) \<and> distinct (map diff_key (t_diffs db)) \<and>
     distinct (map vr_validation_run_id (t_validation_runs db)) \<and> distinct (map pe_endpoint_id (t_endpoints db)) \<and>
     distinct (map gw_grant_id (t_grants db)) \<and> distinct (map gw_disclosure_id (t_grants db)) \<and>
     distinct (map category_key (t_grant_categories db)) \<and> distinct (map category_unique (t_grant_categories db)) \<and>
     distinct (map scope_row_key (t_grant_scopes db)) \<and> distinct (map scope_unique (t_grant_scopes db)) \<and>
     distinct (map aw_authorization_id (t_authorizations db)) \<and>
     distinct (map authorization_unique (t_authorizations db)) \<and>
     distinct (map source_row_key (t_authorization_sources db))"

text \<open>What each INSERT checks, and the row columns no UPDATE writes.\<close>

lemma insert_Inr:
  "insert_run r db = Inr db' \<longleftrightarrow> rn_run_id r \<notin> rn_run_id ` set (t_runs db) \<and> 0 \<le> rn_revision r \<and>
     db' = db\<lparr>t_runs := t_runs db @ [r]\<rparr>"
  "insert_snapshot r2 db = Inr db' \<longleftrightarrow> sn_snapshot_id r2 \<notin> sn_snapshot_id ` set (t_snapshots db) \<and>
     0 \<le> sn_revision r2 \<and> sn_run_id r2 \<in> rn_run_id ` set (t_runs db) \<and>
     db' = db\<lparr>t_snapshots := t_snapshots db @ [r2]\<rparr>"
  "insert_candidate r3 db = Inr db' \<longleftrightarrow> cn_candidate_id r3 \<notin> cn_candidate_id ` set (t_candidates db) \<and>
     0 \<le> cn_revision r3 \<and> cn_run_id r3 \<in> rn_run_id ` set (t_runs db) \<and>
     cn_snapshot_id r3 \<in> sn_snapshot_id ` set (t_snapshots db) \<and> db' = db\<lparr>t_candidates := t_candidates db @ [r3]\<rparr>"
  "insert_action r4 db = Inr db' \<longleftrightarrow> ac_action_id r4 \<notin> ac_action_id ` set (t_actions db) \<and>
     ac_run_id r4 \<in> rn_run_id ` set (t_runs db) \<and> db' = db\<lparr>t_actions := t_actions db @ [r4]\<rparr>"
  "insert_disclosure r5 db = Inr db' \<longleftrightarrow> di_disclosure_id r5 \<notin> di_disclosure_id ` set (t_disclosures db) \<and>
     di_run_id r5 \<in> rn_run_id ` set (t_runs db) \<and> db' = db\<lparr>t_disclosures := t_disclosures db @ [r5]\<rparr>"
  "insert_artifact r6 db = Inr db' \<longleftrightarrow> af_artifact_id r6 \<notin> af_artifact_id ` set (t_artifacts db) \<and>
     af_run_id r6 \<in> rn_run_id ` set (t_runs db) \<and> db' = db\<lparr>t_artifacts := t_artifacts db @ [r6]\<rparr>"
  "insert_approval r7 db = Inr db' \<longleftrightarrow> ap_approval_id r7 \<notin> ap_approval_id ` set (t_approvals db) \<and>
     0 \<le> ap_candidate_revision r7 \<and> ap_run_id r7 \<in> rn_run_id ` set (t_runs db) \<and>
     ap_candidate_id r7 \<in> cn_candidate_id ` set (t_candidates db) \<and> db' = db\<lparr>t_approvals := t_approvals db @ [r7]\<rparr>"
  "insert_journal r8 db = Inr db' \<longleftrightarrow> journal_key r8 \<notin> journal_key ` set (t_journal db) \<and>
     jr_transaction_id r8 \<in> tx_transaction_id ` set (t_transactions db) \<and> db' = db\<lparr>t_journal := t_journal db @ [r8]\<rparr>"
  by (auto simp: insert_run_def insert_snapshot_def insert_candidate_def insert_action_def insert_disclosure_def
      insert_artifact_def insert_approval_def insert_journal_def has_row_iff)

lemma insert_control_Inr:
  "insert_profile r db = Inr db' \<longleftrightarrow> profile_key r \<notin> profile_key ` set (t_profiles db) \<and> 0 \<le> rp_revision r \<and>
     db' = db\<lparr>t_profiles := t_profiles db @ [r]\<rparr>"
  "insert_diff r2 db = Inr db' \<longleftrightarrow> df_diff_id r2 \<notin> df_diff_id ` set (t_diffs db) \<and>
     diff_key r2 \<notin> diff_key ` set (t_diffs db) \<and> 0 \<le> df_candidate_revision r2 \<and>
     df_run_id r2 \<in> rn_run_id ` set (t_runs db) \<and> df_candidate_id r2 \<in> cn_candidate_id ` set (t_candidates db) \<and>
     df_artifact_id r2 \<in> af_artifact_id ` set (t_artifacts db) \<and> db' = db\<lparr>t_diffs := t_diffs db @ [r2]\<rparr>"
  "insert_validation_run r3 db = Inr db' \<longleftrightarrow>
     vr_validation_run_id r3 \<notin> vr_validation_run_id ` set (t_validation_runs db) \<and>
     0 \<le> vr_candidate_revision r3 \<and> 0 \<le> vr_profile_revision r3 \<and> vr_status r3 \<in> set validation_run_statuses \<and>
     (case vr_error r3 of None \<Rightarrow> True | Some e \<Rightarrow> length e \<le> 512) \<and>
     vr_run_id r3 \<in> rn_run_id ` set (t_runs db) \<and> vr_candidate_id r3 \<in> cn_candidate_id ` set (t_candidates db) \<and>
     (vr_profile_id r3, vr_profile_revision r3) \<in> profile_key ` set (t_profiles db) \<and>
     db' = db\<lparr>t_validation_runs := t_validation_runs db @ [r3]\<rparr>"
  by (auto simp: insert_profile_def insert_diff_def insert_validation_run_def has_row_iff not_less
      split: option.splits if_splits)

lemma insert_ledger_Inr:
  "insert_endpoint r db = Inr db' \<longleftrightarrow> pe_endpoint_id r \<notin> pe_endpoint_id ` set (t_endpoints db) \<and>
     0 \<le> pe_profile_revision r \<and> db' = db\<lparr>t_endpoints := t_endpoints db @ [r]\<rparr>"
  "insert_grant r2 db = Inr db' \<longleftrightarrow> gw_grant_id r2 \<notin> gw_grant_id ` set (t_grants db) \<and>
     gw_disclosure_id r2 \<notin> gw_disclosure_id ` set (t_grants db) \<and> 0 \<le> gw_profile_revision r2 \<and>
     1 \<le> gw_byte_budget r2 \<and> 0 \<le> gw_consumed_bytes r2 \<and>
     gw_disclosure_id r2 \<in> di_disclosure_id ` set (t_disclosures db) \<and> gw_run_id r2 \<in> rn_run_id ` set (t_runs db) \<and>
     db' = db\<lparr>t_grants := t_grants db @ [r2]\<rparr>"
  "insert_category r3 db = Inr db' \<longleftrightarrow> category_key r3 \<notin> category_key ` set (t_grant_categories db) \<and>
     category_unique r3 \<notin> category_unique ` set (t_grant_categories db) \<and>
     gc_grant_id r3 \<in> gw_grant_id ` set (t_grants db) \<and>
     db' = db\<lparr>t_grant_categories := t_grant_categories db @ [r3]\<rparr>"
  "insert_scope r4 db = Inr db' \<longleftrightarrow> scope_row_key r4 \<notin> scope_row_key ` set (t_grant_scopes db) \<and>
     scope_unique r4 \<notin> scope_unique ` set (t_grant_scopes db) \<and> gs_grant_id r4 \<in> gw_grant_id ` set (t_grants db) \<and>
     db' = db\<lparr>t_grant_scopes := t_grant_scopes db @ [r4]\<rparr>"
  "insert_source r5 db = Inr db' \<longleftrightarrow> source_row_key r5 \<notin> source_row_key ` set (t_authorization_sources db) \<and>
     sr_authorization_id r5 \<in> aw_authorization_id ` set (t_authorizations db) \<and>
     db' = db\<lparr>t_authorization_sources := t_authorization_sources db @ [r5]\<rparr>"
  unfolding insert_endpoint_def insert_grant_def insert_category_def insert_scope_def insert_source_def
    guard_eq_Inr has_row_iff
  by (auto simp: not_less)

lemmas insert_rows = insert_Inr insert_control_Inr insert_ledger_Inr insert_authorization_Inr insert_transaction_Inr
  has_row_iff

lemma image_update_rows: "(\<And>r. g (f r) = g r) \<Longrightarrow> g ` set (update_rows P f rows) = g ` set rows"
  by (metis list.set_map map_update_rows)

lemma fixed_columns [simp]:
  "rn_run_id (bump_run v r) = rn_run_id r"
  "cn_candidate_id (set_candidate_revision n c) = cn_candidate_id c" "cn_run_id (set_candidate_revision n c) = cn_run_id c"
  "cn_snapshot_id (set_candidate_revision n c) = cn_snapshot_id c" "cn_revision (set_candidate_revision n c) = n"
  "ap_approval_id (set_approval_status s a) = ap_approval_id a" "ap_run_id (set_approval_status s a) = ap_run_id a"
  "ap_candidate_id (set_approval_status s a) = ap_candidate_id a"
  "ap_candidate_revision (set_approval_status s a) = ap_candidate_revision a" "ap_status (set_approval_status s a) = s"
  "tx_transaction_id (set_tx_state q t) = tx_transaction_id t" "tx_run_id (set_tx_state q t) = tx_run_id t"
  "tx_candidate_id (set_tx_state q t) = tx_candidate_id t" "tx_state (set_tx_state q t) = q"
  by (simp_all add: bump_run_def set_candidate_revision_def set_approval_status_def set_tx_state_def)

lemma fixed_control_columns [simp]:
  "vr_validation_run_id (complete_validation p v) = vr_validation_run_id v"
  "vr_run_id (complete_validation p v) = vr_run_id v" "vr_candidate_id (complete_validation p v) = vr_candidate_id v"
  "vr_candidate_revision (complete_validation p v) = vr_candidate_revision v"
  "vr_profile_id (complete_validation p v) = vr_profile_id v"
  "vr_profile_revision (complete_validation p v) = vr_profile_revision v"
  "vr_status (complete_validation p v) = fst p" "vr_error (complete_validation p v) = snd p"
  by (simp_all add: complete_validation_def)

lemma fixed_ledger_columns [simp]:
  "gw_grant_id (set_grant_status s g) = gw_grant_id g" "gw_grant_id (charge_grant n g) = gw_grant_id g"
  "gw_disclosure_id (set_grant_status s g) = gw_disclosure_id g" "gw_disclosure_id (charge_grant n g) = gw_disclosure_id g"
  "gw_run_id (set_grant_status s g) = gw_run_id g" "gw_run_id (charge_grant n g) = gw_run_id g"
  "gw_byte_budget (set_grant_status s g) = gw_byte_budget g" "gw_byte_budget (charge_grant n g) = gw_byte_budget g"
  "gw_consumed_bytes (set_grant_status s g) = gw_consumed_bytes g" "gw_consumed_bytes (charge_grant n g) = n"
  "gw_status (set_grant_status s g) = s"
  "gw_status (charge_grant n g) = (if gw_byte_budget g \<le> n then G_EXHAUSTED else gw_status g)"
  "aw_authorization_id (set_authorization_status q a) = aw_authorization_id a"
  "aw_grant_id (set_authorization_status q a) = aw_grant_id a" "aw_run_id (set_authorization_status q a) = aw_run_id a"
  "aw_request_id (set_authorization_status q a) = aw_request_id a"
  "aw_endpoint_id (set_authorization_status q a) = aw_endpoint_id a"
  "aw_charge_bytes (set_authorization_status q a) = aw_charge_bytes a" "aw_status (set_authorization_status q a) = q"
  by (simp_all add: set_grant_status_def charge_grant_def set_authorization_status_def)

lemmas edit_effects = insert_rows update_run_at_def cas_def set_tx_def consumed_auth_def map_update_rows
  image_update_rows authorization_unique_def Let_def

lemma keys_edit: "edit db db' \<Longrightarrow> keys_ok db \<Longrightarrow> keys_ok db'"
  by (induction rule: edit.induct) (auto simp: keys_ok_def edit_effects)

section \<open>References and ownership\<close>

definition refs_ok :: "database \<Rightarrow> bool" where
  "refs_ok db \<longleftrightarrow>
     sn_run_id ` set (t_snapshots db) \<subseteq> rn_run_id ` set (t_runs db) \<and>
     cn_run_id ` set (t_candidates db) \<subseteq> rn_run_id ` set (t_runs db) \<and>
     cn_snapshot_id ` set (t_candidates db) \<subseteq> sn_snapshot_id ` set (t_snapshots db) \<and>
     ac_run_id ` set (t_actions db) \<subseteq> rn_run_id ` set (t_runs db) \<and>
     di_run_id ` set (t_disclosures db) \<subseteq> rn_run_id ` set (t_runs db) \<and>
     af_run_id ` set (t_artifacts db) \<subseteq> rn_run_id ` set (t_runs db) \<and>
     jr_transaction_id ` set (t_journal db) \<subseteq> tx_transaction_id ` set (t_transactions db) \<and>
     df_artifact_id ` set (t_diffs db) \<subseteq> af_artifact_id ` set (t_artifacts db) \<and>
     (\<lambda>v. (vr_profile_id v, vr_profile_revision v)) ` set (t_validation_runs db) \<subseteq> profile_key ` set (t_profiles db) \<and>
     gw_disclosure_id ` set (t_grants db) \<subseteq> di_disclosure_id ` set (t_disclosures db) \<and>
     gc_grant_id ` set (t_grant_categories db) \<subseteq> gw_grant_id ` set (t_grants db) \<and>
     gs_grant_id ` set (t_grant_scopes db) \<subseteq> gw_grant_id ` set (t_grants db) \<and>
     aw_endpoint_id ` set (t_authorizations db) \<subseteq> pe_endpoint_id ` set (t_endpoints db) \<and>
     sr_authorization_id ` set (t_authorization_sources db) \<subseteq> aw_authorization_id ` set (t_authorizations db)"

lemma refs_edit: "edit db db' \<Longrightarrow> refs_ok db \<Longrightarrow> refs_ok db'"
  by (induction rule: edit.induct) (auto simp: refs_ok_def edit_effects)

text \<open>
  The rows that name a run and a candidate name a candidate of that run, and a recorded candidate
  revision is never ahead of the candidate. An authorization is one of the run of its grant.
\<close>

definition owners :: "database \<Rightarrow> (string \<times> string) set" where
  "owners db = (\<lambda>c. (cn_candidate_id c, cn_run_id c)) ` set (t_candidates db)"

definition seen :: "database \<Rightarrow> string \<Rightarrow> int \<Rightarrow> bool" where
  "seen db cid n \<longleftrightarrow> (\<exists>c\<in>set (t_candidates db). cn_candidate_id c = cid \<and> n \<le> cn_revision c)"

definition owners_ok :: "database \<Rightarrow> bool" where
  "owners_ok db \<longleftrightarrow>
     (\<lambda>a. (ap_candidate_id a, ap_run_id a)) ` set (t_approvals db) \<subseteq> owners db \<and>
     (\<lambda>t. (tx_candidate_id t, tx_run_id t)) ` set (t_transactions db) \<subseteq> owners db \<and>
     (\<lambda>d. (df_candidate_id d, df_run_id d)) ` set (t_diffs db) \<subseteq> owners db \<and>
     (\<lambda>v. (vr_candidate_id v, vr_run_id v)) ` set (t_validation_runs db) \<subseteq> owners db \<and>
     (\<lambda>a. (aw_grant_id a, aw_run_id a)) ` set (t_authorizations db) \<subseteq>
       (\<lambda>g. (gw_grant_id g, gw_run_id g)) ` set (t_grants db)"

definition revisions_ok :: "database \<Rightarrow> bool" where
  "revisions_ok db \<longleftrightarrow>
     (\<forall>a\<in>set (t_approvals db). seen db (ap_candidate_id a) (ap_candidate_revision a)) \<and>
     (\<forall>d\<in>set (t_diffs db). seen db (df_candidate_id d) (df_candidate_revision d)) \<and>
     (\<forall>v\<in>set (t_validation_runs db). seen db (vr_candidate_id v) (vr_candidate_revision v))"

lemma belongs_owners: "belongs cid rid n db \<Longrightarrow> (cid, rid) \<in> owners db" "owned cid rid db \<Longrightarrow> (cid, rid) \<in> owners db"
  by (auto simp: belongs_def owned_def owners_def get_candidate_def image_iff dest!: find_row_SomeD)

lemma owners_edit: "edit db db' \<Longrightarrow> owners_ok db \<Longrightarrow> owners_ok db'"
proof (induction rule: edit.induct)
  case (edit_charge r db g db')
  have "(aw_grant_id r, aw_run_id r) \<in> (\<lambda>g. (gw_grant_id g, gw_run_id g)) ` set (t_grants db)"
    using find_row_SomeD [OF edit_charge(1)] edit_charge(3) by (auto intro!: image_eqI [of _ _ g])
  with edit_charge show ?case by (auto simp: owners_ok_def owners_def insert_authorization_Inr image_update_rows)
qed (auto simp: owners_ok_def edit_effects owners_def dest!: belongs_owners)

lemma belongs_seen: "belongs cid rid n db \<Longrightarrow> seen db cid n"
  by (auto simp: belongs_def seen_def get_candidate_def dest!: find_row_SomeD)

lemma seen_edit:
  assumes "edit db db'" and "seen db cid n"
  shows "seen db' cid n"
  using assms
proof (induction rule: edit.induct)
  case (edit_advance db k m)
  then obtain c where "c \<in> set (t_candidates db)" "cn_candidate_id c = cid" "n \<le> cn_revision c"
    by (auto simp: seen_def)
  then show ?case unfolding seen_def cas_def snd_conv
    by (intro bexI [of _ "if cn_candidate_id c = k \<and> cn_revision c = m then set_candidate_revision (m + 1) c else c"])
      (auto simp: in_set_update_rows)
qed (auto simp: seen_def edit_effects)

lemma revisions_edit: "edit db db' \<Longrightarrow> revisions_ok db \<Longrightarrow> revisions_ok db'"
proof -
  assume e: "edit db db'" and r: "revisions_ok db"
  note mono = seen_edit [OF e]
  have "(\<forall>a\<in>set (t_approvals db'). seen db (ap_candidate_id a) (ap_candidate_revision a)) \<and>
     (\<forall>d\<in>set (t_diffs db'). seen db (df_candidate_id d) (df_candidate_revision d)) \<and>
     (\<forall>v\<in>set (t_validation_runs db'). seen db (vr_candidate_id v) (vr_candidate_revision v))"
    using e r by (cases rule: edit.cases)
      (auto simp: revisions_ok_def edit_effects in_set_update_rows dest!: belongs_seen)
  with mono show ?thesis by (auto simp: revisions_ok_def)
qed

section \<open>Life cycles\<close>

fun run_life :: "run_row \<Rightarrow> bool" where
  "run_life r \<longleftrightarrow> (case rn_status r of
     RUN_CREATED \<Rightarrow> rn_revision r = 1 \<and> rn_phase r = None
   | RUN_RUNNING \<Rightarrow> rn_revision r = 2 \<and> rn_phase r \<noteq> None
   | _ \<Rightarrow> rn_revision r = 3 \<and> rn_phase r = None)"

definition validation_life :: "validation_run \<Rightarrow> bool" where
  "validation_life v \<longleftrightarrow> vr_status v \<in> {''PENDING'', ''PASSED''} \<and> vr_error v = None \<or>
     vr_status v = ''FAILED'' \<and> (\<exists>e. vr_error v = Some e \<and> e \<noteq> [] \<and> length e \<le> max_validation_error_chars)"

definition life_ok :: "database \<Rightarrow> bool" where
  "life_ok db \<longleftrightarrow> (\<forall>r\<in>set (t_runs db). run_life r) \<and> (\<forall>v\<in>set (t_validation_runs db). validation_life v)"

lemma run_life_bump:
  "run_life r \<Longrightarrow> (rn_status r, st) \<in> set run_transitions \<Longrightarrow> (st = RUN_RUNNING) = (ph \<noteq> None) \<Longrightarrow>
     run_life (bump_run (st, ph) r)"
  by (cases "rn_status r"; cases st) (auto simp: run_transitions_def bump_run_def)

lemma check_result_shape_life:
  "check_result_shape st err = Inr () \<Longrightarrow> validation_life (complete_validation (st, err) v)"
  by (auto simp: check_result_shape_def validation_life_def split: if_splits option.splits)

lemma life_edit: "edit db db' \<Longrightarrow> keys_ok db \<Longrightarrow> life_ok db \<Longrightarrow> life_ok db'"
proof (induction rule: edit.induct)
  case (edit_bump rid db row st ph n)
  have same: "r = row" if "r \<in> set (t_runs db)" "rn_run_id r = rid" for r
    using find_row_distinct [of rn_run_id "t_runs db" r] that edit_bump by (auto simp: keys_ok_def get_run_def)
  have "row \<in> set (t_runs db)" using edit_bump(1) by (auto simp: get_run_def dest: find_row_SomeD)
  then have "run_life (bump_run (st, ph) row)" using edit_bump by (intro run_life_bump) (auto simp: life_ok_def)
  then have "run_life (bump_run (st, ph) q)" if "q \<in> set (t_runs db)" "rn_run_id q = rid" for q
    using same [OF that] by simp
  with edit_bump(5) show ?case
    by (auto simp: life_ok_def update_run_at_def Let_def in_set_update_rows simp del: run_life.simps)
next
  case (edit_complete st err db vid)
  note finished = check_result_shape_life [OF edit_complete(1)]
  from edit_complete(3) show ?case by (auto simp: life_ok_def in_set_update_rows finished)
qed (auto simp: life_ok_def edit_effects validation_life_def)

section \<open>The accounts of the ledger\<close>

definition charges :: "string \<Rightarrow> authorization_row list \<Rightarrow> int" where
  "charges gid rows = sum_list (map aw_charge_bytes (filter (\<lambda>a. aw_grant_id a = gid) rows))"

definition account_ok :: "authorization_row list \<Rightarrow> grant_row \<Rightarrow> bool" where
  "account_ok rows g \<longleftrightarrow>
     gw_consumed_bytes g = charges (gw_grant_id g) rows \<and> 0 \<le> gw_consumed_bytes g \<and>
     gw_consumed_bytes g \<le> gw_byte_budget g \<and>
     (gw_status g = G_EXHAUSTED \<longleftrightarrow> gw_consumed_bytes g = gw_byte_budget g) \<and>
     (gw_status g = G_PENDING \<longrightarrow> gw_consumed_bytes g = 0)"

definition ledger_ok :: "database \<Rightarrow> bool" where
  "ledger_ok db \<longleftrightarrow> (\<forall>g\<in>set (t_grants db). account_ok (t_authorizations db) g) \<and>
     aw_grant_id ` set (t_authorizations db) \<subseteq> gw_grant_id ` set (t_grants db)"

lemma charges_update:
  assumes "\<And>a. aw_grant_id (f a) = aw_grant_id a" and "\<And>a. aw_charge_bytes (f a) = aw_charge_bytes a"
  shows "charges gid (update_rows P f rows) = charges gid rows"
  unfolding charges_def update_rows_def by (induction rows) (auto simp: assms)

lemma charges_snoc:
  "charges gid (rows @ [r]) = charges gid rows + (if aw_grant_id r = gid then aw_charge_bytes r else 0)"
  by (simp add: charges_def)

lemma charges_none: "gid \<notin> aw_grant_id ` set rows \<Longrightarrow> charges gid rows = 0"
  unfolding charges_def by (induction rows) auto

lemma ledger_edit: "edit db db' \<Longrightarrow> keys_ok db \<Longrightarrow> ledger_ok db \<Longrightarrow> ledger_ok db'"
proof (induction rule: edit.induct)
  case (edit_grant r db db')
  then have "gw_grant_id r \<notin> aw_grant_id ` set (t_authorizations db)"
    by (auto simp: ledger_ok_def insert_ledger_Inr)
  from charges_none [OF this] edit_grant show ?case
    by (auto simp: ledger_ok_def account_ok_def insert_ledger_Inr)
next
  case (edit_grant_state s' P db)
  have "account_ok rows (set_grant_status s' g)" if "account_ok rows g" "P g" for g rows
    using that(1) edit_grant_state(1) edit_grant_state(2) [OF that(2)] by (auto simp: account_ok_def)
  with edit_grant_state(4) show ?case
    by (auto simp: ledger_ok_def in_set_update_rows image_update_rows)
next
  case (edit_charge r db g db')
  let ?n = "gw_consumed_bytes g + aw_charge_bytes r"
  let ?rows = "t_authorizations db @ [r]"
  note ok = edit_charge(8) [unfolded ledger_ok_def]
  have db': "db' = db\<lparr>t_authorizations := ?rows\<rparr>" "1 \<le> aw_charge_bytes r"
    "aw_grant_id r \<in> gw_grant_id ` set (t_grants db)"
    using edit_charge(5) by (auto simp: insert_authorization_Inr has_row_iff)
  have same: "q = g" if "q \<in> set (t_grants db)" "gw_grant_id q = aw_grant_id r" for q
    using find_row_distinct [of gw_grant_id "t_grants db" q] that edit_charge(1,7) by (simp add: keys_ok_def)
  have "account_ok ?rows (charge_grant ?n q)" if "q \<in> set (t_grants db)" "gw_grant_id q = aw_grant_id r" for q
    unfolding same [OF that] using edit_charge(2,4) ok find_row_SomeD [OF edit_charge(1)] db'(2) by (auto simp: account_ok_def charges_snoc)
  moreover have "account_ok ?rows q" if "q \<in> set (t_grants db)" "gw_grant_id q \<noteq> aw_grant_id r" for q
    using ok that by (auto simp: account_ok_def charges_snoc)
  ultimately show ?case
    using ok db'(1,3) by (auto simp: ledger_ok_def in_set_update_rows image_update_rows)
next
  case (edit_consume db aid)
  then show ?case
    by (auto simp: ledger_ok_def account_ok_def consumed_auth_def cas_def charges_update image_update_rows)
qed (auto simp: ledger_ok_def edit_effects)

section \<open>Final rows\<close>

lemma find_row_kept:
  assumes "find_row key k rows = Some r" and "\<And>r. key (f r) = key r" and "\<not> P r"
  shows "find_row key k (update_rows P f rows) = Some r"
  using assms by (simp add: find_update_rows)

lemma find_row_extended: "find_row key k rows = Some r \<Longrightarrow> find_row key k (rows @ rows') = Some r"
  by (simp add: find_row_append)

lemmas kept = find_row_kept find_row_extended

definition final_tx :: "database \<Rightarrow> string \<Rightarrow> transaction_row \<Rightarrow> bool" where
  "final_tx db k t \<longleftrightarrow> get_transaction k db = Some t \<and> tx_state t \<in> set terminal_transaction_states"

definition final_approval :: "database \<Rightarrow> string \<Rightarrow> approval_row \<Rightarrow> bool" where
  "final_approval db k a \<longleftrightarrow> get_writeback_approval k db = Some a \<and> ap_status a = AP_CONSUMED"

definition final_run :: "database \<Rightarrow> string \<Rightarrow> run_row \<Rightarrow> bool" where
  "final_run db k r \<longleftrightarrow> get_run k db = Some r \<and> rn_status r \<in> {RUN_SUCCEEDED, RUN_STOPPED}"

definition final_validation :: "database \<Rightarrow> string \<Rightarrow> validation_run \<Rightarrow> bool" where
  "final_validation db k v \<longleftrightarrow> find_validation_run k db = Some v \<and> vr_status v \<noteq> ''PENDING''"

definition final_authorization :: "database \<Rightarrow> string \<Rightarrow> authorization_row \<Rightarrow> bool" where
  "final_authorization db k a \<longleftrightarrow>
     find_row aw_authorization_id k (t_authorizations db) = Some a \<and> aw_status a = A_CONSUMED"

definition final_grant :: "database \<Rightarrow> string \<Rightarrow> grant_row \<Rightarrow> bool" where
  "final_grant db k g \<longleftrightarrow>
     find_row gw_grant_id k (t_grants db) = Some g \<and> gw_status g \<in> {G_REVOKED, G_EXPIRED, G_EXHAUSTED}"

lemma final_tx_edit: "edit db db' \<Longrightarrow> final_tx db k t \<Longrightarrow> final_tx db' k t"
  by (induction rule: edit.induct)
    (auto simp: final_tx_def get_transaction_def edit_effects transaction_transitions_def
      terminal_transaction_states_def intro!: kept)

lemma final_approval_edit: "edit db db' \<Longrightarrow> final_approval db k a \<Longrightarrow> final_approval db' k a"
proof (induction rule: edit.induct)
  case (edit_consume_approval P db)
  then have "\<not> P a" by (auto simp: final_approval_def)
  with edit_consume_approval show ?case by (auto simp: final_approval_def get_writeback_approval_def intro!: kept)
qed (auto simp: final_approval_def get_writeback_approval_def edit_effects intro!: kept)

lemma final_run_edit: "edit db db' \<Longrightarrow> final_run db k r \<Longrightarrow> final_run db' k r"
proof (induction rule: edit.induct)
  case (edit_bump rid db row st ph n)
  then have "k \<noteq> rid" by (auto simp: final_run_def run_transitions_def)
  then have "rn_run_id r \<noteq> rid" using edit_bump(4) by (auto simp: final_run_def get_run_def dest: find_row_SomeD)
  with edit_bump show ?case
    by (auto simp: final_run_def get_run_def update_run_at_def Let_def intro!: kept)
qed (auto simp: final_run_def get_run_def edit_effects intro!: kept)

lemma final_validation_edit: "edit db db' \<Longrightarrow> final_validation db k v \<Longrightarrow> final_validation db' k v"
  by (induction rule: edit.induct)
    (auto simp: final_validation_def find_validation_run_def edit_effects intro!: kept)

lemma final_authorization_edit: "edit db db' \<Longrightarrow> final_authorization db k a \<Longrightarrow> final_authorization db' k a"
  by (induction rule: edit.induct) (auto simp: final_authorization_def edit_effects intro!: kept)

lemma final_grant_edit: "edit db db' \<Longrightarrow> final_grant db k g \<Longrightarrow> final_grant db' k g"
proof (induction rule: edit.induct)
  case (edit_grant_state s' P db)
  have "\<not> P g" using edit_grant_state(2,3) by (force simp: final_grant_def)
  with edit_grant_state show ?case by (auto simp: final_grant_def intro!: kept)
next
  case (edit_charge r db q db')
  then have "k \<noteq> aw_grant_id r" by (auto simp: final_grant_def)
  then have "gw_grant_id g \<noteq> aw_grant_id r" using edit_charge(7) by (auto simp: final_grant_def dest: find_row_SomeD)
  with edit_charge show ?case by (auto simp: final_grant_def intro!: kept)
qed (auto simp: final_grant_def edit_effects intro!: kept)

lemmas final_edits = final_tx_edit final_approval_edit final_run_edit final_validation_edit
  final_authorization_edit final_grant_edit

section \<open>The invariant of every reachable database\<close>

definition db_ok :: "database \<Rightarrow> bool" where
  "db_ok db \<longleftrightarrow> keys_ok db \<and> refs_ok db \<and> owners_ok db \<and> revisions_ok db \<and> life_ok db \<and> ledger_ok db"

lemma db_ok_empty: "db_ok empty_database"
  by (simp add: db_ok_def keys_ok_def refs_ok_def owners_ok_def revisions_ok_def life_ok_def ledger_ok_def
      empty_database_def)

lemma db_ok_edit: "edit db db' \<Longrightarrow> db_ok db \<Longrightarrow> db_ok db'"
  unfolding db_ok_def
  using keys_edit refs_edit owners_edit revisions_edit life_edit ledger_edit by blast

lemma reachable_ok: "reachable F db \<Longrightarrow> db_ok db"
  by (rule reachable_edits [where I = db_ok, OF _ db_ok_empty db_ok_edit])

section \<open>A history\<close>

text \<open>A sequence of operations, as functions on the database.\<close>

definition perform :: "(database \<Rightarrow> database) list \<Rightarrow> database \<Rightarrow> database" where
  "perform fs db = fold (\<lambda>f. f) fs db"

lemma perform_steps:
  "(\<forall>f\<in>set fs. \<forall>d. db_step F d (f d)) \<Longrightarrow> (db_step F)\<^sup>*\<^sup>* db (perform fs db)"
proof (induction fs arbitrary: db)
  case (Cons f fs)
  then have "db_step F db (f db)" and "(db_step F)\<^sup>*\<^sup>* (f db) (perform fs (f db))" by simp_all
  then show ?case by (simp add: perform_def converse_rtranclp_into_rtranclp)
qed (simp add: perform_def)

definition demo_profile :: reference_profile where
  "demo_profile = \<lparr>rp_id = ''p1'', rp_revision = 0, rp_python_version = ''3.12'', rp_pytest_version = ''8'',
     rp_ruff_version = ''1'', rp_mypy_version = ''1''\<rparr>"

definition demo_endpoint :: provider_endpoint where
  "demo_endpoint = \<lparr>pe_endpoint_id = ''e1'', pe_provider = ''acme'', pe_profile_id = ''p1'', pe_profile_revision = 0\<rparr>"

definition demo_ops :: "(database \<Rightarrow> database) list" where
  "demo_ops =
     [\<lambda>d. snd (create_run ''/ws'' None ''r1'' ''1'' d),
      \<lambda>d. snd (transition_run_latest ''r1'' RUN_RUNNING (Some ''AGENT_LOOP'') d),
      \<lambda>d. snd (create_snapshot ''r1'' None 0 ''s1'' d),
      \<lambda>d. snd (create_candidate ''r1'' ''s1'' 0 None ''c1'' d),
      \<lambda>d. snd (create_reference_profile demo_profile d),
      \<lambda>d. snd (create_provider_endpoint demo_endpoint d),
      \<lambda>d. snd (create_disclosure ''r1'' None ''d1'' d),
      \<lambda>d. snd (create_disclosure_grant demo_clock ''r1'' ''d1'' ''p1'' 0 ''2030'' 150 [''TASK'']
             [\<lparr>ps_kind = ROOT, ps_path = []\<rparr>] None ''g1'' ''1'' d),
      \<lambda>d. snd (activate_disclosure_grant ''g1'' d),
      \<lambda>d. snd (authorize_disclosure_request demo_clock ''g1'' ''r1'' ''q1'' ''e1'' 100
             [\<lparr>ds_category = ''TASK'', ds_path = None\<rparr>] demo_now None ''x1'' d),
      \<lambda>d. snd (consume_disclosure_authorization demo_clock ''x1'' ''g1'' ''r1'' ''q1'' demo_now d),
      \<lambda>d. snd (create_writeback_approval ''r1'' ''c1'' 0 None ''a1'' d),
      \<lambda>d. snd (consume_writeback_approval ''a1'' ''c1'' 0 d),
      \<lambda>d. snd (transition_run_latest ''r1'' RUN_STOPPED None d)]"

definition demo_history :: database where
  "demo_history = perform demo_ops empty_database"

lemma demo_ops_steps: "\<forall>f\<in>set demo_ops. \<forall>d. db_step demo_clock d (f d)"
  unfolding demo_ops_def by (auto intro: db_step.intros [OF prod.collapse [symmetric]])

lemma demo_history_reachable: "reachable demo_clock demo_history"
  unfolding reachable_def demo_history_def by (rule perform_steps [OF demo_ops_steps])

lemma demo_history_grant:
  "find_row gw_grant_id ''g1'' (t_grants demo_history) =
     Some \<lparr>gw_grant_id = ''g1'', gw_disclosure_id = ''d1'', gw_run_id = ''r1'', gw_profile_id = ''p1'',
        gw_profile_revision = 0, gw_expires_at = ''2030'', gw_byte_budget = 150, gw_consumed_bytes = 100,
        gw_status = G_ACTIVE, gw_created_at = ''1''\<rparr>"
  by code_simp

lemma demo_history_run:
  "get_run ''r1'' demo_history = Some \<lparr>rn_run_id = ''r1'', rn_workspace_path = ''/ws'', rn_status = RUN_STOPPED,
     rn_phase = None, rn_revision = 3, rn_created_at = ''1''\<rparr>"
  by code_simp

lemma demo_history_approval:
  "get_writeback_approval ''a1'' demo_history = Some \<lparr>ap_approval_id = ''a1'', ap_run_id = ''r1'',
     ap_candidate_id = ''c1'', ap_candidate_revision = 0, ap_status = AP_CONSUMED\<rparr>"
  by code_simp

section \<open>Properties of every history\<close>



text \<open>
  Claim C10. The disclosure ledger balances. In every reachable database the bytes a grant records
  as consumed are exactly the sum of the charges of its authorizations, they never exceed its
  budget, the grant is EXHAUSTED exactly when they reach it, and a grant that was never activated
  has charged nothing.
\<close>

theorem ledger_balances:
  assumes "reachable F db" and "g \<in> set (t_grants db)"
  shows "gw_consumed_bytes g =
      sum_list (map aw_charge_bytes (filter (\<lambda>a. aw_grant_id a = gw_grant_id g) (t_authorizations db))) \<and>
    0 \<le> gw_consumed_bytes g \<and> gw_consumed_bytes g \<le> gw_byte_budget g \<and>
    (gw_status g = G_EXHAUSTED \<longleftrightarrow> gw_consumed_bytes g = gw_byte_budget g) \<and>
    (gw_status g = G_PENDING \<longrightarrow> gw_consumed_bytes g = 0)"
  using reachable_ok [OF assms(1)] assms(2) by (auto simp: db_ok_def ledger_ok_def account_ok_def charges_def)

theorem ledger_balances_witness:
  "\<exists>g\<in>set (t_grants demo_history). gw_consumed_bytes g = 100 \<and>
     sum_list (map aw_charge_bytes (filter (\<lambda>a. aw_grant_id a = gw_grant_id g) (t_authorizations demo_history))) = 100"
proof -
  note row = find_row_SomeD [OF demo_history_grant]
  note b = ledger_balances [OF demo_history_reachable conjunct1 [OF row]]
  show ?thesis using conjunct1 [OF b] row by (intro bexI [OF _ conjunct1 [OF row]]) simp
qed

text \<open>
  The life of a run. In every reachable database a run's status fixes its revision and
  its phase: CREATED is revision 1 without a phase, RUNNING is revision 2 with one, and SUCCEEDED
  or STOPPED is revision 3 without one.
\<close>

theorem run_life_cycle:
  assumes "reachable F db" and "get_run rid db = Some r"
  shows "(rn_status r = RUN_CREATED \<longleftrightarrow> rn_revision r = 1) \<and> (rn_status r = RUN_RUNNING \<longleftrightarrow> rn_revision r = 2) \<and>
    (rn_status r \<in> {RUN_SUCCEEDED, RUN_STOPPED} \<longleftrightarrow> rn_revision r = 3) \<and>
    (rn_phase r \<noteq> None \<longleftrightarrow> rn_status r = RUN_RUNNING)"
proof -
  have "run_life r"
    using reachable_ok [OF assms(1)] assms(2) by (auto simp: db_ok_def life_ok_def get_run_def dest: find_row_SomeD)
  then show ?thesis by (cases "rn_status r") auto
qed

theorem run_life_cycle_witness:
  "\<exists>r. get_run ''r1'' demo_history = Some r \<and> rn_status r = RUN_STOPPED \<and> rn_revision r = 3 \<and> rn_phase r = None"
  using run_life_cycle [OF demo_history_reachable demo_history_run] demo_history_run by simp

text \<open>
  Claim C13. What is final stays final. No sequence of operations changes a transaction that is
  COMMITTED or ROLLED_BACK, a consumed approval, a finished run, a completed validation run, a
  consumed authorization, or a grant that is REVOKED, EXPIRED or EXHAUSTED: the very same row is
  read back.
\<close>

theorem final_forever:
  assumes "(db_step F)\<^sup>*\<^sup>* db db'"
  shows "(final_tx db k t \<longrightarrow> final_tx db' k t) \<and> (final_approval db k a \<longrightarrow> final_approval db' k a) \<and>
    (final_run db k r \<longrightarrow> final_run db' k r) \<and> (final_validation db k v \<longrightarrow> final_validation db' k v) \<and>
    (final_authorization db k u \<longrightarrow> final_authorization db' k u) \<and> (final_grant db k g \<longrightarrow> final_grant db' k g)"
proof -
  have "edit\<^sup>*\<^sup>* db db'" using assms by (rule db_steps_edits)
  then show ?thesis
    by (induction rule: rtranclp_induct) (auto intro: final_edits)
qed

theorem final_forever_witness:
  "\<exists>a. final_approval demo_history ''a1'' a \<and> final_approval (perform demo_ops demo_history) ''a1'' a"
proof -
  have f: "\<exists>a. final_approval demo_history ''a1'' a"
    using demo_history_approval by (simp add: final_approval_def)
  then obtain a where a: "final_approval demo_history ''a1'' a" by blast
  with final_forever [OF perform_steps [OF demo_ops_steps, of demo_history], of "''a1''" _ a] show ?thesis
    by blast
qed

end
