(* ===== verification/Fixtures.thy ===== *)
theory Fixtures
  imports Recovery_Service Database_Invariants
begin

text \<open>
  A small concrete installation: one run with a candidate and a pending approval, a workspace
  with one file, and a writeback request that replaces that file and creates another. The
  properties of the writeback and recovery services are instantiated on it.
\<close>

definition demo_db :: database where
  "demo_db = empty_database
     \<lparr>t_runs := [\<lparr>rn_run_id = ''r1'', rn_workspace_path = ''/ws'', rn_status = RUN_RUNNING,
        rn_phase = Some ''EDIT'', rn_revision = 2, rn_created_at = ''1''\<rparr>],
      t_snapshots := [\<lparr>sn_snapshot_id = ''s1'', sn_run_id = ''r1'', sn_revision = 0\<rparr>],
      t_candidates := [\<lparr>cn_candidate_id = ''c1'', cn_run_id = ''r1'', cn_snapshot_id = ''s1'',
        cn_revision = 1, cn_status = ''ACTIVE''\<rparr>],
      t_approvals := [\<lparr>ap_approval_id = ''a1'', ap_run_id = ''r1'', ap_candidate_id = ''c1'',
        ap_candidate_revision = 1, ap_status = AP_PENDING\<rparr>]\<rparr>"

definition demo_boundary :: boundary where
  "demo_boundary = \<lparr>is_windows = False, bd_root = [''ws''], bd_resolve = Some\<rparr>"

definition demo_disk :: disk where
  "demo_disk = \<lparr>tree = [[] \<mapsto> Dir, [''a.txt''] \<mapsto> Reg (Some ''old'')], root_is_dir = True,
     stat_fault = (\<lambda>_. False), read_fault = (\<lambda>_. False), faults = [], orphans = 0\<rparr>"

definition demo_request :: writeback_request where
  "demo_request = \<lparr>wq_run_id = ''r1'', wq_candidate_id = ''c1'', wq_candidate_revision = 1,
     wq_approval_id = ''a1'',
     wq_operations = [\<lparr>wo_action = REPLACE, wo_path = ''a.txt'', wo_content = ''new''\<rparr>,
       \<lparr>wo_action = CREATE, wo_path = ''b.txt'', wo_content = ''x''\<rparr>]\<rparr>"

definition demo_faulty :: disk where
  \<comment> \<open>The second publication fails and its temporary file stays behind.\<close>
  "demo_faulty = demo_disk\<lparr>faults := [(Healthy, True), (PublishFault, False)]\<rparr>"

definition demo_run :: "disk \<Rightarrow> (db_error + writeback_outcome) \<times> database \<times> disk" where
  "demo_run w = request_writeback (disk_port demo_boundary) (\<lambda>_ w. w) Some [''ws''] demo_request
     ''t1'' ''2'' demo_db w"

fun run_status_of :: "(db_error + writeback_outcome) \<times> database \<times> disk \<Rightarrow> writeback_status option" where
  "run_status_of (Inr out, db, w) = Some (wr_status out)"
| "run_status_of (Inl e, db, w) = None"

lemma demo_committed: "run_status_of (demo_run demo_disk) = Some WB_COMMITTED"
  by code_simp

lemma demo_failed: "run_status_of (demo_run demo_faulty) = Some WB_FAILED"
  by code_simp

lemma run_status_of_Some:
  "run_status_of x = Some st \<Longrightarrow> \<exists>out. x = (Inr out, fst (snd x), snd (snd x)) \<and> wr_status out = st"
  by (cases x rule: run_status_of.cases) auto

definition demo_db_ops :: "(database \<Rightarrow> database) list" where
  "demo_db_ops =
     [\<lambda>d. snd (create_run ''/ws'' None ''r1'' ''1'' d),
      \<lambda>d. snd (transition_run_latest ''r1'' RUN_RUNNING (Some ''EDIT'') d),
      \<lambda>d. snd (create_snapshot ''r1'' None 0 ''s1'' d),
      \<lambda>d. snd (create_candidate ''r1'' ''s1'' 0 None ''c1'' d),
      \<lambda>d. snd (advance_candidate ''c1'' 0 d),
      \<lambda>d. snd (create_writeback_approval ''r1'' ''c1'' 1 None ''a1'' d)]"

lemma demo_db_history: "demo_db = perform demo_db_ops empty_database"
  by code_simp

lemma demo_db_reachable: "reachable F demo_db"
proof -
  have "\<forall>f\<in>set demo_db_ops. \<forall>d. db_step F d (f d)"
    unfolding demo_db_ops_def by (auto intro: db_step.intros [OF prod.collapse [symmetric]])
  then show ?thesis unfolding reachable_def demo_db_history by (rule perform_steps)
qed

fun probe :: "string list \<Rightarrow> (db_error + writeback_outcome) \<times> database \<times> disk \<Rightarrow> bool" where
  "probe ps (r, db, w) \<longleftrightarrow> faults w = [] \<and> \<not> stat_fault w ps \<and> \<not> read_fault w ps \<and>
     list_all (\<lambda>op. is_ok (disk_read_text demo_boundary (wo_path op) w) \<and>
       lstat w (butlast (split_on CHR ''/'' (wo_path op))) = Found Dir) (wq_operations demo_request)"

lemma demo_probe: "probe ps (demo_run demo_faulty)"
  by code_simp

lemma demo_crash:
  "crash_state (disk_port demo_boundary) Some [''ws''] demo_request ''t1'' ''2'' demo_db demo_faulty
     (fst (snd (demo_run demo_faulty))) (snd (snd (demo_run demo_faulty)))"
  using run_status_of_Some [OF demo_failed] by (auto simp: demo_run_def intro: crash_fault)

lemma demo_ready:
  "\<forall>op\<in>set (wq_operations demo_request). disk_ready demo_boundary (snd (snd (demo_run demo_faulty))) (wo_path op)"
  using demo_probe by (cases "demo_run demo_faulty") (auto simp: list_all_iff disk_ready_def)

definition demo_tx :: transaction_row where
  "demo_tx = \<lparr>tx_transaction_id = ''t1'', tx_run_id = ''r1'', tx_candidate_id = ''c1'', tx_state = UNRESOLVED,
     tx_created_at = ''2''\<rparr>"

definition demo_entries :: "journal_entry list" where
  "demo_entries =
     [\<lparr>je_position = 0, je_path = ''a.txt'', je_action = REPLACE, je_content = ''new'', je_original = Some ''old''\<rparr>,
      \<lparr>je_position = 1, je_path = ''b.txt'', je_action = CREATE, je_content = ''x'', je_original = None\<rparr>]"

definition demo_crashed :: database where
  "demo_crashed = fst (snd (demo_run demo_faulty))"

lemma demo_loaded: "load_active ''t1'' demo_crashed = Inr (demo_tx, demo_entries)"
  by code_simp

definition demo_drifted :: disk where
  \<comment> \<open>Somebody else changed the first target.\<close>
  "demo_drifted = demo_disk\<lparr>tree := (tree demo_disk)([''a.txt''] \<mapsto> Reg (Some ''other''))\<rparr>"

definition demo_stuck :: disk where
  \<comment> \<open>The first write went through, and the disk refuses to publish.\<close>
  "demo_stuck = demo_disk\<lparr>tree := (tree demo_disk)([''a.txt''] \<mapsto> Reg (Some ''new'')), faults := [(PublishFault, True)]\<rparr>"

end
