(* ===== verification/Agent_Loop.thy ===== *)
theory Agent_Loop
  imports Database Relaxed_Policy Workspace_Disk
begin

text \<open>
  The agent loop and its composition root: \<open>memory/v2.py\<close>, \<open>llm/v2.py\<close>, the dispatcher of
  \<open>tools/v2_dispatcher.py\<close>, \<open>loop/v2_engine.py\<close> and \<open>runtime_v2.py\<close>.

  A model action is a dict of decoded values; \<open>JUnhashable\<close> stands for a list or dict value,
  which Python cannot look up in a set. The model is a parameter: what \<open>generate\<close> does on its
  \<open>n\<close>-th call, an exception, a value that is no dict, or an action. An exception that leaves the
  loop is a \<open>loop_error\<close>.
\<close>

section \<open>Memory\<close>

record memory_entry =
  me_run_id :: string
  me_text :: string
  me_source :: string

type_synonym memory = "memory_entry list"

definition memory_markers :: "string list" where
  "memory_markers =
     [''api_key='', ''apikey='', ''secret='', ''token='', ''access_token='', ''password='', ''password:'',
      ''authorization: bearer '', ''bearer '', ''-----begin '', ''begin rsa private key'',
      ''begin ec private key'', ''begin openssh private key'']"

definition secret_like :: "string \<Rightarrow> bool" where
  "secret_like text \<longleftrightarrow> list_ex (contains (casefold text)) memory_markers"

definition remember :: "string \<Rightarrow> string \<Rightarrow> string \<Rightarrow> memory \<Rightarrow> py_error + memory" where
  "remember run_id text source mem =
     (if run_id = [] \<or> text = [] \<or> source = []
        then Inl (ValueError ''memory entries require run, text, and source'')
      else if secret_like text then Inl (ValueError ''secret-like memory content is not allowed'')
      else Inr (mem @ [\<lparr>me_run_id = run_id, me_text = text, me_source = source\<rparr>]))"

definition last_n :: "nat \<Rightarrow> 'a list \<Rightarrow> 'a list" where
  "last_n n xs = drop (length xs - n) xs"

definition select :: "string \<Rightarrow> int \<Rightarrow> memory \<Rightarrow> py_error + memory_entry list" where
  "select run_id limit mem =
     (if limit < 1 then Inl (ValueError ''memory limit must be positive'')
      else Inr (last_n (nat limit) (filter (\<lambda>e. me_run_id e = run_id) mem)))"

definition clear :: "string \<Rightarrow> memory \<Rightarrow> nat \<times> memory" where
  "clear run_id mem =
     (let kept = filter (\<lambda>e. me_run_id e \<noteq> run_id) mem in (length mem - length kept, kept))"

section \<open>The model\<close>

datatype json = JNone | JBool bool | JInt int | JStr string | JUnhashable

type_synonym model_action = "(string \<times> json) list"

record llm_request =
  lq_run_id :: string
  lq_task :: string
  lq_context :: "string list"

datatype llm_reply = LLMRaised | NotObject | Act model_action

type_synonym llm = "nat \<Rightarrow> llm_request \<Rightarrow> llm_reply"

definition make_scripted_llm :: "model_action list \<Rightarrow> py_error + llm" where
  \<comment> \<open>Past the end of the script the last action is repeated.\<close>
  "make_scripted_llm actions =
     (if actions = [] then Inl (ValueError ''scripted LLM needs at least one action'')
      else Inr (\<lambda>i _. Act (actions ! min i (length actions - 1))))"

section \<open>Tool dispatch\<close>

datatype tool_status = TOOL_SUCCESS | TOOL_DENIED | TOOL_FAILED | TOOL_DONE

record tool_result =
  tr_status :: tool_status
  tr_message :: string
  tr_path :: "string option"

definition tool_result :: "tool_status \<Rightarrow> string \<Rightarrow> string option \<Rightarrow> tool_result" where
  "tool_result st msg path = \<lparr>tr_status = st, tr_message = msg, tr_path = path\<rparr>"

definition action_keys :: "model_action \<Rightarrow> string set" where
  "action_keys act = set (map fst act)"

definition dispatch :: "resolver \<Rightarrow> string list \<Rightarrow> model_action \<Rightarrow> files \<Rightarrow> tool_result \<times> files" where
  "dispatch resolve workspace act fs =
     (if action_keys act - {''action_type'', ''path'', ''content''} \<noteq> {}
        then (tool_result TOOL_FAILED ''unknown action field'' None, fs)
      else if map_of act ''action_type'' = Some (JStr ''DONE'')
        then (if action_keys act \<noteq> {''action_type''}
                then (tool_result TOOL_FAILED ''DONE cannot carry action fields'' None, fs)
              else (tool_result TOOL_DONE ''model requested stop'' None, fs))
      else if map_of act ''action_id'' \<noteq> None \<and> map_of act ''action_id'' \<noteq> Some JNone
        then (tool_result TOOL_FAILED ''model-supplied action_id is forbidden'' None, fs)
      else if map_of act ''action_type'' \<noteq> Some (JStr ''REPLACE'')
        then (tool_result TOOL_FAILED ''unsupported v2 action'' None, fs)
      else (case (map_of act ''path'', map_of act ''content'') of
              (Some (JStr path), Some (JStr content)) \<Rightarrow>
                if policy_evaluate resolve \<lparr>ar_action_type = ''REPLACE'', ar_path = path,
                     ar_workspace = workspace\<rparr> = DENY
                  then (tool_result TOOL_DENIED (''protected or unsafe path: '' @ path) (Some path), fs)
                else (tool_result TOOL_SUCCESS (''replaced '' @ path) (Some path), mem_replace path content fs)
            | _ \<Rightarrow> (tool_result TOOL_FAILED ''REPLACE requires string path and content'' None, fs)))"

section \<open>The loop\<close>

datatype loop_error = TypeError | RaisedValueError py_error

datatype parsed = Rejected string | Parsed model_action | ParseTypeError

definition parse_action :: "llm_reply \<Rightarrow> parsed" where
  "parse_action reply =
     (case reply of
        Act act \<Rightarrow>
          if ''action_id'' \<in> action_keys act then Rejected ''model-supplied action_id is forbidden''
          else (case map_of act ''action_type'' of
                  Some JUnhashable \<Rightarrow> ParseTypeError
                | t \<Rightarrow> if t = Some (JStr ''REPLACE'') \<or> t = Some (JStr ''DONE'') then Parsed act
                       else Rejected ''unknown or missing action_type'')
      | _ \<Rightarrow> Rejected ''model action must be an object'')"

record loop_result =
  lr_succeeded :: bool
  lr_stop_reason :: string
  lr_turns :: nat
  lr_results :: "tool_result list"
  lr_contexts :: "string list list"

record loop_state =
  ls_memory :: memory
  ls_files :: files
  ls_results :: "tool_result list"
  ls_contexts :: "string list list"

definition loop_end :: "bool \<Rightarrow> string \<Rightarrow> nat \<Rightarrow> loop_state \<Rightarrow> loop_result" where
  "loop_end ok reason turn s =
     \<lparr>lr_succeeded = ok, lr_stop_reason = reason, lr_turns = turn, lr_results = ls_results s,
      lr_contexts = ls_contexts s\<rparr>"

definition add_result :: "tool_result \<Rightarrow> loop_state \<Rightarrow> loop_state" where
  "add_result r s = s\<lparr>ls_results := ls_results s @ [r]\<rparr>"

record loop_config =
  lc_resolve :: resolver
  lc_workspace :: "string list"
  lc_llm :: llm
  lc_run_id :: string
  lc_task :: string

text \<open>
  One turn: \<open>Inl\<close> an exception, \<open>Inr (Some r)\<close> the loop returns, \<open>Inr None\<close> it goes on.
\<close>

definition feedback :: "loop_config \<Rightarrow> tool_result \<Rightarrow> loop_state \<Rightarrow>
    (loop_error + loop_result option) \<times> loop_state" where
  "feedback C r s =
     (case remember (lc_run_id C) (tr_message r) ''feedback'' (ls_memory s) of
        Inl e \<Rightarrow> (Inl (RaisedValueError e), s)
      | Inr mem \<Rightarrow> (Inr None, s\<lparr>ls_memory := mem\<rparr>))"

definition loop_turn :: "loop_config \<Rightarrow> nat \<Rightarrow> loop_state \<Rightarrow>
    (loop_error + loop_result option) \<times> loop_state" where
  "loop_turn C turn s0 =
     (case select (lc_run_id C) 20 (ls_memory s0) of
        Inl e \<Rightarrow> (Inl (RaisedValueError e), s0)
      | Inr entries \<Rightarrow>
          let context = map me_text entries;
              s = s0\<lparr>ls_contexts := ls_contexts s0 @ [context]\<rparr>;
              reply = lc_llm C (turn - 1) \<lparr>lq_run_id = lc_run_id C, lq_task = lc_task C, lq_context = context\<rparr>
          in if reply = LLMRaised then
               (let s' = add_result (tool_result TOOL_FAILED ''LLM call failed'' None) s
                in (Inr (Some (loop_end False ''LLM_CALL_FAILED'' turn s')), s'))
             else (case parse_action reply of
                 ParseTypeError \<Rightarrow> (Inl TypeError, s)
               | Rejected msg \<Rightarrow>
                   (let r = tool_result TOOL_FAILED msg None in feedback C r (add_result r s))
               | Parsed act \<Rightarrow>
                   (case dispatch (lc_resolve C) (lc_workspace C) act (ls_files s) of
                      (r, fs) \<Rightarrow>
                        let s' = add_result r (s\<lparr>ls_files := fs\<rparr>) in
                        if tr_status r = TOOL_DONE then (Inr (Some (loop_end True ''DONE'' turn s')), s')
                        else feedback C r s')))"

fun loop_turns :: "loop_config \<Rightarrow> nat \<Rightarrow> nat \<Rightarrow> loop_state \<Rightarrow> (loop_error + loop_result) \<times> loop_state" where
  "loop_turns C turn 0 s = (Inr (loop_end False ''MAX_TURNS'' (turn - 1) s), s)"
| "loop_turns C turn (Suc n) s =
     (case loop_turn C turn s of
        (Inl e, s') \<Rightarrow> (Inl e, s')
      | (Inr (Some r), s') \<Rightarrow> (Inr r, s')
      | (Inr None, s') \<Rightarrow> loop_turns C (turn + 1) n s')"

definition loop_run :: "resolver \<Rightarrow> string list \<Rightarrow> llm \<Rightarrow> int \<Rightarrow> string \<Rightarrow> string option \<Rightarrow> string \<Rightarrow>
    memory \<Rightarrow> files \<Rightarrow> (loop_error + loop_result) \<times> loop_state" where
  \<comment> \<open>The constructor's check of \<open>max_turns\<close>, then \<open>run\<close>.\<close>
  "loop_run resolve workspace llm max_turns task run_id fresh mem fs =
     (let s = \<lparr>ls_memory = mem, ls_files = fs, ls_results = [], ls_contexts = []\<rparr> in
      if max_turns < 1 then (Inl (RaisedValueError (ValueError ''max_turns must be positive'')), s)
      else loop_turns \<lparr>lc_resolve = resolve, lc_workspace = workspace, lc_llm = llm,
             lc_run_id = py_or run_id fresh, lc_task = task\<rparr> 1 (nat max_turns) s)"

section \<open>The harness\<close>

record 'w harness =
  hs_workspace :: "string list"
  hs_max_turns :: int
  hs_database :: database
  hs_memory :: memory
  hs_staging :: files
  hs_disk :: 'w

datatype harness_error = RunEnterFailed | RunFinishFailed | HarnessDb db_error | HarnessLoop loop_error

definition workspace_str :: "string list \<Rightarrow> string" where
  "workspace_str ws = CHR ''/'' # join_on CHR ''/'' ws"

text \<open>
  \<open>V2Harness.run\<close>. A \<open>max_turns\<close> below 1 is raised by the constructor of the loop, outside the
  \<open>try\<close>, and leaves the run in RUNNING.
\<close>

definition harness_run :: "resolver \<Rightarrow> string \<Rightarrow> llm \<Rightarrow> string \<Rightarrow> string \<Rightarrow> 'w harness \<Rightarrow>
    (harness_error + (string \<times> loop_result)) \<times> 'w harness" where
  "harness_run resolve task llm fresh now h =
     (case create_run (workspace_str (hs_workspace h)) None fresh now (hs_database h) of
        (Inl e, db) \<Rightarrow> (Inl (HarnessDb e), h\<lparr>hs_database := db\<rparr>)
      | (Inr run_id, db) \<Rightarrow>
          (case transition_run_latest run_id RUN_RUNNING (Some ''AGENT_LOOP'') db of
             (Inl e, db1) \<Rightarrow> (Inl (HarnessDb e), h\<lparr>hs_database := db1\<rparr>)
           | (Inr ok, db1) \<Rightarrow>
               if \<not> ok then (Inl RunEnterFailed, h\<lparr>hs_database := db1\<rparr>)
               else if hs_max_turns h < 1
                 then (Inl (HarnessLoop (RaisedValueError (ValueError ''max_turns must be positive''))),
                       h\<lparr>hs_database := db1\<rparr>)
               else (case loop_run resolve (hs_workspace h) llm (hs_max_turns h) task (Some run_id) fresh
                            (hs_memory h) (hs_staging h) of
                   (Inl e, s) \<Rightarrow>
                     (Inl (HarnessLoop e),
                      h\<lparr>hs_database := snd (transition_run_latest run_id RUN_STOPPED None db1),
                        hs_memory := ls_memory s, hs_staging := ls_files s\<rparr>)
                 | (Inr r, s) \<Rightarrow>
                     (let h' = h\<lparr>hs_memory := ls_memory s, hs_staging := ls_files s\<rparr> in
                      case transition_run_latest run_id
                             (if lr_succeeded r then RUN_SUCCEEDED else RUN_STOPPED) None db1 of
                        (Inl e, db2) \<Rightarrow> (Inl (HarnessDb e), h'\<lparr>hs_database := db2\<rparr>)
                      | (Inr done_ok, db2) \<Rightarrow>
                          if \<not> done_ok then (Inl RunFinishFailed, h'\<lparr>hs_database := db2\<rparr>)
                          else (Inr (run_id, r), h'\<lparr>hs_database := db2\<rparr>)))))"

definition stage_candidate :: "string \<Rightarrow> string \<Rightarrow> string \<Rightarrow> database \<Rightarrow>
    (db_error + candidate_identity) \<times> database" where
  "stage_candidate run_id fresh_s fresh_c db =
     (case create_snapshot run_id None 0 fresh_s db of
        (Inl e, db1) \<Rightarrow> (Inl e, db1)
      | (Inr sid, db1) \<Rightarrow>
          (case create_candidate run_id sid 0 None fresh_c db1 of
             (Inl e, db2) \<Rightarrow> (Inl e, db2)
           | (Inr cid, db2) \<Rightarrow>
               (lift_record (make_candidate_identity (PStr cid) (PStr sid) (PInt 0)), db2)))"

datatype staging_error = StagingPort port_error | StagingRecord py_error

text \<open>
  \<open>staged_operations\<close>: the staged dict sorted by path, each entry declared REPLACE or CREATE by
  what the port reports at call time. The staging dict has one entry per path.
\<close>

definition staged_operation :: "'w port \<Rightarrow> 'w \<Rightarrow> string \<times> string \<Rightarrow> staging_error + write_operation" where
  "staged_operation P w kv =
     (case file_exists P (fst kv) w of
        Inl e \<Rightarrow> Inl (StagingPort e)
      | Inr b \<Rightarrow>
          (case make_write_operation (if b then ''REPLACE'' else ''CREATE'') (fst kv) (snd kv) of
             Inl e \<Rightarrow> Inl (StagingRecord e)
           | Inr op \<Rightarrow> Inr op))"

definition staged_operations :: "'w port \<Rightarrow> 'w \<Rightarrow> files \<Rightarrow> staging_error + write_operation list" where
  "staged_operations P w staging = rmap (staged_operation P w) (sort_key fst staging)"

section \<open>One turn\<close>

lemma select_20 [simp]: "select run_id 20 mem = Inr (last_n 20 (filter (\<lambda>e. me_run_id e = run_id) mem))"
  by (simp add: select_def)

lemma length_last_n [simp]: "length (last_n n xs) = min n (length xs)"
  by (simp add: last_n_def)

lemma set_last_n: "set (last_n n xs) \<subseteq> set xs"
  by (simp add: last_n_def set_drop_subset)

lemma remember_Inr:
  "remember run_id text source mem = Inr mem' \<longleftrightarrow>
     run_id \<noteq> [] \<and> text \<noteq> [] \<and> source \<noteq> [] \<and> \<not> secret_like text \<and>
     mem' = mem @ [\<lparr>me_run_id = run_id, me_text = text, me_source = source\<rparr>]"
  by (auto simp: remember_def)

definition allows :: "loop_config \<Rightarrow> string \<Rightarrow> bool" where
  "allows C path \<longleftrightarrow> policy_evaluate (lc_resolve C)
     \<lparr>ar_action_type = ''REPLACE'', ar_path = path, ar_workspace = lc_workspace C\<rparr> = ALLOW"

lemma map_of_mem_replace: "map_of (mem_replace p c fs) = (map_of fs)(p \<mapsto> c)"
  by (simp add: mem_replace_def update_conv')

lemma dispatch_files:
  assumes "dispatch (lc_resolve C) (lc_workspace C) act fs = (r, fs')"
  shows "fs' = fs \<or> (\<exists>path content. tr_status r = TOOL_SUCCESS \<and> tr_path r = Some path \<and> allows C path \<and>
    map_of act ''path'' = Some (JStr path) \<and> map_of act ''content'' = Some (JStr content) \<and>
    fs' = mem_replace path content fs)"
  using assms
  by (auto simp: dispatch_def tool_result_def allows_def policy_deny_unless [symmetric]
      split: if_splits option.splits json.splits)

text \<open>
  What a turn adds to the state: one context, at most one result, at most one memory entry of this
  run and at most one staged file that the policy allows.
\<close>

definition turn_step :: "loop_config \<Rightarrow> loop_state \<Rightarrow> loop_state \<Rightarrow> bool" where
  "turn_step C s s' \<longleftrightarrow>
     ls_contexts s' = ls_contexts s @
       [map me_text (last_n 20 (filter (\<lambda>e. me_run_id e = lc_run_id C) (ls_memory s)))] \<and>
     (\<exists>rs. ls_results s' = ls_results s @ rs \<and> length rs \<le> 1) \<and>
     (\<exists>es. ls_memory s' = ls_memory s @ es \<and> length es \<le> 1 \<and>
        (\<forall>e\<in>set es. me_run_id e = lc_run_id C \<and> \<not> secret_like (me_text e))) \<and>
     (ls_files s' = ls_files s \<or>
        (\<exists>path content. allows C path \<and> ls_files s' = mem_replace path content (ls_files s)))"

lemma feedback_state:
  assumes "feedback C r s = (x, s')"
  shows "ls_contexts s' = ls_contexts s \<and> ls_results s' = ls_results s \<and> ls_files s' = ls_files s \<and>
    (\<exists>es. ls_memory s' = ls_memory s @ es \<and> length es \<le> 1 \<and>
       (\<forall>e\<in>set es. me_run_id e = lc_run_id C \<and> \<not> secret_like (me_text e)))"
    and "x \<noteq> Inr (Some y)"
  using assms by (auto simp: feedback_def remember_Inr split: sum.splits)

abbreviation current_context :: "loop_config \<Rightarrow> loop_state \<Rightarrow> string list" where
  "current_context C s \<equiv>
     map me_text (last_n 20 (filter (\<lambda>e. me_run_id e = lc_run_id C) (ls_memory s)))"

definition stage_files :: "loop_config \<Rightarrow> files \<Rightarrow> files \<Rightarrow> bool" where
  "stage_files C fs fs' \<longleftrightarrow>
     fs' = fs \<or> (\<exists>path content. allows C path \<and> fs' = mem_replace path content fs)"

lemma loop_turn_cases:
  assumes "loop_turn C turn s = (x, s')"
  obtains (llm_failed) r where "s' = add_result r (s\<lparr>ls_contexts := ls_contexts s @ [current_context C s]\<rparr>)"
      "x = Inr (Some (loop_end False ''LLM_CALL_FAILED'' turn s'))"
  | (type_error) "s' = s\<lparr>ls_contexts := ls_contexts s @ [current_context C s]\<rparr>" "x = Inl TypeError"
  | (finished) r fs where "stage_files C (ls_files s) fs"
      "s' = add_result r (s\<lparr>ls_contexts := ls_contexts s @ [current_context C s], ls_files := fs\<rparr>)"
      "x = Inr (Some (loop_end True ''DONE'' turn s'))"
  | (fed_back) r fs where "stage_files C (ls_files s) fs"
      "feedback C r (add_result r (s\<lparr>ls_contexts := ls_contexts s @ [current_context C s], ls_files := fs\<rparr>)) = (x, s')"
proof -
  let ?s = "s\<lparr>ls_contexts := ls_contexts s @ [current_context C s]\<rparr>"
  let ?reply = "lc_llm C (turn - 1)
    \<lparr>lq_run_id = lc_run_id C, lq_task = lc_task C, lq_context = current_context C s\<rparr>"
  show thesis
  proof (cases "?reply = LLMRaised")
    case True
    with assms show thesis by (intro llm_failed) (auto simp: loop_turn_def Let_def)
  next
    case False
    show thesis
    proof (cases "parse_action ?reply")
      case (Rejected msg)
      have "?s = s\<lparr>ls_contexts := ls_contexts s @ [current_context C s], ls_files := ls_files s\<rparr>" by simp
      with assms False Rejected show thesis
        by (intro fed_back [of "ls_files s" "tool_result TOOL_FAILED msg None"])
          (auto simp: loop_turn_def Let_def stage_files_def)
    next
      case (Parsed act)
      obtain r fs where d: "dispatch (lc_resolve C) (lc_workspace C) act (ls_files s) = (r, fs)" by fastforce
      have files: "stage_files C (ls_files s) fs" using dispatch_files [OF d] by (auto simp: stage_files_def)
      show thesis
      proof (cases "tr_status r = TOOL_DONE")
        case True
        with assms False Parsed d files show thesis
          by (intro finished [of fs r]) (auto simp: loop_turn_def Let_def)
      next
        case not_done: False
        with assms False Parsed d files show thesis
          by (intro fed_back [of fs r]) (auto simp: loop_turn_def Let_def)
      qed
    next
      case ParseTypeError
      with assms False show thesis by (intro type_error) (auto simp: loop_turn_def Let_def)
    qed
  qed
qed

lemma loop_turn_step:
  assumes "loop_turn C turn s = (x, s')"
  shows "turn_step C s s'"
  using assms
proof (cases rule: loop_turn_cases)
  case (fed_back r fs)
  from feedback_state(1) [OF fed_back(2)] fed_back(1) show ?thesis
    by (simp add: turn_step_def add_result_def stage_files_def)
qed (simp_all add: turn_step_def add_result_def stage_files_def)


section \<open>The whole loop\<close>

lemma loop_turns_induct:
  assumes inv: "\<And>s s'. I s \<Longrightarrow> turn_step C s s' \<Longrightarrow> I s'" and "I s" and "loop_turns C turn n s = (x, s')"
  shows "I s'"
  using assms(2,3)
proof (induction n arbitrary: turn s)
  case (Suc n)
  obtain y s1 where t: "loop_turn C turn s = (y, s1)" by fastforce
  have I: "I s1" using inv [OF Suc.prems(1) loop_turn_step [OF t]] .
  from Suc.prems(2) t consider "s' = s1" | "loop_turns C (turn + 1) n s1 = (x, s')"
    by (cases y) (auto split: option.splits)
  then show ?case by cases (use I Suc.IH in auto)
qed simp


abbreviation run_config :: "resolver \<Rightarrow> string list \<Rightarrow> llm \<Rightarrow> string \<Rightarrow> string option \<Rightarrow> string \<Rightarrow> loop_config" where
  "run_config resolve workspace llm task run_id fresh \<equiv>
     \<lparr>lc_resolve = resolve, lc_workspace = workspace, lc_llm = llm, lc_run_id = py_or run_id fresh, lc_task = task\<rparr>"

lemma loop_run_induct:
  assumes "loop_run resolve workspace llm max_turns task run_id fresh mem fs = (x, s)"
    and "I \<lparr>ls_memory = mem, ls_files = fs, ls_results = [], ls_contexts = []\<rparr>"
    and "\<And>t t'. I t \<Longrightarrow> turn_step (run_config resolve workspace llm task run_id fresh) t t' \<Longrightarrow> I t'"
  shows "I s"
proof (cases "max_turns < 1")
  case True
  with assms(1,2) show ?thesis by (auto simp: loop_run_def Let_def)
next
  case False
  with assms(1) have "loop_turns (run_config resolve workspace llm task run_id fresh) 1 (nat max_turns)
      \<lparr>ls_memory = mem, ls_files = fs, ls_results = [], ls_contexts = []\<rparr> = (x, s)"
    by (simp add: loop_run_def Let_def)
  then show ?thesis by (rule loop_turns_induct [rotated 2]) (use assms(2,3) in blast)+
qed

section \<open>Properties\<close>


definition demo_script :: llm where
  "demo_script i q =
     (if i = 0 then Act [(''action_type'', JStr ''REPLACE''), (''path'', JStr ''a.txt''), (''content'', JStr ''new'')]
      else Act [(''action_type'', JStr ''DONE'')])"



text \<open>
  Claim C38. The loop stages only what the policy allows. Whatever the model does, and however the
  run ends, a path of the staging area whose content changed is a path the policy allows to
  replace in this workspace.
\<close>

theorem loop_stages_only_allowed:
  assumes "loop_run resolve workspace llm max_turns task run_id fresh mem fs = (x, s)"
    and "map_of (ls_files s) path \<noteq> map_of fs path"
  shows "policy_evaluate resolve
    \<lparr>ar_action_type = ''REPLACE'', ar_path = path, ar_workspace = workspace\<rparr> = ALLOW"
proof -
  let ?C = "run_config resolve workspace llm task run_id fresh"
  have "map_of (ls_files s) path \<noteq> map_of fs path \<longrightarrow> allows ?C path"
    using assms(1) by (rule loop_run_induct) (auto simp: turn_step_def map_of_mem_replace split: if_splits)
  with assms(2) show ?thesis by (simp add: allows_def)
qed

lemma demo_staged:
  "map_of (ls_files (snd (loop_run Some [''ws''] demo_script 5 ''t'' (Some ''r1'') ''x'' [] []))) ''a.txt'' = Some ''new''"
  by code_simp

theorem loop_stages_only_allowed_witness:
  "policy_evaluate Some \<lparr>ar_action_type = ''REPLACE'', ar_path = ''a.txt'', ar_workspace = [''ws'']\<rparr> = ALLOW"
  by (rule loop_stages_only_allowed [of Some "[''ws'']" demo_script 5 "''t''" "Some ''r1''" "''x''" "[]" "[]"
        "fst (loop_run Some [''ws''] demo_script 5 ''t'' (Some ''r1'') ''x'' [] [])"
        "snd (loop_run Some [''ws''] demo_script 5 ''t'' (Some ''r1'') ''x'' [] [])"])
    (simp_all add: demo_staged)

text \<open>
  Memory is scoped and clean. A run appends to the memory only entries of its own run
  that contain no secret marker, the entries of every other run are selected as before, and every
  context handed to the model has at most twenty texts.
\<close>

theorem loop_memory_scoped:
  assumes "loop_run resolve workspace llm max_turns task run_id fresh mem fs = (x, s)"
  shows "(\<exists>es. ls_memory s = mem @ es \<and>
      (\<forall>e\<in>set es. me_run_id e = py_or run_id fresh \<and> \<not> secret_like (me_text e))) \<and>
    (\<forall>other limit. other \<noteq> py_or run_id fresh \<longrightarrow> select other limit (ls_memory s) = select other limit mem) \<and>
    (\<forall>c\<in>set (ls_contexts s). length c \<le> 20)"
proof -
  let ?new = "\<lambda>es. \<forall>e\<in>set es. me_run_id e = py_or run_id fresh \<and> \<not> secret_like (me_text e)"
  have "\<exists>es. ls_memory s = mem @ es \<and> ?new es"
    using assms
  proof (rule loop_run_induct)
    fix t t'
    assume "\<exists>es. ls_memory t = mem @ es \<and> ?new es"
      and "turn_step (run_config resolve workspace llm task run_id fresh) t t'"
    then obtain es fs where "ls_memory t = mem @ es" "?new es" "ls_memory t' = ls_memory t @ fs" "?new fs"
      by (auto simp: turn_step_def)
    then have "ls_memory t' = mem @ (es @ fs)" "?new (es @ fs)" by auto
    then show "\<exists>es. ls_memory t' = mem @ es \<and> ?new es" by blast
  qed simp
  then obtain es where es: "ls_memory s = mem @ es" "?new es" by blast
  have "filter (\<lambda>e. me_run_id e = other) es = []" if "other \<noteq> py_or run_id fresh" for other
    using es(2) that by (simp add: filter_empty_conv)
  with es(1) have "\<forall>other limit. other \<noteq> py_or run_id fresh \<longrightarrow> select other limit (ls_memory s) = select other limit mem"
    by (simp add: select_def)
  moreover have "\<forall>c\<in>set (ls_contexts s). length c \<le> 20"
    using assms by (rule loop_run_induct [where I = "\<lambda>t. \<forall>c\<in>set (ls_contexts t). length c \<le> 20"]) (auto simp: turn_step_def)
  ultimately show ?thesis using es by blast
qed

theorem loop_memory_scoped_witness:
  "\<exists>x s. loop_run Some [''ws''] demo_script 5 ''t'' (Some ''r1'') ''x'' [] [] = (x, s) \<and>
     list_all (\<lambda>c. length c \<le> 20) (ls_contexts s) \<and> select ''r2'' 20 (ls_memory s) = select ''r2'' 20 []"
proof -
  obtain x s where r: "loop_run Some [''ws''] demo_script 5 ''t'' (Some ''r1'') ''x'' [] [] = (x, s)"
    by fastforce
  have "''r2'' \<noteq> py_or (Some ''r1'') ''x''" by (simp add: py_or_def)
  with loop_memory_scoped [OF r] have "list_all (\<lambda>c. length c \<le> 20) (ls_contexts s)"
    "select ''r2'' 20 (ls_memory s) = select ''r2'' 20 []"
    unfolding list_all_iff by blast+
  with r show ?thesis by blast
qed

text \<open>
  A harness run always ends its run row. With a fresh run id and a positive turn limit,
  \<open>V2Harness.run\<close> never fails to enter or leave RUNNING: if it returns, the row is SUCCEEDED or
  STOPPED as the loop reported; if it raises, the exception is the loop's own and the row is
  STOPPED; the row has no phase and revision 3. The real workspace is never touched.
\<close>

theorem harness_run_ends_run:
  assumes "harness_run resolve task llm fresh now h = (x, h')"
    and "distinct (map rn_run_id (t_runs (hs_database h)))"
    and "\<not> has_row rn_run_id fresh (t_runs (hs_database h))" and "1 \<le> hs_max_turns h"
  shows "\<exists>row. get_run fresh (hs_database h') = Some row \<and> rn_phase row = None \<and> rn_revision row = 3 \<and>
    (case x of
       Inr (rid, r) \<Rightarrow> rid = fresh \<and> rn_status row = (if lr_succeeded r then RUN_SUCCEEDED else RUN_STOPPED)
     | Inl e \<Rightarrow> (\<exists>le. e = HarnessLoop le) \<and> rn_status row = RUN_STOPPED) \<and>
    hs_disk h' = hs_disk h"
proof -
  let ?ws = "workspace_str (hs_workspace h)"
  obtain db1 where c: "create_run ?ws None fresh now (hs_database h) = (Inr fresh, db1)"
    and g1: "get_run fresh db1 = Some \<lparr>rn_run_id = fresh, rn_workspace_path = ?ws, rn_status = RUN_CREATED,
      rn_phase = None, rn_revision = 1, rn_created_at = now\<rparr>"
    and k1: "map rn_run_id (t_runs db1) = map rn_run_id (t_runs (hs_database h)) @ [fresh]"
    using create_run_ok [OF assms(3)] by blast
  have d1: "distinct (map rn_run_id (t_runs db1))" using assms(2,3) unfolding k1 by (simp add: has_row_iff)
  obtain db2 row where t: "transition_run_latest fresh RUN_RUNNING (Some ''AGENT_LOOP'') db1 = (Inr True, db2)"
    and g2: "get_run fresh db2 = Some row" "rn_status row = RUN_RUNNING" "rn_revision row = 2"
    and d2: "distinct (map rn_run_id (t_runs db2))"
    using transition_run_latest_ok [OF d1 g1, of RUN_RUNNING "Some ''AGENT_LOOP''"] d1
    by (auto simp: run_transitions_def bump_run_def)
  have fin: "\<exists>db3. transition_run_latest fresh st None db2 = (Inr True, db3) \<and>
      get_run fresh db3 = Some (bump_run (st, None) row)" if "st \<in> {RUN_SUCCEEDED, RUN_STOPPED}" for st
    using transition_run_latest_ok [OF d2 g2(1), of st None] that g2(2) by (auto simp: run_transitions_def)
  obtain y s where l: "loop_run resolve (hs_workspace h) llm (hs_max_turns h) task (Some fresh) fresh
      (hs_memory h) (hs_staging h) = (y, s)" by fastforce
  show ?thesis
  proof (cases y)
    case (Inl e)
    from fin [of RUN_STOPPED] obtain db3 where "transition_run_latest fresh RUN_STOPPED None db2 = (Inr True, db3)"
      "get_run fresh db3 = Some (bump_run (RUN_STOPPED, None) row)" by blast
    with assms(1,4) c t l Inl g2 show ?thesis by (auto simp: harness_run_def bump_run_def)
  next
    case (Inr r)
    let ?st = "if lr_succeeded r then RUN_SUCCEEDED else RUN_STOPPED"
    have "?st \<in> {RUN_SUCCEEDED, RUN_STOPPED}" by simp
    from fin [OF this] obtain db3 where "transition_run_latest fresh ?st None db2 = (Inr True, db3)"
      "get_run fresh db3 = Some (bump_run (?st, None) row)" by blast
    with assms(1,4) c t l Inr g2 show ?thesis by (auto simp: harness_run_def bump_run_def Let_def)
  qed
qed

theorem harness_run_ends_run_witness:
  "\<exists>row. get_run ''r9'' (hs_database (snd (harness_run Some ''t'' demo_script ''r9'' ''1''
     \<lparr>hs_workspace = [''ws''], hs_max_turns = 5, hs_database = empty_database, hs_memory = [], hs_staging = [],
      hs_disk = ()\<rparr>))) = Some row \<and> rn_revision row = 3"
proof -
  let ?h = "\<lparr>hs_workspace = [''ws''], hs_max_turns = 5, hs_database = empty_database, hs_memory = [],
      hs_staging = [], hs_disk = ()\<rparr>"
  have "distinct (map rn_run_id (t_runs (hs_database ?h)))"
    "\<not> has_row rn_run_id ''r9'' (t_runs (hs_database ?h))" "1 \<le> hs_max_turns ?h"
    by (simp_all add: empty_database_def has_row_def)
  from harness_run_ends_run [OF prod.collapse [symmetric, of "harness_run Some ''t'' demo_script ''r9'' ''1'' ?h"] this]
  show ?thesis by blast
qed

text \<open>
  A path the policy allows can abort the run. When the model stages a file whose path
  makes the feedback message look like a secret (for instance a path containing \<open>token=\<close>), the
  file is staged and then \<open>remember\<close> raises; the loop does not catch it, so the run ends with a
  \<open>ValueError\<close> instead of a result.
\<close>

theorem loop_aborts_on_secret_like_path:
  assumes "llm 0 \<lparr>lq_run_id = run_id, lq_task = task, lq_context = []\<rparr> =
      Act [(''action_type'', JStr ''REPLACE''), (''path'', JStr path), (''content'', JStr content)]"
    and "policy_evaluate resolve \<lparr>ar_action_type = ''REPLACE'', ar_path = path, ar_workspace = workspace\<rparr> = ALLOW"
    and "secret_like (''replaced '' @ path)" and "run_id \<noteq> []" and "1 \<le> max_turns"
  shows "\<exists>s. loop_run resolve workspace llm max_turns task (Some run_id) fresh [] fs =
      (Inl (RaisedValueError (ValueError ''secret-like memory content is not allowed'')), s) \<and>
    map_of (ls_files s) path = Some content"
proof -
  obtain n where n: "nat max_turns = Suc n" using assms(5) by (cases "nat max_turns") auto
  show ?thesis
    using assms n
    by (simp add: loop_run_def py_or_def loop_turn_def last_n_def parse_action_def action_keys_def dispatch_def
        feedback_def remember_def add_result_def tool_result_def map_of_mem_replace Let_def)
qed

theorem loop_aborts_on_secret_like_path_witness:
  "\<exists>s. loop_run Some [''ws'']
      (\<lambda>_ _. Act [(''action_type'', JStr ''REPLACE''), (''path'', JStr ''token=1''), (''content'', JStr ''x'')])
      5 ''t'' (Some ''r1'') ''f'' [] [] =
      (Inl (RaisedValueError (ValueError ''secret-like memory content is not allowed'')), s) \<and>
    map_of (ls_files s) ''token=1'' = Some ''x''"
proof -
  have "policy_evaluate Some \<lparr>ar_action_type = ''REPLACE'', ar_path = ''token=1'', ar_workspace = [''ws'']\<rparr> = ALLOW"
    "secret_like (''replaced '' @ ''token=1'')"
    by code_simp+
  then show ?thesis by (intro loop_aborts_on_secret_like_path) simp_all
qed

end
