(* ===== verification/Provider_Call.thy ===== *)
theory Provider_Call
  imports Database_Ledger "HOL-Library.AList"
begin

text \<open>
  The credential port, \<open>credentials/v2_port.py\<close>, and the one-call provider boundary,
  \<open>providers/v2_call.py\<close>.

  A capability is compared by identity: the three objects the modules mint, or any other object.
  The secret wrapper hides its value behind two of them. The call credential is single-use, so
  opening it returns the new state of the object. The dunder methods that refuse comparison,
  copying and serialisation have no counterpart: nothing in the model compares a wrapper.

  The transport is a parameter over its own state \<open>'t\<close>: what one \<open>call\<close> does, an exception, a
  value that is no response, or a response. The credential port is a parameter too
  (\<open>get_for_call\<close>, which may raise); the in-memory provider is one. Between the service's reads and
  the atomic consume another process may change the database: \<open>env\<close>.
\<close>

section \<open>Capabilities and secrets\<close>

datatype capability = RevealCapability | StorageCapability | TransportRevealCapability | OtherObject nat

datatype credential_error = CredentialError string string

definition reveal_forbidden :: "string \<Rightarrow> credential_error" where
  "reveal_forbidden msg = CredentialError msg ''CREDENTIAL_REVEAL_FORBIDDEN''"

definition credential_invalid :: "string \<Rightarrow> credential_error" where
  "credential_invalid msg = CredentialError msg ''CREDENTIAL_INVALID''"

record credential_secret =
  cs_hidden :: string

definition make_secret :: "string \<Rightarrow> credential_error + credential_secret" where
  "make_secret hidden =
     (if hidden = [] then Inl (credential_invalid ''credential secret is not available'')
      else Inr \<lparr>cs_hidden = hidden\<rparr>)"

definition from_hidden_input :: "pyval \<Rightarrow> credential_error + credential_secret" where
  "from_hidden_input v =
     (case v of
        PStr s \<Rightarrow> if s = [] then Inl (credential_invalid ''credential secret must not be empty'')
                  else make_secret s
      | _ \<Rightarrow> Inl (credential_invalid ''credential secret must be a string''))"

definition require_hidden :: "credential_secret \<Rightarrow> credential_error + string" where
  "require_hidden s =
     (if cs_hidden s = [] then Inl (credential_invalid ''credential secret is not available'')
      else Inr (cs_hidden s))"

definition reveal :: "credential_secret \<Rightarrow> capability \<Rightarrow> credential_error + string" where
  "reveal s cap =
     (if cap \<noteq> RevealCapability
        then Inl (reveal_forbidden ''reveal requires the provider call boundary capability'')
      else require_hidden s)"

definition reveal_for_storage :: "credential_secret \<Rightarrow> capability \<Rightarrow> credential_error + string" where
  "reveal_for_storage s cap =
     (if cap \<noteq> StorageCapability
        then Inl (reveal_forbidden ''reveal_for_storage requires the OS store capability'')
      else require_hidden s)"

section \<open>The in-memory credential provider\<close>

record credential_status =
  ct_provider :: string
  ct_configured :: bool
  ct_updated_at :: "string option"

datatype mutation_kind = STORED | CLEARED

record credential_mutation =
  cm_kind :: mutation_kind
  cm_provider :: string

record credential_store =
  st_secrets :: "(string \<times> credential_secret) list"
  st_updated_at :: "(string \<times> string) list"

definition port_provider_name :: "string \<Rightarrow> credential_error + string" where
  "port_provider_name s =
     (if provider_name_matches s then Inr s
      else Inl (CredentialError ''provider name must be a short identifier'' ''CREDENTIAL_PROVIDER_INVALID''))"

definition make_credential_status :: "string \<Rightarrow> bool \<Rightarrow> string option \<Rightarrow> credential_error + credential_status" where
  "make_credential_status provider configured updated_at =
     rbind (port_provider_name provider) (\<lambda>p.
     rbind (check (updated_at \<noteq> Some []) (credential_invalid ''updated_at must be a non-empty timestamp or None''))
       (\<lambda>_. Inr \<lparr>ct_provider = p, ct_configured = configured, ct_updated_at = updated_at\<rparr>))"

definition credential_set :: "string \<Rightarrow> credential_secret \<Rightarrow> string \<Rightarrow> credential_store \<Rightarrow>
    (credential_error + credential_mutation) \<times> credential_store" where
  "credential_set provider secret now st =
     (case port_provider_name provider of
        Inl e \<Rightarrow> (Inl e, st)
      | Inr name \<Rightarrow>
          (Inr \<lparr>cm_kind = STORED, cm_provider = name\<rparr>,
           st\<lparr>st_secrets := AList.update name secret (st_secrets st),
              st_updated_at := AList.update name now (st_updated_at st)\<rparr>))"

definition credential_get_for_call :: "credential_store \<Rightarrow> string \<Rightarrow> credential_error + credential_secret option" where
  "credential_get_for_call st provider =
     rbind (port_provider_name provider) (\<lambda>name. Inr (map_of (st_secrets st) name))"

definition credential_status_of :: "string \<Rightarrow> credential_store \<Rightarrow> credential_error + credential_status" where
  "credential_status_of provider st =
     rbind (port_provider_name provider) (\<lambda>name.
       make_credential_status name (map_of (st_secrets st) name \<noteq> None) (map_of (st_updated_at st) name))"

definition credential_clear :: "string \<Rightarrow> string \<Rightarrow> credential_store \<Rightarrow>
    (credential_error + credential_mutation) \<times> credential_store" where
  "credential_clear provider now st =
     (case port_provider_name provider of
        Inl e \<Rightarrow> (Inl e, st)
      | Inr name \<Rightarrow>
          (Inr \<lparr>cm_kind = CLEARED, cm_provider = name\<rparr>,
           st\<lparr>st_secrets := AList.delete name (st_secrets st),
              st_updated_at := AList.update name now (st_updated_at st)\<rparr>))"

section \<open>The call credential\<close>

record call_credential =
  kc_secret :: "credential_secret option"
  kc_minted :: bool

definition make_call_credential :: "credential_secret \<Rightarrow> capability \<Rightarrow> credential_error + call_credential" where
  "make_call_credential secret cap =
     (if cap \<noteq> RevealCapability
        then Inl (reveal_forbidden ''minting requires the provider call boundary capability'')
      else Inr \<lparr>kc_secret = Some secret, kc_minted = True\<rparr>)"

definition reveal_for_transport :: "capability \<Rightarrow> call_credential \<Rightarrow>
    (credential_error + string) \<times> call_credential" where
  "reveal_for_transport cap k =
     (if cap \<noteq> TransportRevealCapability
        then (Inl (reveal_forbidden ''the transport reveal requires the transport adapter capability''), k)
      else if \<not> kc_minted k
        then (Inl (reveal_forbidden ''the call credential was not minted by the provider call boundary''), k)
      else (case kc_secret k of
              None \<Rightarrow> (Inl (reveal_forbidden ''the call credential was not minted by the provider call boundary''), k)
            | Some secret \<Rightarrow>
                (reveal secret RevealCapability, k\<lparr>kc_minted := False, kc_secret := None\<rparr>)))"

section \<open>Requests and outcomes\<close>

record call_request =
  pq_request_id :: string
  pq_authorization_id :: string
  pq_grant_id :: string
  pq_run_id :: string
  pq_endpoint_id :: string
  pq_provider :: string
  pq_profile_id :: string
  pq_profile_revision :: int

definition make_call_request ::
  "string \<Rightarrow> string \<Rightarrow> string \<Rightarrow> string \<Rightarrow> string \<Rightarrow> string \<Rightarrow> string \<Rightarrow> int \<Rightarrow> py_error + call_request" where
  "make_call_request qid aid gid rid eid prov pid rv =
     rbind (p_identifier (PStr qid) ''request_id'') (\<lambda>q.
     rbind (p_identifier (PStr aid) ''authorization_id'') (\<lambda>a.
     rbind (p_identifier (PStr gid) ''grant_id'') (\<lambda>g.
     rbind (p_identifier (PStr rid) ''run_id'') (\<lambda>r.
     rbind (p_identifier (PStr eid) ''endpoint_id'') (\<lambda>e.
     rbind (provider_name (PStr prov)) (\<lambda>p.
     rbind (p_identifier (PStr pid) ''reference_profile_id'') (\<lambda>i.
     rbind (p_revision (PInt rv) ''reference_profile_revision'') (\<lambda>n.
       Inr \<lparr>pq_request_id = q, pq_authorization_id = a, pq_grant_id = g, pq_run_id = r, pq_endpoint_id = e,
            pq_provider = p, pq_profile_id = i, pq_profile_revision = n\<rparr>))))))))"

datatype call_status = CALL_SUCCEEDED | CALL_FAILED

datatype call_error_code =
  CREDENTIAL_NOT_CONFIGURED | ENDPOINT_NOT_FOUND | PROFILE_MISMATCH | AUTHORIZATION_NOT_FOUND |
  AUTHORIZATION_BINDING_MISMATCH | AUTHORIZATION_NOT_AUTHORIZED | GRANT_NOT_ACTIVE | PROVIDER_CALL_FAILED

fun call_message :: "call_error_code option \<Rightarrow> string" where
  "call_message None = ''the provider call completed''"
| "call_message (Some CREDENTIAL_NOT_CONFIGURED) = ''no credential is configured for the provider''"
| "call_message (Some ENDPOINT_NOT_FOUND) = ''the provider endpoint is unknown''"
| "call_message (Some PROFILE_MISMATCH) = ''the request does not match the provider or profile binding of the endpoint''"
| "call_message (Some AUTHORIZATION_NOT_FOUND) = ''no disclosure authorization exists for the request''"
| "call_message (Some AUTHORIZATION_BINDING_MISMATCH) = ''the authorization does not match the grant, run, request, or endpoint of the request''"
| "call_message (Some AUTHORIZATION_NOT_AUTHORIZED) = ''the authorization is not in the AUTHORIZED state''"
| "call_message (Some GRANT_NOT_ACTIVE) = ''the grant is not active''"
| "call_message (Some PROVIDER_CALL_FAILED) = ''the provider call failed; no retry is attempted''"

record call_outcome =
  po_request_id :: string
  po_status :: call_status
  po_error_code :: "call_error_code option"
  po_message :: string

definition make_call_outcome ::
  "string \<Rightarrow> call_status \<Rightarrow> call_error_code option \<Rightarrow> string \<Rightarrow> py_error + call_outcome" where
  "make_call_outcome qid st code msg =
     rbind (p_identifier (PStr qid) ''request_id'') (\<lambda>q.
     rbind (check (st = CALL_SUCCEEDED \<longrightarrow> code = None) (ValueError ''SUCCEEDED outcomes carry no error code'')) (\<lambda>_.
     rbind (check (st = CALL_FAILED \<longrightarrow> code \<noteq> None) (ValueError ''error_code must be one of the closed codes'')) (\<lambda>_.
     rbind (check (msg = call_message code)
       (ValueError ''outcome message must be the closed static message of its code'')) (\<lambda>_.
       Inr \<lparr>po_request_id = q, po_status = st, po_error_code = code, po_message = msg\<rparr>))))"

section \<open>The service\<close>

datatype transport_reply = TransportRaised string | NotResponse string | Response call_status

type_synonym 't transport = "call_request \<Rightarrow> call_credential \<Rightarrow> 't \<Rightarrow> transport_reply \<times> 't"

datatype call_error = CallDb db_error | CallCredential credential_error

type_synonym 't call_result = "(call_error + call_outcome) \<times> database \<times> 't"

definition call_done :: "call_request \<Rightarrow> call_error_code option \<Rightarrow> database \<Rightarrow> 't \<Rightarrow> 't call_result" where
  "call_done req code db t =
     (case make_call_outcome (pq_request_id req) (if code = None then CALL_SUCCEEDED else CALL_FAILED) code
             (call_message code) of
        Inl e \<Rightarrow> (Inl (CallDb (RecordError e)), db, t)
      | Inr out \<Rightarrow> (Inr out, db, t))"

text \<open>The single transport call, behind the committed consume.\<close>

definition transport_call :: "'t transport \<Rightarrow> call_request \<Rightarrow> credential_secret \<Rightarrow> database \<Rightarrow> 't \<Rightarrow> 't call_result" where
  "transport_call transport req secret db t =
     (case make_call_credential secret RevealCapability of
        Inl _ \<Rightarrow> call_done req (Some PROVIDER_CALL_FAILED) db t
      | Inr credential \<Rightarrow>
          (case transport req credential t of
             (Response CALL_SUCCEEDED, t') \<Rightarrow> call_done req None db t'
           | (_, t') \<Rightarrow> call_done req (Some PROVIDER_CALL_FAILED) db t'))"

text \<open>From the credential lookup on: the consume revalidates everything atomically.\<close>

definition consume_and_call :: "iso_parser \<Rightarrow> (string \<Rightarrow> credential_error + credential_secret option) \<Rightarrow>
    't transport \<Rightarrow> (database \<Rightarrow> database) \<Rightarrow> datetime \<Rightarrow> call_request \<Rightarrow> database \<Rightarrow> 't \<Rightarrow> 't call_result" where
  "consume_and_call fromiso get_for_call transport env now req db t =
     (case get_for_call (pq_provider req) of
        Inl e \<Rightarrow> (Inl (CallCredential e), db, t)
      | Inr None \<Rightarrow> call_done req (Some CREDENTIAL_NOT_CONFIGURED) db t
      | Inr (Some secret) \<Rightarrow>
          (case consume_disclosure_authorization fromiso (pq_authorization_id req) (pq_grant_id req)
                  (pq_run_id req) (pq_request_id req) now (env db) of
             (Inl e, db1) \<Rightarrow> (Inl (CallDb e), db1, t)
           | (Inr CO_GRANT_NOT_ACTIVE, db1) \<Rightarrow> call_done req (Some GRANT_NOT_ACTIVE) db1 t
           | (Inr CO_NOT_AUTHORIZED, db1) \<Rightarrow> call_done req (Some AUTHORIZATION_NOT_AUTHORIZED) db1 t
           | (Inr CO_CONSUMED, db1) \<Rightarrow> transport_call transport req secret db1 t))"

text \<open>The early diagnostics: the first refusal, or an exception of the reads.\<close>

definition diagnose :: "iso_parser \<Rightarrow> datetime \<Rightarrow> call_request \<Rightarrow> database \<Rightarrow> db_error + call_error_code option" where
  "diagnose fromiso now req db =
     rbind (get_provider_endpoint (pq_endpoint_id req) db) (\<lambda>endpoint_opt.
       case endpoint_opt of
         None \<Rightarrow> Inr (Some ENDPOINT_NOT_FOUND)
       | Some endpoint \<Rightarrow>
           if pe_provider endpoint \<noteq> pq_provider req \<or> pe_profile_id endpoint \<noteq> pq_profile_id req \<or>
              pe_profile_revision endpoint \<noteq> pq_profile_revision req
             then Inr (Some PROFILE_MISMATCH)
           else rbind (get_disclosure_authorization (pq_authorization_id req) db) (\<lambda>auth_opt.
             case auth_opt of
               None \<Rightarrow> Inr (Some AUTHORIZATION_NOT_FOUND)
             | Some a \<Rightarrow>
                 if au_grant_id a \<noteq> pq_grant_id req \<or> au_run_id a \<noteq> pq_run_id req \<or>
                    au_request_id a \<noteq> pq_request_id req \<or> au_endpoint_id a \<noteq> pq_endpoint_id req
                   then Inr (Some AUTHORIZATION_BINDING_MISMATCH)
                 else if au_status a \<noteq> A_AUTHORIZED then Inr (Some AUTHORIZATION_NOT_AUTHORIZED)
                 else rbind (get_disclosure_grant fromiso (pq_grant_id req) db) (\<lambda>grant_opt.
                   case grant_opt of
                     None \<Rightarrow> Inr (Some AUTHORIZATION_BINDING_MISMATCH)
                   | Some g \<Rightarrow>
                       if gr_status g \<noteq> G_ACTIVE then Inr (Some GRANT_NOT_ACTIVE)
                       else rbind (lift_record (grant_is_expired fromiso g now)) (\<lambda>expired.
                         if expired then Inr (Some GRANT_NOT_ACTIVE)
                         else if gr_profile_id g \<noteq> pe_profile_id endpoint \<or>
                                 gr_profile_revision g \<noteq> pe_profile_revision endpoint
                           then Inr (Some PROFILE_MISMATCH)
                         else Inr None))))"

definition provider_call :: "iso_parser \<Rightarrow> (string \<Rightarrow> credential_error + credential_secret option) \<Rightarrow>
    't transport \<Rightarrow> (database \<Rightarrow> database) \<Rightarrow> datetime \<Rightarrow> datetime \<Rightarrow> call_request \<Rightarrow> database \<Rightarrow> 't \<Rightarrow>
    't call_result" where
  "provider_call fromiso get_for_call transport env now1 now2 req db t =
     (case diagnose fromiso now1 req db of
        Inl e \<Rightarrow> (Inl (CallDb e), db, t)
      | Inr (Some code) \<Rightarrow> call_done req (Some code) db t
      | Inr None \<Rightarrow> consume_and_call fromiso get_for_call transport env now2 req db t)"

section \<open>What one call can do\<close>

lemma make_call_outcome_static:
  "make_call_outcome qid (if code = None then CALL_SUCCEEDED else CALL_FAILED) code (call_message code) =
     rbind (p_identifier (PStr qid) ''request_id'') (\<lambda>q.
       Inr \<lparr>po_request_id = q, po_status = (if code = None then CALL_SUCCEEDED else CALL_FAILED),
            po_error_code = code, po_message = call_message code\<rparr>)"
  by (cases code) (simp_all add: make_call_outcome_def)

lemma call_done_state:
  assumes "call_done req code db t = (r, db', t')"
  shows "db' = db" and "t' = t"
  using assms unfolding call_done_def by (auto split: sum.splits)

lemma call_done_outcome:
  assumes "call_done req code db t = (Inr out, db', t')"
  shows "po_error_code out = code" and "po_message out = call_message code"
    and "po_status out = (if code = None then CALL_SUCCEEDED else CALL_FAILED)"
proof -
  obtain q where "out = \<lparr>po_request_id = q, po_status = (if code = None then CALL_SUCCEEDED else CALL_FAILED),
            po_error_code = code, po_message = call_message code\<rparr>"
  proof (cases "p_identifier (PStr (pq_request_id req)) ''request_id''")
    case (Inl e)
    with assms show thesis unfolding call_done_def make_call_outcome_static Inl rbind_Inl sum.case by blast
  next
    case (Inr q)
    from assms have "out = \<lparr>po_request_id = q, po_status = (if code = None then CALL_SUCCEEDED else CALL_FAILED),
            po_error_code = code, po_message = call_message code\<rparr>"
      unfolding call_done_def make_call_outcome_static Inr rbind_Inr sum.case prod.inject sum.inject by blast
    then show thesis by (rule that)
  qed
  then show "po_error_code out = code" "po_message out = call_message code"
    "po_status out = (if code = None then CALL_SUCCEEDED else CALL_FAILED)" by simp_all
qed

definition minted :: "credential_secret \<Rightarrow> call_credential" where
  "minted secret = \<lparr>kc_secret = Some secret, kc_minted = True\<rparr>"

lemma transport_call_state:
  assumes "transport_call transport req secret db t = (r, db', t')"
  obtains reply where "transport req (minted secret) t = (reply, t')" "db' = db"
    "call_done req (if reply = Response CALL_SUCCEEDED then None else Some PROVIDER_CALL_FAILED) db t' = (r, db', t')"
proof -
  obtain reply u where u: "transport req (minted secret) t = (reply, u)" by fastforce
  have d: "call_done req (if reply = Response CALL_SUCCEEDED then None else Some PROVIDER_CALL_FAILED) db u = (r, db', t')"
  proof (cases reply)
    case (Response st)
    with assms u show ?thesis
      by (cases st) (simp_all add: transport_call_def make_call_credential_def minted_def)
  qed (use assms u in \<open>simp_all add: transport_call_def make_call_credential_def minted_def\<close>)
  from call_done_state [OF d] that [of reply] u d show thesis by simp
qed

text \<open>
  Either the transport is not touched, or it was called exactly once, with a freshly minted
  credential, after a successful consume.
\<close>

lemma consume_and_call_cases:
  assumes "consume_and_call fromiso get_for_call transport env now req db t = (r, db', t')"
  shows "t' = t \<or> (\<exists>secret. get_for_call (pq_provider req) = Inr (Some secret) \<and>
    (\<exists>db1. consume_disclosure_authorization fromiso (pq_authorization_id req) (pq_grant_id req) (pq_run_id req)
       (pq_request_id req) now (env db) = (Inr CO_CONSUMED, db1) \<and>
     transport_call transport req secret db1 t = (r, db', t')))"
proof (cases "get_for_call (pq_provider req)")
  case (Inl e)
  with assms show ?thesis by (simp add: consume_and_call_def)
next
  case (Inr so)
  show ?thesis
  proof (cases so)
    case None
    with assms Inr have "call_done req (Some CREDENTIAL_NOT_CONFIGURED) db t = (r, db', t')"
      by (simp add: consume_and_call_def)
    then show ?thesis by (intro disjI1) (rule call_done_state(2))
  next
    case (Some s)
    obtain k db1 where k: "consume_disclosure_authorization fromiso (pq_authorization_id req) (pq_grant_id req)
        (pq_run_id req) (pq_request_id req) now (env db) = (k, db1)" by fastforce
    note call = assms [unfolded consume_and_call_def Inr Some sum.case option.case k prod.case]
    show ?thesis
    proof (cases k)
      case (Inl e)
      with call show ?thesis by simp
    next
      case (Inr x)
      note call' = call [unfolded Inr sum.case]
      show ?thesis
      proof (cases x)
        case CO_CONSUMED
        with call' k Inr Some \<open>get_for_call (pq_provider req) = Inr so\<close> show ?thesis by simp
      next
        case CO_NOT_AUTHORIZED
        with call' have "call_done req (Some AUTHORIZATION_NOT_AUTHORIZED) db1 t = (r, db', t')" by simp
        then show ?thesis by (intro disjI1) (rule call_done_state(2))
      next
        case CO_GRANT_NOT_ACTIVE
        with call' have "call_done req (Some GRANT_NOT_ACTIVE) db1 t = (r, db', t')" by simp
        then show ?thesis by (intro disjI1) (rule call_done_state(2))
      qed
    qed
  qed
qed

lemma provider_call_cases:
  assumes "provider_call fromiso get_for_call transport env now1 now2 req db t = (r, db', t')"
  obtains (untouched) "t' = t"
  | (called) secret reply where "get_for_call (pq_provider req) = Inr (Some secret)"
      "consume_disclosure_authorization fromiso (pq_authorization_id req) (pq_grant_id req) (pq_run_id req)
         (pq_request_id req) now2 (env db) = (Inr CO_CONSUMED, db')"
      "transport req (minted secret) t = (reply, t')"
      "call_done req (if reply = Response CALL_SUCCEEDED then None else Some PROVIDER_CALL_FAILED) db' t' = (r, db', t')"
proof (cases "diagnose fromiso now1 req db = Inr None")
  case False
  then have "t' = t"
    using assms
    by (cases "diagnose fromiso now1 req db")
      (auto simp: provider_call_def split: option.splits dest: call_done_state(2))
  then show thesis by (rule untouched)
next
  case True
  with assms have "consume_and_call fromiso get_for_call transport env now2 req db t = (r, db', t')"
    by (simp add: provider_call_def)
  from consume_and_call_cases [OF this] show thesis
  proof (elim disjE exE conjE)
    fix secret db1
    assume s: "get_for_call (pq_provider req) = Inr (Some secret)"
      "consume_disclosure_authorization fromiso (pq_authorization_id req) (pq_grant_id req) (pq_run_id req)
         (pq_request_id req) now2 (env db) = (Inr CO_CONSUMED, db1)"
      and "transport_call transport req secret db1 t = (r, db', t')"
    from this(3) show thesis
    proof (rule transport_call_state)
      fix reply
      assume "transport req (minted secret) t = (reply, t')" "db' = db1"
        "call_done req (if reply = Response CALL_SUCCEEDED then None else Some PROVIDER_CALL_FAILED) db1 t' = (r, db', t')"
      with s show thesis by (intro called [of secret reply]) simp_all
    qed
  qed (rule untouched)
qed

lemma provider_call_code:
  assumes "provider_call fromiso get_for_call transport env now1 now2 req db t = (Inr out, db', t')"
  shows "\<exists>code d u. call_done req code d u = (Inr out, db', t') \<and>
    (code = None \<longrightarrow> (\<exists>secret. transport req (minted secret) t = (Response CALL_SUCCEEDED, t')))"
proof (cases "diagnose fromiso now1 req db = Inr None")
  case False
  then obtain code where "call_done req (Some code) db t = (Inr out, db', t')"
    using assms
    by (cases "diagnose fromiso now1 req db") (auto simp: provider_call_def split: option.splits)
  then show ?thesis by blast
next
  case True
  with assms have c: "consume_and_call fromiso get_for_call transport env now2 req db t = (Inr out, db', t')"
    by (simp add: provider_call_def)
  have "(\<exists>code d. call_done req (Some code) d t = (Inr out, db', t')) \<or>
      (\<exists>secret d. transport_call transport req secret d t = (Inr out, db', t'))"
    using c unfolding consume_and_call_def
    by (auto split: sum.splits option.splits prod.splits consume_outcome_kind.splits)
  then show ?thesis
  proof (elim disjE exE)
    fix secret d
    assume "transport_call transport req secret d t = (Inr out, db', t')"
    then show ?thesis
    proof (rule transport_call_state)
      fix reply
      assume r: "transport req (minted secret) t = (reply, t')"
        and "call_done req (if reply = Response CALL_SUCCEEDED then None else Some PROVIDER_CALL_FAILED) d t' =
          (Inr out, db', t')"
      then show ?thesis by (cases "reply = Response CALL_SUCCEEDED") auto
    qed
  qed blast
qed

section \<open>Properties\<close>

text \<open>
  Claim C36. At most one provider call per authorization, and never without one. A call either leaves
  the transport untouched, or calls it exactly once with a freshly minted credential after the
  consume committed: the authorization was AUTHORIZED, bound to the request, its grant active and
  unexpired at consume time, and is CONSUMED in the resulting database. Whatever other processes
  did between the reads and the consume (\<open>env\<close>), a second call for the same authorization on that
  database never reaches the transport.
\<close>

theorem provider_called_at_most_once:
  assumes "provider_call fromiso get_for_call transport env now1 now2 req db t = (r, db', t')"
    and "t' \<noteq> t"
  shows "(\<exists>secret reply row g. get_for_call (pq_provider req) = Inr (Some secret) \<and>
      transport req (minted secret) t = (reply, t') \<and>
      find_row aw_authorization_id (pq_authorization_id req) (t_authorizations (env db)) = Some row \<and>
      aw_status row = A_AUTHORIZED \<and> aw_grant_id row = pq_grant_id req \<and> aw_request_id row = pq_request_id req \<and>
      grant_record fromiso (pq_grant_id req) (env db) = Inr (Some g) \<and> gr_status g = G_ACTIVE \<and>
      grant_is_expired fromiso g now2 = Inr False \<and>
      find_row aw_authorization_id (pq_authorization_id req) (t_authorizations db') =
        Some (row\<lparr>aw_status := A_CONSUMED\<rparr>)) \<and>
    (\<forall>req2 get2 transport2 now3 now4 u r2 db2 u2.
       pq_authorization_id req2 = pq_authorization_id req \<longrightarrow>
       provider_call fromiso get2 transport2 (\<lambda>d. d) now3 now4 req2 db' u = (r2, db2, u2) \<longrightarrow> u2 = u)"
  using assms(1)
proof (cases rule: provider_call_cases)
  case (called secret reply)
  have b: "consume_body fromiso (pq_authorization_id req) (pq_grant_id req) (pq_run_id req)
      (pq_request_id req) now2 (env db) = Inr (CO_CONSUMED, db')"
    using called(2) by (simp add: consume_disclosure_authorization_def)
  then obtain row g where c: "find_row aw_authorization_id (pq_authorization_id req) (t_authorizations (env db)) = Some row"
      "aw_grant_id row = pq_grant_id req" "aw_request_id row = pq_request_id req" "aw_status row = A_AUTHORIZED"
      "grant_record fromiso (pq_grant_id req) (env db) = Inr (Some g)" "gr_status g = G_ACTIVE"
      "grant_is_expired fromiso g now2 = Inr False" "db' = consumed_auth (pq_authorization_id req) (env db)"
    by (cases rule: consume_body_cases) auto
  have find: "find_row aw_authorization_id (pq_authorization_id req) (t_authorizations db') =
      Some (row\<lparr>aw_status := A_CONSUMED\<rparr>)"
    unfolding c(8) using c(1,4) by (simp add: find_consumed_auth set_authorization_status_def)
  have "u2 = u" if "pq_authorization_id req2 = pq_authorization_id req"
    "provider_call fromiso get2 transport2 (\<lambda>d. d) now3 now4 req2 db' u = (r2, db2, u2)"
    for req2 get2 and transport2 :: "'b transport" and now3 now4 u r2 db2 u2
    using that(2)
  proof (cases rule: provider_call_cases)
    case (called secret reply)
    with consumed_refused_again [OF find] that(1) show ?thesis by simp
  qed
  with called c find show ?thesis by blast
qed (use assms(2) in simp)

definition demo_call_request :: call_request where
  "demo_call_request = \<lparr>pq_request_id = ''q1'', pq_authorization_id = ''x1'', pq_grant_id = ''g1'', pq_run_id = ''r1'',
     pq_endpoint_id = ''e1'', pq_provider = ''acme'', pq_profile_id = ''p1'', pq_profile_revision = 0\<rparr>"

definition demo_transport :: "nat transport" where
  "demo_transport req k n = (Response CALL_SUCCEEDED, Suc n)"

definition demo_port :: "string \<Rightarrow> credential_error + credential_secret option" where
  "demo_port = credential_get_for_call \<lparr>st_secrets = [(''acme'', \<lparr>cs_hidden = ''k''\<rparr>)], st_updated_at = []\<rparr>"

definition demo_call :: "nat call_result" where
  "demo_call = provider_call demo_clock demo_port demo_transport (\<lambda>d. d) demo_now demo_now demo_call_request
     (snd (demo_authorize 500)) 0"

lemma demo_called: "snd (snd demo_call) = 1"
  by code_simp

theorem provider_called_at_most_once_witness:
  "snd (snd demo_call) = 1 \<and>
   snd (snd (provider_call demo_clock demo_port demo_transport (\<lambda>d. d) demo_now demo_now demo_call_request
     (fst (snd demo_call)) 1)) = 1"
proof -
  let ?again = "provider_call demo_clock demo_port demo_transport (\<lambda>d. d) demo_now demo_now demo_call_request
     (fst (snd demo_call)) 1"
  have "demo_call = (fst demo_call, fst (snd demo_call), snd (snd demo_call))" by simp
  from provider_called_at_most_once [where 'b = nat, OF this [unfolded demo_call_def]] demo_called
  have "\<forall>r2 db2 u2. ?again = (r2, db2, u2) \<longrightarrow> u2 = 1"
    unfolding demo_call_def [symmetric] by simp
  moreover have "?again = (fst ?again, fst (snd ?again), snd (snd ?again))" by simp
  ultimately show ?thesis using demo_called by blast
qed

text \<open>
  Outcomes are closed. The outcome of a call has no error code exactly when it succeeded,
  which happens only if the transport answered SUCCEEDED; its message is the fixed text of its code,
  so nothing the transport raised or returned can appear in it.
\<close>

theorem provider_outcome_closed:
  assumes "provider_call fromiso get_for_call transport env now1 now2 req db t = (Inr out, db', t')"
  shows "po_message out = call_message (po_error_code out) \<and>
    (po_status out = CALL_SUCCEEDED \<longleftrightarrow> po_error_code out = None) \<and>
    (po_status out = CALL_SUCCEEDED \<longrightarrow>
       (\<exists>secret. transport req (minted secret) t = (Response CALL_SUCCEEDED, t')))"
proof -
  have "\<exists>code d u. call_done req code d u = (Inr out, db', t') \<and>
      (code = None \<longrightarrow> (\<exists>secret. transport req (minted secret) t = (Response CALL_SUCCEEDED, t')))"
    using provider_call_code [OF assms] .
  then obtain code d u where c: "call_done req code d u = (Inr out, db', t')"
    and s: "code = None \<longrightarrow> (\<exists>secret. transport req (minted secret) t = (Response CALL_SUCCEEDED, t'))" by blast
  from call_done_outcome [OF c] s show ?thesis by (simp split: if_splits)
qed

theorem provider_outcome_closed_witness:
  "\<exists>out. fst demo_call = Inr out \<and> po_message out = call_message (po_error_code out)"
proof -
  have "is_ok (fst demo_call)" by code_simp
  then obtain out where "fst demo_call = Inr out" by (auto simp: is_ok_iff)
  then have "demo_call = (Inr out, fst (snd demo_call), snd (snd demo_call))" by (metis prod.collapse)
  from provider_outcome_closed [OF this [unfolded demo_call_def]] \<open>fst demo_call = Inr out\<close> show ?thesis by blast
qed

text \<open>
  The secret has exactly two doors. The wrapped value is revealed only to the holder of the
  provider-call capability, or for storage only to the holder of the storage capability; a call
  credential opens only for the transport capability, only once, and any later attempt is refused.
\<close>

theorem secret_doors:
  "(reveal s cap = Inr v \<longleftrightarrow> cap = RevealCapability \<and> v = cs_hidden s \<and> v \<noteq> []) \<and>
   (reveal_for_storage s cap = Inr v \<longleftrightarrow> cap = StorageCapability \<and> v = cs_hidden s \<and> v \<noteq> []) \<and>
   (fst (reveal_for_transport cap (minted s)) = Inr v \<longleftrightarrow>
      cap = TransportRevealCapability \<and> v = cs_hidden s \<and> v \<noteq> []) \<and>
   (\<forall>cap2. cap = TransportRevealCapability \<longrightarrow>
      \<not> is_ok (fst (reveal_for_transport cap2 (snd (reveal_for_transport cap (minted s))))))"
  by (auto simp: reveal_def reveal_for_storage_def reveal_for_transport_def minted_def require_hidden_def)

theorem secret_doors_witness:
  "fst (reveal_for_transport TransportRevealCapability (minted \<lparr>cs_hidden = ''k''\<rparr>)) = Inr ''k'' \<and>
   \<not> is_ok (fst (reveal_for_transport TransportRevealCapability
     (snd (reveal_for_transport TransportRevealCapability (minted \<lparr>cs_hidden = ''k''\<rparr>)))))"
  using secret_doors [of "\<lparr>cs_hidden = ''k''\<rparr>" TransportRevealCapability "''k''"] by simp

end
