(* ===== verification/Service_Steps.thy ===== *)
theory Service_Steps
  imports Database_Invariants Recovery_Service Agent_Loop Provider_Call
begin

text \<open>
  The services as clients of the control database: whatever a writeback, a recovery, a harness run
  or a provider call does to the database is a sequence of the operations of \<open>V2Database\<close>, so
  every invariant of \<open>Database_Invariants\<close> holds before, between and after them.
\<close>

abbreviation db_steps :: "iso_parser \<Rightarrow> database \<Rightarrow> database \<Rightarrow> bool" where
  "db_steps F \<equiv> (db_step F)\<^sup>*\<^sup>*"

lemma steps_one: "db_step F db db1 \<Longrightarrow> db_steps F db1 db' \<Longrightarrow> db_steps F db db'"
  by (rule converse_rtranclp_into_rtranclp)

lemma transition_step: "db_step F db (snd (transition_transaction tid s s' db))"
  by (rule step_transition_transaction [OF prod.collapse [symmetric]])

lemma write_and_commit_steps:
  assumes "write_and_commit P env tid es db w = (r, db', w')"
  shows "db_steps F db db'"
proof -
  obtain x db1 where t1: "transition_transaction tid PREPARED WRITING db = (x, db1)" by fastforce
  have s1: "db_step F db db1" using t1 by (rule step_transition_transaction)
  obtain y v where a: "apply_entries P env 0 es w = (y, v)" by fastforce
  obtain z db2 where t2: "transition_transaction tid WRITING COMMITTED db1 = (z, db2)" by fastforce
  have s2: "db_step F db1 db2" using t2 by (rule step_transition_transaction)
  have "db' \<in> {db1, db2, snd (transition_transaction tid WRITING UNRESOLVED db1)}"
    using assms t1 a t2 by (auto simp: write_and_commit_def split: sum.splits if_splits)
  with s1 s2 transition_step [of F db1 tid WRITING UNRESOLVED] show ?thesis by (auto intro: steps_one)
qed

lemma writeback_steps:
  assumes "request_writeback P env resolve workspace req fresh now db w = (r, db', w')"
  shows "db_steps F db db'"
proof (cases "refuse resolve workspace req db")
  case (Some out)
  with assms show ?thesis by (simp add: request_writeback_def)
next
  case None
  note refused = this
  show ?thesis
  proof (cases "preflight P 0 (wq_operations req) w")
    case (Inl early)
    with assms refused show ?thesis by (simp add: request_writeback_def)
  next
    case (Inr es)
    obtain x db1 where b: "begin_writeback_transaction (wq_run_id req) (wq_candidate_id req) (wq_candidate_revision req)
        (wq_approval_id req) es None fresh now db = (x, db1)" by fastforce
    have s: "db_step F db db1" using b by (rule step_begin)
    show ?thesis
    proof (cases x)
      case (Inl e)
      with assms refused Inr b have "db' = db1" by (cases e) (auto simp: request_writeback_def)
      with s show ?thesis by blast
    next
      case (Inr tid)
      with assms refused \<open>preflight P 0 (wq_operations req) w = Inr es\<close> b
      have "write_and_commit P env tid es db1 w = (r, db', w')" by (simp add: request_writeback_def)
      from write_and_commit_steps [OF this] s show ?thesis by (rule steps_one [rotated])
    qed
  qed
qed

lemma complete_writing_steps:
  assumes "complete_writing P tid work db w = (r, db', w')"
  shows "db_steps F db db'"
proof -
  have "db' \<in> {snd (transition_transaction tid WRITING UNRESOLVED db), snd (transition_transaction tid WRITING COMMITTED db)}"
    using assms by (auto simp: complete_writing_def split: sum.splits prod.splits if_splits)
  with transition_step show ?thesis by blast
qed

lemma recovery_apply_steps:
  assumes "recovery_apply P tid db w = (r, db', w')"
  shows "db_steps F db db'"
proof (cases "load_active tid db")
  case (Inl e)
  with assms show ?thesis by (simp add: recovery_apply_def)
next
  case (Inr y)
  obtain tx es where y: "y = (tx, es)" by (cases y)
  obtain x db1 where t: "transition_transaction tid (tx_state tx) WRITING db = (x, db1)" by fastforce
  have s: "db_step F db db1" using t by (rule step_transition_transaction)
  have "db' = db \<or> db' = db1 \<or> (\<exists>work. complete_writing P tid work db1 w = (r, db', w')) \<or>
      (\<exists>work. complete_writing P tid work db w = (r, db', w'))"
    using assms Inr y t by (auto simp: recovery_apply_def Let_def split: sum.splits if_splits)
  then show ?thesis
    by (elim disjE exE) (use s in \<open>auto intro: steps_one dest: complete_writing_steps\<close>)
qed

lemma rollback_steps:
  assumes "rollback P tid db w = (r, db', w')"
  shows "db_steps F db db'"
proof (cases "load_active tid db")
  case (Inl e)
  with assms show ?thesis by (simp add: rollback_def)
next
  case (Inr y)
  obtain tx es where y: "y = (tx, es)" by (cases y)
  have "db' = db \<or> db' = snd (transition_transaction tid (tx_state tx) ROLLED_BACK db)"
    using assms Inr y by (auto simp: rollback_def Let_def split: sum.splits prod.splits if_splits)
  with transition_step show ?thesis by blast
qed

lemma run_steps:
  "db_step F db (snd (create_run ws rid fresh now db))"
  "db_step F db (snd (transition_run_latest rid' st ph db))"
  by (rule step_create_run [OF prod.collapse [symmetric]],
      rule step_transition_run_latest [OF prod.collapse [symmetric]])

lemma harness_steps:
  assumes "harness_run resolve task llm fresh now h = (r, h')"
  shows "db_steps F (hs_database h) (hs_database h')"
proof -
  obtain x db where c: "create_run (workspace_str (hs_workspace h)) None fresh now (hs_database h) = (x, db)" by fastforce
  have s: "db_step F (hs_database h) db" using c by (rule step_create_run)
  show ?thesis
  proof (cases x)
    case (Inl e)
    with assms c s show ?thesis by (auto simp: harness_run_def)
  next
    case (Inr rid)
    obtain y db1 where t: "transition_run_latest rid RUN_RUNNING (Some ''AGENT_LOOP'') db = (y, db1)" by fastforce
    have s1: "db_step F db db1" using t by (rule step_transition_run_latest)
    have "hs_database h' \<in> {db1, snd (transition_run_latest rid RUN_STOPPED None db1),
        snd (transition_run_latest rid RUN_SUCCEEDED None db1)}"
    proof (cases "loop_run resolve (hs_workspace h) llm (hs_max_turns h) task (Some rid) fresh (hs_memory h) (hs_staging h)")
      case (Pair z s)
      show ?thesis
        by (cases z)
          (use assms c Inr t Pair in \<open>auto simp: harness_run_def Let_def split: sum.splits prod.splits if_splits\<close>)
    qed
    moreover have "db_steps F (hs_database h) db1" using s s1 by (auto intro: steps_one)
    ultimately show ?thesis using run_steps(2) by (auto intro: rtranclp.rtrancl_into_rtrancl)
  qed
qed

lemma consume_and_call_steps:
  assumes "consume_and_call F cred transport env now req db t = (r, db', t')" and "\<And>d. db_steps F d (env d)"
  shows "db_steps F db db'"
proof -
  obtain x db1 where c: "consume_disclosure_authorization F (pq_authorization_id req) (pq_grant_id req)
      (pq_run_id req) (pq_request_id req) now (env db) = (x, db1)" by fastforce
  have "db_step F (env db) db1" using c by (rule step_consume)
  then have s: "db_steps F db db1" using assms(2) [of db] by simp
  have "db' = db \<or> db' = db1"
    using assms(1) c
    by (auto simp: consume_and_call_def dest: call_done_state elim!: transport_call_state
        split: sum.splits option.splits consume_outcome_kind.splits)
  with s show ?thesis by auto
qed

lemma provider_call_steps:
  assumes "provider_call F cred transport env now1 now2 req db t = (r, db', t')" and "\<And>d. db_steps F d (env d)"
  shows "db_steps F db db'"
  using assms(1) consume_and_call_steps [OF _ assms(2)]
  by (auto simp: provider_call_def dest: call_done_state split: sum.splits option.splits)

end
