(* ===== verification/Contract_Properties.thy ===== *)
theory Contract_Properties
  imports Disclosure Validation_Contract Relaxed_Policy Secret_Scanner "HOL-Library.Multiset"
begin

text \<open>
  Properties of the pure contracts: what a disclosure scope admits and its canonical order, what
  validation evidence is accepted, which mappings are parsed, that the policy cannot be
  circumvented by the case of a path, and what the secret scanner reports and detects.
\<close>

section \<open>Disclosure scopes\<close>

text \<open>
  What a grant's scopes admit. A source path is inside the scopes exactly when it is a
  canonical relative path of at most 512 bytes and a scope is the root, names that very file, or
  names a directory whose components are a prefix of the path's components; a sibling whose name
  only begins like the directory's is outside.
\<close>

theorem scope_semantics:
  "disclosure_scope_matches p scopes = Inr True \<longleftrightarrow>
     canonical_path p \<and> utf8_len p \<le> 512 \<and>
     (\<exists>s\<in>set scopes. ps_kind s = ROOT \<or> ps_kind s = FILE \<and> p = ps_path s \<or>
        ps_kind s = DIRECTORY \<and> prefix (split_on CHR ''/'' (ps_path s)) (split_on CHR ''/'' p))"
proof -
  have "scope_admits p s \<longleftrightarrow> ps_kind s = ROOT \<or> ps_kind s = FILE \<and> p = ps_path s \<or>
      ps_kind s = DIRECTORY \<and> prefix (split_on CHR ''/'' (ps_path s)) (split_on CHR ''/'' p)" for s
    using directory_prefix [of p "ps_path s"] by (cases "ps_kind s") (simp_all add: scope_admits_def)
  then show ?thesis
    by (auto simp: disclosure_scope_matches_def disc_canonical_path_eq_Inr list_ex_iff)
qed

lemma scope_key_inj: "scope_key s = scope_key t \<longleftrightarrow> s = t"
proof -
  have "kind_order k = kind_order l \<longleftrightarrow> k = l" for k l by (cases k; cases l) simp_all
  then show ?thesis by (cases s; cases t) (auto simp: scope_key_def)
qed

lemma sort_scopes_mset:
  assumes "mset ss = mset ts"
  shows "sort_key scope_key ss = sort_key scope_key ts"
proof (rule properties_for_sort_key)
  show "mset (sort_key scope_key ts) = mset ss" using assms by simp
  show "filter (\<lambda>x. scope_key k = scope_key x) (sort_key scope_key ts) = filter (\<lambda>x. scope_key k = scope_key x) ss" for k
  proof -
    have eq: "filter (\<lambda>x. scope_key k = scope_key x) xs = replicate (count (mset xs) k) k" for xs
      by (induction xs) (auto simp: scope_key_inj)
    show ?thesis unfolding eq using assms by simp
  qed
qed simp

text \<open>
  Scopes have one canonical order. A list of scopes that is accepted comes back as a
  permutation of itself, strictly ordered by kind and path, accepted again unchanged; and two
  requests that list the same scopes in different orders are recorded identically.
\<close>

theorem canonical_scopes:
  assumes "canonicalize_scopes ss = Inr ts"
  shows "mset ts = mset ss \<and> sorted (map scope_key ts) \<and> distinct (map scope_key ts) \<and>
    canonicalize_scopes ts = Inr ts \<and>
    (\<forall>us. mset us = mset ss \<longrightarrow> canonicalize_scopes us = Inr ts)"
proof -
  have ok: "ss \<noteq> []" "length ss \<le> max_scopes" "list_ex (\<lambda>s. ps_kind s = ROOT) ss \<longrightarrow> length ss = 1"
    "distinct ss" and ts: "ts = sort_key scope_key ss"
    using assms by (simp_all add: canonicalize_scopes_eq_Inr)
  have m: "mset ts = mset ss" using ts by simp
  have any: "canonicalize_scopes us = Inr ts" if "mset us = mset ss" for us
  proof -
    have "set us = set ss" "length us = length ss" using that by (metis mset_eq_setD, metis mset_eq_length)
    moreover have "distinct us" using that ok(4) by (metis mset_eq_imp_distinct_iff)
    ultimately show ?thesis
      unfolding canonicalize_scopes_eq_Inr ts using ok sort_scopes_mset [OF that] by (auto simp: list_ex_iff)
  qed
  have "distinct (map scope_key ts)"
    using ok(4) m mset_eq_imp_distinct_iff [OF m] by (auto simp: distinct_map inj_on_def scope_key_inj)
  with m any [OF m] any ts show ?thesis by simp
qed

theorem canonical_scopes_witness:
  "\<exists>ts. canonicalize_scopes [\<lparr>ps_kind = DIRECTORY, ps_path = ''src''\<rparr>, \<lparr>ps_kind = FILE, ps_path = ''b''\<rparr>] = Inr ts \<and>
     canonicalize_scopes [\<lparr>ps_kind = FILE, ps_path = ''b''\<rparr>, \<lparr>ps_kind = DIRECTORY, ps_path = ''src''\<rparr>] = Inr ts"
proof -
  let ?d = "\<lparr>ps_kind = DIRECTORY, ps_path = ''src''\<rparr>" and ?f = "\<lparr>ps_kind = FILE, ps_path = ''b''\<rparr>"
  have c: "canonicalize_scopes [?d, ?f] = Inr [?f, ?d]" by code_simp
  have "mset [?f, ?d] = mset [?d, ?f]" by simp
  with canonical_scopes [OF c] c show ?thesis by blast
qed

section \<open>Validation evidence\<close>

text \<open>
  Evidence is bound exactly. A validation result is accepted as evidence exactly when it
  names the validation run at hand and result, run and expectation agree on run, candidate,
  candidate revision, profile and profile revision, all of them well formed.
\<close>

theorem evidence_exact:
  "verify_evidence_binding res vrun expected = Inr () \<longleftrightarrow>
     vs_validation_run_id res = vr_validation_run_id vrun \<and>
     (vs_run_id res, vs_candidate_id res, vs_candidate_revision res, vs_profile_id res, vs_profile_revision res) =
       (vb_run_id expected, vb_candidate_id expected, vb_candidate_revision expected, vb_profile_id expected,
        vb_profile_revision expected) \<and>
     (vr_run_id vrun, vr_candidate_id vrun, vr_candidate_revision vrun, vr_profile_id vrun, vr_profile_revision vrun) =
       (vb_run_id expected, vb_candidate_id expected, vb_candidate_revision expected, vb_profile_id expected,
        vb_profile_revision expected) \<and>
     valid_identifier (vb_run_id expected) \<and> valid_identifier (vb_candidate_id expected) \<and>
     0 \<le> vb_candidate_revision expected \<and> valid_identifier (vb_profile_id expected) \<and>
     0 \<le> vb_profile_revision expected"
proof -
  have "verify_evidence_binding res vrun expected = Inr () \<longleftrightarrow>
      vs_validation_run_id res = vr_validation_run_id vrun \<and>
      result_binding res = Inr expected \<and> run_binding vrun = Inr expected"
    unfolding verify_evidence_binding_def
    by (cases "result_binding res"; cases "run_binding vrun") auto
  then show ?thesis
    unfolding result_binding_def run_binding_def make_validation_binding_eq_Inr by auto
qed

section \<open>Parsing mappings\<close>

definition validation_run_mapping :: "validation_run \<Rightarrow> pydict" where
  "validation_run_mapping r =
     [(''validation_run_id'', PStr (vr_validation_run_id r)), (''run_id'', PStr (vr_run_id r)),
      (''candidate_id'', PStr (vr_candidate_id r)), (''candidate_revision'', PInt (vr_candidate_revision r)),
      (''reference_profile_id'', PStr (vr_profile_id r)),
      (''reference_profile_revision'', PInt (vr_profile_revision r)), (''status'', PStr (vr_status r)),
      (''error'', opt_str (vr_error r))]"

lemma same_items:
  assumes "distinct (map fst data)" and "distinct (map fst xs)" and "set (map fst data) = set (map fst xs)"
    and "\<forall>(n, v)\<in>set xs. item data n = v"
  shows "set data = set xs"
proof -
  have "map_of data = map_of xs"
  proof
    fix n
    show "map_of data n = map_of xs n"
    proof (cases "map_of xs n")
      case None
      then have "n \<notin> set (map fst data)" using assms(3) by (simp add: map_of_eq_None_iff)
      then have "map_of data n = None" unfolding map_of_eq_None_iff by simp
      with None show ?thesis by simp
    next
      case (Some v)
      then have x: "(n, v) \<in> set xs" by (rule map_of_SomeD)
      then have "n \<in> set (map fst data)" using assms(3) by force
      then obtain u where u: "map_of data n = Some u" by (metis map_of_eq_None_iff not_None_eq set_map)
      with assms(4) x Some show ?thesis by (auto simp: item_def)
    qed
  qed
  then show ?thesis using assms(1,2) by (metis map_of_eq_Some_iff subsetI subset_antisym surj_pair)
qed

lemma item_of: "distinct (map fst data) \<Longrightarrow> (n, v) \<in> set data \<Longrightarrow> item data n = v"
  by (simp add: item_def)

lemma strict_parse:
  "rbind (strict_mapping data names) f = Inr r \<longleftrightarrow>
     set (map fst data) = set names \<and> f (map (\<lambda>n. (n, item data n)) names) = Inr r"
  by (auto simp: strict_mapping_eq_Inr)

text \<open>
  The mapping parser of validation runs is exact. It accepts a mapping and returns a
  record exactly when the mapping has the record's eight fields with the record's values and no
  others, and the record satisfies every check of its constructor; so reading back the mapping of
  a valid record gives the record itself.
\<close>

theorem validation_run_mapping_exact:
  assumes "distinct (map fst data)"
  shows "validation_run_from_mapping data = Inr r \<longleftrightarrow>
    set data = set (validation_run_mapping r) \<and>
    valid_identifier (vr_validation_run_id r) \<and> valid_identifier (vr_run_id r) \<and>
    valid_identifier (vr_candidate_id r) \<and> 0 \<le> vr_candidate_revision r \<and> valid_identifier (vr_profile_id r) \<and>
    0 \<le> vr_profile_revision r \<and> vr_status r \<in> set validation_run_statuses \<and>
    valid_error (vr_status r) (vr_error r)"
proof -
  let ?names = "map fst (validation_run_mapping r)"
  have names: "?names = [''validation_run_id'', ''run_id'', ''candidate_id'', ''candidate_revision'',
      ''reference_profile_id'', ''reference_profile_revision'', ''status'', ''error'']"
    by (simp add: validation_run_mapping_def)
  have parse: "validation_run_from_mapping data = Inr r \<longleftrightarrow> set (map fst data) = set ?names \<and>
      make_validation_run (item data ''validation_run_id'') (item data ''run_id'')
         (item data ''candidate_id'') (item data ''candidate_revision'') (item data ''reference_profile_id'')
         (item data ''reference_profile_revision'') (item data ''status'') (item data ''error'') = Inr r"
    unfolding validation_run_from_mapping_def strict_parse names by (simp only: item_map list.set insert_iff simp_thms)
  have same: "(\<forall>(n, v)\<in>set (validation_run_mapping r). item data n = v) \<and> set (map fst data) = set ?names \<longleftrightarrow>
      set data = set (validation_run_mapping r)" (is "?L \<longleftrightarrow> ?R")
  proof
    assume ?L
    moreover have "distinct ?names" unfolding names by simp
    ultimately show ?R using same_items [OF assms] by blast
  next
    assume r: ?R
    then have "set (map fst data) = set ?names" by (metis set_map)
    with r item_of [OF assms] show ?L by auto
  qed
  have fields: "(\<forall>(n, v)\<in>set (validation_run_mapping r). item data n = v) \<longleftrightarrow>
      item data ''validation_run_id'' = PStr (vr_validation_run_id r) \<and> item data ''run_id'' = PStr (vr_run_id r) \<and>
      item data ''candidate_id'' = PStr (vr_candidate_id r) \<and>
      item data ''candidate_revision'' = PInt (vr_candidate_revision r) \<and>
      item data ''reference_profile_id'' = PStr (vr_profile_id r) \<and>
      item data ''reference_profile_revision'' = PInt (vr_profile_revision r) \<and>
      item data ''status'' = PStr (vr_status r) \<and> item data ''error'' = opt_str (vr_error r)"
    by (simp only: validation_run_mapping_def list.set ball_simps prod.case simp_thms)
  show ?thesis
    unfolding parse make_validation_run_eq_Inr same [symmetric] fields by blast
qed

theorem validation_run_mapping_exact_witness:
  "validation_run_from_mapping (validation_run_mapping
     \<lparr>vr_validation_run_id = ''v1'', vr_run_id = ''r1'', vr_candidate_id = ''c1'', vr_candidate_revision = 0,
      vr_profile_id = ''p1'', vr_profile_revision = 0, vr_status = ''PENDING'', vr_error = None\<rparr>) =
   Inr \<lparr>vr_validation_run_id = ''v1'', vr_run_id = ''r1'', vr_candidate_id = ''c1'', vr_candidate_revision = 0,
      vr_profile_id = ''p1'', vr_profile_revision = 0, vr_status = ''PENDING'', vr_error = None\<rparr>"
proof -
  let ?r = "\<lparr>vr_validation_run_id = ''v1'', vr_run_id = ''r1'', vr_candidate_id = ''c1'', vr_candidate_revision = 0,
      vr_profile_id = ''p1'', vr_profile_revision = 0, vr_status = ''PENDING'', vr_error = None\<rparr>"
  have "distinct (map fst (validation_run_mapping ?r))" by (simp add: validation_run_mapping_def)
  from validation_run_mapping_exact [OF this, of ?r] show ?thesis
    by (simp add: valid_identifier_def strip_def is_space_def ord_def utf8_len_def validation_run_statuses_def valid_error_def)
qed

section \<open>The policy and the case of a path\<close>

lemma casefold_append: "casefold (s @ t) = casefold s @ casefold t"
  by (simp add: casefold_def)

lemma casefold_Cons: "casefold (c # s) = fold_char c @ casefold s"
  by (simp add: casefold_def)

definition plain :: "char \<Rightarrow> bool" where
  \<comment> \<open>A character that is not a letter: folding leaves it alone and makes it from nothing else.\<close>
  "plain d \<longleftrightarrow> (\<forall>c. d \<in> set (fold_char c) \<longrightarrow> c = d) \<and> fold_char d = [d]"

lemma plainI:
  assumes d: "ord d < 97" "ord d < 65 \<or> 90 < ord d"
  shows "plain d"
proof -
  have "c = d" if "d \<in> set (fold_char c)" for c
  proof (rule ccontr)
    assume "c \<noteq> d"
    with that consider "d = CHR ''s''" | "65 \<le> ord c" "ord c \<le> 222" "d = char_of (ord c + 32)"
      by (auto simp: fold_char_def Let_def split: if_splits)
    then show False
    proof cases
      case 2
      then have "ord d = ord c + 32" by (simp add: ord_def)
      with 2 d show False by simp
    qed (use d in \<open>simp add: ord_def\<close>)
  qed
  moreover have "fold_char d = [d]" using d by (auto simp: fold_char_def Let_def)
  ultimately show ?thesis by (auto simp: plain_def)
qed

lemma plain_punctuation: "plain CHR ''/''" "plain CHR 0x5C" "plain CHR 0x00" "plain CHR '':''" "plain CHR ''.''"
  by (rule plainI; simp add: ord_def)+

lemma plain_casefold: "plain d \<Longrightarrow> d \<in> set (casefold s) \<longleftrightarrow> d \<in> set s"
  by (auto simp: casefold_def plain_def intro!: bexI [of _ d])

lemma casefold_Nil_iff [simp]: "casefold s = [] \<longleftrightarrow> s = []"
proof -
  have "fold_char c \<noteq> []" for c by (simp add: fold_char_def Let_def)
  then show ?thesis by (cases s) (auto simp: casefold_Cons casefold_def)
qed

lemma split_casefold:
  assumes "plain d"
  shows "split_on d (casefold s) = map casefold (split_on d s)"
proof (induction s)
  case (Cons c s)
  obtain q qs where q: "split_on d s = q # qs" by (cases "split_on d s") auto
  show ?case
  proof (cases "c = d")
    case True
    with assms Cons show ?thesis by (simp add: casefold_Cons plain_def casefold_def [of "[]"])
  next
    case False
    then have free: "d \<notin> set (fold_char c)" using assms by (auto simp: plain_def)
    have "split_on d (x @ t) = (x @ hd (split_on d t)) # tl (split_on d t)" if "d \<notin> set x" for x t
      using that by (induction x) (auto split: list.splits)
    from this [OF free, of "casefold s"] False q Cons show ?thesis by (simp add: casefold_Cons)
  qed
qed (simp add: casefold_def)

lemma bad_segment_casefold [simp]: "bad_segment (casefold p) \<longleftrightarrow> bad_segment p"
proof -
  have dots: "casefold q = ds \<longleftrightarrow> q = ds" if "set ds \<subseteq> {CHR ''.''}" for q ds
    using that
  proof (induction q arbitrary: ds)
    case (Cons c q)
    show ?case
    proof
      assume e: "casefold (c # q) = ds"
      have "fold_char c \<noteq> []" by (simp add: fold_char_def Let_def)
      then obtain x xs where x: "fold_char c = x # xs" by (cases "fold_char c") auto
      with e Cons.prems have "x = CHR ''.''" by (auto simp: casefold_Cons)
      with x have "CHR ''.'' \<in> set (fold_char c)" by simp
      then have c: "c = CHR ''.''" using plain_punctuation(5) unfolding plain_def by blast
      then have "fold_char c = [CHR ''.'']" using plain_punctuation(5) by (simp add: plain_def)
      with e c obtain ds' where "ds = CHR ''.'' # ds'" "casefold q = ds'" by (auto simp: casefold_Cons)
      with Cons.IH [of ds'] Cons.prems c show "c # q = ds" by simp
    next
      assume "c # q = ds"
      with Cons.prems Cons.IH [of q] plain_punctuation(5) show "casefold (c # q) = ds"
        by (auto simp: casefold_Cons plain_def)
    qed
  qed (auto simp: casefold_def)
  show ?thesis using dots [of "''.''" p] dots [of "''..''" p] by (auto simp: bad_segment_def)
qed

lemma canonical_relative_casefold:
  "canonical_relative_path (casefold p) = map_option (map casefold) (canonical_relative_path p)"
proof -
  have parts: "posix_parts (casefold p) = map casefold (posix_parts p)"
    if "\<not> list_ex bad_segment (split_on CHR ''/'' p)"
  proof -
    have "\<not> list_ex bad_segment (map casefold (split_on CHR ''/'' p))"
      using that by (simp add: list_ex_iff)
    from filter_parts_id [OF this] filter_parts_id [OF that] show ?thesis
      unfolding posix_parts_def split_casefold [OF plain_punctuation(1)] by simp
  qed
  have "startswith (casefold p) ''/'' \<longleftrightarrow> startswith p ''/''"
  proof (cases p)
    case (Cons c q)
    then show ?thesis using plain_punctuation(1)
      by (auto simp: startswith_def casefold_Cons fold_char_def Let_def plain_def)
  qed (simp add: casefold_def)
  then show ?thesis
    unfolding canonical_relative_path_def Let_def
    using parts by (simp add: plain_casefold plain_punctuation split_casefold list_ex_iff)
qed

lemma folded_verdicts:
  assumes "map casefold ps = map casefold qs" and "ps \<noteq> []"
  shows "is_sensitive ps = is_sensitive qs" and "is_protected ps = is_protected qs"
    and "length ps = length qs" and "casefold (hd ps) = casefold (hd qs)"
proof -
  have "is_sensitive xs \<longleftrightarrow> list_ex (\<lambda>x. x \<in> set (map casefold sensitive_names) \<or> startswith x ''.env.'' \<or>
      list_ex (endswith x) sensitive_suffixes) (map casefold xs)" for xs
    by (simp add: is_sensitive_def list_ex_iff)
  with assms(1) show "is_sensitive ps = is_sensitive qs" by simp
  show "length ps = length qs" using assms(1) by (metis length_map)
  have ends: "casefold (hd ps) = casefold (hd qs)" "casefold (last ps) = casefold (last qs)"
    using assms by (metis list.map_sel(1) list.map_disc_iff, metis last_map list.map_disc_iff)
  then show "casefold (hd ps) = casefold (hd qs)" "is_protected ps = is_protected qs"
    by (simp_all add: is_protected_def)
qed

text \<open>
  The policy cannot be evaded by the case of a path. If the policy denies an action on a
  path that is inside the workspace, it denies the same action on every other spelling of the path
  with the same case folding, whatever that spelling resolves to.
\<close>

theorem policy_case_insensitive:
  assumes "policy_evaluate resolve req = DENY" and "canonical_relative_path (ar_path req) = Some parts"
    and "confined resolve (ar_workspace req) parts" and "casefold other = casefold (ar_path req)"
  shows "policy_evaluate resolve (req\<lparr>ar_path := other\<rparr>) = DENY"
proof (cases "canonical_relative_path other")
  case None
  then show ?thesis by (simp add: policy_evaluate_def)
next
  case (Some qs)
  have "map casefold qs = map casefold parts"
    using canonical_relative_casefold [of other] canonical_relative_casefold [of "ar_path req"] assms(2,4) Some by simp
  from folded_verdicts [OF this] canonical_relative_path_Some(4) [OF Some] assms Some show ?thesis
    by (auto simp: policy_evaluate_def split: if_splits)
qed

theorem policy_case_insensitive_witness:
  "policy_evaluate Some \<lparr>ar_action_type = ''REPLACE'', ar_path = ''Tests/A.py'', ar_workspace = [''ws'']\<rparr> = DENY"
proof -
  let ?req = "\<lparr>ar_action_type = ''REPLACE'', ar_path = ''tests/a.py'', ar_workspace = [''ws'']\<rparr>"
  have "policy_evaluate Some ?req = DENY" "canonical_relative_path (ar_path ?req) = Some [''tests'', ''a.py'']"
    "confined Some (ar_workspace ?req) [''tests'', ''a.py'']" "casefold ''Tests/A.py'' = casefold (ar_path ?req)"
    by code_simp+
  from policy_case_insensitive [OF this] show ?thesis by simp
qed

section \<open>The secret scanner\<close>

text \<open>
  The scanner reports a category and never the secret. Whatever the text, the marker is
  one of a fixed list of labels: an assignment spelling, the bearer label, a PEM header or the
  provider-token label.
\<close>

lemma scanner_vocabulary:
  "find_secret_marker s \<in> {None, Some ''bearer-token'', Some ''provider-token''} \<union>
     (\<lambda>w. Some (w @ ''='')) ` set assignment_words \<union> Some ` set pem_private_key_markers"
  by (auto simp: find_secret_marker_def Let_def find_Some_iff dest: assignment_search_SomeD split: option.splits)

text \<open>
  The scanner finds assignments in any case and layout. A text whose case folding holds,
  at a word boundary, one of the assignment words followed by any white space and an equals sign or
  a colon is refused as secret-like, wherever the assignment stands.
\<close>

theorem scanner_detects_assignment:
  assumes "casefold s = u @ w @ ws @ c # v" and "w \<in> set assignment_words" and "list_all is_space ws"
    and "c = CHR ''='' \<or> c = CHR '':''" and "u = [] \<or> \<not> is_word (last u)"
  shows "contains_secret_like_content s"
proof -
  have w: "w \<noteq> [] \<and> is_word (hd w)"
    using assms(2) by (auto simp: assignment_words_def is_word_def ord_def)
  then have "hd (w @ ws @ c # v) = hd w" by simp
  with assms(5) w have "word_boundary (if u = [] then None else Some (last u)) (hd (w @ ws @ c # v))"
    by (auto simp: word_boundary_def)
  then have "assignment_search None (casefold s) \<noteq> None"
    unfolding assms(1) using assignment_search_hit [OF assignment_at_hit [OF assms(2,3,4), of v]] by simp
  moreover have "s \<noteq> []" using assms(1) by (auto simp: casefold_def)
  ultimately show ?thesis
    by (auto simp: contains_secret_like_content_def find_secret_marker_def Let_def split: option.splits)
qed

theorem scanner_detects_assignment_witness: "contains_secret_like_content ''my API_KEY  = 42''"
proof (rule scanner_detects_assignment)
  show "casefold ''my API_KEY  = 42'' = ''my '' @ ''api_key'' @ ''  '' @ CHR ''='' # '' 42''" by code_simp
  show "''api_key'' \<in> set assignment_words" "list_all is_space ''  ''" by code_simp+
  show "''my '' = [] \<or> \<not> is_word (last ''my '')" by code_simp
qed simp

section \<open>Provider names\<close>

text \<open>
  The provider-name pattern accepts a name with one newline at its end: the pattern ends
  in a dollar sign and is used with \<open>match\<close>, which also matches just before a final newline. So
  an accepted name need not be a short identifier.
\<close>

theorem provider_name_newline:
  assumes "provider_name_body s"
  shows "provider_name (PStr (s @ [CHR 0x0A])) = Inr (s @ [CHR 0x0A])"
  using assms by (simp add: provider_name_matches_def)

theorem provider_name_newline_witness: "provider_name (PStr (''acme'' @ [CHR 0x0A])) = Inr (''acme'' @ [CHR 0x0A])"
proof (rule provider_name_newline)
  show "provider_name_body ''acme''" by code_simp
qed

end
