(* ===== verification/Execution_Records.thy ===== *)
theory Execution_Records
  imports Validation_Contract
begin

text \<open>
  The execution contracts: the isolation profile \<open>execution/v2_profile.py\<close> and the request,
  result, readiness, outcome and binding records of \<open>execution/v2_execution.py\<close>. As in
  the other contract theories a record class is a HOL record and its constructor (the checks of
  \<open>__post_init__\<close>, in their order) is the \<open>make_\<close> function.

  Executor output is a list of code points, so that the sanitising of control characters is
  exact on all of Unicode; identifiers and tokens are strings.
\<close>

section \<open>Opaque identifiers and tokens\<close>

definition is_hex_digit :: "char \<Rightarrow> bool" where
  "is_hex_digit c \<longleftrightarrow>
     (let n = ord c in 48 \<le> n \<and> n \<le> 57 \<or> 97 \<le> n \<and> n \<le> 102 \<or> 65 \<le> n \<and> n \<le> 70)"

definition is_digest_shaped :: "string \<Rightarrow> bool" where
  "is_digest_shaped s \<longleftrightarrow> length s = 64 \<and> list_all is_hex_digit s"

definition opaque_identifier :: "pyval \<Rightarrow> string \<Rightarrow> py_error + string" where
  "opaque_identifier v field_name =
     rbind (p_identifier v field_name) (\<lambda>s.
       if is_digest_shaped s
         then Inl (ValueError (field_name @ '' must not be a digest-shaped value; v2 references are opaque, not content digests''))
       else Inr s)"

definition is_alnum_ascii :: "char \<Rightarrow> bool" where
  "is_alnum_ascii c \<longleftrightarrow>
     (let n = ord c in 48 \<le> n \<and> n \<le> 57 \<or> 65 \<le> n \<and> n \<le> 90 \<or> 97 \<le> n \<and> n \<le> 122)"

definition token_char :: "char \<Rightarrow> bool" where
  "token_char c \<longleftrightarrow> is_alnum_ascii c \<or> c \<in> set ''._-''"

definition token_shaped :: "string \<Rightarrow> bool" where
  \<comment> \<open>\<open>^[A-Za-z0-9][A-Za-z0-9._-]{0,63}$\<close>, matched with \<open>fullmatch\<close>.\<close>
  "token_shaped s \<longleftrightarrow>
     (case s of [] \<Rightarrow> False
      | c # cs \<Rightarrow> is_alnum_ascii c \<and> length cs \<le> 63 \<and> list_all token_char cs)"

definition image_reference :: "pyval \<Rightarrow> py_error + string" where
  "image_reference v =
     (case v of
        PStr s \<Rightarrow>
          if strip s = [] then Inl (ValueError ''image_reference must be a non-empty string'')
          else if is_digest_shaped s
            then Inl (ValueError ''image_reference must not be a digest-shaped value; v2 image references are opaque, not content digests'')
          else if \<not> token_shaped s
            then Inl (ValueError ''image_reference must be an opaque local image token: no URL, registry, repository, tag, or digest spelling is accepted'')
          else Inr s
      | _ \<Rightarrow> Inl (ValueError ''image_reference must be a non-empty string''))"

definition is_digit :: "char \<Rightarrow> bool" where
  "is_digit c \<longleftrightarrow> 48 \<le> ord c \<and> ord c \<le> 57"

definition positive_id :: "string \<Rightarrow> bool" where
  \<comment> \<open>\<open>[1-9][0-9]{0,9}\<close>\<close>
  "positive_id s \<longleftrightarrow>
     (case s of [] \<Rightarrow> False
      | c # cs \<Rightarrow> is_digit c \<and> c \<noteq> CHR ''0'' \<and> length cs \<le> 9 \<and> list_all is_digit cs)"

definition user_shaped :: "string \<Rightarrow> bool" where
  \<comment> \<open>\<open>^[1-9][0-9]{0,9}:[1-9][0-9]{0,9}$\<close>, matched with \<open>fullmatch\<close>.\<close>
  "user_shaped s \<longleftrightarrow>
     (case split_on CHR '':'' s of [u, g] \<Rightarrow> positive_id u \<and> positive_id g | _ \<Rightarrow> False)"

definition non_root_user :: "pyval \<Rightarrow> py_error + string" where
  "non_root_user v =
     (case v of
        PStr s \<Rightarrow> if user_shaped s then Inr s
          else Inl (ValueError ''non_root_user must be a uid:gid pair of decimal ids with both ids >= 1 (the v2 execution user is never root)'')
      | _ \<Rightarrow> Inl (ValueError ''non_root_user must be a uid:gid pair of decimal ids with both ids >= 1 (the v2 execution user is never root)''))"

definition strict_bool :: "pyval \<Rightarrow> string \<Rightarrow> py_error + bool" where
  "strict_bool v field_name =
     (case v of PBool b \<Rightarrow> Inr b | _ \<Rightarrow> Inl (ValueError (field_name @ '' must be a boolean'')))"

definition max_timeout_seconds :: int where
  "max_timeout_seconds = 600"

definition max_profile_output_bytes :: int where
  "max_profile_output_bytes = 4 * 1024 * 1024"

definition timeout_seconds :: "pyval \<Rightarrow> py_error + int" where
  "timeout_seconds v =
     (case v of
        PInt n \<Rightarrow> if 1 \<le> n \<and> n \<le> max_timeout_seconds then Inr n
          else Inl (ValueError ''timeout_seconds must be between 1 and 600 seconds'')
      | _ \<Rightarrow> Inl (ValueError ''timeout_seconds must be an integer number of seconds''))"

definition max_output_bytes :: "pyval \<Rightarrow> py_error + int" where
  "max_output_bytes v =
     (case v of
        PInt n \<Rightarrow> if 1 \<le> n \<and> n \<le> max_profile_output_bytes then Inr n
          else Inl (ValueError ''max_output_bytes must be between 1 and 4194304 bytes'')
      | _ \<Rightarrow> Inl (ValueError ''max_output_bytes must be an integer number of bytes''))"

section \<open>The execution profile\<close>

record execution_profile =
  ep_id :: string
  ep_revision :: int
  ep_reference_id :: string
  ep_reference_revision :: int
  ep_image :: string
  ep_network_disabled :: bool
  ep_user :: string
  ep_read_only_rootfs :: bool
  ep_capabilities_dropped :: bool
  ep_socket_mounted :: bool
  ep_workspace_read_only :: bool
  ep_timeout :: int
  ep_max_output :: int

definition make_execution_profile ::
  "pyval \<Rightarrow> pyval \<Rightarrow> pyval \<Rightarrow> pyval \<Rightarrow> pyval \<Rightarrow> pyval \<Rightarrow> pyval \<Rightarrow> pyval \<Rightarrow> pyval \<Rightarrow> pyval \<Rightarrow> pyval \<Rightarrow> pyval \<Rightarrow> pyval
     \<Rightarrow> py_error + execution_profile" where
  "make_execution_profile eid erv pid prv img net usr rofs caps sock wsro tmo cap =
     rbind (opaque_identifier eid ''execution_profile_id'') (\<lambda>e.
     rbind (p_revision erv ''execution_profile_revision'') (\<lambda>er.
     rbind (opaque_identifier pid ''reference_profile_id'') (\<lambda>p.
     rbind (p_revision prv ''reference_profile_revision'') (\<lambda>pr.
     rbind (image_reference img) (\<lambda>i.
     rbind (strict_bool net ''network_disabled'') (\<lambda>n.
     rbind (non_root_user usr) (\<lambda>u.
     rbind (strict_bool rofs ''read_only_rootfs'') (\<lambda>ro.
     rbind (strict_bool caps ''all_capabilities_dropped'') (\<lambda>c.
     rbind (strict_bool sock ''docker_socket_mounted'') (\<lambda>s.
     rbind (strict_bool wsro ''workspace_mount_read_only'') (\<lambda>w.
     rbind (timeout_seconds tmo) (\<lambda>t.
     rbind (max_output_bytes cap) (\<lambda>m.
     rbind (check n (ValueError ''network_disabled must be True; a v2 execution profile declares its container network disabled'')) (\<lambda>_.
     rbind (check ro (ValueError ''read_only_rootfs must be True; a v2 execution profile declares a read-only container root filesystem'')) (\<lambda>_.
     rbind (check c (ValueError ''all_capabilities_dropped must be True; a v2 execution profile drops every Linux capability'')) (\<lambda>_.
     rbind (check (\<not> s) (ValueError ''docker_socket_mounted must be False; the host docker socket is never mounted into a v2 execution'')) (\<lambda>_.
     rbind (check w (ValueError ''workspace_mount_read_only must be True; the workspace bind of a v2 execution is always read-only'')) (\<lambda>_.
       Inr \<lparr>ep_id = e, ep_revision = er, ep_reference_id = p, ep_reference_revision = pr, ep_image = i,
            ep_network_disabled = n, ep_user = u, ep_read_only_rootfs = ro, ep_capabilities_dropped = c,
            ep_socket_mounted = s, ep_workspace_read_only = w, ep_timeout = t, ep_max_output = m\<rparr>))))))))))))))))))"

definition execution_profile_fields :: "string list" where
  "execution_profile_fields =
     [''execution_profile_id'', ''execution_profile_revision'', ''reference_profile_id'',
      ''reference_profile_revision'', ''image_reference'', ''network_disabled'', ''non_root_user'',
      ''read_only_rootfs'', ''all_capabilities_dropped'', ''docker_socket_mounted'',
      ''workspace_mount_read_only'', ''timeout_seconds'', ''max_output_bytes'']"

definition execution_profile_from_mapping :: "pydict \<Rightarrow> py_error + execution_profile" where
  "execution_profile_from_mapping data =
     rbind (strict_mapping data execution_profile_fields) (\<lambda>vs.
       make_execution_profile (item vs ''execution_profile_id'') (item vs ''execution_profile_revision'')
         (item vs ''reference_profile_id'') (item vs ''reference_profile_revision'')
         (item vs ''image_reference'') (item vs ''network_disabled'') (item vs ''non_root_user'')
         (item vs ''read_only_rootfs'') (item vs ''all_capabilities_dropped'')
         (item vs ''docker_socket_mounted'') (item vs ''workspace_mount_read_only'')
         (item vs ''timeout_seconds'') (item vs ''max_output_bytes''))"

section \<open>The request\<close>

definition action_kinds :: "string list" where
  "action_kinds = [''VALIDATE_CANDIDATE'']"

definition action_grammars :: "(string \<times> (string \<times> nat)) list" where
  "action_grammars = [(''VALIDATE_CANDIDATE'', (''vespercode-validate'', 2))]"

definition action_kind :: "pyval \<Rightarrow> py_error + string" where
  "action_kind v =
     (case v of
        PStr s \<Rightarrow> if s \<in> set action_kinds then Inr s
          else Inl (ValueError ''action_kind must be one of ['VALIDATE_CANDIDATE']; the v2 execution action vocabulary is closed'')
      | _ \<Rightarrow> Inl (ValueError ''action_kind must be one of ['VALIDATE_CANDIDATE']; the v2 execution action vocabulary is closed''))"

definition candidate_identifier :: "pyval \<Rightarrow> py_error + string" where
  "candidate_identifier v =
     rbind (opaque_identifier v ''candidate_id'') (\<lambda>s.
       if token_shaped s then Inr s
       else Inl (ValueError ''candidate_id must be an argv-token-conformant opaque identifier: the closed grammar projects it into the adapter-facing argv''))"

definition argv_token :: "string \<Rightarrow> py_error + string" where
  "argv_token s =
     (if is_digest_shaped s
        then Inl (ValueError ''argv arguments must not be digest-shaped values; v2 references are opaque, not content digests'')
      else if \<not> token_shaped s
        then Inl (ValueError ''argv arguments must be bounded opaque tokens: paths, URLs, options, whitespace, and control characters are not accepted'')
      else Inr s)"

text \<open>What a caller may pass as \<open>argv\<close>: a string, a list or tuple, or any other value.\<close>

datatype argv_value = ArgvString string | ArgvSequence "pyval list" | ArgvOther

definition argv_entry :: "pyval \<Rightarrow> py_error + string" where
  "argv_entry v = (case v of PStr s \<Rightarrow> Inr s | _ \<Rightarrow> Inl (ValueError ''argv entries must be strings''))"

definition validated_argv :: "string \<Rightarrow> string \<Rightarrow> int \<Rightarrow> argv_value \<Rightarrow> py_error + string list" where
  "validated_argv kind candidate_id candidate_revision v =
     (case v of
        ArgvString _ \<Rightarrow>
          Inl (ValueError ''argv must be a sequence of argument tokens, never a shell command string'')
      | ArgvOther \<Rightarrow> Inl (ValueError ''argv must be a sequence of argument tokens'')
      | ArgvSequence vs \<Rightarrow>
          rbind (rmap argv_entry vs) (\<lambda>tokens.
            case tokens of
              [] \<Rightarrow> Inl (ValueError ''argv must contain the frozen executable token'')
            | t # arguments \<Rightarrow>
                (case map_of action_grammars kind of
                   None \<Rightarrow> Inl (ValueError ''unknown action kind'')
                 | Some (executable, argument_count) \<Rightarrow>
                     if t \<noteq> executable
                       then Inl (ValueError (''argv[0] must be the frozen executable token of the action kind: '' @ executable))
                     else if length arguments \<noteq> argument_count
                       then Inl (ValueError (''action kind '' @ kind @ '' takes exactly '' @
                              str_nat argument_count @ '' argument(s) after the executable''))
                     else rbind (rmap argv_token arguments) (\<lambda>_.
                       if kind = ''VALIDATE_CANDIDATE'' then
                         (if arguments ! 0 \<noteq> candidate_id
                            then Inl (ValueError ''argv[1] must be exactly the request's bound candidate_id'')
                          else if arguments ! 1 \<noteq> str_nat (nat candidate_revision)
                            then Inl (ValueError ''argv[2] must be exactly the decimal spelling of the request's bound candidate_revision'')
                          else Inr tokens)
                       else Inr tokens))))"

record execution_request =
  er_request_id :: string
  er_profile_id :: string
  er_profile_revision :: int
  er_reference_id :: string
  er_reference_revision :: int
  er_run_id :: string
  er_candidate_id :: string
  er_candidate_revision :: int
  er_action_kind :: string
  er_argv :: "string list"
  er_validation_run_id :: "string option"

definition make_execution_request ::
  "pyval \<Rightarrow> pyval \<Rightarrow> pyval \<Rightarrow> pyval \<Rightarrow> pyval \<Rightarrow> pyval \<Rightarrow> pyval \<Rightarrow> pyval \<Rightarrow> pyval \<Rightarrow> argv_value \<Rightarrow> pyval
     \<Rightarrow> py_error + execution_request" where
  "make_execution_request rid eid erv pid prv run cid crv kind argv vid =
     rbind (opaque_identifier rid ''request_id'') (\<lambda>r.
     rbind (opaque_identifier eid ''execution_profile_id'') (\<lambda>e.
     rbind (p_revision erv ''execution_profile_revision'') (\<lambda>er.
     rbind (opaque_identifier pid ''reference_profile_id'') (\<lambda>p.
     rbind (p_revision prv ''reference_profile_revision'') (\<lambda>pr.
     rbind (opaque_identifier run ''run_id'') (\<lambda>rn.
     rbind (candidate_identifier cid) (\<lambda>c.
     rbind (p_revision crv ''candidate_revision'') (\<lambda>cr.
     rbind (action_kind kind) (\<lambda>k.
     rbind (validated_argv k c cr argv) (\<lambda>a.
     rbind (if vid = PNone then Inr None
            else rbind (opaque_identifier vid ''validation_run_id'') (\<lambda>v. Inr (Some v))) (\<lambda>v.
       Inr \<lparr>er_request_id = r, er_profile_id = e, er_profile_revision = er, er_reference_id = p,
            er_reference_revision = pr, er_run_id = rn, er_candidate_id = c, er_candidate_revision = cr,
            er_action_kind = k, er_argv = a, er_validation_run_id = v\<rparr>)))))))))))"

section \<open>Results, readiness and outcomes\<close>

definition result_statuses :: "string list" where
  "result_statuses = [''SUCCEEDED'', ''FAILED'', ''TIMED_OUT'']"

definition readiness_statuses :: "string list" where
  "readiness_statuses = [''READY'', ''NOT_READY'']"

definition readiness_reasons :: "string list" where
  "readiness_reasons = [''IMAGE_NOT_AVAILABLE'', ''DAEMON_UNAVAILABLE'', ''PROFILE_REVISION_UNKNOWN'']"

definition outcome_statuses :: "string list" where
  "outcome_statuses = [''SUCCEEDED'', ''FAILED'']"

definition outcome_error_codes :: "string list" where
  "outcome_error_codes =
     [''PROFILE_BINDING_MISMATCH'', ''EXECUTION_BINDING_NOT_FOUND'', ''EXECUTION_BINDING_STALE'',
      ''VALIDATION_BINDING_REQUIRED'', ''VALIDATION_BINDING_NOT_FOUND'', ''VALIDATION_BINDING_NOT_PASSED'',
      ''READINESS_IMAGE_NOT_AVAILABLE'', ''READINESS_DAEMON_UNAVAILABLE'',
      ''READINESS_PROFILE_REVISION_UNKNOWN'', ''EXECUTION_FAILED'', ''TIMED_OUT'']"

definition excerpt_max_chars :: nat where
  "excerpt_max_chars = 2048"

definition result_max_output_chars :: nat where
  "result_max_output_chars = 16 * 1024 * 1024"

definition execution_messages :: "(string \<times> string) list" where
  "execution_messages =
     [(''SUCCEEDED'', ''the execution completed''),
      (''PROFILE_BINDING_MISMATCH'', ''the request does not match the bound execution profile''),
      (''EXECUTION_BINDING_NOT_FOUND'', ''the run/candidate binding does not resolve in the control plane''),
      (''EXECUTION_BINDING_STALE'', ''the request cites a stale candidate revision''),
      (''VALIDATION_BINDING_REQUIRED'',
       ''the request cites no validation run; the production binding resolves only cited validations''),
      (''VALIDATION_BINDING_NOT_FOUND'',
       ''the cited validation run does not resolve as the passed validation of the current candidate under the request's reference profile''),
      (''VALIDATION_BINDING_NOT_PASSED'', ''the cited validation run is not a terminal PASSED validation''),
      (''READINESS_IMAGE_NOT_AVAILABLE'', ''the execution image is not available locally''),
      (''READINESS_DAEMON_UNAVAILABLE'', ''the execution daemon is not available''),
      (''READINESS_PROFILE_REVISION_UNKNOWN'',
       ''the execution profile revision is unknown to the readiness boundary''),
      (''EXECUTION_FAILED'', ''the execution failed; no retry is attempted''),
      (''TIMED_OUT'', ''the execution exceeded its bounded timeout'')]"

definition exit_code :: "pyval \<Rightarrow> py_error + int option" where
  "exit_code v =
     (case v of
        PNone \<Rightarrow> Inr None
      | PInt n \<Rightarrow> if 0 \<le> n \<and> n \<le> 255 then Inr (Some n)
          else Inl (ValueError ''exit_code must be None or an integer between 0 and 255'')
      | _ \<Rightarrow> Inl (ValueError ''exit_code must be None or an integer''))"

definition py_is_zero :: "pyval \<Rightarrow> bool" where
  \<comment> \<open>\<open>value == 0\<close>: \<open>False == 0\<close> holds in Python.\<close>
  "py_is_zero v \<longleftrightarrow> v = PInt 0 \<or> v = PBool False"

type_synonym output_text = "codepoint list"

definition kept_char :: "codepoint \<Rightarrow> bool" where
  "kept_char n \<longleftrightarrow> n = 10 \<or> n = 9 \<or> 32 \<le> n \<and> \<not> (127 \<le> n \<and> n \<le> 159)"

definition excerpt_is_clean :: "output_text \<Rightarrow> bool" where
  "excerpt_is_clean s \<longleftrightarrow> list_all kept_char s"

record execution_result =
  ex_status :: string
  ex_exit_code :: "int option"
  ex_output :: output_text

definition make_execution_result :: "string \<Rightarrow> pyval \<Rightarrow> output_text \<Rightarrow> py_error + execution_result" where
  "make_execution_result status code out =
     rbind (check (status \<in> set result_statuses) (ValueError ''status must be one of the allowed spellings'')) (\<lambda>_.
     rbind (check (length out \<le> result_max_output_chars) (ValueError ''output exceeds the bounded result size'')) (\<lambda>_.
     rbind (check (\<not> (status = ''SUCCEEDED'' \<and> \<not> py_is_zero code))
              (ValueError ''SUCCEEDED results must report exit code 0'')) (\<lambda>_.
     rbind (check (\<not> (status = ''FAILED'' \<and> py_is_zero code))
              (ValueError ''FAILED results must report a non-zero exit code or None'')) (\<lambda>_.
     rbind (check (\<not> (status = ''TIMED_OUT'' \<and> code \<noteq> PNone))
              (ValueError ''TIMED_OUT results carry no exit code'')) (\<lambda>_.
     rbind (exit_code code) (\<lambda>c.
       Inr \<lparr>ex_status = status, ex_exit_code = c, ex_output = out\<rparr>))))))"

record readiness_result =
  rd_status :: string
  rd_reason :: "string option"

definition make_readiness :: "string \<Rightarrow> string option \<Rightarrow> py_error + readiness_result" where
  "make_readiness status reason =
     rbind (check (status \<in> set readiness_statuses) (ValueError ''status must be one of the allowed spellings'')) (\<lambda>_.
       if status = ''READY'' then
         (if reason \<noteq> None then Inl (ValueError ''READY results carry no reason'')
          else Inr \<lparr>rd_status = status, rd_reason = reason\<rparr>)
       else if reason \<in> Some ` set readiness_reasons
         then Inr \<lparr>rd_status = status, rd_reason = reason\<rparr>
       else Inl (ValueError ''reason must be one of the allowed spellings''))"

record execution_outcome =
  eo_request_id :: string
  eo_status :: string
  eo_error_code :: "string option"
  eo_message :: string
  eo_exit_code :: "int option"
  eo_excerpt :: output_text

definition make_execution_outcome ::
  "string \<Rightarrow> string \<Rightarrow> string option \<Rightarrow> string \<Rightarrow> pyval \<Rightarrow> output_text \<Rightarrow> py_error + execution_outcome" where
  "make_execution_outcome rid status code msg exc excerpt =
     rbind (opaque_identifier (PStr rid) ''request_id'') (\<lambda>r.
     rbind (check (status \<in> set outcome_statuses) (ValueError ''status must be one of the allowed spellings'')) (\<lambda>_.
     rbind (if status = ''SUCCEEDED''
              then check (code = None) (ValueError ''SUCCEEDED outcomes carry no error code'')
            else check (code \<in> Some ` set outcome_error_codes)
              (ValueError ''error_code must be one of the allowed spellings'')) (\<lambda>_.
     rbind (check (Some msg = map_of execution_messages (if status = ''SUCCEEDED'' then ''SUCCEEDED'' else the code))
              (ValueError ''outcome message must be the closed static message of its status or error code'')) (\<lambda>_.
     rbind (exit_code exc) (\<lambda>c.
     rbind (check (length excerpt \<le> excerpt_max_chars) (ValueError ''output_excerpt exceeds 2048 characters'')) (\<lambda>_.
     rbind (check (excerpt_is_clean excerpt)
              (ValueError ''output_excerpt must not contain control characters other than newline and tab'')) (\<lambda>_.
       Inr \<lparr>eo_request_id = r, eo_status = status, eo_error_code = code, eo_message = msg,
            eo_exit_code = c, eo_excerpt = excerpt\<rparr>)))))))"

section \<open>Binding facts\<close>

record validation_facts =
  vf_validation_run_id :: string
  vf_run_id :: string
  vf_candidate_id :: string
  vf_candidate_revision :: int
  vf_reference_id :: string
  vf_reference_revision :: int
  vf_status :: string

record binding_facts =
  bf_run_id :: string
  bf_candidate_id :: string
  bf_candidate_revision :: int
  bf_validation :: "validation_facts option"

record binding_outcome =
  bo_kind :: string
  bo_facts :: "binding_facts option"

definition binding_kinds :: "string list" where
  "binding_kinds =
     [''RESOLVED'', ''BINDING_NOT_FOUND'', ''VALIDATION_REQUIRED'', ''VALIDATION_NOT_FOUND'',
      ''VALIDATION_NOT_PASSED'']"

definition make_validation_facts ::
  "string \<Rightarrow> string \<Rightarrow> string \<Rightarrow> int \<Rightarrow> string \<Rightarrow> int \<Rightarrow> string \<Rightarrow> py_error + validation_facts" where
  "make_validation_facts vid rid cid crv pid prv status =
     rbind (opaque_identifier (PStr vid) ''validation_run_id'') (\<lambda>v.
     rbind (opaque_identifier (PStr rid) ''run_id'') (\<lambda>r.
     rbind (candidate_identifier (PStr cid)) (\<lambda>c.
     rbind (p_revision (PInt crv) ''candidate_revision'') (\<lambda>cr.
     rbind (opaque_identifier (PStr pid) ''reference_profile_id'') (\<lambda>p.
     rbind (p_revision (PInt prv) ''reference_profile_revision'') (\<lambda>pr.
     rbind (p_status (PStr status) validation_run_statuses ''status'') (\<lambda>s.
       Inr \<lparr>vf_validation_run_id = v, vf_run_id = r, vf_candidate_id = c, vf_candidate_revision = cr,
            vf_reference_id = p, vf_reference_revision = pr, vf_status = s\<rparr>)))))))"

definition make_binding_facts ::
  "string \<Rightarrow> string \<Rightarrow> int \<Rightarrow> validation_facts option \<Rightarrow> py_error + binding_facts" where
  "make_binding_facts rid cid crv validation =
     rbind (opaque_identifier (PStr rid) ''run_id'') (\<lambda>r.
     rbind (candidate_identifier (PStr cid)) (\<lambda>c.
     rbind (p_revision (PInt crv) ''candidate_revision'') (\<lambda>cr.
       Inr \<lparr>bf_run_id = r, bf_candidate_id = c, bf_candidate_revision = cr, bf_validation = validation\<rparr>)))"

definition make_binding_outcome :: "string \<Rightarrow> binding_facts option \<Rightarrow> py_error + binding_outcome" where
  "make_binding_outcome kind facts =
     rbind (check (kind \<in> set binding_kinds)
              (ValueError ''kind must be one of the closed kinds; the binding outcome vocabulary is closed'')) (\<lambda>_.
     rbind (if kind = ''RESOLVED''
              then check (facts \<noteq> None) (ValueError ''a RESOLVED binding outcome must carry ExecutionBindingFactsV2'')
            else check (facts = None) (ValueError ''only a RESOLVED binding outcome carries facts'')) (\<lambda>_.
       Inr \<lparr>bo_kind = kind, bo_facts = facts\<rparr>))"

section \<open>What the constructors accept\<close>

definition opaque_id :: "string \<Rightarrow> bool" where
  "opaque_id s \<longleftrightarrow> valid_identifier s \<and> \<not> is_digest_shaped s"

lemma opaque_identifier_eq_Inr [simp]: "opaque_identifier v f = Inr s \<longleftrightarrow> v = PStr s \<and> opaque_id s"
  by (auto simp: opaque_identifier_def opaque_id_def)

lemma candidate_identifier_eq_Inr [simp]:
  "candidate_identifier v = Inr s \<longleftrightarrow> v = PStr s \<and> opaque_id s \<and> token_shaped s"
  by (auto simp: candidate_identifier_def)

lemma strict_bool_eq_Inr [simp]: "strict_bool v f = Inr b \<longleftrightarrow> v = PBool b"
  by (auto simp: strict_bool_def split: pyval.splits)

lemma timeout_seconds_eq_Inr [simp]:
  "timeout_seconds v = Inr n \<longleftrightarrow> v = PInt n \<and> 1 \<le> n \<and> n \<le> max_timeout_seconds"
  by (auto simp: timeout_seconds_def split: pyval.splits)

lemma max_output_bytes_eq_Inr [simp]:
  "max_output_bytes v = Inr n \<longleftrightarrow> v = PInt n \<and> 1 \<le> n \<and> n \<le> max_profile_output_bytes"
  by (auto simp: max_output_bytes_def split: pyval.splits)

lemma non_root_user_eq_Inr [simp]: "non_root_user v = Inr s \<longleftrightarrow> v = PStr s \<and> user_shaped s"
  by (auto simp: non_root_user_def split: pyval.splits)

lemma image_reference_eq_Inr [simp]:
  "image_reference v = Inr s \<longleftrightarrow> v = PStr s \<and> strip s \<noteq> [] \<and> \<not> is_digest_shaped s \<and> token_shaped s"
  by (auto simp: image_reference_def split: pyval.splits)

lemma exit_code_eq_Inr [simp]:
  "exit_code v = Inr c \<longleftrightarrow> (case c of None \<Rightarrow> v = PNone | Some n \<Rightarrow> v = PInt n \<and> 0 \<le> n \<and> n \<le> 255)"
  by (auto simp: exit_code_def split: pyval.splits option.splits)

lemma action_kind_eq_Inr [simp]: "action_kind v = Inr k \<longleftrightarrow> v = PStr k \<and> k = ''VALIDATE_CANDIDATE''"
  by (auto simp: action_kind_def action_kinds_def split: pyval.splits)

lemma argv_entry_eq_Inr [simp]: "argv_entry v = Inr s \<longleftrightarrow> v = PStr s"
  by (auto simp: argv_entry_def split: pyval.splits)

lemma argv_token_eq_Inr [simp]: "argv_token s = Inr t \<longleftrightarrow> t = s \<and> \<not> is_digest_shaped s \<and> token_shaped s"
  by (auto simp: argv_token_def)

lemma rmap_argv_entry [simp]: "rmap argv_entry vs = Inr ts \<longleftrightarrow> vs = map PStr ts"
proof (induction vs arbitrary: ts)
  case (Cons v vs)
  then show ?case by (cases ts) auto
qed auto

text \<open>The isolation that every constructed profile declares, and its bounds.\<close>

definition isolated :: "execution_profile \<Rightarrow> bool" where
  "isolated p \<longleftrightarrow> ep_network_disabled p \<and> ep_read_only_rootfs p \<and> ep_capabilities_dropped p \<and>
     \<not> ep_socket_mounted p \<and> ep_workspace_read_only p"

definition valid_profile :: "execution_profile \<Rightarrow> bool" where
  "valid_profile p \<longleftrightarrow> isolated p \<and> opaque_id (ep_id p) \<and> 0 \<le> ep_revision p \<and>
     opaque_id (ep_reference_id p) \<and> 0 \<le> ep_reference_revision p \<and>
     strip (ep_image p) \<noteq> [] \<and> \<not> is_digest_shaped (ep_image p) \<and> token_shaped (ep_image p) \<and>
     user_shaped (ep_user p) \<and> 1 \<le> ep_timeout p \<and> ep_timeout p \<le> max_timeout_seconds \<and>
     1 \<le> ep_max_output p \<and> ep_max_output p \<le> max_profile_output_bytes"

lemma make_execution_profile_eq_Inr [record_valid]:
  "make_execution_profile eid erv pid prv img net usr rofs caps sock wsro tmo cap = Inr p \<longleftrightarrow>
     eid = PStr (ep_id p) \<and> erv = PInt (ep_revision p) \<and> pid = PStr (ep_reference_id p) \<and>
     prv = PInt (ep_reference_revision p) \<and> img = PStr (ep_image p) \<and>
     net = PBool (ep_network_disabled p) \<and> usr = PStr (ep_user p) \<and>
     rofs = PBool (ep_read_only_rootfs p) \<and> caps = PBool (ep_capabilities_dropped p) \<and>
     sock = PBool (ep_socket_mounted p) \<and> wsro = PBool (ep_workspace_read_only p) \<and>
     tmo = PInt (ep_timeout p) \<and> cap = PInt (ep_max_output p) \<and> valid_profile p"
  by (cases p) (auto simp: make_execution_profile_def valid_profile_def isolated_def)

text \<open>The argument vector is a function of the control fields.\<close>

definition argv_of :: "string \<Rightarrow> int \<Rightarrow> string list" where
  "argv_of cid crv = [''vespercode-validate'', cid, str_nat (nat crv)]"

lemma grammar_validate [simp]:
  "map_of action_grammars ''VALIDATE_CANDIDATE'' = Some (''vespercode-validate'', 2)"
  by (simp add: action_grammars_def)

lemma validated_argv_tokens:
  assumes "validated_argv ''VALIDATE_CANDIDATE'' cid crv (ArgvSequence (map PStr (t # args))) = Inr ts"
  shows "t = ''vespercode-validate'' \<and> length args = 2 \<and> ts = t # args \<and>
    (\<exists>us. rmap argv_token args = Inr us) \<and> args ! 0 = cid \<and> args ! 1 = str_nat (nat crv)"
proof -
  have r: "rmap argv_entry (map PStr (t # args)) = Inr (t # args)" by (simp only: rmap_argv_entry)
  show ?thesis
    using assms unfolding validated_argv_def argv_value.case r rbind_Inr list.case grammar_validate
      option.case prod.case guard_eq_Inr rbind_eq_Inr
    by (simp only: refl if_True guard_eq_Inr not_not sum.inject) blast
qed

lemma validated_argv_eq_Inr:
  "validated_argv ''VALIDATE_CANDIDATE'' cid crv v = Inr ts \<longleftrightarrow>
     v = ArgvSequence (map PStr ts) \<and> ts = argv_of cid crv \<and>
     \<not> is_digest_shaped cid \<and> token_shaped cid \<and>
     \<not> is_digest_shaped (str_nat (nat crv)) \<and> token_shaped (str_nat (nat crv))"
    (is "?L = Inr ts \<longleftrightarrow> ?R")
proof
  assume ok: "?L = Inr ts"
  obtain vs toks where v: "v = ArgvSequence vs" and vs: "rmap argv_entry vs = Inr toks"
    using ok unfolding validated_argv_def by (cases v) (simp_all only: argv_value.case rbind_eq_Inr sum.distinct, blast)
  obtain t args where toks: "toks = t # args"
    using ok vs unfolding validated_argv_def v by (cases toks) simp_all
  have v': "v = ArgvSequence (map PStr (t # args))"
    using v vs toks by (simp only: rmap_argv_entry)
  note facts = validated_argv_tokens [OF ok [unfolded v']]
  from facts obtain a b where args: "args = [a, b]"
    by (auto simp: numeral_2_eq_2 length_Suc_conv)
  from facts show ?R unfolding v' by (simp add: args argv_of_def) blast
next
  assume ?R
  then show "?L = Inr ts" by (simp add: validated_argv_def argv_of_def)
qed

definition valid_request :: "execution_request \<Rightarrow> bool" where
  "valid_request r \<longleftrightarrow> opaque_id (er_request_id r) \<and> opaque_id (er_profile_id r) \<and>
     0 \<le> er_profile_revision r \<and> opaque_id (er_reference_id r) \<and> 0 \<le> er_reference_revision r \<and>
     opaque_id (er_run_id r) \<and> opaque_id (er_candidate_id r) \<and> token_shaped (er_candidate_id r) \<and>
     0 \<le> er_candidate_revision r \<and> er_action_kind r = ''VALIDATE_CANDIDATE'' \<and>
     er_argv r = argv_of (er_candidate_id r) (er_candidate_revision r) \<and>
     \<not> is_digest_shaped (str_nat (nat (er_candidate_revision r))) \<and>
     token_shaped (str_nat (nat (er_candidate_revision r))) \<and>
     (\<forall>v. er_validation_run_id r = Some v \<longrightarrow> opaque_id v)"

lemma make_execution_request_eq_Inr [record_valid]:
  "make_execution_request rid eid erv pid prv run cid crv kind argv vid = Inr r \<longleftrightarrow>
     rid = PStr (er_request_id r) \<and> eid = PStr (er_profile_id r) \<and> erv = PInt (er_profile_revision r) \<and>
     pid = PStr (er_reference_id r) \<and> prv = PInt (er_reference_revision r) \<and>
     run = PStr (er_run_id r) \<and> cid = PStr (er_candidate_id r) \<and> crv = PInt (er_candidate_revision r) \<and>
     kind = PStr (er_action_kind r) \<and> argv = ArgvSequence (map PStr (er_argv r)) \<and>
     vid = opt_str (er_validation_run_id r) \<and> valid_request r"
proof (cases r)
  case (fields r1 r2 r3 r4 r5 r6 r7 r8 r9 r10 r11)
  then show ?thesis
    by (cases r11)
      (auto simp: make_execution_request_def valid_request_def validated_argv_eq_Inr opaque_id_def)
qed

text \<open>Results, verdicts and outcomes that a constructor may have built.\<close>

definition valid_result :: "execution_result \<Rightarrow> bool" where
  "valid_result x \<longleftrightarrow> length (ex_output x) \<le> result_max_output_chars \<and>
     (ex_status x = ''SUCCEEDED'' \<and> ex_exit_code x = Some 0 \<or>
      ex_status x = ''FAILED'' \<and>
        (case ex_exit_code x of None \<Rightarrow> True | Some n \<Rightarrow> 1 \<le> n \<and> n \<le> 255) \<or>
      ex_status x = ''TIMED_OUT'' \<and> ex_exit_code x = None)"

definition opt_int :: "int option \<Rightarrow> pyval" where
  "opt_int v = (case v of None \<Rightarrow> PNone | Some n \<Rightarrow> PInt n)"

lemma opt_int_simps [simp]: "opt_int None = PNone" "opt_int (Some n) = PInt n"
  by (simp_all add: opt_int_def)

lemma exit_code_opt_int:
  "exit_code (opt_int c) = Inr d \<longleftrightarrow> d = c \<and> (case c of None \<Rightarrow> True | Some n \<Rightarrow> 0 \<le> n \<and> n \<le> 255)"
  by (cases c; cases d) auto

lemma valid_result_status: "valid_result x \<Longrightarrow> ex_status x \<in> set result_statuses"
  unfolding valid_result_def result_statuses_def by (elim conjE disjE) simp_all

lemma make_execution_result_eq_Inr [record_valid]:
  "make_execution_result st c out = Inr x \<longleftrightarrow>
     st = ex_status x \<and> c = opt_int (ex_exit_code x) \<and> out = ex_output x \<and> valid_result x"
proof (cases "st \<in> set result_statuses")
  case False
  then show ?thesis using valid_result_status by (auto simp: make_execution_result_def)
next
  case True
  obtain s e t where x: "x = \<lparr>ex_status = s, ex_exit_code = e, ex_output = t\<rparr>"
    by (cases x)
  from True consider "st = ''SUCCEEDED''" | "st = ''FAILED''" | "st = ''TIMED_OUT''"
    by (auto simp: result_statuses_def)
  then show ?thesis
  proof cases
    case 1
    then show ?thesis using True unfolding x make_execution_result_def valid_result_def
      by (cases "s = st"; cases e) (simp_all add: py_is_zero_def, auto)
  next
    case 2
    then show ?thesis using True unfolding x make_execution_result_def valid_result_def
      by (cases "s = st"; cases e) (simp_all add: py_is_zero_def, auto)
  next
    case 3
    then show ?thesis using True unfolding x make_execution_result_def valid_result_def
      by (cases "s = st"; cases e) (simp_all add: py_is_zero_def, auto)
  qed
qed

definition valid_readiness :: "readiness_result \<Rightarrow> bool" where
  "valid_readiness r \<longleftrightarrow> rd_status r = ''READY'' \<and> rd_reason r = None \<or>
     rd_status r = ''NOT_READY'' \<and> rd_reason r \<in> Some ` set readiness_reasons"

lemma make_readiness_eq_Inr [record_valid]:
  "make_readiness st rs = Inr r \<longleftrightarrow> st = rd_status r \<and> rs = rd_reason r \<and> valid_readiness r"
  by (cases r) (auto simp: make_readiness_def valid_readiness_def readiness_statuses_def)

definition outcome_key :: "execution_outcome \<Rightarrow> string" where
  "outcome_key x = (if eo_status x = ''SUCCEEDED'' then ''SUCCEEDED'' else the (eo_error_code x))"

definition valid_outcome :: "execution_outcome \<Rightarrow> bool" where
  "valid_outcome x \<longleftrightarrow> opaque_id (eo_request_id x) \<and>
     (eo_status x = ''SUCCEEDED'' \<and> eo_error_code x = None \<or>
      eo_status x = ''FAILED'' \<and> eo_error_code x \<in> Some ` set outcome_error_codes) \<and>
     map_of execution_messages (outcome_key x) = Some (eo_message x) \<and>
     (case eo_exit_code x of None \<Rightarrow> True | Some n \<Rightarrow> 0 \<le> n \<and> n \<le> 255) \<and>
     length (eo_excerpt x) \<le> excerpt_max_chars \<and> excerpt_is_clean (eo_excerpt x)"

lemma make_execution_outcome_eq_Inr [record_valid]:
  "make_execution_outcome rid st code msg ec t = Inr x \<longleftrightarrow>
     rid = eo_request_id x \<and> st = eo_status x \<and> code = eo_error_code x \<and> msg = eo_message x \<and>
     ec = opt_int (eo_exit_code x) \<and> t = eo_excerpt x \<and> valid_outcome x" (is "?L \<longleftrightarrow> ?R")
proof -
  obtain a b c d e f where x: "x = \<lparr>eo_request_id = a, eo_status = b, eo_error_code = c,
      eo_message = d, eo_exit_code = e, eo_excerpt = f\<rparr>"
    by (cases x)
  consider "st = ''SUCCEEDED''" | "st = ''FAILED''" | "st \<noteq> ''SUCCEEDED''" "st \<noteq> ''FAILED''" by blast
  then show ?thesis
  proof cases
    case 1
    have "?L \<longleftrightarrow> rid = a \<and> opaque_id rid \<and> b = st \<and> c = code \<and> code = None \<and>
        Some msg = map_of execution_messages ''SUCCEEDED'' \<and> d = msg \<and> exit_code ec = Inr e \<and>
        length t \<le> excerpt_max_chars \<and> excerpt_is_clean t \<and> f = t"
      by (auto simp add: make_execution_outcome_def outcome_statuses_def 1 x simp del: exit_code_eq_Inr)
    also have "\<dots> \<longleftrightarrow> ?R" 
      unfolding x valid_outcome_def outcome_key_def 1 by (cases e) (simp_all, metis+)
    finally show ?thesis .
  next
    case 2
    have "?L \<longleftrightarrow> rid = a \<and> opaque_id rid \<and> b = st \<and> c = code \<and> code \<in> Some ` set outcome_error_codes \<and>
        Some msg = map_of execution_messages (the code) \<and> d = msg \<and> exit_code ec = Inr e \<and>
        length t \<le> excerpt_max_chars \<and> excerpt_is_clean t \<and> f = t"
      by (auto simp add: make_execution_outcome_def outcome_statuses_def 2 x simp del: exit_code_eq_Inr)
    also have "\<dots> \<longleftrightarrow> ?R"
      unfolding x valid_outcome_def outcome_key_def 2 by (cases e) (simp_all, metis+)
    finally show ?thesis .
  next
    case 3
    then show ?thesis unfolding x make_execution_outcome_def valid_outcome_def
      by (simp add: outcome_statuses_def) blast
  qed
qed

lemma make_validation_facts_eq_Inr [record_valid]:
  "make_validation_facts vid rid cid crv pid prv st = Inr f \<longleftrightarrow>
     f = \<lparr>vf_validation_run_id = vid, vf_run_id = rid, vf_candidate_id = cid, vf_candidate_revision = crv,
          vf_reference_id = pid, vf_reference_revision = prv, vf_status = st\<rparr> \<and>
     opaque_id vid \<and> opaque_id rid \<and> opaque_id cid \<and> token_shaped cid \<and> 0 \<le> crv \<and> opaque_id pid \<and>
     0 \<le> prv \<and> st \<in> set validation_run_statuses"
  by (auto simp: make_validation_facts_def)

lemma make_binding_facts_eq_Inr [record_valid]:
  "make_binding_facts rid cid crv v = Inr f \<longleftrightarrow>
     f = \<lparr>bf_run_id = rid, bf_candidate_id = cid, bf_candidate_revision = crv, bf_validation = v\<rparr> \<and>
     opaque_id rid \<and> opaque_id cid \<and> token_shaped cid \<and> 0 \<le> crv"
  by (auto simp: make_binding_facts_def)

definition valid_binding_outcome :: "binding_outcome \<Rightarrow> bool" where
  "valid_binding_outcome b \<longleftrightarrow> bo_kind b \<in> set binding_kinds \<and> (bo_facts b \<noteq> None \<longleftrightarrow> bo_kind b = ''RESOLVED'')"

lemma make_binding_outcome_eq_Inr [record_valid]:
  "make_binding_outcome k f = Inr b \<longleftrightarrow> k = bo_kind b \<and> f = bo_facts b \<and> valid_binding_outcome b"
  by (cases b) (auto simp: make_binding_outcome_def valid_binding_outcome_def)

end
