(* ===== verification/Execution_Service.thy ===== *)
theory Execution_Service
  imports Execution_Records Database_Control
begin

text \<open>
  The execution service \<open>execution/v2_executor.py\<close>, its test-only subclass and fakes, and the
  production binding \<open>execution/v2_database_binding.py\<close>.

  The three injected edges (binding lookup, readiness probe, executor) are parameters over one
  world \<open>'w\<close>; a call of an edge raises, returns an object of a foreign class, or returns a
  record (\<open>reply\<close>). The laws a port owes its client, that a returned record was built by its
  constructor, are the locale \<open>execution_edges\<close>; the client's lemmas are proved there once
  and the locale is interpreted on the production edges in \<open>Docker_Executor\<close> and on the
  fakes here.
\<close>

section \<open>Ports\<close>

datatype 'a reply = Raises | Foreign | Returns 'a

datatype exec_error = ExecError py_error | ExecKeyError string | PortRaised

type_synonym 'w lookup_port =
  "string \<Rightarrow> string \<Rightarrow> string option \<Rightarrow> string \<Rightarrow> int \<Rightarrow> 'w \<Rightarrow> binding_outcome reply \<times> 'w"

type_synonym 'w readiness_port = "execution_profile \<Rightarrow> 'w \<Rightarrow> readiness_result reply \<times> 'w"

type_synonym 'w execution_port =
  "execution_request \<Rightarrow> execution_profile \<Rightarrow> 'w \<Rightarrow> execution_result reply \<times> 'w"

definition lift_exec :: "py_error + 'a \<Rightarrow> exec_error + 'a" where
  "lift_exec m = (case m of Inl e \<Rightarrow> Inl (ExecError e) | Inr x \<Rightarrow> Inr x)"

lemma lift_exec_eq_Inr [simp]: "lift_exec m = Inr x \<longleftrightarrow> m = Inr x"
  by (simp add: lift_exec_def split: sum.splits)

lemma lift_exec_Inr [simp]: "lift_exec (Inr x) = Inr x"
  by (simp add: lift_exec_def)

section \<open>Sanitising\<close>

fun sanitize_loop :: "output_text \<Rightarrow> output_text \<Rightarrow> output_text" where
  "sanitize_loop kept [] = kept"
| "sanitize_loop kept (c # cs) =
     (let kept' = (if kept_char c then kept @ [c] else kept)
      in if length kept' \<ge> excerpt_max_chars then kept' else sanitize_loop kept' cs)"

definition sanitize_output :: "output_text \<Rightarrow> output_text" where
  "sanitize_output out = sanitize_loop [] out"

section \<open>The service\<close>

definition rejected :: "execution_request \<Rightarrow> string \<Rightarrow> exec_error + execution_outcome" where
  "rejected request error_code =
     (case map_of execution_messages error_code of
        None \<Rightarrow> Inl (ExecKeyError error_code)
      | Some msg \<Rightarrow>
          lift_exec (make_execution_outcome (er_request_id request) ''FAILED'' (Some error_code) msg PNone []))"

definition facts_gate :: "execution_request \<Rightarrow> binding_facts \<Rightarrow> string option" where
  "facts_gate request facts =
     (if bf_run_id facts \<noteq> er_run_id request \<or> bf_candidate_id facts \<noteq> er_candidate_id request
        then Some ''EXECUTION_BINDING_NOT_FOUND''
      else if bf_candidate_revision facts \<noteq> er_candidate_revision request
        then Some ''EXECUTION_BINDING_STALE''
      else (case er_validation_run_id request of
          None \<Rightarrow> if bf_validation facts \<noteq> None then Some ''VALIDATION_BINDING_REQUIRED'' else None
        | Some vid \<Rightarrow>
            (case bf_validation facts of
               None \<Rightarrow> Some ''VALIDATION_BINDING_NOT_FOUND''
             | Some validation \<Rightarrow>
                 if vf_validation_run_id validation \<noteq> vid \<or> vf_run_id validation \<noteq> er_run_id request \<or>
                    vf_candidate_id validation \<noteq> er_candidate_id request \<or>
                    vf_candidate_revision validation \<noteq> er_candidate_revision request \<or>
                    vf_reference_id validation \<noteq> er_reference_id request \<or>
                    vf_reference_revision validation \<noteq> er_reference_revision request
                   then Some ''VALIDATION_BINDING_NOT_FOUND''
                 else if vf_status validation \<noteq> ''PASSED'' then Some ''VALIDATION_BINDING_NOT_PASSED''
                 else None)))"

definition binding_gate :: "execution_request \<Rightarrow> binding_outcome \<Rightarrow> exec_error + string option" where
  "binding_gate request binding =
     (if bo_kind binding = ''BINDING_NOT_FOUND'' then Inr (Some ''EXECUTION_BINDING_NOT_FOUND'')
      else if bo_kind binding = ''VALIDATION_REQUIRED'' then Inr (Some ''VALIDATION_BINDING_REQUIRED'')
      else if bo_kind binding = ''VALIDATION_NOT_FOUND'' then Inr (Some ''VALIDATION_BINDING_NOT_FOUND'')
      else if bo_kind binding = ''VALIDATION_NOT_PASSED'' then Inr (Some ''VALIDATION_BINDING_NOT_PASSED'')
      else (case bo_facts binding of
          None \<Rightarrow> Inl (ExecError (ValueError ''a RESOLVED binding outcome must carry ExecutionBindingFactsV2''))
        | Some facts \<Rightarrow> Inr (facts_gate request facts)))"

definition report_outcome :: "execution_request \<Rightarrow> execution_result reply \<Rightarrow> exec_error + execution_outcome" where
  "report_outcome request r =
     (case r of
        Raises \<Rightarrow> rejected request ''EXECUTION_FAILED''
      | Foreign \<Rightarrow> rejected request ''EXECUTION_FAILED''
      | Returns result \<Rightarrow>
          let excerpt = sanitize_output (ex_output result);
              msg = (\<lambda>k. the (map_of execution_messages k))
          in lift_exec
            (if ex_status result = ''TIMED_OUT'' then
               make_execution_outcome (er_request_id request) ''FAILED'' (Some ''TIMED_OUT'')
                 (msg ''TIMED_OUT'') PNone excerpt
             else if ex_status result = ''FAILED'' then
               make_execution_outcome (er_request_id request) ''FAILED'' (Some ''EXECUTION_FAILED'')
                 (msg ''EXECUTION_FAILED'') (opt_int (ex_exit_code result)) excerpt
             else
               make_execution_outcome (er_request_id request) ''SUCCEEDED'' None
                 (msg ''SUCCEEDED'') (opt_int (ex_exit_code result)) excerpt))"

definition execute :: "bool \<Rightarrow> execution_profile \<Rightarrow> 'w lookup_port \<Rightarrow> 'w readiness_port \<Rightarrow> 'w execution_port \<Rightarrow>
    execution_request \<Rightarrow> 'w \<Rightarrow> (exec_error + execution_outcome) \<times> 'w" where
  "execute requires_citation profile lookup check_ready run request w =
     (if er_profile_id request \<noteq> ep_id profile \<or> er_profile_revision request \<noteq> ep_revision profile
        then (rejected request ''PROFILE_BINDING_MISMATCH'', w)
      else if er_reference_id request \<noteq> ep_reference_id profile \<or>
          er_reference_revision request \<noteq> ep_reference_revision profile
        then (rejected request ''PROFILE_BINDING_MISMATCH'', w)
      else if requires_citation \<and> er_validation_run_id request = None
        then (rejected request ''VALIDATION_BINDING_REQUIRED'', w)
      else (case lookup (er_run_id request) (er_candidate_id request) (er_validation_run_id request)
                   (er_reference_id request) (er_reference_revision request) w of
          (Raises, w1) \<Rightarrow> (Inl PortRaised, w1)
        | (Foreign, w1) \<Rightarrow>
            (Inl (ExecError (ValueError ''the binding port must return an ExecutionBindingOutcomeV2'')), w1)
        | (Returns binding, w1) \<Rightarrow>
            (case binding_gate request binding of
               Inl e \<Rightarrow> (Inl e, w1)
             | Inr (Some error_code) \<Rightarrow> (rejected request error_code, w1)
             | Inr None \<Rightarrow>
                 (case check_ready profile w1 of
                    (Raises, w2) \<Rightarrow> (Inl PortRaised, w2)
                  | (Foreign, w2) \<Rightarrow>
                      (Inl (ExecError (ValueError ''the readiness port must return an ExecutionReadinessResultV2'')), w2)
                  | (Returns readiness, w2) \<Rightarrow>
                      if rd_status readiness \<noteq> ''READY''
                        then (rejected request (''READINESS_'' @
                                (case rd_reason readiness of None \<Rightarrow> ''None'' | Some reason \<Rightarrow> reason)), w2)
                      else (let (r, w3) = run request profile w2 in (report_outcome request r, w3))))))"

text \<open>\<open>V2ExecutionService\<close> requires a citation; \<open>V2ExecutionTestService\<close> does not.\<close>

definition production_execute :: "execution_profile \<Rightarrow> 'w lookup_port \<Rightarrow> 'w readiness_port \<Rightarrow> 'w execution_port \<Rightarrow>
    execution_request \<Rightarrow> 'w \<Rightarrow> (exec_error + execution_outcome) \<times> 'w" where
  "production_execute = execute True"

definition test_execute :: "execution_profile \<Rightarrow> 'w lookup_port \<Rightarrow> 'w readiness_port \<Rightarrow> 'w execution_port \<Rightarrow>
    execution_request \<Rightarrow> 'w \<Rightarrow> (exec_error + execution_outcome) \<times> 'w" where
  "test_execute = execute False"

section \<open>The database-backed binding\<close>

definition rejection :: "string \<Rightarrow> py_error + binding_outcome" where
  "rejection kind = make_binding_outcome kind None"

definition resolve_validation ::
  "string \<Rightarrow> string \<Rightarrow> string \<Rightarrow> string \<Rightarrow> int \<Rightarrow> candidate_control \<Rightarrow> database \<Rightarrow> py_error + binding_outcome" where
  "resolve_validation run_id candidate_id vid profile_id profile_revision control db =
     (case get_validation_run vid db of
        Inl _ \<Rightarrow> rejection ''VALIDATION_NOT_FOUND''
      | Inr None \<Rightarrow> rejection ''VALIDATION_NOT_FOUND''
      | Inr (Some validation) \<Rightarrow>
          if vr_run_id validation \<noteq> run_id \<or> vr_candidate_id validation \<noteq> candidate_id \<or>
             vr_candidate_revision validation \<noteq> cc_revision control \<or>
             vr_profile_id validation \<noteq> profile_id \<or> vr_profile_revision validation \<noteq> profile_revision
            then rejection ''VALIDATION_NOT_FOUND''
          else (case get_reference_profile (vr_profile_id validation) (vr_profile_revision validation) db of
              Inl _ \<Rightarrow> rejection ''VALIDATION_NOT_FOUND''
            | Inr None \<Rightarrow> rejection ''VALIDATION_NOT_FOUND''
            | Inr (Some _) \<Rightarrow>
                if vr_status validation \<noteq> ''PASSED'' then rejection ''VALIDATION_NOT_PASSED''
                else
                  rbind (make_validation_facts (vr_validation_run_id validation) (vr_run_id validation)
                      (vr_candidate_id validation) (vr_candidate_revision validation)
                      (vr_profile_id validation) (vr_profile_revision validation) (vr_status validation)) (\<lambda>vf.
                  rbind (make_binding_facts run_id candidate_id (cc_revision control) (Some vf)) (\<lambda>facts.
                    make_binding_outcome ''RESOLVED'' (Some facts)))))"

definition lookup_execution_binding ::
  "string \<Rightarrow> string \<Rightarrow> string option \<Rightarrow> string \<Rightarrow> int \<Rightarrow> database \<Rightarrow> py_error + binding_outcome" where
  "lookup_execution_binding run_id candidate_id validation_run_id profile_id profile_revision db =
     (case validation_run_id of
        None \<Rightarrow> rejection ''VALIDATION_REQUIRED''
      | Some vid \<Rightarrow>
          if get_run run_id db = None then rejection ''BINDING_NOT_FOUND''
          else (case get_candidate candidate_id db of
              None \<Rightarrow> rejection ''BINDING_NOT_FOUND''
            | Some row \<Rightarrow>
                (case make_candidate_control (PStr (cn_candidate_id row)) (PStr (cn_snapshot_id row))
                        (PInt (cn_revision row)) (PStr (cn_status row)) of
                   Inl _ \<Rightarrow> rejection ''BINDING_NOT_FOUND''
                 | Inr control \<Rightarrow>
                     if cn_run_id row \<noteq> run_id then rejection ''BINDING_NOT_FOUND''
                     else resolve_validation run_id candidate_id vid profile_id profile_revision control db)))"

definition reply_of :: "'e + 'a \<Rightarrow> 'a reply" where
  "reply_of m = (case m of Inl _ \<Rightarrow> Raises | Inr x \<Rightarrow> Returns x)"

section \<open>The fakes\<close>

record fake_world =
  fw_lookups :: "(string \<times> string \<times> string option \<times> string \<times> int) list"
  fw_checks :: "execution_profile list"
  fw_calls :: "(execution_request \<times> execution_profile) list"

record fake_lookup =
  fl_current_revision :: int
  fl_unresolved :: bool
  fl_facts :: "binding_facts option"
  fl_validation_required :: bool
  fl_validation_unresolved :: bool
  fl_validation_status :: string

definition default_lookup :: fake_lookup where
  "default_lookup = \<lparr>fl_current_revision = 3, fl_unresolved = False, fl_facts = None,
     fl_validation_required = False, fl_validation_unresolved = False, fl_validation_status = ''PASSED''\<rparr>"

definition fake_answer ::
  "fake_lookup \<Rightarrow> string \<Rightarrow> string \<Rightarrow> string option \<Rightarrow> string \<Rightarrow> int \<Rightarrow> py_error + binding_outcome" where
  "fake_answer f run_id candidate_id validation_run_id profile_id profile_revision =
     (if fl_unresolved f then make_binding_outcome ''BINDING_NOT_FOUND'' None
      else
        rbind (case fl_facts f of Some facts \<Rightarrow> Inr facts
               | None \<Rightarrow> make_binding_facts run_id candidate_id (fl_current_revision f) None) (\<lambda>facts.
        case validation_run_id of
          None \<Rightarrow> if fl_validation_required f then make_binding_outcome ''VALIDATION_REQUIRED'' None
                  else make_binding_outcome ''RESOLVED'' (Some facts)
        | Some vid \<Rightarrow>
            if fl_validation_unresolved f then make_binding_outcome ''VALIDATION_NOT_FOUND'' None
            else
              rbind (if fl_facts f \<noteq> None then Inr facts
                     else rbind (make_validation_facts vid run_id candidate_id (fl_current_revision f)
                                   profile_id profile_revision (fl_validation_status f)) (\<lambda>vf.
                          make_binding_facts run_id candidate_id (fl_current_revision f) (Some vf)))
                (\<lambda>facts'. make_binding_outcome ''RESOLVED'' (Some facts'))))"

definition fake_lookup_port :: "fake_lookup \<Rightarrow> fake_world lookup_port" where
  "fake_lookup_port f run_id candidate_id validation_run_id profile_id profile_revision w =
     (reply_of (fake_answer f run_id candidate_id validation_run_id profile_id profile_revision),
      w\<lparr>fw_lookups := fw_lookups w @
           [(run_id, candidate_id, validation_run_id, profile_id, profile_revision)]\<rparr>)"

definition fake_check :: "readiness_result option \<Rightarrow> fake_world readiness_port" where
  "fake_check result profile w =
     ((case result of None \<Rightarrow> reply_of (make_readiness ''READY'' None) | Some r \<Rightarrow> Returns r),
      w\<lparr>fw_checks := fw_checks w @ [profile]\<rparr>)"

definition fake_execution_output :: output_text where
  "fake_execution_output = map ord ''fake execution output''"

definition fake_run :: "execution_result option \<Rightarrow> bool \<Rightarrow> fake_world execution_port" where
  \<comment> \<open>\<open>raises\<close> says whether an error is scripted.\<close>
  "fake_run result raises request profile w =
     ((if raises then Raises
       else (case result of Some r \<Rightarrow> Returns r
             | None \<Rightarrow> reply_of (make_execution_result ''SUCCEEDED'' (PInt 0) fake_execution_output))),
      w\<lparr>fw_calls := fw_calls w @ [(request, profile)]\<rparr>)"

section \<open>Sanitised output\<close>

lemma sanitize_loop_take:
  "length kept < excerpt_max_chars \<Longrightarrow>
     sanitize_loop kept out = take excerpt_max_chars (kept @ filter kept_char out)"
proof (induction kept out rule: sanitize_loop.induct)
  case (2 kept c cs)
  then show ?case by (cases "length kept + 1 < excerpt_max_chars") (auto simp: Let_def take_Cons')
qed simp

lemma sanitize_output_take: "sanitize_output out = take excerpt_max_chars (filter kept_char out)"
  unfolding sanitize_output_def by (subst sanitize_loop_take) (simp_all add: excerpt_max_chars_def)

lemma sanitize_output_clean [simp]:
  "excerpt_is_clean (sanitize_output out)" "length (sanitize_output out) \<le> excerpt_max_chars"
  unfolding sanitize_output_take excerpt_is_clean_def list_all_iff by (auto dest: in_set_takeD)

section \<open>Rejections\<close>

definition message_of :: "string \<Rightarrow> string" where
  "message_of k = the (map_of execution_messages k)"

lemma closed_messages:
  "list_all (\<lambda>k. map_of execution_messages k \<noteq> None) (''SUCCEEDED'' # outcome_error_codes)"
  by (simp add: execution_messages_def outcome_error_codes_def)

lemma message_of_code: "k \<in> set outcome_error_codes \<Longrightarrow> map_of execution_messages k = Some (message_of k)"
  using closed_messages by (auto simp: message_of_def list_all_iff)

lemma message_of_success: "map_of execution_messages ''SUCCEEDED'' = Some (message_of ''SUCCEEDED'')"
  using closed_messages by (auto simp: message_of_def)

definition rejection_outcome :: "execution_request \<Rightarrow> string \<Rightarrow> execution_outcome" where
  "rejection_outcome request k = \<lparr>eo_request_id = er_request_id request, eo_status = ''FAILED'',
     eo_error_code = Some k, eo_message = message_of k, eo_exit_code = None, eo_excerpt = []\<rparr>"

lemma valid_rejection_outcome:
  "opaque_id (er_request_id request) \<Longrightarrow> k \<in> set outcome_error_codes \<Longrightarrow>
     valid_outcome (rejection_outcome request k)"
  by (simp add: valid_outcome_def rejection_outcome_def outcome_key_def message_of_code excerpt_is_clean_def)

lemma rejected_closed:
  "opaque_id (er_request_id request) \<Longrightarrow> k \<in> set outcome_error_codes \<Longrightarrow>
     rejected request k = Inr (rejection_outcome request k)"
  unfolding rejected_def message_of_code option.case lift_exec_eq_Inr make_execution_outcome_eq_Inr
  by (simp add: valid_rejection_outcome) (simp add: rejection_outcome_def)

section \<open>The gates\<close>

definition passed_facts :: "execution_request \<Rightarrow> string \<Rightarrow> validation_facts" where
  "passed_facts request vid = \<lparr>vf_validation_run_id = vid, vf_run_id = er_run_id request,
     vf_candidate_id = er_candidate_id request, vf_candidate_revision = er_candidate_revision request,
     vf_reference_id = er_reference_id request, vf_reference_revision = er_reference_revision request,
     vf_status = ''PASSED''\<rparr>"

definition bound_facts :: "execution_request \<Rightarrow> binding_facts" where
  "bound_facts request = \<lparr>bf_run_id = er_run_id request, bf_candidate_id = er_candidate_id request,
     bf_candidate_revision = er_candidate_revision request,
     bf_validation = map_option (passed_facts request) (er_validation_run_id request)\<rparr>"

text \<open>The re-verification accepts one record only: the request's own facts with a passed validation.\<close>

lemma passed_facts_iff:
  "v = passed_facts request vid \<longleftrightarrow>
     vf_validation_run_id v = vid \<and> vf_run_id v = er_run_id request \<and>
     vf_candidate_id v = er_candidate_id request \<and> vf_candidate_revision v = er_candidate_revision request \<and>
     vf_reference_id v = er_reference_id request \<and>
     vf_reference_revision v = er_reference_revision request \<and> vf_status v = ''PASSED''"
  by (cases v) (auto simp: passed_facts_def)

lemma facts_gate_None: "facts_gate request facts = None \<longleftrightarrow> facts = bound_facts request"
proof (cases facts)
  case (fields a b c v)
  then show ?thesis
    by (cases v; cases "er_validation_run_id request")
      (auto simp: facts_gate_def bound_facts_def passed_facts_iff)
qed

lemma facts_gate_codes: "facts_gate request facts = Some k \<Longrightarrow> k \<in> set outcome_error_codes"
  by (simp add: facts_gate_def outcome_error_codes_def split: option.splits if_splits)

definition matches_profile :: "execution_request \<Rightarrow> execution_profile \<Rightarrow> bool" where
  "matches_profile request profile \<longleftrightarrow>
     er_profile_id request = ep_id profile \<and> er_profile_revision request = ep_revision profile \<and>
     er_reference_id request = ep_reference_id profile \<and>
     er_reference_revision request = ep_reference_revision profile"

lemma binding_gate_Inr_None:
  "valid_binding_outcome b \<Longrightarrow>
     binding_gate request b = Inr None \<longleftrightarrow> bo_kind b = ''RESOLVED'' \<and> bo_facts b = Some (bound_facts request)"
  by (auto simp: binding_gate_def valid_binding_outcome_def binding_kinds_def facts_gate_None split: option.splits)

lemma binding_gate_total:
  "valid_binding_outcome b \<Longrightarrow>
     \<exists>k. binding_gate request b = Inr k \<and> (\<forall>c. k = Some c \<longrightarrow> c \<in> set outcome_error_codes)"
  by (auto simp: binding_gate_def valid_binding_outcome_def binding_kinds_def outcome_error_codes_def
      dest: facts_gate_codes split: option.splits)

lemma readiness_code:
  "valid_readiness r \<Longrightarrow> rd_status r \<noteq> ''READY'' \<Longrightarrow>
     \<exists>reason. rd_reason r = Some reason \<and> ''READINESS_'' @ reason \<in> set outcome_error_codes"
  by (auto simp: valid_readiness_def readiness_reasons_def outcome_error_codes_def)

section \<open>The executor's report\<close>

definition report :: "execution_request \<Rightarrow> execution_result \<Rightarrow> execution_outcome" where
  "report request x =
     (let ok = (ex_status x = ''SUCCEEDED'');
          k = (if ex_status x = ''TIMED_OUT'' then ''TIMED_OUT'' else ''EXECUTION_FAILED'')
      in \<lparr>eo_request_id = er_request_id request, eo_status = (if ok then ''SUCCEEDED'' else ''FAILED''),
          eo_error_code = (if ok then None else Some k),
          eo_message = message_of (if ok then ''SUCCEEDED'' else k), eo_exit_code = ex_exit_code x,
          eo_excerpt = take excerpt_max_chars (filter kept_char (ex_output x))\<rparr>)"

lemma report_codes: "''EXECUTION_FAILED'' \<in> set outcome_error_codes" "''TIMED_OUT'' \<in> set outcome_error_codes"
  by (simp_all add: outcome_error_codes_def)

lemma report_cases:
  assumes "valid_result x"
  obtains (succeeded) "ex_status x = ''SUCCEEDED''" "ex_exit_code x = Some 0"
  | (failed) "ex_status x = ''FAILED''" "case ex_exit_code x of None \<Rightarrow> True | Some n \<Rightarrow> 0 \<le> n \<and> n \<le> 255"
  | (timed_out) "ex_status x = ''TIMED_OUT''" "ex_exit_code x = None"
  using assms unfolding valid_result_def by (cases "ex_exit_code x") (simp_all, fastforce+)

lemma valid_report:
  assumes "opaque_id (er_request_id request)" and "valid_result x"
  shows "valid_outcome (report request x)"
proof -
  note clean = sanitize_output_clean [of "ex_output x", unfolded sanitize_output_take]
  from assms(2) show ?thesis
    by (cases rule: report_cases)
      (use assms(1) clean in \<open>simp_all add: report_def Let_def valid_outcome_def outcome_key_def
        message_of_code message_of_success report_codes\<close>)
qed

lemma report_outcome_Returns:
  assumes "opaque_id (er_request_id request)" and "valid_result x"
  shows "report_outcome request (Returns x) = Inr (report request x)"
proof -
  note ok = valid_report [OF assms]
  from assms(2) show ?thesis
    unfolding report_outcome_def reply.case Let_def lift_exec_eq_Inr
    by (cases rule: report_cases)
      (use ok in \<open>simp_all add: make_execution_outcome_eq_Inr report_def Let_def sanitize_output_take message_of_def\<close>)
qed

lemma report_outcome_closed:
  assumes "opaque_id (er_request_id request)" and "\<And>x. r = Returns x \<Longrightarrow> valid_result x"
  shows "report_outcome request r =
    Inr (case r of Returns x \<Rightarrow> report request x | _ \<Rightarrow> rejection_outcome request ''EXECUTION_FAILED'')"
proof (cases r)
  case (Returns x)
  then show ?thesis using assms by (simp add: report_outcome_Returns)
qed (use assms in \<open>simp_all add: report_outcome_def rejected_closed report_codes\<close>)

section \<open>The client of the ports\<close>

definition binding_call :: "'w lookup_port \<Rightarrow> execution_request \<Rightarrow> 'w \<Rightarrow> binding_outcome reply \<times> 'w" where
  "binding_call lookup request =
     lookup (er_run_id request) (er_candidate_id request) (er_validation_run_id request)
       (er_reference_id request) (er_reference_revision request)"

lemma execute_mismatch:
  "\<not> matches_profile request profile \<Longrightarrow>
     execute rc profile lookup check_ready run request w = (rejected request ''PROFILE_BINDING_MISMATCH'', w)"
  by (auto simp: execute_def matches_profile_def)

lemma execute_uncited:
  "matches_profile request profile \<Longrightarrow> rc \<Longrightarrow> er_validation_run_id request = None \<Longrightarrow>
     execute rc profile lookup check_ready run request w = (rejected request ''VALIDATION_BINDING_REQUIRED'', w)"
  by (simp add: execute_def matches_profile_def)

lemma execute_open:
  assumes "matches_profile request profile" and "rc \<longrightarrow> er_validation_run_id request \<noteq> None"
  shows "execute rc profile lookup check_ready run request w =
     (case binding_call lookup request w of
          (Raises, w1) \<Rightarrow> (Inl PortRaised, w1)
        | (Foreign, w1) \<Rightarrow>
            (Inl (ExecError (ValueError ''the binding port must return an ExecutionBindingOutcomeV2'')), w1)
        | (Returns binding, w1) \<Rightarrow>
            (case binding_gate request binding of
               Inl e \<Rightarrow> (Inl e, w1)
             | Inr (Some error_code) \<Rightarrow> (rejected request error_code, w1)
             | Inr None \<Rightarrow>
                 (case check_ready profile w1 of
                    (Raises, w2) \<Rightarrow> (Inl PortRaised, w2)
                  | (Foreign, w2) \<Rightarrow>
                      (Inl (ExecError (ValueError ''the readiness port must return an ExecutionReadinessResultV2'')), w2)
                  | (Returns readiness, w2) \<Rightarrow>
                      if rd_status readiness \<noteq> ''READY''
                        then (rejected request (''READINESS_'' @
                                (case rd_reason readiness of None \<Rightarrow> ''None'' | Some reason \<Rightarrow> reason)), w2)
                      else (let (r, w3) = run request profile w2 in (report_outcome request r, w3)))))"
proof -
  have c: "\<not> (rc \<and> er_validation_run_id request = None)" using assms(2) by blast
  show ?thesis
    using assms(1) c unfolding execute_def matches_profile_def binding_call_def
    by (simp only: if_False de_Morgan_disj not_not simp_thms)
qed

text \<open>Every gate passed, leaving the world \<open>w2\<close> in which the executor is called.\<close>

definition cleared :: "bool \<Rightarrow> execution_profile \<Rightarrow> 'w lookup_port \<Rightarrow> 'w readiness_port \<Rightarrow>
    execution_request \<Rightarrow> 'w \<Rightarrow> 'w \<Rightarrow> bool" where
  "cleared requires_citation profile lookup check_ready request w w2 \<longleftrightarrow>
     matches_profile request profile \<and> (requires_citation \<longrightarrow> er_validation_run_id request \<noteq> None) \<and>
     (\<exists>b w1 rd. binding_call lookup request w = (Returns b, w1) \<and> bo_kind b = ''RESOLVED'' \<and>
        bo_facts b = Some (bound_facts request) \<and>
        check_ready profile w1 = (Returns rd, w2) \<and> rd_status rd = ''READY'')"

text \<open>The worlds a refusal can end in: the binding and the readiness port may have been called.\<close>

definition untouched :: "execution_profile \<Rightarrow> 'w lookup_port \<Rightarrow> 'w readiness_port \<Rightarrow> execution_request \<Rightarrow> 'w \<Rightarrow> 'w set" where
  "untouched profile lookup check_ready request w =
     (let w1 = snd (binding_call lookup request w) in {w, w1, snd (check_ready profile w1)})"

locale execution_edges =
  fixes lookup :: "'w lookup_port"
    and check_ready :: "'w readiness_port"
    and run :: "'w execution_port"
  assumes lookup_valid: "lookup r c v p n w = (Returns b, w') \<Longrightarrow> valid_binding_outcome b"
    and readiness_valid: "check_ready profile w = (Returns rd, w') \<Longrightarrow> valid_readiness rd"
    and result_valid: "valid_profile profile \<Longrightarrow> run request profile w = (Returns x, w') \<Longrightarrow> valid_result x"
begin

lemma gate_of_call:
  "binding_call lookup request w = (Returns b, w') \<Longrightarrow> valid_binding_outcome b"
  unfolding binding_call_def by (rule lookup_valid)

lemma execute_cleared:
  assumes "cleared rc profile lookup check_ready request w w2"
  shows "execute rc profile lookup check_ready run request w =
    (let (r, w3) = run request profile w2 in (report_outcome request r, w3))"
proof -
  from assms obtain b w1 rd where c: "binding_call lookup request w = (Returns b, w1)"
      and k: "bo_kind b = ''RESOLVED''" "bo_facts b = Some (bound_facts request)"
      and rd: "check_ready profile w1 = (Returns rd, w2)" "rd_status rd = ''READY''"
      and m: "matches_profile request profile" "rc \<longrightarrow> er_validation_run_id request \<noteq> None"
    unfolding cleared_def by blast
  have g: "binding_gate request b = Inr None"
    using binding_gate_Inr_None [OF gate_of_call [OF c]] k by simp
  show ?thesis
    using m c rd g by (subst execute_open) auto
qed

lemma execute_shut:
  assumes "execute rc profile lookup check_ready run request w = (r, w')"
    and "opaque_id (er_request_id request)"
    and "\<not> (matches_profile request profile \<and> (rc \<longrightarrow> er_validation_run_id request \<noteq> None))"
  obtains k where "k \<in> set outcome_error_codes" "r = Inr (rejection_outcome request k)" "w' = w"
proof -
  have codes: "''PROFILE_BINDING_MISMATCH'' \<in> set outcome_error_codes"
    "''VALIDATION_BINDING_REQUIRED'' \<in> set outcome_error_codes"
    by (simp_all add: outcome_error_codes_def)
  have "(r, w') = (rejected request ''PROFILE_BINDING_MISMATCH'', w) \<or>
      (r, w') = (rejected request ''VALIDATION_BINDING_REQUIRED'', w)"
    using assms(1,3) execute_mismatch execute_uncited by metis
  then show ?thesis
    using that [OF codes(1)] that [OF codes(2)] rejected_closed [OF assms(2) codes(1)]
      rejected_closed [OF assms(2) codes(2)] by auto
qed

lemma execute_bound:
  assumes ex: "execute rc profile lookup check_ready run request w = (r, w')"
    and m: "matches_profile request profile" "rc \<longrightarrow> er_validation_run_id request \<noteq> None"
    and c: "binding_call lookup request w = (Returns b, w1)" and g: "binding_gate request b = Inr None"
    and req: "opaque_id (er_request_id request)"
  obtains (ready) w2 where "cleared rc profile lookup check_ready request w w2"
  | (refused) k where "k \<in> set outcome_error_codes" "r = Inr (rejection_outcome request k)"
      "w' = snd (check_ready profile w1)"
  | (raised) e where "r = Inl e" "w' = snd (check_ready profile w1)"
proof -
  note facts = binding_gate_Inr_None [OF gate_of_call [OF c], THEN iffD1, OF g]
  note step = ex [unfolded execute_open [OF m]] c g
  obtain q w2 where c2: "check_ready profile w1 = (q, w2)" by fastforce
  show ?thesis
  proof (cases q)
    case (Returns rd)
    show ?thesis
    proof (cases "rd_status rd = ''READY''")
      case True
      then show ?thesis using ready m c facts c2 Returns unfolding cleared_def by blast
    next
      case False
      obtain y where y: "rd_reason rd = Some y" "''READINESS_'' @ y \<in> set outcome_error_codes"
        using readiness_code [OF readiness_valid False] c2 Returns by blast
      have "r = rejected request (''READINESS_'' @ y)" "w' = w2"
        using step c2 Returns False y(1) by simp_all
      then show ?thesis using refused [OF y(2)] rejected_closed [OF req y(2)] c2 by simp
    qed
  qed (use step c2 raised in auto)
qed

lemma execute_cases:
  assumes ex: "execute rc profile lookup check_ready run request w = (r, w')"
    and req: "opaque_id (er_request_id request)" and prof: "valid_profile profile"
  obtains (executed) w2 x where "cleared rc profile lookup check_ready request w w2"
      "run request profile w2 = (x, w')"
      "r = Inr (case x of Returns y \<Rightarrow> report request y | _ \<Rightarrow> rejection_outcome request ''EXECUTION_FAILED'')"
  | (refused) k where "k \<in> set outcome_error_codes" "r = Inr (rejection_outcome request k)"
      "w' \<in> untouched profile lookup check_ready request w"
  | (raised) e where "r = Inl e" "w' \<in> untouched profile lookup check_ready request w"
proof (cases "matches_profile request profile \<and> (rc \<longrightarrow> er_validation_run_id request \<noteq> None)")
  case False
  from ex req False show ?thesis by (rule execute_shut) (use refused in \<open>auto simp: untouched_def Let_def\<close>)
next
  case True
  then have m: "matches_profile request profile" "rc \<longrightarrow> er_validation_run_id request \<noteq> None" by blast+
  obtain q w1 where c: "binding_call lookup request w = (q, w1)" by fastforce
  note step = ex [unfolded execute_open [OF m]] c
  have u1: "w1 \<in> untouched profile lookup check_ready request w"
    and u2: "snd (check_ready profile w1) \<in> untouched profile lookup check_ready request w"
    by (simp_all add: untouched_def c)
  show ?thesis
  proof (cases q)
    case (Returns b)
    then obtain k where g: "binding_gate request b = Inr k"
        and kc: "\<And>x. k = Some x \<Longrightarrow> x \<in> set outcome_error_codes"
      using binding_gate_total gate_of_call c by blast
    show ?thesis
    proof (cases k)
      case (Some x)
      then have "r = rejected request x" "w' = w1" using step g Returns by simp_all
      then show ?thesis using refused [OF kc [OF Some]] rejected_closed [OF req kc [OF Some]] u1 by simp
    next
      case None
      from ex m c [unfolded Returns] g [unfolded None] req show ?thesis
      proof (cases rule: execute_bound)
        case (ready w2)
        obtain x w3 where x: "run request profile w2 = (x, w3)" by fastforce
        with ex execute_cleared [OF ready] have "r = report_outcome request x" "w' = w3" by simp_all
        then show ?thesis
          using executed [OF ready] x report_outcome_closed [OF req, of x] result_valid [OF prof] by blast
      qed (use refused raised u2 in blast)+
    qed
  qed (use step u1 raised in auto)
qed

lemma outcome_valid:
  assumes "execute rc profile lookup check_ready run request w = (Inr out, w')"
    and "valid_request request" and "valid_profile profile"
  shows "valid_outcome out \<and> eo_request_id out = er_request_id request"
proof -
  have req: "opaque_id (er_request_id request)" using assms(2) by (simp add: valid_request_def)
  from assms(1) req assms(3) show ?thesis
  proof (cases rule: execute_cases)
    case (executed w2 x)
    then show ?thesis
      using valid_report [OF req result_valid [OF assms(3)]] valid_rejection_outcome [OF req report_codes(1)]
      by (cases x) (auto simp: rejection_outcome_def report_def Let_def)
  next
    case (refused k)
    then show ?thesis using valid_rejection_outcome [OF req] by (auto simp: rejection_outcome_def)
  qed simp
qed

end

section \<open>The database-backed binding resolves exactly the passed current validations\<close>

definition revalidates :: "candidate_row \<Rightarrow> bool" where
  "revalidates row \<longleftrightarrow> is_ok (make_candidate_control (PStr (cn_candidate_id row)) (PStr (cn_snapshot_id row))
     (PInt (cn_revision row)) (PStr (cn_status row)))"

definition passed_run :: "string \<Rightarrow> string \<Rightarrow> string \<Rightarrow> int \<Rightarrow> string \<Rightarrow> int \<Rightarrow> validation_run" where
  "passed_run vid rid cid crv pid prv = \<lparr>vr_validation_run_id = vid, vr_run_id = rid, vr_candidate_id = cid,
     vr_candidate_revision = crv, vr_profile_id = pid, vr_profile_revision = prv, vr_status = ''PASSED'',
     vr_error = None\<rparr>"

text \<open>The evidence: the cited run owns the candidate, the candidate is at the cited revision now, and the
  cited validation run passed for exactly these keys under a profile that can still be read.\<close>

definition evidence :: "string \<Rightarrow> string \<Rightarrow> string \<Rightarrow> int \<Rightarrow> string \<Rightarrow> int \<Rightarrow> database \<Rightarrow> bool" where
  "evidence vid rid cid crv pid prv db \<longleftrightarrow>
     get_run rid db \<noteq> None \<and>
     (\<exists>row. get_candidate cid db = Some row \<and> revalidates row \<and> cn_run_id row = rid \<and> cn_revision row = crv) \<and>
     get_validation_run vid db = Inr (Some (passed_run vid rid cid crv pid prv)) \<and>
     (\<exists>profile. get_reference_profile pid prv db = Inr (Some profile))"

lemma rejection_simps [simp]:
  "rejection ''BINDING_NOT_FOUND'' = Inr \<lparr>bo_kind = ''BINDING_NOT_FOUND'', bo_facts = None\<rparr>"
  "rejection ''VALIDATION_REQUIRED'' = Inr \<lparr>bo_kind = ''VALIDATION_REQUIRED'', bo_facts = None\<rparr>"
  "rejection ''VALIDATION_NOT_FOUND'' = Inr \<lparr>bo_kind = ''VALIDATION_NOT_FOUND'', bo_facts = None\<rparr>"
  "rejection ''VALIDATION_NOT_PASSED'' = Inr \<lparr>bo_kind = ''VALIDATION_NOT_PASSED'', bo_facts = None\<rparr>"
  by (simp_all add: rejection_def make_binding_outcome_def binding_kinds_def)

lemma get_validation_run_row:
  assumes "get_validation_run vid db = Inr (Some v)"
  shows "find_validation_run vid db = Some v"
proof -
  from assms obtain row where row: "find_validation_run vid db = Some row"
      and ok: "make_validation_run (PStr (vr_validation_run_id row)) (PStr (vr_run_id row))
              (PStr (vr_candidate_id row)) (PInt (vr_candidate_revision row)) (PStr (vr_profile_id row))
              (PInt (vr_profile_revision row)) (PStr (vr_status row)) (opt_str (vr_error row)) = Inr v"
    unfolding get_validation_run_def by (auto split: option.splits)
  have "opt_str (vr_error row) = opt_str (vr_error v) \<longleftrightarrow> vr_error row = vr_error v"
    by (cases "vr_error row"; cases "vr_error v") simp_all
  with ok [unfolded make_validation_run_eq_Inr] have "row = v"
    by (cases row; cases v) simp
  with row show ?thesis by simp
qed

lemma get_validation_run_some:
  assumes "get_validation_run vid db = Inr (Some v)"
  shows "vr_validation_run_id v = vid" and "v \<in> set (t_validation_runs db)"
    and "0 \<le> vr_candidate_revision v" and "0 \<le> vr_profile_revision v"
    and "vr_status v \<in> set validation_run_statuses" and "valid_error (vr_status v) (vr_error v)"
proof -
  have row: "find_validation_run vid db = Some v" by (rule get_validation_run_row [OF assms])
  then show "vr_validation_run_id v = vid" "v \<in> set (t_validation_runs db)"
    using find_row_SomeD unfolding find_validation_run_def by metis+
  show "0 \<le> vr_candidate_revision v" "0 \<le> vr_profile_revision v"
    "vr_status v \<in> set validation_run_statuses" "valid_error (vr_status v) (vr_error v)"
    using assms row unfolding get_validation_run_def by (auto simp: make_validation_run_eq_Inr)
qed

lemma revalidates_control:
  "make_candidate_control (PStr (cn_candidate_id row)) (PStr (cn_snapshot_id row)) (PInt (cn_revision row))
     (PStr (cn_status row)) = Inr control \<Longrightarrow> revalidates row \<and> cc_revision control = cn_revision row \<and> 0 \<le> cn_revision row"
  by (auto simp: revalidates_def is_ok_iff make_candidate_control_def)

lemma passed_run_iff:
  "v = passed_run vid rid cid crv pid prv \<longleftrightarrow>
     vr_validation_run_id v = vid \<and> vr_run_id v = rid \<and> vr_candidate_id v = cid \<and>
     vr_candidate_revision v = crv \<and> vr_profile_id v = pid \<and> vr_profile_revision v = prv \<and>
     vr_status v = ''PASSED'' \<and> vr_error v = None"
  by (cases v) (auto simp: passed_run_def)

text \<open>The keys a constructed request passes to the lookup.\<close>

definition opaque_keys :: "string \<Rightarrow> string \<Rightarrow> string option \<Rightarrow> string \<Rightarrow> bool" where
  "opaque_keys rid cid v pid \<longleftrightarrow> opaque_id rid \<and> opaque_id cid \<and> token_shaped cid \<and> opaque_id pid \<and>
     (\<forall>vid. v = Some vid \<longrightarrow> opaque_id vid)"

definition resolved :: "string \<Rightarrow> string \<Rightarrow> string \<Rightarrow> int \<Rightarrow> string \<Rightarrow> int \<Rightarrow> binding_outcome" where
  "resolved vid rid cid crv pid prv =
     \<lparr>bo_kind = ''RESOLVED'', bo_facts = Some \<lparr>bf_run_id = rid, bf_candidate_id = cid,
        bf_candidate_revision = crv, bf_validation = Some \<lparr>vf_validation_run_id = vid, vf_run_id = rid,
        vf_candidate_id = cid, vf_candidate_revision = crv, vf_reference_id = pid,
        vf_reference_revision = prv, vf_status = ''PASSED''\<rparr>\<rparr>\<rparr>"

lemma resolve_validation_eq:
  assumes "opaque_keys rid cid (Some vid) pid" and "0 \<le> cc_revision control"
  shows "resolve_validation rid cid vid pid prv control db =
    (case get_validation_run vid db of
       Inr (Some v) \<Rightarrow>
         if vr_run_id v = rid \<and> vr_candidate_id v = cid \<and> vr_candidate_revision v = cc_revision control \<and>
            vr_profile_id v = pid \<and> vr_profile_revision v = prv \<and>
            (\<exists>profile. get_reference_profile pid prv db = Inr (Some profile))
         then Inr (if vr_status v = ''PASSED'' then resolved vid rid cid (cc_revision control) pid prv
                   else \<lparr>bo_kind = ''VALIDATION_NOT_PASSED'', bo_facts = None\<rparr>)
         else Inr \<lparr>bo_kind = ''VALIDATION_NOT_FOUND'', bo_facts = None\<rparr>
     | _ \<Rightarrow> Inr \<lparr>bo_kind = ''VALIDATION_NOT_FOUND'', bo_facts = None\<rparr>)"
proof (cases "get_validation_run vid db")
  case (Inr q)
  show ?thesis
  proof (cases q)
    case (Some v)
    note v = get_validation_run_some [OF Inr [unfolded Some]]
    have facts: "make_validation_facts vid rid cid (cc_revision control) pid (vr_profile_revision v) ''PASSED'' =
        Inr \<lparr>vf_validation_run_id = vid, vf_run_id = rid, vf_candidate_id = cid,
          vf_candidate_revision = cc_revision control, vf_reference_id = pid,
          vf_reference_revision = vr_profile_revision v, vf_status = ''PASSED''\<rparr>"
      using assms v(4) by (simp add: make_validation_facts_eq_Inr opaque_keys_def validation_run_statuses_def)
    have binding: "make_binding_facts rid cid (cc_revision control) x =
        Inr \<lparr>bf_run_id = rid, bf_candidate_id = cid, bf_candidate_revision = cc_revision control, bf_validation = x\<rparr>" for x
      using assms by (simp add: make_binding_facts_eq_Inr opaque_keys_def)
    have out: "make_binding_outcome ''RESOLVED'' (Some x) = Inr \<lparr>bo_kind = ''RESOLVED'', bo_facts = Some x\<rparr>" for x
      by (simp add: make_binding_outcome_def binding_kinds_def)
    show ?thesis
      using v(1) facts binding out unfolding resolve_validation_def Inr Some
      by (auto simp: resolved_def split: sum.splits option.splits)
  qed (simp add: resolve_validation_def Inr)
qed (simp add: resolve_validation_def)

lemma lookup_cited:
  assumes keys: "opaque_keys rid cid (Some vid) pid"
    and run: "get_run rid db \<noteq> None" and row: "get_candidate cid db = Some row"
    and ok: "revalidates row" and owner: "cn_run_id row = rid"
  obtains control where "cc_revision control = cn_revision row" "0 \<le> cn_revision row"
    "lookup_execution_binding rid cid (Some vid) pid prv db = resolve_validation rid cid vid pid prv control db"
proof -
  obtain control where c: "make_candidate_control (PStr (cn_candidate_id row)) (PStr (cn_snapshot_id row))
      (PInt (cn_revision row)) (PStr (cn_status row)) = Inr control"
    using ok unfolding revalidates_def is_ok_iff by blast
  show ?thesis
    by (rule that [of control])
      (use revalidates_control [OF c] run row owner c in \<open>auto simp: lookup_execution_binding_def\<close>)
qed

lemma lookup_uncited: "lookup_execution_binding rid cid None pid prv db =
    Inr \<lparr>bo_kind = ''VALIDATION_REQUIRED'', bo_facts = None\<rparr>"
  by (simp add: lookup_execution_binding_def)

lemma lookup_unbound:
  assumes "\<not> (get_run rid db \<noteq> None \<and>
      (\<exists>row. get_candidate cid db = Some row \<and> revalidates row \<and> cn_run_id row = rid))"
  shows "lookup_execution_binding rid cid (Some vid) pid prv db =
    Inr \<lparr>bo_kind = ''BINDING_NOT_FOUND'', bo_facts = None\<rparr>"
  using assms
  by (auto simp: lookup_execution_binding_def dest: revalidates_control split: option.splits sum.splits)

lemma resolve_validation_resolved:
  assumes "opaque_keys rid cid (Some vid) pid" and "0 \<le> cc_revision control"
  shows "resolve_validation rid cid vid pid prv control db = Inr (resolved vid rid cid crv pid prv) \<longleftrightarrow>
    crv = cc_revision control \<and>
    get_validation_run vid db = Inr (Some (passed_run vid rid cid crv pid prv)) \<and>
    (\<exists>profile. get_reference_profile pid prv db = Inr (Some profile))"
proof (cases "\<exists>v. get_validation_run vid db = Inr (Some v)")
  case True
  then obtain v where v: "get_validation_run vid db = Inr (Some v)" by blast
  note row = get_validation_run_some [OF v]
  have "vr_error v = None" if "vr_status v = ''PASSED''"
    using row(6) that by (simp add: valid_error_def)
  then show ?thesis
    using row(1) unfolding resolve_validation_eq [OF assms] v
    by (auto simp: passed_run_iff resolved_def)
next
  case False
  then show ?thesis
    unfolding resolve_validation_eq [OF assms]
    by (auto simp: resolved_def split: sum.splits option.splits)
qed

lemma resolved_iff_evidence:
  assumes keys: "opaque_keys rid cid (Some vid) pid"
  shows "lookup_execution_binding rid cid (Some vid) pid prv db = Inr (resolved vid rid cid crv pid prv)
    \<longleftrightarrow> evidence vid rid cid crv pid prv db"
proof (cases "get_run rid db \<noteq> None \<and>
    (\<exists>row. get_candidate cid db = Some row \<and> revalidates row \<and> cn_run_id row = rid)")
  case True
  then obtain row where row: "get_run rid db \<noteq> None" "get_candidate cid db = Some row" "revalidates row"
      "cn_run_id row = rid" by blast
  from keys row show ?thesis
  proof (rule lookup_cited)
    fix control
    assume c: "cc_revision control = cn_revision row" "0 \<le> cn_revision row"
      and eq: "lookup_execution_binding rid cid (Some vid) pid prv db =
        resolve_validation rid cid vid pid prv control db"
    have "0 \<le> cc_revision control" using c by simp
    from resolve_validation_resolved [OF keys this] show ?thesis
      unfolding eq evidence_def using row c by auto
  qed
next
  case False
  then show ?thesis unfolding lookup_unbound [OF False] by (auto simp: evidence_def resolved_def)
qed

lemma lookup_answers:
  assumes keys: "opaque_keys rid cid v pid"
  obtains b where "lookup_execution_binding rid cid v pid prv db = Inr b"
proof (cases v)
  case None
  then show ?thesis using that lookup_uncited by simp
next
  case (Some vid)
  note keys' = keys [unfolded Some]
  show ?thesis
  proof (cases "get_run rid db \<noteq> None \<and>
      (\<exists>row. get_candidate cid db = Some row \<and> revalidates row \<and> cn_run_id row = rid)")
    case True
    then obtain row where row: "get_run rid db \<noteq> None" "get_candidate cid db = Some row" "revalidates row"
        "cn_run_id row = rid" by blast
    from keys' row show ?thesis
    proof (rule lookup_cited)
      fix control
      assume c: "cc_revision control = cn_revision row" "0 \<le> cn_revision row"
        and eq: "lookup_execution_binding rid cid (Some vid) pid prv db =
          resolve_validation rid cid vid pid prv control db"
      have "0 \<le> cc_revision control" using c by simp
      then have "\<exists>b. resolve_validation rid cid vid pid prv control db = Inr b"
        by (simp add: resolve_validation_eq [OF keys'] split: sum.splits option.splits)
      then show ?thesis using that eq Some by auto
    qed
  next
    case False
    then show ?thesis using that lookup_unbound Some by simp
  qed
qed

section \<open>Interpretations\<close>

definition database_port :: "(database \<times> 'd) lookup_port" where
  \<comment> \<open>\<open>DatabaseBackedExecutionBinding\<close> as a port: the lookup reads the database and changes nothing.\<close>
  "database_port run_id candidate_id validation_run_id profile_id profile_revision w =
     (reply_of (lookup_execution_binding run_id candidate_id validation_run_id profile_id
        profile_revision (fst w)), w)"

lemma reply_of_Returns [simp]: "reply_of m = Returns x \<longleftrightarrow> m = Inr x"
  by (simp add: reply_of_def split: sum.splits)

lemma reply_of_Inr [simp]: "reply_of (Inr x) = Returns x"
  by (simp add: reply_of_def)

lemma lookup_valid_outcome:
  assumes "lookup_execution_binding rid cid v pid prv db = Inr b"
  shows "valid_binding_outcome b"
proof -
  have "\<exists>k f. make_binding_outcome k f = Inr b"
    using assms
    by (auto simp: lookup_execution_binding_def resolve_validation_def rejection_def
        split: option.splits sum.splits if_splits)
  then show ?thesis by (auto simp: make_binding_outcome_eq_Inr)
qed

lemma fake_answer_valid:
  assumes "fake_answer f rid cid v pid prv = Inr b"
  shows "valid_binding_outcome b"
proof -
  have "\<exists>k g. make_binding_outcome k g = Inr b"
    using assms unfolding fake_answer_def
    by (cases v; cases "fl_facts f") (auto split: if_splits)
  then show ?thesis by (auto simp: make_binding_outcome_eq_Inr)
qed

interpretation fake: execution_edges "fake_lookup_port f" "fake_check None" "fake_run None raises"
  for f raises
  by unfold_locales
    (auto simp: fake_lookup_port_def fake_check_def fake_run_def make_readiness_eq_Inr
      make_execution_result_eq_Inr dest: fake_answer_valid split: if_splits)

end
