(* ===== verification/Utf8.thy ===== *)
theory Utf8
  imports Prelude
begin

text \<open>
  UTF-8 as Python encodes and decodes it. Text is a list of code points, bytes are numbers below 256.
  Decoding follows the well-formedness table of the Unicode standard, with the replacement of maximal
  ill-formed prefixes for \<open>errors="replace"\<close>; encoding refuses surrogates.
\<close>

type_synonym utext = "codepoint list"

text \<open>A literal of the source.\<close>

definition lit :: "string \<Rightarrow> utext" where
  "lit s = map ord s"

lemma lit_simps [simp]: "lit [] = []" "lit (c # s) = of_char c # lit s"
  by (simp_all add: lit_def ord_def)

section \<open>Decoding\<close>

definition continuation :: "nat \<Rightarrow> bool" where
  "continuation b \<longleftrightarrow> 128 \<le> b \<and> b \<le> 191"

definition second_of_three :: "nat \<Rightarrow> nat \<Rightarrow> bool" where
  "second_of_three b c \<longleftrightarrow>
     (if b = 224 then 160 \<le> c \<and> c \<le> 191 else if b = 237 then 128 \<le> c \<and> c \<le> 159 else continuation c)"

definition second_of_four :: "nat \<Rightarrow> nat \<Rightarrow> bool" where
  "second_of_four b c \<longleftrightarrow>
     (if b = 240 then 144 \<le> c \<and> c \<le> 191 else if b = 244 then 128 \<le> c \<and> c \<le> 143 else continuation c)"

text \<open>The first code point of \<open>b # bs\<close>, or \<open>None\<close> for an ill-formed prefix, and the bytes behind it.\<close>

definition decode_one :: "nat \<Rightarrow> nat list \<Rightarrow> codepoint option \<times> nat list" where
  "decode_one b bs =
     (if b < 128 then (Some b, bs)
      else if 194 \<le> b \<and> b \<le> 223 then
        (case bs of
           c # cs \<Rightarrow> if continuation c then (Some ((b - 192) * 64 + (c - 128)), cs) else (None, bs)
         | [] \<Rightarrow> (None, []))
      else if 224 \<le> b \<and> b \<le> 239 then
        (case bs of
           c # cs \<Rightarrow>
             if \<not> second_of_three b c then (None, bs)
             else (case cs of
                 d # ds \<Rightarrow>
                   if continuation d then (Some ((b - 224) * 4096 + (c - 128) * 64 + (d - 128)), ds)
                   else (None, cs)
               | [] \<Rightarrow> (None, []))
         | [] \<Rightarrow> (None, []))
      else if 240 \<le> b \<and> b \<le> 244 then
        (case bs of
           c # cs \<Rightarrow>
             if \<not> second_of_four b c then (None, bs)
             else (case cs of
                 d # ds \<Rightarrow>
                   if \<not> continuation d then (None, cs)
                   else (case ds of
                       e # es \<Rightarrow>
                         if continuation e
                           then (Some ((b - 240) * 262144 + (c - 128) * 4096 + (d - 128) * 64 + (e - 128)), es)
                         else (None, ds)
                     | [] \<Rightarrow> (None, []))
               | [] \<Rightarrow> (None, []))
         | [] \<Rightarrow> (None, []))
      else (None, bs))"

lemma decode_one_shorter: "length (snd (decode_one b bs)) \<le> length bs"
  by (auto simp: decode_one_def split: list.split)

lemma decode_one_less: "length (snd (decode_one b bs)) < Suc (length bs)"
  using decode_one_shorter by (simp add: le_imp_less_Suc)

text \<open>\<open>bytes.decode("utf-8")\<close>; \<open>None\<close> is \<open>UnicodeDecodeError\<close>.\<close>

function decode_strict :: "nat list \<Rightarrow> utext option" where
  "decode_strict [] = Some []"
| "decode_strict (b # bs) =
     (case fst (decode_one b bs) of
        None \<Rightarrow> None
      | Some c \<Rightarrow> map_option (Cons c) (decode_strict (snd (decode_one b bs))))"
  by pat_completeness auto
termination
  by (relation "measure length") (simp_all add: decode_one_less)

text \<open>\<open>bytes.decode("utf-8", errors="replace")\<close>: every maximal ill-formed prefix becomes U+FFFD.\<close>

definition replacement :: codepoint where
  "replacement = 65533"

function decode_replace :: "nat list \<Rightarrow> utext" where
  "decode_replace [] = []"
| "decode_replace (b # bs) =
     (case fst (decode_one b bs) of None \<Rightarrow> replacement | Some c \<Rightarrow> c) #
     decode_replace (snd (decode_one b bs))"
  by pat_completeness auto
termination
  by (relation "measure length") (simp_all add: decode_one_less)

lemma length_decode_replace: "length (decode_replace bs) \<le> length bs"
proof (induction bs rule: decode_replace.induct)
  case (2 b bs)
  then show ?case using decode_one_shorter [of b bs] by simp
qed simp

section \<open>Encoding\<close>

definition scalar :: "codepoint \<Rightarrow> bool" where
  "scalar c \<longleftrightarrow> c < 55296 \<or> 57344 \<le> c \<and> c < 1114112"

definition encode_char :: "codepoint \<Rightarrow> nat list" where
  "encode_char c =
     (if c < 128 then [c]
      else if c < 2048 then [192 + c div 64, 128 + c mod 64]
      else if c < 65536 then [224 + c div 4096, 128 + c div 64 mod 64, 128 + c mod 64]
      else [240 + c div 262144, 128 + c div 4096 mod 64, 128 + c div 64 mod 64, 128 + c mod 64])"

definition encode :: "utext \<Rightarrow> nat list" where
  "encode s = concat (map encode_char s)"

definition encode_strict :: "utext \<Rightarrow> nat list option" where
  \<comment> \<open>\<open>str.encode("utf-8")\<close>; \<open>None\<close> is \<open>UnicodeEncodeError\<close>.\<close>
  "encode_strict s = (if list_all scalar s then Some (encode s) else None)"

lemma encode_simps [simp]: "encode [] = []" "encode (c # s) = encode_char c @ encode s"
  by (simp_all add: encode_def)

lemma encode_append [simp]: "encode (s @ t) = encode s @ encode t"
  by (simp add: encode_def)

section \<open>Encoding and decoding are inverse\<close>

lemma decode_one_two:
  "128 \<le> c \<Longrightarrow> c < 2048 \<Longrightarrow> decode_one (192 + c div 64) ((128 + c mod 64) # rest) = (Some c, rest)"
proof -
  assume c: "128 \<le> c" "c < 2048"
  have "2 \<le> c div 64" "c div 64 \<le> 31" using c by linarith+
  moreover have "c mod 64 < 64" by simp
  moreover have "c div 64 * 64 + c mod 64 = c" by simp
  ultimately show ?thesis by (simp add: decode_one_def continuation_def)
qed

lemma split_64: "c = c div 64 * 64 + c mod (64::nat)"
  by simp

lemma join_64: "b < 64 \<Longrightarrow> (a * 64 + b) div 64 = a" "b < 64 \<Longrightarrow> (a * 64 + b) mod 64 = (b::nat)"
  by simp_all

lemma decode_one_three:
  assumes c: "2048 \<le> c" "c < 65536" "scalar c"
  shows "decode_one (224 + c div 4096) ((128 + c div 64 mod 64) # (128 + c mod 64) # rest) = (Some c, rest)"
proof -
  define x y z where "x = c div 64 div 64" and "y = c div 64 mod 64" and "z = c mod 64"
  have x: "c div 4096 = x" by (simp add: x_def div_mult2_eq [symmetric])
  have eq: "c = (x * 64 + y) * 64 + z"
    using split_64 [of c] split_64 [of "c div 64"] unfolding x_def y_def z_def by simp
  have b: "y < 64" "z < 64" by (simp_all add: y_def z_def)
  have "x < 16" unfolding x [symmetric] using c(2) by (intro less_mult_imp_div_less) simp
  then have "x \<le> 15" by simp
  moreover have flat: "c = x * 4096 + y * 64 + z" using eq by (simp add: algebra_simps)
  have "x = 0 \<Longrightarrow> 32 \<le> y" using c(1) b flat by linarith
  moreover have "x = 13 \<Longrightarrow> y \<le> 31" using c(3) b flat unfolding scalar_def by linarith
  ultimately show ?thesis
    using b eq unfolding x y_def [symmetric] z_def [symmetric]
    by (simp add: decode_one_def second_of_three_def continuation_def algebra_simps)
qed

lemma decode_one_four:
  assumes c: "65536 \<le> c" "c < 1114112"
  shows "decode_one (240 + c div 262144)
      ((128 + c div 4096 mod 64) # (128 + c div 64 mod 64) # (128 + c mod 64) # rest) = (Some c, rest)"
proof -
  define w x y z where "w = c div 64 div 64 div 64" and "x = c div 64 div 64 mod 64"
    and "y = c div 64 mod 64" and "z = c mod 64"
  have w: "c div 262144 = w" and x: "c div 4096 mod 64 = x"
    by (simp_all add: w_def x_def div_mult2_eq [symmetric])
  have eq: "c = ((w * 64 + x) * 64 + y) * 64 + z"
    using split_64 [of c] split_64 [of "c div 64"] split_64 [of "c div 64 div 64"]
    unfolding w_def x_def y_def z_def by simp
  have b: "x < 64" "y < 64" "z < 64" by (simp_all add: x_def y_def z_def)
  have "w < 5" unfolding w [symmetric] using c(2) by (intro less_mult_imp_div_less) simp
  then have "w \<le> 4" by simp
  moreover have flat: "c = w * 262144 + x * 4096 + y * 64 + z" using eq by (simp add: algebra_simps)
  have "w = 0 \<Longrightarrow> 16 \<le> x" using c(1) b flat by linarith
  moreover have "w = 4 \<Longrightarrow> x \<le> 15" using c(2) b flat by linarith
  ultimately show ?thesis
    using b eq unfolding w x y_def [symmetric] z_def [symmetric]
    by (simp add: decode_one_def second_of_four_def continuation_def algebra_simps)
qed

lemma decode_one_encode:
  assumes "scalar c"
  obtains b bs where "encode_char c = b # bs" "\<And>rest. decode_one b (bs @ rest) = (Some c, rest)"
proof -
  consider "c < 128" | "128 \<le> c" "c < 2048" | "2048 \<le> c" "c < 65536" | "65536 \<le> c" "c < 1114112"
    using assms unfolding scalar_def by linarith
  then show ?thesis
  proof cases
    case 1
    then show ?thesis using that [of c "[]"] by (simp add: encode_char_def decode_one_def)
  next
    case 2
    then show ?thesis
      using that [of "192 + c div 64" "[128 + c mod 64]"] decode_one_two by (simp add: encode_char_def)
  next
    case 3
    then show ?thesis
      using that [of "224 + c div 4096" "[128 + c div 64 mod 64, 128 + c mod 64]"] decode_one_three assms
      by (simp add: encode_char_def)
  next
    case 4
    then show ?thesis
      using that [of "240 + c div 262144" "[128 + c div 4096 mod 64, 128 + c div 64 mod 64, 128 + c mod 64]"]
        decode_one_four by (simp add: encode_char_def)
  qed
qed

lemma decode_strict_encode_append:
  assumes "list_all scalar s"
  shows "decode_strict (encode s @ bs) = map_option ((@) s) (decode_strict bs)"
  using assms
proof (induction s)
  case (Cons c s)
  then obtain b cs where "encode_char c = b # cs" "\<And>rest. decode_one b (cs @ rest) = (Some c, rest)"
    using decode_one_encode by auto
  with Cons show ?case by (simp add: option.map_comp comp_def)
qed (simp add: option.map_id0 [unfolded id_def] map_option_cong option.map_ident)

lemma decode_strict_encode: "list_all scalar s \<Longrightarrow> decode_strict (encode s) = Some s"
  using decode_strict_encode_append [of s "[]"] by simp

lemma decode_one_Some:
  assumes "decode_one b bs = (Some c, rest)"
  shows "b # bs = encode_char c @ rest \<and> scalar c"
proof -
  consider "b < 128" | "194 \<le> b" "b \<le> 223" | "224 \<le> b" "b \<le> 239" | "240 \<le> b" "b \<le> 244"
    using assms by (auto simp: decode_one_def split: if_splits)
  then show ?thesis
  proof cases
    case 1
    then show ?thesis using assms by (simp add: decode_one_def encode_char_def scalar_def)
  next
    case 2
    then obtain x where x: "bs = x # rest" "continuation x" "c = (b - 192) * 64 + (x - 128)"
      using assms by (auto simp: decode_one_def split: list.splits if_splits)
    define u v where "u = b - 192" and "v = x - 128"
    have uv: "2 \<le> u" "u \<le> 31" "v < 64" "b = 192 + u" "x = 128 + v" "c = u * 64 + v"
      using 2 x by (auto simp: u_def v_def continuation_def)
    then have "c div 64 = u" "c mod 64 = v" "128 \<le> c" "c < 2048" by auto
    then show ?thesis using uv x by (simp add: encode_char_def scalar_def)
  next
    case 3
    then obtain x y where x: "bs = x # y # rest" "second_of_three b x" "continuation y"
        "c = (b - 224) * 4096 + (x - 128) * 64 + (y - 128)"
      using assms by (auto simp: decode_one_def split: list.splits if_splits)
    define u v w where "u = b - 224" and "v = x - 128" and "w = y - 128"
    have uv: "u \<le> 15" "v < 64" "w < 64" "b = 224 + u" "x = 128 + v" "y = 128 + w"
      "c = (u * 64 + v) * 64 + w" "u = 0 \<Longrightarrow> 32 \<le> v" "u = 13 \<Longrightarrow> v \<le> 31"
      using 3 x by (auto simp: u_def v_def w_def second_of_three_def continuation_def algebra_simps split: if_splits)
    have d: "c div 64 = u * 64 + v" "c mod 64 = w" unfolding uv(7) using uv(3) by (rule join_64)+
    have "c div 4096 = c div 64 div 64" by (simp add: div_mult2_eq [symmetric])
    then have e: "c div 4096 = u" "c div 64 mod 64 = v" unfolding d using uv(2) by (simp_all only: join_64)
    have flat: "c = u * 4096 + v * 64 + w" using uv(7) by (simp add: algebra_simps)
    have "2048 \<le> c" using flat uv(8) by (cases "u = 0") auto
    moreover have "c < 65536" using flat uv(1-3) by linarith
    ultimately have r: "2048 \<le> c" "c < 65536" .
    have "u < 13 \<or> u = 13 \<or> 13 < u" by linarith
    then have "scalar c" unfolding scalar_def using flat uv(2,3,9) r(2) by (elim disjE) simp_all
    then show ?thesis using uv(4-6) x r d e by (simp add: encode_char_def)
  next
    case 4
    then obtain x y z where x: "bs = x # y # z # rest" "second_of_four b x" "continuation y" "continuation z"
        "c = (b - 240) * 262144 + (x - 128) * 4096 + (y - 128) * 64 + (z - 128)"
      using assms by (auto simp: decode_one_def split: list.splits if_splits)
    define t u v w where "t = b - 240" and "u = x - 128" and "v = y - 128" and "w = z - 128"
    have uv: "t \<le> 4" "u < 64" "v < 64" "w < 64" "b = 240 + t" "x = 128 + u" "y = 128 + v" "z = 128 + w"
      "c = ((t * 64 + u) * 64 + v) * 64 + w" "t = 0 \<Longrightarrow> 16 \<le> u" "t = 4 \<Longrightarrow> u \<le> 15"
      using 4 x by (auto simp: t_def u_def v_def w_def second_of_four_def continuation_def algebra_simps split: if_splits)
    have d: "c div 64 = (t * 64 + u) * 64 + v" "c mod 64 = w" unfolding uv(9) using uv(4) by (rule join_64)+
    have "c div 4096 = c div 64 div 64" "c div 262144 = c div 64 div 64 div 64"
      by (simp_all add: div_mult2_eq [symmetric])
    then have e: "c div 4096 = t * 64 + u" "c div 64 mod 64 = v" "c div 262144 = t"
      unfolding d using uv(2,3) by (simp_all only: join_64)
    then have f: "c div 4096 mod 64 = u" using uv(2) by (simp only: join_64)
    have flat: "c = t * 262144 + u * 4096 + v * 64 + w" using uv(9) by (simp add: algebra_simps)
    have "65536 \<le> c" using flat uv(10) by (cases "t = 0") auto
    moreover have "c < 1114112" using flat uv(1-4,11) by (cases "t = 4") auto
    ultimately have r: "65536 \<le> c" "c < 1114112" .
    then show ?thesis using uv(5-8) x d e f by (simp add: encode_char_def scalar_def)
  qed
qed

lemma decode_strict_Some:
  "decode_strict bs = Some s \<Longrightarrow> bs = encode s \<and> list_all scalar s"
proof (induction bs arbitrary: s rule: decode_strict.induct)
  case (2 b bs)
  then obtain c s' where c: "fst (decode_one b bs) = Some c" and s': "decode_strict (snd (decode_one b bs)) = Some s'"
      "s = c # s'"
    by (auto split: option.splits)
  have "b # bs = encode_char c @ snd (decode_one b bs) \<and> scalar c"
    using decode_one_Some c by (metis prod.collapse)
  with 2(1) [OF c s'(1)] s'(2) show ?case by simp
qed simp

end
