(* ===== verification/Docker_Executor.thy ===== *)
theory Docker_Executor
  imports Execution_Service Utf8 Complex_Main
begin

text \<open>
  The container executor \<open>execution/v2_docker_executor.py\<close> and the readiness probe
  \<open>execution/v2_docker_probe.py\<close>.

  What lies outside the two modules is the record \<open>docker_edge\<close>: the command runner, the
  monotonic clock, the fresh container suffix (\<open>uuid4().hex\<close>), the JSON reader and the text
  \<open>str\<close> gives a value that is no string. The edge works over its own state \<open>'e\<close>; nothing is
  assumed of it. The world \<open>docker_world\<close> adds a log of the commands issued with the reply each one
  got, which no definition reads. Times are rational seconds (the rounding of the float subtraction
  is not modelled). Bytes are numbers below 256, decoded text is a list of code points.

  The default runner (\<open>subprocess\<close> with two reader threads) is not modelled: it is one value of
  \<open>dk_runner\<close>.
\<close>

section \<open>Commands\<close>

record command_outcome =
  co_returncode :: "int option"
  co_stdout :: "nat list"
  co_stderr :: "nat list"
  co_timed_out :: bool
  co_truncated :: bool

definition make_command_outcome ::
  "int option \<Rightarrow> nat list \<Rightarrow> nat list \<Rightarrow> bool \<Rightarrow> bool \<Rightarrow> py_error + command_outcome" where
  "make_command_outcome code out err timed_out truncated =
     rbind (if timed_out
              then check (code = None) (ValueError ''a timed-out command carries no returncode'')
            else check (code \<noteq> None) (ValueError ''returncode must be None or an integer'')) (\<lambda>_.
     rbind (check (timed_out \<or> - 255 \<le> the code \<and> the code \<le> 255)
              (ValueError ''returncode is out of the bounded range'')) (\<lambda>_.
       Inr \<lparr>co_returncode = code, co_stdout = out, co_stderr = err, co_timed_out = timed_out,
            co_truncated = truncated\<rparr>))"

datatype jval =
    JNull | JBool bool | JInt int | JFloat "rat option" | JStr string
  | JList "jval list" | JObj "(string \<times> jval) list"

text \<open>A finite float carries its value, NaN and the infinities none. An object has no duplicate keys.\<close>

record 'e docker_edge =
  dk_source :: string
  dk_runner :: "string list \<Rightarrow> rat \<Rightarrow> int \<Rightarrow> 'e \<Rightarrow> command_outcome reply \<times> 'e"
  dk_clock :: "'e \<Rightarrow> rat \<times> 'e"
  dk_uuid :: "'e \<Rightarrow> string \<times> 'e"
  dk_json :: "nat list \<Rightarrow> jval option"
  dk_str :: "jval \<Rightarrow> string"

record 'e docker_world =
  dw_env :: 'e
  dw_log :: "(string list \<times> command_outcome reply) list"

definition cleanup_timeout_seconds :: rat where
  "cleanup_timeout_seconds = 30"

definition cpu_limit :: nat where
  "cpu_limit = 2"

definition memory_limit_bytes :: nat where
  "memory_limit_bytes = 2 * 1024 * 1024 * 1024"

definition pids_limit :: nat where
  "pids_limit = 256"

definition tmpfs_mount :: string where
  "tmpfs_mount = ''/tmp:rw,size=256m''"

definition inspect_argv :: "string \<Rightarrow> string list" where
  "inspect_argv container = [''docker'', ''inspect'', container]"

definition start_argv :: "string \<Rightarrow> string list" where
  "start_argv container = [''docker'', ''start'', ''--attach'', container]"

definition stop_argv :: "string \<Rightarrow> string list" where
  "stop_argv container = [''docker'', ''stop'', ''--time'', ''0'', container]"

definition remove_argv :: "string \<Rightarrow> string list" where
  "remove_argv container = [''docker'', ''rm'', ''--force'', container]"

definition create_argv :: "string \<Rightarrow> string \<Rightarrow> execution_request \<Rightarrow> execution_profile \<Rightarrow> string list" where
  "create_argv source container request profile =
     [''docker'', ''create'', ''--pull'', ''never'', ''--name'', container, ''--network'', ''none'',
      ''--user'', ep_user profile, ''--read-only'', ''--cap-drop'', ''ALL'',
      ''--memory'', str_nat memory_limit_bytes, ''--memory-swap'', str_nat memory_limit_bytes,
      ''--pids-limit'', str_nat pids_limit, ''--cpus'', str_nat cpu_limit,
      ''--tmpfs'', tmpfs_mount,
      ''--mount'', ''type=bind,source='' @ source @ '',target=/workspace,readonly'',
      ep_image profile] @ er_argv request"

definition make_docker_source ::
  "(string \<Rightarrow> bool) \<Rightarrow> (string \<Rightarrow> bool) \<Rightarrow> (string \<Rightarrow> string) \<Rightarrow> string \<Rightarrow> py_error + string" where
  \<comment> \<open>The constructor; \<open>Path.is_absolute\<close>, \<open>Path.is_dir\<close> and \<open>Path.as_posix\<close> are parameters.\<close>
  "make_docker_source is_absolute is_dir as_posix path =
     (if \<not> is_absolute path then Inl (ValueError ''workspace_source must be an absolute directory'')
      else if \<not> is_dir path then Inl (ValueError ''workspace_source must be an existing directory'')
      else if CHR '','' \<in> set (as_posix path)
        then Inl (ValueError ''workspace_source must not contain a comma (the docker --mount value is comma-delimited)'')
      else Inr (as_posix path))"

section \<open>Daemon drift\<close>

definition lower_char :: "char \<Rightarrow> char" where
  "lower_char c =
     (let n = ord c in
      if 65 \<le> n \<and> n \<le> 90 \<or> 192 \<le> n \<and> n \<le> 222 \<and> n \<noteq> 215 then char_of (n + 32) else c)"

definition lower :: "string \<Rightarrow> string" where
  "lower s = map lower_char s"

definition jget :: "(string \<times> jval) list \<Rightarrow> string \<Rightarrow> jval" where
  "jget d k = (case map_of d k of None \<Rightarrow> JNull | Some v \<Rightarrow> v)"

definition num_eq :: "jval \<Rightarrow> int \<Rightarrow> bool" where
  \<comment> \<open>\<open>value == n\<close>: a float equals the integer it represents, a boolean is 0 or 1.\<close>
  "num_eq v n =
     (case v of JInt m \<Rightarrow> m = n | JFloat (Some q) \<Rightarrow> q = of_int n
      | JBool b \<Rightarrow> (if b then 1 else 0) = n | _ \<Rightarrow> False)"

definition is_falsy :: "jval \<Rightarrow> bool" where
  "is_falsy v \<longleftrightarrow>
     v = JNull \<or> v = JBool False \<or> v = JInt 0 \<or> v = JFloat (Some 0) \<or> v = JStr [] \<or> v = JList [] \<or> v = JObj []"

definition spelling :: "(jval \<Rightarrow> string) \<Rightarrow> jval \<Rightarrow> string" where
  \<comment> \<open>\<open>str(value or "")\<close>\<close>
  "spelling str v = (if is_falsy v then [] else case v of JStr s \<Rightarrow> s | _ \<Rightarrow> str v)"

definition tmpfs_inspect_spec :: jval where
  "tmpfs_inspect_spec =
     (let path = takeWhile (\<lambda>c. c \<noteq> CHR '':'') tmpfs_mount
      in JObj [(path, JStr (drop (length path + 1) tmpfs_mount))])"

definition mount_drift :: "'e docker_edge \<Rightarrow> jval \<Rightarrow> string option" where
  "mount_drift edge mounts =
     (case mounts of
        JList [JObj m] \<Rightarrow>
          let src = spelling (dk_str edge) (jget m ''Source''); tgt = spelling (dk_str edge) (jget m ''Target'')
          in if contains (lower src) ''docker.sock'' then Some ''docker socket mount''
             else if contains (lower tgt) ''docker.sock'' then Some ''docker socket mount''
             else if jget m ''Type'' \<noteq> JStr ''bind'' \<or> jget m ''Target'' \<noteq> JStr ''/workspace''
               then Some ''workspace mount drift''
             else if jget m ''ReadOnly'' \<noteq> JBool True then Some ''workspace mount drift''
             else if lower (map (\<lambda>c. if c = CHR 0x5C then CHR ''/'' else c) src) \<noteq> lower (dk_source edge)
               then Some ''workspace mount source drift''
             else None
      | _ \<Rightarrow> Some ''mount set drift'')"

definition entry_drift :: "'e docker_edge \<Rightarrow> (string \<times> jval) list \<Rightarrow> (string \<times> jval) list \<Rightarrow>
    execution_request \<Rightarrow> execution_profile \<Rightarrow> string option" where
  "entry_drift edge host config request profile =
     (if jget host ''NetworkMode'' \<noteq> JStr ''none'' then Some ''network mode drift''
      else if jget host ''ReadonlyRootfs'' \<noteq> JBool True then Some ''read-only root filesystem drift''
      else if jget host ''CapDrop'' \<noteq> JList [JStr ''ALL''] then Some ''capability drop drift''
      else if jget host ''Privileged'' \<noteq> JBool False then Some ''privileged mode drift''
      else if \<not> num_eq (jget host ''Memory'') (int memory_limit_bytes) then Some ''memory limit drift''
      else if \<not> num_eq (jget host ''MemorySwap'') (int memory_limit_bytes) then Some ''swap limit drift''
      else if \<not> num_eq (jget host ''NanoCpus'') (int cpu_limit * 1000000000) then Some ''cpu limit drift''
      else if \<not> num_eq (jget host ''PidsLimit'') (int pids_limit) then Some ''pids limit drift''
      else if jget host ''Tmpfs'' \<noteq> tmpfs_inspect_spec then Some ''tmpfs drift''
      else if jget config ''User'' \<noteq> JStr (ep_user profile) then Some ''non-root user drift''
      else if jget config ''Image'' \<noteq> JStr (ep_image profile) then Some ''image reference drift''
      else if jget config ''Cmd'' \<noteq> JList (map JStr (er_argv request)) then Some ''command drift''
      else mount_drift edge (jget host ''Mounts''))"

definition daemon_drift :: "'e docker_edge \<Rightarrow> nat list \<Rightarrow> execution_request \<Rightarrow> execution_profile \<Rightarrow> string option" where
  "daemon_drift edge inspect_stdout request profile =
     (case dk_json edge inspect_stdout of
        None \<Rightarrow> Some ''the daemon inspect report is not readable''
      | Some (JList [JObj entry]) \<Rightarrow>
          (case (jget entry ''HostConfig'', jget entry ''Config'') of
             (JObj host, JObj config) \<Rightarrow> entry_drift edge host config request profile
           | _ \<Rightarrow> Some ''the daemon inspect report is malformed'')
      | Some _ \<Rightarrow> Some ''the daemon inspect report is malformed'')"

section \<open>One run\<close>

definition failed :: "output_text \<Rightarrow> py_error + execution_result" where
  "failed out = make_execution_result ''FAILED'' PNone out"

definition issue :: "'e docker_edge \<Rightarrow> string list \<Rightarrow> rat \<Rightarrow> int \<Rightarrow> 'e docker_world \<Rightarrow>
    command_outcome reply \<times> 'e docker_world" where
  \<comment> \<open>One call of the runner, recorded.\<close>
  "issue edge argv timeout cap w =
     (let (r, e) = dk_runner edge argv timeout cap (dw_env w)
      in (r, \<lparr>dw_env = e, dw_log = dw_log w @ [(argv, r)]\<rparr>))"

definition invoke :: "'e docker_edge \<Rightarrow> string list \<Rightarrow> rat \<Rightarrow> int \<Rightarrow> 'e docker_world \<Rightarrow>
    command_outcome option reply \<times> 'e docker_world" where
  "invoke edge argv deadline cap w =
     (let (now, e) = dk_clock edge (dw_env w); w1 = w\<lparr>dw_env := e\<rparr>; remaining = deadline - now
      in if remaining \<le> 0 then (Returns None, w1)
         else (case issue edge argv remaining cap w1 of
             (Returns out, w2) \<Rightarrow> (Returns (Some out), w2)
           | (_, w2) \<Rightarrow> (Raises, w2)))"

definition invoke_cleanup :: "'e docker_edge \<Rightarrow> string list \<Rightarrow> int \<Rightarrow> 'e docker_world \<Rightarrow> 'e docker_world" where
  \<comment> \<open>Called inside \<open>try: ... except Exception: pass\<close>, so the reply is ignored.\<close>
  "invoke_cleanup edge argv cap w = snd (issue edge argv cleanup_timeout_seconds cap w)"

definition bounded_output :: "command_outcome \<Rightarrow> int \<Rightarrow> output_text" where
  "bounded_output out cap =
     (let combined = co_stdout out @ co_stderr out
      in decode_replace (if int (length combined) > cap then take (nat cap) combined else combined))"

definition overflowed :: "command_outcome \<Rightarrow> int \<Rightarrow> bool" where
  "overflowed out cap \<longleftrightarrow> co_truncated out \<or> int (length (co_stdout out) + length (co_stderr out)) > cap"

definition stop_container :: "'e docker_edge \<Rightarrow> string \<Rightarrow> int \<Rightarrow> 'e docker_world \<Rightarrow> 'e docker_world" where
  "stop_container edge container cap = invoke_cleanup edge (stop_argv container) cap"

definition remove_container :: "'e docker_edge \<Rightarrow> string \<Rightarrow> int \<Rightarrow> 'e docker_world \<Rightarrow> 'e docker_world" where
  "remove_container edge container cap = invoke_cleanup edge (remove_argv container) cap"

definition start_result :: "command_outcome \<Rightarrow> int \<Rightarrow> py_error + execution_result" where
  "start_result out cap =
     (let text = bounded_output out cap
      in if co_timed_out out then make_execution_result ''TIMED_OUT'' PNone text
         else if overflowed out cap then failed text
         else (case co_returncode out of
             None \<Rightarrow> failed text
           | Some code \<Rightarrow>
               if code = 0 then make_execution_result ''SUCCEEDED'' (PInt 0) text
               else if \<not> (0 \<le> code \<and> code \<le> 255) then failed text
               else make_execution_result ''FAILED'' (PInt code) text))"

definition start_phase :: "'e docker_edge \<Rightarrow> string \<Rightarrow> rat \<Rightarrow> int \<Rightarrow> 'e docker_world \<Rightarrow>
    execution_result reply \<times> 'e docker_world" where
  "start_phase edge container deadline cap w =
     (case invoke edge (start_argv container) deadline cap w of
        (Returns None, w1) \<Rightarrow> (reply_of (failed []), w1)
      | (Returns (Some out), w1) \<Rightarrow>
          (reply_of (start_result out cap),
           if co_timed_out out then stop_container edge container cap w1 else w1)
      | (_, w1) \<Rightarrow> (Raises, w1))"

definition command_ok :: "command_outcome option \<Rightarrow> bool" where
  "command_ok q = (case q of None \<Rightarrow> False | Some out \<Rightarrow> \<not> co_timed_out out \<and> co_returncode out = Some 0)"

definition inspect_phase :: "'e docker_edge \<Rightarrow> execution_request \<Rightarrow> execution_profile \<Rightarrow> string \<Rightarrow> rat \<Rightarrow> int \<Rightarrow>
    'e docker_world \<Rightarrow> execution_result reply \<times> 'e docker_world" where
  "inspect_phase edge request profile container deadline cap w =
     (case invoke edge (inspect_argv container) deadline cap w of
        (Returns q, w1) \<Rightarrow>
          if \<not> command_ok q then (reply_of (failed []), w1)
          else if daemon_drift edge (co_stdout (the q)) request profile \<noteq> None then (reply_of (failed []), w1)
          else start_phase edge container deadline cap w1
      | (_, w1) \<Rightarrow> (Raises, w1))"

text \<open>The body of the \<open>try\<close>: its reply, and whether \<open>created\<close> was set.\<close>

definition try_body :: "'e docker_edge \<Rightarrow> execution_request \<Rightarrow> execution_profile \<Rightarrow> string \<Rightarrow> rat \<Rightarrow> int \<Rightarrow>
    'e docker_world \<Rightarrow> execution_result reply \<times> bool \<times> 'e docker_world" where
  "try_body edge request profile container deadline cap w =
     (case invoke edge (create_argv (dk_source edge) container request profile) deadline cap w of
        (Returns q, w1) \<Rightarrow>
          if \<not> command_ok q then (reply_of (failed []), False, w1)
          else (let (r, w2) = inspect_phase edge request profile container deadline cap w1 in (r, True, w2))
      | (_, w1) \<Rightarrow> (Raises, False, w1))"

definition docker_run :: "'e docker_edge \<Rightarrow> 'e docker_world execution_port" where
  "docker_run edge request profile w =
     (let (now, e1) = dk_clock edge (dw_env w);
          deadline = now + of_int (ep_timeout profile);
          cap = ep_max_output profile;
          (suffix, e2) = dk_uuid edge e1;
          container = ''vespercode-exec-'' @ suffix;
          (r, created, w1) = try_body edge request profile container deadline cap (w\<lparr>dw_env := e2\<rparr>);
          r' = (case r of Returns x \<Rightarrow> Returns x | _ \<Rightarrow> reply_of (failed []))
      in (r', if created then remove_container edge container cap w1 else w1))"

section \<open>The readiness probe\<close>

record probe_result =
  pr_returncode :: int
  pr_stdout :: string

definition make_probe_result :: "pyval \<Rightarrow> string \<Rightarrow> py_error + probe_result" where
  "make_probe_result code out =
     (case code of
        PInt n \<Rightarrow> if - 255 \<le> n \<and> n \<le> 255 then Inr \<lparr>pr_returncode = n, pr_stdout = out\<rparr>
          else Inl (ValueError ''returncode is out of the bounded range'')
      | _ \<Rightarrow> Inl (ValueError ''returncode must be an integer''))"

type_synonym 'e probe_runner = "string list \<Rightarrow> 'e \<Rightarrow> probe_result reply \<times> 'e"

definition image_inspect_argv :: "execution_profile \<Rightarrow> string list" where
  "image_inspect_argv profile = [''docker'', ''image'', ''inspect'', ep_image profile]"

definition daemon_argv :: "string list" where
  "daemon_argv = [''docker'', ''info'']"

definition probe_check :: "'e probe_runner \<Rightarrow> 'e readiness_port" where
  "probe_check runner profile w =
     (case runner (image_inspect_argv profile) w of
        (Raises, w1) \<Rightarrow> (reply_of (make_readiness ''NOT_READY'' (Some ''DAEMON_UNAVAILABLE'')), w1)
      | (Foreign, w1) \<Rightarrow> (Raises, w1)
      | (Returns out, w1) \<Rightarrow>
          if pr_returncode out = 0 then (reply_of (make_readiness ''READY'' None), w1)
          else (case runner daemon_argv w1 of
              (Raises, w2) \<Rightarrow> (reply_of (make_readiness ''NOT_READY'' (Some ''DAEMON_UNAVAILABLE'')), w2)
            | (Foreign, w2) \<Rightarrow> (Raises, w2)
            | (Returns out2, w2) \<Rightarrow>
                if pr_returncode out2 = 0
                  then (reply_of (make_readiness ''NOT_READY'' (Some ''IMAGE_NOT_AVAILABLE'')), w2)
                else (reply_of (make_readiness ''NOT_READY'' (Some ''DAEMON_UNAVAILABLE'')), w2)))"

text \<open>The production edges over one world: the database and the container environment.\<close>

definition probe_port :: "'e probe_runner \<Rightarrow> (database \<times> 'e docker_world) readiness_port" where
  "probe_port runner profile w =
     (let (r, e) = probe_check runner profile (dw_env (snd w)) in (r, (fst w, (snd w)\<lparr>dw_env := e\<rparr>)))"

definition docker_port :: "'e docker_edge \<Rightarrow> (database \<times> 'e docker_world) execution_port" where
  "docker_port edge request profile w =
     (let (r, d) = docker_run edge request profile (snd w) in (r, (fst w, d)))"

end
