(* ===== verification/Docker_Trace.thy ===== *)
theory Docker_Trace
  imports Docker_Executor
begin

text \<open>
  What one container run may do, as an abstract specification over the commands it issues:
  \<open>docker_trace\<close> lists the closed command sequences with the reply each command got and the result
  each sequence reports. \<open>docker_run\<close> refines it whatever the runner, the clock and the daemon do.
  The production edges are then an instance of the ports the execution service relies on.
\<close>

section \<open>The specification\<close>

definition accepted :: "command_outcome reply \<Rightarrow> bool" where
  "accepted q = (case q of Returns out \<Rightarrow> command_ok (Some out) | _ \<Rightarrow> False)"

definition clean_report :: "'e docker_edge \<Rightarrow> execution_request \<Rightarrow> execution_profile \<Rightarrow>
    command_outcome reply \<Rightarrow> bool" where
  "clean_report edge request profile q =
     (case q of Returns out \<Rightarrow> command_ok (Some out) \<and> daemon_drift edge (co_stdout out) request profile = None
      | _ \<Rightarrow> False)"

definition failure :: execution_result where
  "failure = \<lparr>ex_status = ''FAILED'', ex_exit_code = None, ex_output = []\<rparr>"

definition start_report :: "int \<Rightarrow> command_outcome \<Rightarrow> execution_result" where
  "start_report cap out =
     (let ok = (\<not> co_timed_out out \<and> \<not> overflowed out cap)
      in \<lparr>ex_status = (if co_timed_out out then ''TIMED_OUT''
                       else if ok \<and> co_returncode out = Some 0 then ''SUCCEEDED'' else ''FAILED''),
          ex_exit_code = (case co_returncode out of
             Some n \<Rightarrow> if ok \<and> 0 \<le> n \<and> n \<le> 255 then Some n else None | None \<Rightarrow> None),
          ex_output = bounded_output out cap\<rparr>)"

inductive docker_trace :: "'e docker_edge \<Rightarrow> execution_request \<Rightarrow> execution_profile \<Rightarrow> string \<Rightarrow>
    (string list \<times> command_outcome reply) list \<Rightarrow> execution_result \<Rightarrow> bool"
  for edge request profile c where
  late: "docker_trace edge request profile c [] failure"
| not_created: "\<not> accepted q1 \<Longrightarrow>
    docker_trace edge request profile c [(create_argv (dk_source edge) c request profile, q1)] failure"
| not_inspected: "accepted q1 \<Longrightarrow>
    docker_trace edge request profile c
      [(create_argv (dk_source edge) c request profile, q1), (remove_argv c, q)] failure"
| not_started: "accepted q1 \<Longrightarrow>
    docker_trace edge request profile c
      [(create_argv (dk_source edge) c request profile, q1), (inspect_argv c, q2), (remove_argv c, q)] failure"
| broken: "accepted q1 \<Longrightarrow> clean_report edge request profile q2 \<Longrightarrow> q3 = Raises \<or> q3 = Foreign \<Longrightarrow>
    docker_trace edge request profile c
      [(create_argv (dk_source edge) c request profile, q1), (inspect_argv c, q2),
       (start_argv c, q3), (remove_argv c, q)] failure"
| finished: "accepted q1 \<Longrightarrow> clean_report edge request profile q2 \<Longrightarrow> \<not> co_timed_out out \<Longrightarrow>
    docker_trace edge request profile c
      [(create_argv (dk_source edge) c request profile, q1), (inspect_argv c, q2),
       (start_argv c, Returns out), (remove_argv c, q)] (start_report (ep_max_output profile) out)"
| timed_out: "accepted q1 \<Longrightarrow> clean_report edge request profile q2 \<Longrightarrow> co_timed_out out \<Longrightarrow>
    docker_trace edge request profile c
      [(create_argv (dk_source edge) c request profile, q1), (inspect_argv c, q2),
       (start_argv c, Returns out), (stop_argv c, q3), (remove_argv c, q)]
      (start_report (ep_max_output profile) out)"

section \<open>Results\<close>

lemma failed_eq: "length out \<le> result_max_output_chars \<Longrightarrow>
    failed out = Inr \<lparr>ex_status = ''FAILED'', ex_exit_code = None, ex_output = out\<rparr>"
  by (simp add: failed_def make_execution_result_eq_Inr valid_result_def)

lemma failed_Nil [simp]: "failed [] = Inr failure"
  by (simp add: failed_eq failure_def)

lemma valid_failure [simp]: "valid_result failure"
  by (simp add: valid_result_def failure_def)

lemma length_bounded_output:
  assumes "0 \<le> cap"
  shows "int (length (bounded_output out cap)) \<le> cap"
proof -
  define xs where "xs = co_stdout out @ co_stderr out"
  show ?thesis
    using assms length_decode_replace [of "take (nat cap) xs"] length_decode_replace [of xs]
    unfolding bounded_output_def Let_def xs_def [symmetric] by auto
qed

lemma bounded_output_fits:
  assumes "valid_profile profile"
  shows "length (bounded_output out (ep_max_output profile)) \<le> result_max_output_chars"
proof -
  have "int (length (bounded_output out (ep_max_output profile))) \<le> ep_max_output profile"
    using assms length_bounded_output [of "ep_max_output profile" out] by (simp add: valid_profile_def)
  also have "\<dots> \<le> max_profile_output_bytes" using assms by (simp add: valid_profile_def)
  also have "\<dots> \<le> int result_max_output_chars"
    by (simp add: max_profile_output_bytes_def result_max_output_chars_def)
  finally show ?thesis by simp
qed

lemma valid_start_report:
  assumes "valid_profile profile"
  shows "valid_result (start_report (ep_max_output profile) out)"
  using bounded_output_fits [OF assms, of out]
  by (cases "co_timed_out out"; cases "co_returncode out") (auto simp: start_report_def Let_def valid_result_def)

lemma start_result_eq:
  assumes "valid_profile profile"
  shows "start_result out (ep_max_output profile) = Inr (start_report (ep_max_output profile) out)"
proof -
  note fits = bounded_output_fits [OF assms, of out]
  note ok = valid_start_report [OF assms, of out]
  show ?thesis
    using fits ok unfolding start_result_def Let_def
    by (cases "co_timed_out out"; cases "overflowed out (ep_max_output profile)"; cases "co_returncode out")
      (auto simp: failed_eq make_execution_result_eq_Inr start_report_def Let_def)
qed

section \<open>The phases\<close>

lemma issue_log: "issue edge argv t cap w = (r, w') \<Longrightarrow> dw_log w' = dw_log w @ [(argv, r)]"
  by (auto simp: issue_def split: prod.splits)

lemma cleanup_log: obtains q where "dw_log (invoke_cleanup edge argv cap w) = dw_log w @ [(argv, q)]"
proof -
  obtain q w' where i: "issue edge argv cleanup_timeout_seconds cap w = (q, w')" by fastforce
  then show ?thesis using that issue_log [OF i] by (simp add: invoke_cleanup_def)
qed

lemma invoke_cases:
  obtains (late) w' where "invoke edge argv deadline cap w = (Returns None, w')" "dw_log w' = dw_log w"
  | (answered) out w' where "invoke edge argv deadline cap w = (Returns (Some out), w')"
      "dw_log w' = dw_log w @ [(argv, Returns out)]"
  | (raised) q w' where "invoke edge argv deadline cap w = (Raises, w')" "q = Raises \<or> q = Foreign"
      "dw_log w' = dw_log w @ [(argv, q)]"
proof -
  obtain now e where clk: "dk_clock edge (dw_env w) = (now, e)" by fastforce
  show ?thesis
  proof (cases "deadline - now \<le> 0")
    case True
    then show ?thesis using late [of "w\<lparr>dw_env := e\<rparr>"] by (simp add: invoke_def clk)
  next
    case False
    obtain q w' where i: "issue edge argv (deadline - now) cap (w\<lparr>dw_env := e\<rparr>) = (q, w')" by fastforce
    note log = issue_log [OF i]
    show ?thesis
    proof (cases q)
      case Raises
      then show ?thesis using raised [of w' q] False i log by (simp add: invoke_def clk)
    next
      case Foreign
      then show ?thesis using raised [of w' q] False i log by (simp add: invoke_def clk)
    next
      case (Returns out)
      then show ?thesis using answered [of out w'] False i log by (simp add: invoke_def clk)
    qed
  qed
qed

lemma start_phase_cases:
  assumes "valid_profile profile" and cap: "cap = ep_max_output profile"
  obtains (unstarted) w' where "start_phase edge c deadline cap w = (Returns failure, w')" "dw_log w' = dw_log w"
  | (interrupted) q w' where "start_phase edge c deadline cap w = (Raises, w')" "q = Raises \<or> q = Foreign"
      "dw_log w' = dw_log w @ [(start_argv c, q)]"
  | (finished) out w' where "start_phase edge c deadline cap w = (Returns (start_report cap out), w')"
      "\<not> co_timed_out out" "dw_log w' = dw_log w @ [(start_argv c, Returns out)]"
  | (timed_out) out q w' where "start_phase edge c deadline cap w = (Returns (start_report cap out), w')"
      "co_timed_out out" "dw_log w' = dw_log w @ [(start_argv c, Returns out), (stop_argv c, q)]"
proof (cases rule: invoke_cases [of edge "start_argv c" deadline cap w])
  case (late w')
  then show ?thesis using that(1) by (simp add: start_phase_def)
next
  case (raised q w')
  then show ?thesis using that(2) by (simp add: start_phase_def)
next
  case (answered out w')
  note res = start_result_eq [OF assms(1), of out, folded cap]
  obtain q where q: "dw_log (stop_container edge c cap w') = dw_log w' @ [(stop_argv c, q)]"
    using cleanup_log unfolding stop_container_def by metis
  show ?thesis
  proof (cases "co_timed_out out")
    case True
    then show ?thesis
      using that(4) [of out "stop_container edge c cap w'" q] answered q res by (simp add: start_phase_def)
  next
    case False
    then show ?thesis using that(3) [of out w'] answered res by (simp add: start_phase_def)
  qed
qed

definition reported :: "execution_result reply \<Rightarrow> execution_result" where
  "reported r = (case r of Returns x \<Rightarrow> x | _ \<Rightarrow> failure)"

lemma reported_simps [simp]: "reported (Returns x) = x" "reported Raises = failure" "reported Foreign = failure"
  by (simp_all add: reported_def)

text \<open>What a phase adds to the log, with the removal that follows, and what it reports.\<close>

definition traced :: "'e docker_edge \<Rightarrow> execution_request \<Rightarrow> execution_profile \<Rightarrow> string \<Rightarrow>
    (string list \<times> command_outcome reply) list \<Rightarrow> bool \<Rightarrow> execution_result reply \<Rightarrow> bool" where
  "traced edge request profile c cmds created r \<longleftrightarrow>
     (\<forall>q. docker_trace edge request profile c (cmds @ (if created then [(remove_argv c, q)] else [])) (reported r))"

lemma inspect_phase_trace:
  assumes prof: "valid_profile profile" and cap: "cap = ep_max_output profile" and q1: "accepted q1"
    and phase: "inspect_phase edge request profile c deadline cap w = (r, w')"
  shows "\<exists>cmds. dw_log w' = dw_log w @ cmds \<and>
    traced edge request profile c ((create_argv (dk_source edge) c request profile, q1) # cmds) True r"
    (is "\<exists>cmds. ?log cmds")
proof (cases rule: invoke_cases [of edge "inspect_argv c" deadline cap w])
  case (late w1)
  then have "r = Returns failure" "w' = w1" using phase by (simp_all add: inspect_phase_def command_ok_def)
  then have "?log []" using late(2) by (simp add: traced_def docker_trace.not_inspected [OF q1])
  then show ?thesis ..
next
  case (raised q w1)
  then have "r = Raises" "w' = w1" using phase by (simp_all add: inspect_phase_def)
  then have "?log [(inspect_argv c, q)]"
    using raised(3) by (simp add: traced_def docker_trace.not_started [OF q1])
  then show ?thesis ..
next
  case (answered out w1)
  let ?q2 = "Returns out"
  show ?thesis
  proof (cases "clean_report edge request profile ?q2")
    case False
    then have "r = Returns failure" "w' = w1"
      using phase answered(1) by (auto simp: inspect_phase_def clean_report_def split: if_splits)
    then have "?log [(inspect_argv c, ?q2)]"
      using answered(2) by (simp add: traced_def docker_trace.not_started [OF q1])
    then show ?thesis ..
  next
    case True
    then have start: "start_phase edge c deadline cap w1 = (r, w')"
      using phase answered(1) by (simp add: inspect_phase_def clean_report_def)
    from prof cap show ?thesis
    proof (cases rule: start_phase_cases [where edge = edge and c = c and deadline = deadline and w = w1])
      case (unstarted w2)
      then have "?log [(inspect_argv c, ?q2)]"
        using answered(2) start by (simp add: traced_def docker_trace.not_started [OF q1])
      then show ?thesis ..
    next
      case (interrupted q3 w2)
      then have "?log [(inspect_argv c, ?q2), (start_argv c, q3)]"
        using answered(2) start by (simp add: traced_def docker_trace.broken [OF q1 True interrupted(2)])
      then show ?thesis ..
    next
      case (finished out3 w2)
      then have "?log [(inspect_argv c, ?q2), (start_argv c, Returns out3)]"
        using answered(2) start cap by (auto simp: traced_def docker_trace.finished [OF q1 True finished(2)])
      then show ?thesis ..
    next
      case (timed_out out3 q3 w2)
      then have "?log [(inspect_argv c, ?q2), (start_argv c, Returns out3), (stop_argv c, q3)]"
        using answered(2) start cap by (auto simp: traced_def docker_trace.timed_out [OF q1 True timed_out(2)])
      then show ?thesis ..
    qed
  qed
qed

lemma try_body_trace:
  assumes prof: "valid_profile profile" and cap: "cap = ep_max_output profile"
    and body: "try_body edge request profile c deadline cap w = (r, created, w')"
  shows "\<exists>cmds. dw_log w' = dw_log w @ cmds \<and> traced edge request profile c cmds created r"
    (is "\<exists>cmds. ?log cmds")
proof (cases rule: invoke_cases [of edge "create_argv (dk_source edge) c request profile" deadline cap w])
  case (late w1)
  then have "r = Returns failure" "w' = w1" "\<not> created" using body by (simp_all add: try_body_def command_ok_def)
  then have "?log []" using late(2) by (simp add: traced_def docker_trace.late)
  then show ?thesis ..
next
  case (raised q w1)
  then have "r = Raises" "w' = w1" "\<not> created" using body by (simp_all add: try_body_def)
  moreover have "\<not> accepted q" using raised(2) by (auto simp: accepted_def)
  ultimately have "?log [(create_argv (dk_source edge) c request profile, q)]"
    using raised(3) by (simp add: traced_def docker_trace.not_created)
  then show ?thesis ..
next
  case (answered out w1)
  show ?thesis
  proof (cases "accepted (Returns out)")
    case False
    then have "r = Returns failure" "w' = w1" "\<not> created"
      using body answered(1) by (simp_all add: try_body_def accepted_def)
    then have "?log [(create_argv (dk_source edge) c request profile, Returns out)]"
      using answered(2) by (simp add: traced_def docker_trace.not_created [OF False])
    then show ?thesis ..
  next
    case True
    then have phase: "inspect_phase edge request profile c deadline cap w1 = (r, w')" and "created"
      using body answered(1) by (auto simp: try_body_def accepted_def split: prod.splits)
    from inspect_phase_trace [OF prof cap True phase] show ?thesis
      using answered(2) \<open>created\<close> by auto
  qed
qed

definition container_name :: "string \<Rightarrow> string" where
  "container_name sfx = ''vespercode-exec-'' @ sfx"

lemma docker_run_body:
  assumes "docker_run edge request profile w = (r, w')"
  obtains c deadline q created w0 w1 where "dw_log w0 = dw_log w"
    "try_body edge request profile c deadline (ep_max_output profile) w0 = (q, created, w1)"
    "r = Returns (reported q)"
    "w' = (if created then remove_container edge c (ep_max_output profile) w1 else w1)"
proof -
  obtain now e1 where clk: "dk_clock edge (dw_env w) = (now, e1)" by fastforce
  obtain sfx e2 where uuid: "dk_uuid edge e1 = (sfx, e2)" by fastforce
  obtain q created w1 where body: "try_body edge request profile (container_name sfx)
      (now + of_int (ep_timeout profile)) (ep_max_output profile) (w\<lparr>dw_env := e2\<rparr>) = (q, created, w1)"
    by (metis prod_cases3)
  have "(r, w') = (case q of Returns x \<Rightarrow> Returns x | _ \<Rightarrow> reply_of (failed []),
      if created then remove_container edge (container_name sfx) (ep_max_output profile) w1 else w1)"
    using assms unfolding docker_run_def Let_def clk prod.case uuid container_name_def [symmetric] body by simp
  then show ?thesis
    using that [OF _ body] by (cases q) auto
qed

lemma docker_run_trace:
  assumes "valid_profile profile" and "docker_run edge request profile w = (r, w')"
  obtains x c cmds where "r = Returns x" "dw_log w' = dw_log w @ cmds"
    "docker_trace edge request profile c cmds x"
  using assms(2)
proof (rule docker_run_body)
  fix c deadline q created w0 w1
  assume w0: "dw_log w0 = dw_log w"
    and body: "try_body edge request profile c deadline (ep_max_output profile) w0 = (q, created, w1)"
    and r: "r = Returns (reported q)"
    and w': "w' = (if created then remove_container edge c (ep_max_output profile) w1 else w1)"
  obtain cs where cs: "dw_log w1 = dw_log w0 @ cs" "traced edge request profile c cs created q"
    using try_body_trace [OF assms(1) refl body] by blast
  obtain p where p: "dw_log (remove_container edge c (ep_max_output profile) w1) = dw_log w1 @ [(remove_argv c, p)]"
    using cleanup_log unfolding remove_container_def by metis
  show ?thesis
    using that [OF r, of "cs @ (if created then [(remove_argv c, p)] else [])" c] cs w0 w' p
    unfolding traced_def by simp
qed

lemma docker_trace_valid:
  "docker_trace edge request profile c cmds x \<Longrightarrow> valid_profile profile \<Longrightarrow> valid_result x"
  by (induction rule: docker_trace.induct) (simp_all add: valid_start_report)

section \<open>The production edges keep the port contract\<close>

lemma probe_valid: "probe_check runner profile w = (Returns rd, w') \<Longrightarrow> valid_readiness rd"
  by (auto simp: probe_check_def make_readiness_eq_Inr split: prod.splits reply.splits if_splits)

lemma docker_port_log:
  assumes "valid_profile profile" and "docker_port edge request profile w = (r, w')"
  obtains x c cmds where "r = Returns x" "fst w' = fst w" "dw_log (snd w') = dw_log (snd w) @ cmds"
    "docker_trace edge request profile c cmds x"
proof -
  obtain r0 d where run: "docker_run edge request profile (snd w) = (r0, d)" by fastforce
  then have "r = r0" "w' = (fst w, d)" using assms(2) by (simp_all add: docker_port_def)
  with assms(1) run show ?thesis using that docker_run_trace by (metis fst_conv snd_conv)
qed

interpretation production: execution_edges database_port "probe_port runner" "docker_port edge"
  for runner edge
proof
  fix r c v p n w b w'
  assume "database_port r c v p n w = (Returns b, w')"
  then show "valid_binding_outcome b"
    by (auto simp: database_port_def intro: lookup_valid_outcome)
next
  fix profile w rd w'
  assume "probe_port runner profile w = (Returns rd, w')"
  then show "valid_readiness rd"
    by (auto simp: probe_port_def split: prod.splits dest: probe_valid)
next
  fix profile request w x w'
  assume "valid_profile profile" "docker_port edge request profile w = (Returns x, w')"
  then show "valid_result x"
    by (auto elim: docker_port_log dest: docker_trace_valid)
qed

text \<open>The binding and the probe issue no container command and leave the database alone.\<close>

lemma untouched_quiet:
  "w' \<in> untouched profile database_port (probe_port runner) request w \<Longrightarrow>
     fst w' = fst w \<and> dw_log (snd w') = dw_log (snd w)"
  by (auto simp: untouched_def Let_def binding_call_def database_port_def probe_port_def split: prod.splits)

lemma cleared_quiet:
  "cleared rc profile database_port (probe_port runner) request w w' \<Longrightarrow>
     fst w' = fst w \<and> dw_log (snd w') = dw_log (snd w)"
  by (auto simp: cleared_def binding_call_def database_port_def probe_port_def split: prod.splits)

lemma request_keys:
  "valid_request request \<Longrightarrow>
     opaque_keys (er_run_id request) (er_candidate_id request) (er_validation_run_id request) (er_reference_id request)"
  by (simp add: valid_request_def opaque_keys_def)

lemma bound_facts_resolved:
  "er_validation_run_id request = Some vid \<Longrightarrow>
     \<lparr>bo_kind = ''RESOLVED'', bo_facts = Some (bound_facts request)\<rparr> =
     resolved vid (er_run_id request) (er_candidate_id request) (er_candidate_revision request)
       (er_reference_id request) (er_reference_revision request)"
  by (simp add: bound_facts_def passed_facts_def resolved_def)

lemma cleared_evidence:
  assumes "cleared True profile database_port (probe_port runner) request (db, d) w2"
    and "valid_request request"
  obtains vid where "er_validation_run_id request = Some vid"
    "evidence vid (er_run_id request) (er_candidate_id request) (er_candidate_revision request)
       (er_reference_id request) (er_reference_revision request) db"
proof -
  from assms(1) obtain vid b where vid: "er_validation_run_id request = Some vid"
      and b: "bo_kind b = ''RESOLVED''" "bo_facts b = Some (bound_facts request)"
      and l: "lookup_execution_binding (er_run_id request) (er_candidate_id request) (Some vid)
        (er_reference_id request) (er_reference_revision request) db = Inr b"
    by (auto simp: cleared_def binding_call_def database_port_def)
  have "b = \<lparr>bo_kind = ''RESOLVED'', bo_facts = Some (bound_facts request)\<rparr>" using b by (cases b) simp
  with l bound_facts_resolved [OF vid]
  show ?thesis
    using that [OF vid] resolved_iff_evidence request_keys [OF assms(2)] vid by metis
qed

end
