(* ===== verification/Command_Runner.thy ===== *)
theory Command_Runner
  imports Docker_Executor "HOL-Library.Sublist"
begin

text \<open>
  The bounded collection of the default command runner, \<open>_default_command_runner\<close> of
  \<open>execution/v2_docker_executor.py\<close>: two reader threads drain the two pipes of the process into
  one shared byte budget guarded by a lock, the thread that exhausts it kills the process, and the wait
  of the main thread may time out and kill it too. The critical section is one atomic step
  (\<open>collect_chunk\<close>); the threads, the kill and the pipe interleave freely (\<open>collect_step\<close>).

  The state starts with everything the process would ever write on a pipe; a killed process may lose
  any tail of what is not yet read.
\<close>

section \<open>The collector\<close>

datatype pipe = Stdout | Stderr

record collector =
  cl_budget :: int
  cl_truncated :: bool
  cl_timed_out :: bool
  cl_killed :: bool
  cl_pending :: "pipe \<Rightarrow> nat list"
  cl_collected :: "pipe \<Rightarrow> nat list"
  cl_finished :: "pipe \<Rightarrow> bool"

definition start_collector :: "int \<Rightarrow> (pipe \<Rightarrow> nat list) \<Rightarrow> collector" where
  "start_collector max_bytes written =
     \<lparr>cl_budget = max_bytes, cl_truncated = False, cl_timed_out = False, cl_killed = False,
      cl_pending = written, cl_collected = (\<lambda>_. []), cl_finished = (\<lambda>_. False)\<rparr>"

definition chunk_bytes :: nat where
  "chunk_bytes = 65536"

definition collect_chunk :: "pipe \<Rightarrow> nat list \<Rightarrow> collector \<Rightarrow> collector" where
  "collect_chunk p chunk st =
     (if cl_budget st \<le> 0
        then st\<lparr>cl_truncated := True, cl_finished := (cl_finished st)(p := True)\<rparr>
      else if int (length chunk) > cl_budget st
        then st\<lparr>cl_collected := (cl_collected st)(p := cl_collected st p @ take (nat (cl_budget st)) chunk),
                cl_budget := 0, cl_truncated := True, cl_finished := (cl_finished st)(p := True)\<rparr>
      else st\<lparr>cl_budget := cl_budget st - int (length chunk),
              cl_collected := (cl_collected st)(p := cl_collected st p @ chunk)\<rparr>)"

inductive collect_step :: "collector \<Rightarrow> collector \<Rightarrow> bool" where
  read: "\<not> cl_finished st p \<Longrightarrow> cl_pending st p = chunk @ rest \<Longrightarrow> chunk \<noteq> [] \<Longrightarrow> length chunk \<le> chunk_bytes \<Longrightarrow>
    collect_step st (collect_chunk p chunk (st\<lparr>cl_pending := (cl_pending st)(p := rest)\<rparr>))"
| eof: "\<not> cl_finished st p \<Longrightarrow> cl_pending st p = [] \<Longrightarrow>
    collect_step st (st\<lparr>cl_finished := (cl_finished st)(p := True)\<rparr>)"
| overflow_kill: "\<not> cl_killed st \<Longrightarrow> cl_finished st p \<Longrightarrow> cl_truncated st \<Longrightarrow>
    collect_step st (st\<lparr>cl_killed := True\<rparr>)"
| timeout_kill: "\<not> cl_timed_out st \<Longrightarrow>
    collect_step st (st\<lparr>cl_timed_out := True, cl_killed := True\<rparr>)"
| lose: "cl_killed st \<Longrightarrow> n < length (cl_pending st p) \<Longrightarrow>
    collect_step st (st\<lparr>cl_pending := (cl_pending st)(p := take n (cl_pending st p))\<rparr>)"

inductive_cases collect_stepE: "collect_step st st'"

definition boxed :: "collector \<Rightarrow> pipe \<Rightarrow> nat list" where
  \<comment> \<open>\<open>box[0] if box else b""\<close>: a reader that did not finish within its join left the box empty.\<close>
  "boxed st p = (if cl_finished st p then cl_collected st p else [])"

definition runner_outcome :: "int \<Rightarrow> collector \<Rightarrow> py_error + command_outcome" where
  "runner_outcome code st =
     make_command_outcome (if cl_timed_out st then None else Some code) (boxed st Stdout) (boxed st Stderr)
       (cl_timed_out st) (cl_truncated st)"

section \<open>The budget invariant\<close>

definition piped :: "(pipe \<Rightarrow> nat list) \<Rightarrow> int" where
  "piped f = int (length (f Stdout) + length (f Stderr))"

lemma piped_upd: "piped (f(p := xs)) = piped f - int (length (f p)) + int (length xs)"
  by (cases p) (simp_all add: piped_def)

lemma piped_nonneg [simp]: "0 \<le> piped f"
  by (simp add: piped_def)

lemma piped_ge: "int (length (f p)) \<le> piped f"
  by (cases p) (simp_all add: piped_def)

definition collector_ok :: "int \<Rightarrow> (pipe \<Rightarrow> nat list) \<Rightarrow> collector \<Rightarrow> bool" where
  "collector_ok max_bytes written st \<longleftrightarrow>
     0 \<le> cl_budget st \<and> piped (cl_collected st) + cl_budget st = max_bytes \<and>
     piped (cl_collected st) + piped (cl_pending st) \<le> piped written \<and>
     (cl_truncated st \<longrightarrow> cl_budget st = 0 \<and> max_bytes < piped written) \<and>
     (\<forall>p. prefix (cl_collected st p) (written p)) \<and>
     (\<forall>p. \<not> cl_finished st p \<longrightarrow> prefix (cl_collected st p @ cl_pending st p) (written p)) \<and>
     (\<not> cl_truncated st \<and> \<not> cl_killed st \<longrightarrow> (\<forall>p. cl_collected st p @ cl_pending st p = written p)) \<and>
     (\<forall>p. cl_finished st p \<and> \<not> cl_truncated st \<longrightarrow> cl_pending st p = [])"

lemma collector_ok_start: "0 \<le> max_bytes \<Longrightarrow> collector_ok max_bytes written (start_collector max_bytes written)"
  by (simp add: collector_ok_def start_collector_def piped_def)

lemma collector_ok_read:
  assumes ok: "collector_ok m written st" and p: "\<not> cl_finished st p" "cl_pending st p = chunk @ rest" "chunk \<noteq> []"
  shows "collector_ok m written (collect_chunk p chunk (st\<lparr>cl_pending := (cl_pending st)(p := rest)\<rparr>))"
proof -
  have pre: "prefix (cl_collected st p @ chunk @ rest) (written p)"
    using ok p unfolding collector_ok_def by metis
  then have pre1: "prefix (cl_collected st p @ chunk) (written p)"
    and pre2: "prefix (cl_collected st p @ take n chunk) (written p)" for n
    by (metis append.assoc append_prefixD, metis append.assoc append_prefixD append_take_drop_id)
  have whole: "\<not> cl_truncated st \<Longrightarrow> \<not> cl_killed st \<Longrightarrow> cl_collected st p @ chunk @ rest = written p"
    using ok p unfolding collector_ok_def by metis
  have len: "0 < length chunk" using p(3) by simp
  have tot: "piped (cl_collected st) + piped (cl_pending st) \<le> piped written" "0 \<le> cl_budget st"
      "piped (cl_collected st) + cl_budget st = m"
    using ok by (simp_all add: collector_ok_def)
  have pend: "int (length chunk) + int (length rest) \<le> piped (cl_pending st)"
    using piped_ge [of "cl_pending st" p] p(2) by simp
  have over: "m < piped written" if "cl_budget st < int (length chunk)"
    using tot pend that by linarith
  consider (none) "cl_budget st = 0" | (some) "0 < cl_budget st" "int (length chunk) > cl_budget st"
    | (all) "0 < cl_budget st" "int (length chunk) \<le> cl_budget st"
    using tot(2) by linarith
  then show ?thesis
  proof cases
    case none
    then have "m < piped written" using over len by simp
    with none show ?thesis
      using ok p tot pend unfolding collector_ok_def collect_chunk_def by (simp add: piped_upd)
  next
    case some
    then show ?thesis
      using ok p tot pend over pre2 unfolding collector_ok_def collect_chunk_def by (simp add: piped_upd)
  next
    case all
    then show ?thesis
      using ok p tot pend pre pre1 whole unfolding collector_ok_def collect_chunk_def by (simp add: piped_upd)
  qed
qed

lemma collector_ok_step: "collect_step st st' \<Longrightarrow> collector_ok m written st \<Longrightarrow> collector_ok m written st'"
proof (induction rule: collect_step.induct)
  case (read st p chunk rest)
  then show ?case by (simp add: collector_ok_read)
next
  case (eof st p)
  then show ?case by (auto simp: collector_ok_def)
next
  case (overflow_kill st p)
  then show ?case by (auto simp: collector_ok_def)
next
  case (timeout_kill st)
  then show ?case by (auto simp: collector_ok_def)
next
  case (lose st n p)
  have "piped ((cl_pending st)(p := take n (cl_pending st p))) \<le> piped (cl_pending st)"
    using lose(2) by (simp add: piped_upd)
  moreover have "prefix (cl_collected st p @ take n (cl_pending st p)) (written p)"
    if "prefix (cl_collected st p @ cl_pending st p) (written p)"
    using that by (metis append.assoc append_prefixD append_take_drop_id)
  ultimately show ?case using lose(1,3) by (auto simp: collector_ok_def)
qed

lemma collector_ok_reachable:
  "collect_step\<^sup>*\<^sup>* (start_collector m written) st \<Longrightarrow> 0 \<le> m \<Longrightarrow> collector_ok m written st"
  by (induction rule: rtranclp_induct) (auto simp: collector_ok_start intro: collector_ok_step)

section \<open>Collection ends\<close>

definition collector_work :: "collector \<Rightarrow> nat" where
  "collector_work st =
     length (cl_pending st Stdout) + length (cl_pending st Stderr) +
     (if cl_finished st Stdout then 0 else 1) + (if cl_finished st Stderr then 0 else 1) +
     (if cl_killed st then 0 else 1) + (if cl_timed_out st then 0 else 1)"

lemma collector_work_chunk:
  "collector_work (collect_chunk p chunk st) \<le> collector_work st"
  by (cases p) (auto simp: collector_work_def collect_chunk_def)

lemma collector_work_pending:
  "length xs < length (cl_pending st p) \<Longrightarrow>
     collector_work (st\<lparr>cl_pending := (cl_pending st)(p := xs)\<rparr>) < collector_work st"
  by (cases p) (auto simp: collector_work_def)

lemma collect_step_decreases: "collect_step st st' \<Longrightarrow> collector_work st' < collector_work st"
proof (induction rule: collect_step.induct)
  case (read st p chunk rest)
  then show ?case
    using collector_work_chunk [of p chunk "st\<lparr>cl_pending := (cl_pending st)(p := rest)\<rparr>"]
      collector_work_pending [of rest st p] by simp
next
  case (eof st p)
  then show ?case by (cases p) (auto simp: collector_work_def)
next
  case (lose st n p)
  then show ?case by (simp add: collector_work_pending)
qed (auto simp: collector_work_def)

lemma collect_stuck: "(\<nexists>st'. collect_step st st') \<Longrightarrow> cl_finished st p"
proof (rule ccontr)
  assume stuck: "\<nexists>st'. collect_step st st'" and p: "\<not> cl_finished st p"
  show False
  proof (cases "cl_pending st p")
    case Nil
    then show ?thesis using stuck collect_step.eof [OF p] by blast
  next
    case (Cons b bs)
    then have "cl_pending st p = [b] @ bs" by simp
    then show ?thesis using stuck collect_step.read [OF p, of "[b]" bs] by (auto simp: chunk_bytes_def)
  qed
qed

end
