(* ===== verification/Execution_Properties.thy ===== *)
theory Execution_Properties
  imports Docker_Trace Command_Runner
begin

text \<open>
  The properties of the execution boundary as a whole: the service over the database-backed binding,
  the docker probe and the container executor. Every statement holds for any command runner, clock,
  JSON reader and probe runner.
\<close>

section \<open>What a trace says of its commands\<close>

lemmas argv_defs = create_argv_def inspect_argv_def start_argv_def stop_argv_def remove_argv_def

lemma start_argv_eq [simp]:
  "start_argv c = start_argv c' \<longleftrightarrow> c = c'" "start_argv c \<noteq> create_argv s c' request profile"
  "start_argv c \<noteq> inspect_argv c'" "start_argv c \<noteq> stop_argv c'" "start_argv c \<noteq> remove_argv c'"
  by (auto simp: argv_defs)

lemma create_argv_eq [simp]:
  "create_argv s c request profile = create_argv s c' request profile \<longleftrightarrow> c = c'"
  "create_argv s c request profile \<noteq> inspect_argv c'" "create_argv s c request profile \<noteq> start_argv c'"
  "create_argv s c request profile \<noteq> stop_argv c'" "create_argv s c request profile \<noteq> remove_argv c'"
  by (auto simp: argv_defs)

lemma trace_start:
  assumes "docker_trace edge request profile c cmds x" and "(start_argv c', q) \<in> set cmds"
  obtains q1 q2 tl q' where "c' = c" "accepted q1" "clean_report edge request profile q2"
    "cmds = (create_argv (dk_source edge) c request profile, q1) # (inspect_argv c, q2) # (start_argv c, q) # tl"
    "last cmds = (remove_argv c, q')"
  using assms by (cases rule: docker_trace.cases) auto

lemma trace_created:
  assumes "docker_trace edge request profile c cmds x"
    and "(create_argv (dk_source edge) c' request profile, q) \<in> set cmds" and "accepted q"
  obtains q' where "c' = c" "last cmds = (remove_argv c, q')"
  using assms by (cases rule: docker_trace.cases) auto

lemma trace_starts:
  assumes "docker_trace edge request profile c cmds x"
  shows "length (filter (\<lambda>cmd. \<exists>c'. fst cmd = start_argv c') cmds) \<le> 1"
  using assms
  by (cases rule: docker_trace.cases) (auto simp: argv_defs)

lemma trace_succeeded:
  assumes "docker_trace edge request profile c cmds x"
  shows "ex_status x = ''SUCCEEDED'' \<longleftrightarrow>
    (\<exists>c res. (start_argv c, Returns res) \<in> set cmds \<and> co_returncode res = Some 0 \<and>
       \<not> co_timed_out res \<and> \<not> overflowed res (ep_max_output profile))"
  using assms
  by (cases rule: docker_trace.cases) (auto simp: failure_def start_report_def Let_def)

section \<open>What a clean report says\<close>

text \<open>The daemon's own account of the container: no network, no privileges, a read-only root, and the
  workspace as its single, read-only mount.\<close>

definition daemon_isolated :: "'e docker_edge \<Rightarrow> execution_request \<Rightarrow> execution_profile \<Rightarrow> nat list \<Rightarrow> bool" where
  "daemon_isolated edge request profile text \<longleftrightarrow>
     (\<exists>entry host config m.
        dk_json edge text = Some (JList [JObj entry]) \<and>
        jget entry ''HostConfig'' = JObj host \<and> jget entry ''Config'' = JObj config \<and>
        jget host ''NetworkMode'' = JStr ''none'' \<and> jget host ''ReadonlyRootfs'' = JBool True \<and>
        jget host ''CapDrop'' = JList [JStr ''ALL''] \<and> jget host ''Privileged'' = JBool False \<and>
        jget config ''User'' = JStr (ep_user profile) \<and> jget config ''Image'' = JStr (ep_image profile) \<and>
        jget config ''Cmd'' = JList (map JStr (er_argv request)) \<and>
        jget host ''Mounts'' = JList [JObj m] \<and> jget m ''Type'' = JStr ''bind'' \<and>
        jget m ''Target'' = JStr ''/workspace'' \<and> jget m ''ReadOnly'' = JBool True)"

lemma mount_drift_None:
  assumes "mount_drift edge v = None"
  obtains m where "v = JList [JObj m]" "jget m ''Type'' = JStr ''bind''" "jget m ''Target'' = JStr ''/workspace''"
    "jget m ''ReadOnly'' = JBool True"
  using assms unfolding mount_drift_def
  by (auto simp: Let_def split: jval.splits list.splits if_splits)

lemma entry_drift_None:
  assumes "entry_drift edge host config request profile = None"
  shows "jget host ''NetworkMode'' = JStr ''none''" and "jget host ''ReadonlyRootfs'' = JBool True"
    and "jget host ''CapDrop'' = JList [JStr ''ALL'']" and "jget host ''Privileged'' = JBool False"
    and "jget config ''User'' = JStr (ep_user profile)" and "jget config ''Image'' = JStr (ep_image profile)"
    and "jget config ''Cmd'' = JList (map JStr (er_argv request))"
    and "mount_drift edge (jget host ''Mounts'') = None"
  using assms unfolding entry_drift_def by (simp_all split: if_splits)

lemma drift_None_isolated:
  assumes "daemon_drift edge text request profile = None"
  shows "daemon_isolated edge request profile text"
proof -
  obtain entry where entry: "dk_json edge text = Some (JList [JObj entry])"
    using assms unfolding daemon_drift_def by (auto split: option.splits jval.splits list.splits)
  obtain host config where hc: "jget entry ''HostConfig'' = JObj host" "jget entry ''Config'' = JObj config"
    and d: "entry_drift edge host config request profile = None"
    using assms unfolding daemon_drift_def entry by (auto split: jval.splits)
  from entry_drift_None(8) [OF d] show ?thesis
    by (rule mount_drift_None)
      (unfold daemon_isolated_def, use entry hc entry_drift_None [OF d] in blast)
qed

section \<open>Executions\<close>

type_synonym 'e machine = "database \<times> 'e docker_world"

definition new_commands :: "'e docker_world \<Rightarrow> 'e docker_world \<Rightarrow> (string list \<times> command_outcome reply) list" where
  "new_commands d d' = drop (length (dw_log d)) (dw_log d')"

lemma new_commands_append: "dw_log d' = dw_log d @ cmds \<Longrightarrow> new_commands d d' = cmds"
  by (simp add: new_commands_def)

text \<open>A production execution either calls the executor after every gate, or issues no command at all.\<close>

lemma production_cases:
  assumes ex: "production_execute profile database_port (probe_port runner) (docker_port edge) request (db, d) = (r, (db', d'))"
    and req: "valid_request request" and prof: "valid_profile profile"
  obtains (executed) w2 x c cmds where
      "cleared True profile database_port (probe_port runner) request (db, d) w2"
      "db' = db" "new_commands d d' = cmds" "docker_trace edge request profile c cmds x" "r = Inr (report request x)"
  | (refused) k where "k \<in> set outcome_error_codes" "r = Inr (rejection_outcome request k)" "db' = db"
      "new_commands d d' = []"
  | (raised) e where "r = Inl e" "db' = db" "new_commands d d' = []"
proof -
  have rid: "opaque_id (er_request_id request)" using req by (simp add: valid_request_def)
  from ex [unfolded production_execute_def] rid prof show ?thesis
  proof (cases rule: production.execute_cases)
    case (executed w2 x)
    have q: "fst w2 = db" "dw_log (snd w2) = dw_log d" using cleared_quiet [OF executed(1)] by simp_all
    from prof executed(2) show ?thesis
    proof (rule docker_port_log)
      fix y c cmds
      assume y: "x = Returns y" "fst (db', d') = fst w2" "dw_log (snd (db', d')) = dw_log (snd w2) @ cmds"
        and tr: "docker_trace edge request profile c cmds y"
      have "dw_log d' = dw_log d @ cmds" "db' = db" "r = Inr (report request y)"
        using y q executed(3) by simp_all
      then show ?thesis using that(1) [OF executed(1) _ _ tr] new_commands_append by blast
    qed
  next
    case (refused k)
    then show ?thesis using that(2) untouched_quiet [OF refused(3)] by (simp add: new_commands_def)
  next
    case (raised e)
    then show ?thesis using that(3) untouched_quiet [OF raised(2)] by (simp add: new_commands_def)
  qed
qed

lemma evidence_cleared:
  assumes req: "valid_request request" and m: "matches_profile request profile"
    and vid: "er_validation_run_id request = Some vid"
    and ev: "evidence vid (er_run_id request) (er_candidate_id request) (er_candidate_revision request)
       (er_reference_id request) (er_reference_revision request) db"
    and ready: "probe_port runner profile (db, d) = (Returns rd, w2)" "rd_status rd = ''READY''"
  shows "cleared True profile database_port (probe_port runner) request (db, d) w2"
proof -
  let ?b = "\<lparr>bo_kind = ''RESOLVED'', bo_facts = Some (bound_facts request)\<rparr>"
  have "lookup_execution_binding (er_run_id request) (er_candidate_id request) (Some vid)
      (er_reference_id request) (er_reference_revision request) db = Inr ?b"
    using ev resolved_iff_evidence request_keys [OF req] vid bound_facts_resolved [OF vid] by metis
  then have "binding_call database_port request (db, d) = (Returns ?b, (db, d))"
    by (simp add: binding_call_def database_port_def vid)
  then show ?thesis using m vid ready by (auto simp: cleared_def)
qed

lemma evidence_executes:
  assumes "valid_request request" and "valid_profile profile" and "matches_profile request profile"
    and "er_validation_run_id request = Some vid"
    and "evidence vid (er_run_id request) (er_candidate_id request) (er_candidate_revision request)
       (er_reference_id request) (er_reference_revision request) db"
    and "probe_port runner profile (db, d) = (Returns rd, (db, d2))" "rd_status rd = ''READY''"
    and run: "docker_run edge request profile d2 = (Returns x, d')"
  shows "production_execute profile database_port (probe_port runner) (docker_port edge) request (db, d) =
    (Inr (report request x), (db, d'))"
proof -
  have rid: "opaque_id (er_request_id request)" using assms(1) by (simp add: valid_request_def)
  have port: "docker_port edge request profile (db, d2) = (Returns x, (db, d'))"
    using run by (simp add: docker_port_def)
  have "valid_result x" using production.result_valid [OF assms(2) port] .
  then show ?thesis
    unfolding production_execute_def
      production.execute_cleared [OF evidence_cleared [OF assms(1,3,4,5,6,7)]] port
    using report_outcome_Returns [OF rid] by simp
qed

context execution_edges
begin

lemma execute_answers:
  assumes req: "opaque_id (er_request_id request)" and prof: "valid_profile profile"
    and c: "binding_call lookup request w = (Returns b, w1)" and rd: "check_ready profile w1 = (Returns rd, w2)"
    and ex: "execute rc profile lookup check_ready run request w = (r, w')"
  shows "\<exists>out. r = Inr out"
proof (cases "matches_profile request profile \<and> (rc \<longrightarrow> er_validation_run_id request \<noteq> None)")
  case False
  from ex req False show ?thesis by (rule execute_shut) blast
next
  case True
  obtain k where g: "binding_gate request b = Inr k" and kc: "\<And>x. k = Some x \<Longrightarrow> x \<in> set outcome_error_codes"
    using binding_gate_total [OF gate_of_call [OF c]] by blast
  show ?thesis
  proof (cases k)
    case (Some x)
    then have "r = rejected request x"
      using ex True c g by (simp add: execute_open)
    then show ?thesis using rejected_closed [OF req kc [OF Some]] by blast
  next
    case None
    show ?thesis
    proof (cases "rd_status rd = ''READY''")
      case ready: True
      have "cleared rc profile lookup check_ready request w w2"
        unfolding cleared_def
        using True c rd ready binding_gate_Inr_None [OF gate_of_call [OF c]] g None by blast
      from execute_cleared [OF this] obtain q where "r = report_outcome request q"
        "\<exists>w3. run request profile w2 = (q, w3)"
        using ex by (auto split: prod.splits)
      then show ?thesis using report_outcome_closed [OF req, of q] result_valid [OF prof] by blast
    next
      case False
      obtain y where y: "rd_reason rd = Some y" "''READINESS_'' @ y \<in> set outcome_error_codes"
        using readiness_code [OF readiness_valid [OF rd] False] by blast
      have "r = rejected request (''READINESS_'' @ y)"
        using ex True c g None rd False y(1) by (simp add: execute_open)
      then show ?thesis using rejected_closed [OF req y(2)] by simp
    qed
  qed
qed

end



section \<open>A concrete machine\<close>

definition exec_profile :: execution_profile where
  "exec_profile = \<lparr>ep_id = ''ep1'', ep_revision = 2, ep_reference_id = ''p1'', ep_reference_revision = 0,
     ep_image = ''vespercode-python'', ep_network_disabled = True, ep_user = ''1000:1000'',
     ep_read_only_rootfs = True, ep_capabilities_dropped = True, ep_socket_mounted = False,
     ep_workspace_read_only = True, ep_timeout = 60, ep_max_output = 100\<rparr>"

definition exec_request :: execution_request where
  "exec_request = \<lparr>er_request_id = ''q1'', er_profile_id = ''ep1'', er_profile_revision = 2,
     er_reference_id = ''p1'', er_reference_revision = 0, er_run_id = ''r1'', er_candidate_id = ''c1'',
     er_candidate_revision = 0, er_action_kind = ''VALIDATE_CANDIDATE'',
     er_argv = [''vespercode-validate'', ''c1'', ''0''], er_validation_run_id = Some ''v1''\<rparr>"

definition exec_db :: database where
  "exec_db =
     (let db1 = snd (create_run ''/ws'' None ''r1'' ''1'' empty_database);
          db2 = snd (create_snapshot ''r1'' None 0 ''s1'' db1);
          db3 = snd (create_candidate ''r1'' ''s1'' 0 None ''c1'' db2);
          db4 = snd (create_reference_profile \<lparr>rp_id = ''p1'', rp_revision = 0, rp_python_version = ''3.12'',
                  rp_pytest_version = ''8'', rp_ruff_version = ''1'', rp_mypy_version = ''1''\<rparr> db3);
          db5 = snd (create_validation_run ''r1'' ''c1'' 0 ''p1'' 0 None ''v1'' db4)
      in snd (record_validation_result ''v1'' ''PASSED'' None db5))"

definition inspect_json :: jval where
  "inspect_json = JList [JObj
     [(''HostConfig'', JObj
        [(''NetworkMode'', JStr ''none''), (''ReadonlyRootfs'', JBool True), (''CapDrop'', JList [JStr ''ALL'']),
         (''Privileged'', JBool False), (''Memory'', JInt 2147483648), (''MemorySwap'', JInt 2147483648),
         (''NanoCpus'', JInt 2000000000), (''PidsLimit'', JInt 256),
         (''Tmpfs'', JObj [(''/tmp'', JStr ''rw,size=256m'')]),
         (''Mounts'', JList [JObj [(''Type'', JStr ''bind''), (''Source'', JStr ''/ws''),
            (''Target'', JStr ''/workspace''), (''ReadOnly'', JBool True)]])]),
      (''Config'', JObj [(''User'', JStr ''1000:1000''), (''Image'', JStr ''vespercode-python''),
         (''Cmd'', JList [JStr ''vespercode-validate'', JStr ''c1'', JStr ''0''])])]]"

definition command_done :: "nat list \<Rightarrow> command_outcome" where
  "command_done out = \<lparr>co_returncode = Some 0, co_stdout = out, co_stderr = [], co_timed_out = False, co_truncated = False\<rparr>"

text \<open>Every command succeeds and prints the two bytes of a line \<open>k\<close>.\<close>

definition exec_edge :: "unit docker_edge" where
  "exec_edge = \<lparr>dk_source = ''/ws'', dk_runner = (\<lambda>argv t cap e. (Returns (command_done [107, 10]), e)),
     dk_clock = (\<lambda>e. (0, e)), dk_uuid = (\<lambda>e. (''00'', e)), dk_json = (\<lambda>text. Some inspect_json),
     dk_str = (\<lambda>v. [])\<rparr>"

definition exec_probe :: "unit probe_runner" where
  "exec_probe argv e = (Returns \<lparr>pr_returncode = 0, pr_stdout = []\<rparr>, e)"

definition exec_world :: "unit docker_world" where
  "exec_world = \<lparr>dw_env = (), dw_log = []\<rparr>"

lemma exec_profile_valid: "valid_profile exec_profile"
  by code_simp

lemma exec_request_valid: "valid_request exec_request"
proof -
  have zero: "str_nat 0 = ''0''" by code_simp
  have "opaque_id ''q1'' \<and> opaque_id ''ep1'' \<and> opaque_id ''p1'' \<and> opaque_id ''r1'' \<and> opaque_id ''c1'' \<and>
      token_shaped ''c1'' \<and> opaque_id ''v1'' \<and> \<not> is_digest_shaped ''0'' \<and> token_shaped ''0''"
    by code_simp
  then show ?thesis
    by (simp add: valid_request_def exec_request_def argv_of_def zero)
qed

lemma exec_evidence: "evidence ''v1'' ''r1'' ''c1'' 0 ''p1'' 0 exec_db"
proof -
  have "get_run ''r1'' exec_db \<noteq> None" by code_simp
  moreover have "case get_candidate ''c1'' exec_db of None \<Rightarrow> False
      | Some row \<Rightarrow> revalidates row \<and> cn_run_id row = ''r1'' \<and> cn_revision row = 0" by code_simp
  moreover have "get_validation_run ''v1'' exec_db = Inr (Some (passed_run ''v1'' ''r1'' ''c1'' 0 ''p1'' 0))"
    by code_simp
  moreover have "case get_reference_profile ''p1'' 0 exec_db of Inr (Some p) \<Rightarrow> True | _ \<Rightarrow> False" by code_simp
  ultimately show ?thesis by (auto simp: evidence_def split: option.splits sum.splits)
qed

definition exec_commands :: "(string list \<times> command_outcome reply) list" where
  "exec_commands =
     (let c = ''vespercode-exec-00''; ok = Returns (command_done [107, 10])
      in [(create_argv ''/ws'' c exec_request exec_profile, ok), (inspect_argv c, ok), (start_argv c, ok),
          (remove_argv c, ok)])"

abbreviation exec_reply :: "command_outcome" where
  "exec_reply \<equiv> command_done [107, 10]"

lemma exec_edge_sel:
  "dk_source exec_edge = ''/ws''" "dk_clock exec_edge e = (0, e)" "dk_uuid exec_edge e = (''00'', e)"
  "dk_json exec_edge text = Some inspect_json" "dk_runner exec_edge argv t cap e = (Returns exec_reply, e)"
  by (simp_all add: exec_edge_def)

lemma exec_issue:
  "issue exec_edge argv t cap w = (Returns exec_reply, w\<lparr>dw_log := dw_log w @ [(argv, Returns exec_reply)]\<rparr>)"
  by (cases w) (simp add: issue_def exec_edge_sel)

lemma exec_invoke:
  "0 < t \<Longrightarrow> invoke exec_edge argv t cap w =
     (Returns (Some exec_reply), w\<lparr>dw_log := dw_log w @ [(argv, Returns exec_reply)]\<rparr>)"
  by (cases w) (simp add: invoke_def exec_issue exec_edge_sel)

lemma exec_mount: "mount_drift exec_edge (JList [JObj [(''Type'', JStr ''bind''), (''Source'', JStr ''/ws''),
    (''Target'', JStr ''/workspace''), (''ReadOnly'', JBool True)]]) = None"
  by code_simp

lemma exec_tmpfs: "tmpfs_inspect_spec = JObj [(''/tmp'', JStr ''rw,size=256m'')]"
  by code_simp

lemma exec_drift: "daemon_drift exec_edge text exec_request exec_profile = None"
  using exec_mount
  by (simp add: daemon_drift_def exec_edge_sel entry_drift_def inspect_json_def jget_def num_eq_def exec_tmpfs
      memory_limit_bytes_def cpu_limit_def pids_limit_def exec_request_def exec_profile_def)

lemma exec_start: "start_result exec_reply 100 =
    Inr \<lparr>ex_status = ''SUCCEEDED'', ex_exit_code = Some 0, ex_output = [107, 10]\<rparr>"
proof -
  have "bounded_output exec_reply 100 = [107, 10]"
    by (simp add: bounded_output_def command_done_def decode_one_def)
  then show ?thesis
    by (simp add: start_result_def overflowed_def command_done_def make_execution_result_eq_Inr valid_result_def
        result_max_output_chars_def)
qed

lemma exec_docker:
  "docker_run exec_edge exec_request exec_profile exec_world =
     (Returns \<lparr>ex_status = ''SUCCEEDED'', ex_exit_code = Some 0, ex_output = [107, 10]\<rparr>,
      \<lparr>dw_env = (), dw_log = exec_commands\<rparr>)"
proof -
  have prof: "ep_timeout exec_profile = 60" "ep_max_output exec_profile = 100"
    by (simp_all add: exec_profile_def)
  have ok: "command_ok (Some exec_reply)" "\<not> co_timed_out exec_reply"
    by (simp_all add: command_ok_def command_done_def)
  show ?thesis
    unfolding docker_run_def exec_edge_sel prof try_body_def inspect_phase_def start_phase_def
    by (simp add: exec_invoke exec_drift ok exec_start exec_edge_sel
        remove_container_def invoke_cleanup_def exec_issue exec_commands_def exec_world_def Let_def)
qed

definition exec_outcome :: execution_outcome where
  "exec_outcome = \<lparr>eo_request_id = ''q1'', eo_status = ''SUCCEEDED'', eo_error_code = None,
     eo_message = ''the execution completed'', eo_exit_code = Some 0, eo_excerpt = [107, 10]\<rparr>"

lemma exec_probe_ready:
  "probe_port exec_probe exec_profile (exec_db, exec_world) =
     (Returns \<lparr>rd_status = ''READY'', rd_reason = None\<rparr>, (exec_db, exec_world))"
  by (simp add: probe_port_def probe_check_def exec_probe_def make_readiness_def readiness_statuses_def exec_world_def)

lemma exec_run:
  "production_execute exec_profile database_port (probe_port exec_probe) (docker_port exec_edge) exec_request
     (exec_db, exec_world) = (Inr exec_outcome, (exec_db, \<lparr>dw_env = (), dw_log = exec_commands\<rparr>))"
proof -
  have "report exec_request \<lparr>ex_status = ''SUCCEEDED'', ex_exit_code = Some 0, ex_output = [107, 10]\<rparr> = exec_outcome"
    by code_simp
  moreover have "matches_profile exec_request exec_profile" by code_simp
  ultimately show ?thesis
    using evidence_executes [OF exec_request_valid exec_profile_valid _ _ _ exec_probe_ready _ exec_docker] exec_evidence
    by (simp add: exec_request_def)
qed

section \<open>Tokens\<close>

text \<open>Characters with a meaning to a shell, a path, a URL or an option parser.\<close>

definition special_chars :: string where
  "special_chars = '' /:;|&$<>()[]{}*?!~=,%#@+^'' @ [CHR 0x5C, CHR 0x27, CHR 0x22, CHR 0x60, CHR 0x0A, CHR 0x0D, CHR 0x09, CHR 0x00]"

definition safe_token :: "string \<Rightarrow> bool" where
  "safe_token t \<longleftrightarrow> t \<noteq> [] \<and> length t \<le> 64 \<and> hd t \<noteq> CHR ''-'' \<and> list_all (\<lambda>c. c \<notin> set special_chars) t"

lemma token_char_plain: "token_char c \<Longrightarrow> c \<notin> set special_chars"
proof -
  have "list_all (\<lambda>c. \<not> token_char c) special_chars" by code_simp
  then show "token_char c \<Longrightarrow> c \<notin> set special_chars" by (auto simp: list_all_iff)
qed

lemma token_shaped_safe: "token_shaped s \<Longrightarrow> safe_token s"
proof -
  assume s: "token_shaped s"
  then obtain c cs where cs: "s = c # cs" "is_alnum_ascii c" "length cs \<le> 63" "list_all token_char cs"
    by (auto simp: token_shaped_def split: list.splits)
  have "\<not> is_alnum_ascii CHR ''-''" by code_simp
  then have "c \<noteq> CHR ''-''" using cs(2) by blast
  moreover have "list_all token_char s" using cs by (simp add: token_char_def)
  ultimately show ?thesis
    using cs token_char_plain by (auto simp: safe_token_def list_all_iff)
qed

lemma positive_id_plain: "positive_id s \<Longrightarrow> s \<noteq> [] \<and> hd s \<noteq> CHR ''0'' \<and> list_all is_digit s"
  by (auto simp: positive_id_def split: list.splits)

lemma user_shaped_split:
  assumes "user_shaped s"
  obtains u g where "s = u @ CHR '':'' # g" "positive_id u" "positive_id g"
proof -
  from assms obtain u g where ug: "split_on CHR '':'' s = [u, g]" "positive_id u" "positive_id g"
    by (auto simp: user_shaped_def split: list.splits)
  have "s = join_on CHR '':'' [u, g]" using ug(1) join_split by metis
  then show ?thesis using that ug by simp
qed

text \<open>The mount source is compared without regard to case: another directory passes the check.\<close>

lemma mount_source_case_ignored: "mount_drift exec_edge (JList [JObj [(''Type'', JStr ''bind''), (''Source'', JStr ''/WS''),
    (''Target'', JStr ''/workspace''), (''ReadOnly'', JBool True)]]) = None \<and> dk_source exec_edge = ''/ws''"
  by code_simp

section \<open>Properties\<close>

text \<open>
  Claim C5. No container without a passed validation of the current revision. If a production execution
  starts a container, then the request matches the bound profile and cites a validation run that the
  control database records as PASSED for exactly the request's run, candidate, candidate revision and
  reference profile, the candidate is still at that revision and belongs to that run; the container is
  the one just created, the daemon reported it isolated before it was started, it was removed by the
  last command, and the database is unchanged.
\<close>

theorem container_needs_passed_validation:
  assumes "production_execute profile database_port (probe_port runner) (docker_port edge) request (db, d) = (r, (db', d'))"
    and "valid_request request" and "valid_profile profile"
    and "(start_argv c, q) \<in> set (new_commands d d')"
  shows "db' = db \<and> matches_profile request profile \<and>
    (\<exists>vid. er_validation_run_id request = Some vid \<and>
       evidence vid (er_run_id request) (er_candidate_id request) (er_candidate_revision request)
         (er_reference_id request) (er_reference_revision request) db) \<and>
    (\<exists>q1 out tl q'. new_commands d d' =
        (create_argv (dk_source edge) c request profile, q1) # (inspect_argv c, Returns out) # (start_argv c, q) # tl \<and>
      accepted q1 \<and> daemon_isolated edge request profile (co_stdout out) \<and>
      last (new_commands d d') = (remove_argv c, q'))"
  using assms(1-3)
proof (cases rule: production_cases)
  case (executed w2 x c0 cmds)
  note start = assms(4) [unfolded executed(3)]
  obtain vid where vid: "er_validation_run_id request = Some vid"
      "evidence vid (er_run_id request) (er_candidate_id request) (er_candidate_revision request)
         (er_reference_id request) (er_reference_revision request) db"
    by (rule cleared_evidence [OF executed(1) assms(2)])
  have m: "matches_profile request profile" using executed(1) by (simp add: cleared_def)
  from executed(4) start show ?thesis
  proof (rule trace_start)
    fix q1 q2 tl q'
    assume t: "c = c0" "accepted q1" "clean_report edge request profile q2"
      "cmds = (create_argv (dk_source edge) c0 request profile, q1) # (inspect_argv c0, q2) # (start_argv c0, q) # tl"
      "last cmds = (remove_argv c0, q')"
    obtain out where out: "q2 = Returns out" "daemon_drift edge (co_stdout out) request profile = None"
      using t(3) by (auto simp: clean_report_def split: reply.splits)
    show ?thesis
      using executed(2,3) m vid t out drift_None_isolated [OF out(2)] by blast
  qed
qed (use assms(4) in simp_all)

theorem container_needs_passed_validation_witness:
  "evidence ''v1'' ''r1'' ''c1'' 0 ''p1'' 0 exec_db \<and>
   (\<exists>out q1 tl. exec_commands = (create_argv ''/ws'' ''vespercode-exec-00'' exec_request exec_profile, q1) #
      (inspect_argv ''vespercode-exec-00'', Returns out) # tl \<and>
      daemon_isolated exec_edge exec_request exec_profile (co_stdout out))"
proof -
  have new: "new_commands exec_world \<lparr>dw_env = (), dw_log = exec_commands\<rparr> = exec_commands"
    by (simp add: new_commands_def exec_world_def)
  have "(start_argv ''vespercode-exec-00'', Returns exec_reply) \<in> set exec_commands"
    by (simp add: exec_commands_def Let_def)
  from container_needs_passed_validation [OF exec_run exec_request_valid exec_profile_valid, unfolded new, OF this]
  show ?thesis by (auto simp: exec_request_def exec_edge_sel)
qed

text \<open>
  Claim C31. One run is one closed command sequence. Whatever the command runner, the clock and the
  daemon do, a container run returns a well-formed result, and the commands it issued with the replies
  they got are one of the sequences the specification docker_trace allows, reporting what it allows.
\<close>

theorem docker_run_refines:
  assumes "docker_run edge request profile w = (r, w')" and "valid_profile profile"
  shows "\<exists>x c. r = Returns x \<and> valid_result x \<and> dw_log w' = dw_log w @ new_commands w w' \<and>
    docker_trace edge request profile c (new_commands w w') x"
  using assms(2,1)
proof (rule docker_run_trace)
  fix x c cmds
  assume t: "r = Returns x" "dw_log w' = dw_log w @ cmds" "docker_trace edge request profile c cmds x"
  then show ?thesis
    using docker_trace_valid [OF t(3) assms(2)] new_commands_append [OF t(2)] by auto
qed

theorem docker_run_refines_witness:
  "\<exists>x c. valid_result x \<and> docker_trace exec_edge exec_request exec_profile c exec_commands x"
  using docker_run_refines [OF exec_docker exec_profile_valid]
  by (auto simp: new_commands_def exec_world_def)

text \<open>
  Claim C32. No container is left behind. If the create command of a run was accepted, the last command of the
  run removes that very container, whatever failed in between, and no run issues more than one start.
\<close>

theorem created_container_removed:
  assumes "docker_run edge request profile w = (r, w')" and "valid_profile profile"
  shows "length (filter (\<lambda>cmd. \<exists>c. fst cmd = start_argv c) (new_commands w w')) \<le> 1 \<and>
    (\<forall>c q. (create_argv (dk_source edge) c request profile, q) \<in> set (new_commands w w') \<and> accepted q \<longrightarrow>
       (\<exists>q'. last (new_commands w w') = (remove_argv c, q')))"
  using assms(2,1)
proof (rule docker_run_trace)
  fix x c0 cmds
  assume t: "dw_log w' = dw_log w @ cmds" "docker_trace edge request profile c0 cmds x"
  have "\<exists>q'. last cmds = (remove_argv c, q')"
    if "(create_argv (dk_source edge) c request profile, q) \<in> set cmds" "accepted q" for c q
    by (rule trace_created [OF t(2) that]) blast
  then show ?thesis
    using trace_starts [OF t(2)] unfolding new_commands_append [OF t(1)] by blast
qed

theorem created_container_removed_witness:
  "\<exists>q'. last exec_commands = (remove_argv ''vespercode-exec-00'', q')"
proof -
  have "(create_argv (dk_source exec_edge) ''vespercode-exec-00'' exec_request exec_profile, Returns exec_reply)
      \<in> set exec_commands" "accepted (Returns exec_reply)"
    by (simp_all add: exec_commands_def Let_def exec_edge_sel accepted_def command_ok_def command_done_def)
  then show ?thesis
    using created_container_removed [OF exec_docker exec_profile_valid]
    by (simp add: new_commands_def exec_world_def) blast
qed



text \<open>
  Claim C34. The production binding resolves exactly the current passed validations. For the keys of a
  constructed request the lookup always answers, and it answers RESOLVED at a candidate revision exactly
  when the run exists and owns the candidate, the candidate's row is well formed and at that revision now,
  the cited validation run passed for exactly these keys, and its reference profile can still be read.
\<close>

theorem binding_exact:
  assumes "opaque_keys rid cid (Some vid) pid"
  shows "(\<exists>b. lookup_execution_binding rid cid (Some vid) pid prv db = Inr b \<and> valid_binding_outcome b) \<and>
    (lookup_execution_binding rid cid (Some vid) pid prv db = Inr (resolved vid rid cid crv pid prv) \<longleftrightarrow>
     evidence vid rid cid crv pid prv db)"
  using resolved_iff_evidence [OF assms] lookup_answers [OF assms] lookup_valid_outcome by metis

theorem binding_exact_witness:
  "lookup_execution_binding ''r1'' ''c1'' (Some ''v1'') ''p1'' 0 exec_db = Inr (resolved ''v1'' ''r1'' ''c1'' 0 ''p1'' 0)"
proof -
  have "opaque_keys ''r1'' ''c1'' (Some ''v1'') ''p1''"
    using request_keys [OF exec_request_valid] by (simp add: exec_request_def)
  from binding_exact [OF this] exec_evidence show ?thesis by blast
qed

text \<open>
  Claim C40. Every execution profile is isolated. A mapping that parses has exactly the thirteen fields of
  the record, and the profile it yields has its network disabled, a read-only root, all capabilities
  dropped, no docker socket, a read-only workspace, an image that is one plain token, a numeric user and
  group that are not root, a timeout of 1 to 600 seconds and an output cap of at most 4 MiB.
\<close>

theorem execution_profile_isolated:
  assumes "execution_profile_from_mapping data = Inr p"
  shows "set (map fst data) = set execution_profile_fields \<and>
    item data ''network_disabled'' = PBool True \<and> item data ''docker_socket_mounted'' = PBool False \<and>
    ep_network_disabled p \<and> ep_read_only_rootfs p \<and> ep_capabilities_dropped p \<and> \<not> ep_socket_mounted p \<and>
    ep_workspace_read_only p \<and> safe_token (ep_image p) \<and>
    (\<exists>u g. ep_user p = u @ CHR '':'' # g \<and> u \<noteq> [] \<and> hd u \<noteq> CHR ''0'' \<and> list_all is_digit u \<and>
       g \<noteq> [] \<and> hd g \<noteq> CHR ''0'' \<and> list_all is_digit g) \<and>
    1 \<le> ep_timeout p \<and> ep_timeout p \<le> 600 \<and> 1 \<le> ep_max_output p \<and> ep_max_output p \<le> 4 * 1024 * 1024"
proof -
  obtain vs where vs: "strict_mapping data execution_profile_fields = Inr vs"
    and mk: "make_execution_profile (item vs ''execution_profile_id'') (item vs ''execution_profile_revision'')
         (item vs ''reference_profile_id'') (item vs ''reference_profile_revision'')
         (item vs ''image_reference'') (item vs ''network_disabled'') (item vs ''non_root_user'')
         (item vs ''read_only_rootfs'') (item vs ''all_capabilities_dropped'')
         (item vs ''docker_socket_mounted'') (item vs ''workspace_mount_read_only'')
         (item vs ''timeout_seconds'') (item vs ''max_output_bytes'') = Inr p"
    using assms unfolding execution_profile_from_mapping_def by auto
  note fields = vs [unfolded strict_mapping_eq_Inr]
  have names: "''network_disabled'' \<in> set execution_profile_fields" "''docker_socket_mounted'' \<in> set execution_profile_fields"
    by (simp_all add: execution_profile_fields_def)
  have it: "item vs ''network_disabled'' = item data ''network_disabled''"
    "item vs ''docker_socket_mounted'' = item data ''docker_socket_mounted''"
    using fields names by simp_all
  note p = mk [unfolded make_execution_profile_eq_Inr]
  then have v: "valid_profile p" by blast
  then have "user_shaped (ep_user p)" by (simp add: valid_profile_def)
  then obtain u g where "ep_user p = u @ CHR '':'' # g" "positive_id u" "positive_id g" by (rule user_shaped_split)
  then have "\<exists>u g. ep_user p = u @ CHR '':'' # g \<and> u \<noteq> [] \<and> hd u \<noteq> CHR ''0'' \<and> list_all is_digit u \<and>
       g \<noteq> [] \<and> hd g \<noteq> CHR ''0'' \<and> list_all is_digit g"
    using positive_id_plain by blast
  moreover have "item data ''network_disabled'' = PBool True" "item data ''docker_socket_mounted'' = PBool False"
    using p it v by (simp_all add: valid_profile_def isolated_def)
  ultimately show ?thesis
    using fields v token_shaped_safe
    by (simp add: valid_profile_def isolated_def max_timeout_seconds_def max_profile_output_bytes_def)
qed

definition exec_mapping :: pydict where
  "exec_mapping = [(''execution_profile_id'', PStr ''ep1''), (''execution_profile_revision'', PInt 2),
     (''reference_profile_id'', PStr ''p1''), (''reference_profile_revision'', PInt 0),
     (''image_reference'', PStr ''vespercode-python''), (''network_disabled'', PBool True),
     (''non_root_user'', PStr ''1000:1000''), (''read_only_rootfs'', PBool True),
     (''all_capabilities_dropped'', PBool True), (''docker_socket_mounted'', PBool False),
     (''workspace_mount_read_only'', PBool True), (''timeout_seconds'', PInt 60), (''max_output_bytes'', PInt 100)]"

lemma exec_mapping_parses: "execution_profile_from_mapping exec_mapping = Inr exec_profile"
proof -
  have "strict_mapping exec_mapping execution_profile_fields =
      Inr (map (\<lambda>n. (n, item exec_mapping n)) execution_profile_fields)"
    by (auto simp: strict_mapping_eq_Inr exec_mapping_def execution_profile_fields_def)
  then show ?thesis
    using exec_profile_valid
    by (simp add: execution_profile_from_mapping_def make_execution_profile_eq_Inr item_def exec_mapping_def
        execution_profile_fields_def exec_profile_def)
qed

theorem execution_profile_isolated_witness:
  "execution_profile_from_mapping exec_mapping = Inr exec_profile \<and> safe_token (ep_image exec_profile) \<and>
   ep_network_disabled exec_profile"
  using execution_profile_isolated [OF exec_mapping_parses] exec_mapping_parses by blast

text \<open>
  A request cannot inject anything into the command line. The arguments of every constructed
  request are the frozen executable, its own candidate id and the decimal spelling of its own revision;
  each of them, and the image of the profile they follow on the create command line, is a short non-empty
  token that does not start with a dash and holds no white space, path, shell or option character, so the
  tail of the create command is exactly these words.
\<close>

theorem request_tokens_safe:
  assumes "make_execution_request rid eid erv pid prv run cid crv kind argv vid = Inr r" and "valid_profile p"
  shows "er_argv r = [''vespercode-validate'', er_candidate_id r, str_nat (nat (er_candidate_revision r))] \<and>
    list_all safe_token (ep_image p # er_argv r) \<and>
    (\<exists>flags. create_argv src c r p = flags @ ep_image p # er_argv r \<and> length flags = 25)"
proof -
  have v: "valid_request r" using assms(1) by (simp add: make_execution_request_eq_Inr)
  then have argv: "er_argv r = [''vespercode-validate'', er_candidate_id r, str_nat (nat (er_candidate_revision r))]"
    by (simp add: valid_request_def argv_of_def)
  have "token_shaped ''vespercode-validate''" by code_simp
  then have "list_all safe_token (ep_image p # er_argv r)"
    using v assms(2) token_shaped_safe unfolding argv by (simp add: valid_request_def valid_profile_def)
  moreover have "create_argv src c r p = butlast (take 26 (create_argv src c r p)) @ ep_image p # er_argv r"
    by (simp add: create_argv_def)
  moreover have "length (butlast (take 26 (create_argv src c r p))) = 25"
    by (simp add: create_argv_def)
  ultimately show ?thesis using argv by blast
qed

theorem request_tokens_safe_witness:
  "er_argv exec_request = [''vespercode-validate'', ''c1'', ''0''] \<and>
   list_all safe_token (ep_image exec_profile # er_argv exec_request)"
proof -
  have mk: "make_execution_request (PStr ''q1'') (PStr ''ep1'') (PInt 2) (PStr ''p1'') (PInt 0) (PStr ''r1'') (PStr ''c1'')
      (PInt 0) (PStr ''VALIDATE_CANDIDATE'')
      (ArgvSequence [PStr ''vespercode-validate'', PStr ''c1'', PStr ''0'']) (PStr ''v1'') = Inr exec_request"
    using exec_request_valid by (simp add: make_execution_request_eq_Inr exec_request_def)
  have "er_argv exec_request = [''vespercode-validate'', ''c1'', ''0'']" by (simp add: exec_request_def)
  moreover have "list_all safe_token (ep_image exec_profile # er_argv exec_request)"
    using request_tokens_safe [OF mk exec_profile_valid] by blast
  ultimately show ?thesis by blast
qed

text \<open>
  Claim C35. An authorised execution runs, and reports success exactly when the container succeeded. If the
  request matches the profile, its cited validation passed for the candidate's current revision, and the probe
  answers READY, then the execution calls the executor and returns an outcome; the outcome is SUCCEEDED
  exactly when the attached run was started and ended with exit code 0, in time and within the output cap.
\<close>

theorem authorised_execution_reports:
  assumes "valid_request request" and "valid_profile profile" and "matches_profile request profile"
    and "er_validation_run_id request = Some vid"
    and "evidence vid (er_run_id request) (er_candidate_id request) (er_candidate_revision request)
       (er_reference_id request) (er_reference_revision request) db"
    and "probe_port runner profile (db, d) = (Returns rd, (db, d2))" and "rd_status rd = ''READY''"
  shows "\<exists>out d'. production_execute profile database_port (probe_port runner) (docker_port edge) request (db, d) =
      (Inr out, (db, d')) \<and>
    (eo_status out = ''SUCCEEDED'' \<longleftrightarrow>
      (\<exists>c res. (start_argv c, Returns res) \<in> set (new_commands d2 d') \<and> co_returncode res = Some 0 \<and>
         \<not> co_timed_out res \<and> \<not> overflowed res (ep_max_output profile)))"
proof -
  obtain r d' where run: "docker_run edge request profile d2 = (r, d')" by fastforce
  from assms(2) run show ?thesis
  proof (rule docker_run_trace)
    fix x c cmds
    assume t: "r = Returns x" "dw_log d' = dw_log d2 @ cmds" "docker_trace edge request profile c cmds x"
    have "production_execute profile database_port (probe_port runner) (docker_port edge) request (db, d) =
        (Inr (report request x), (db, d'))"
      using evidence_executes [OF assms] run t(1) by simp
    moreover have "eo_status (report request x) = ''SUCCEEDED'' \<longleftrightarrow> ex_status x = ''SUCCEEDED''"
      by (simp add: report_def Let_def)
    moreover have "ex_status x = ''SUCCEEDED'' \<longleftrightarrow>
        (\<exists>c res. (start_argv c, Returns res) \<in> set cmds \<and> co_returncode res = Some 0 \<and>
         \<not> co_timed_out res \<and> \<not> overflowed res (ep_max_output profile))"
      by (rule trace_succeeded [OF t(3)])
    ultimately show ?thesis unfolding new_commands_append [OF t(2), symmetric] by blast
  qed
qed

theorem authorised_execution_reports_witness:
  "\<exists>out d'. production_execute exec_profile database_port (probe_port exec_probe) (docker_port exec_edge) exec_request
     (exec_db, exec_world) = (Inr out, (exec_db, d')) \<and>
    (eo_status out = ''SUCCEEDED'' \<longleftrightarrow>
      (\<exists>c res. (start_argv c, Returns res) \<in> set (new_commands exec_world d') \<and> co_returncode res = Some 0 \<and>
         \<not> co_timed_out res \<and> \<not> overflowed res (ep_max_output exec_profile)))"
proof -
  have "matches_profile exec_request exec_profile" by code_simp
  moreover have "er_validation_run_id exec_request = Some ''v1''" by (simp add: exec_request_def)
  moreover have "evidence ''v1'' (er_run_id exec_request) (er_candidate_id exec_request)
      (er_candidate_revision exec_request) (er_reference_id exec_request) (er_reference_revision exec_request) exec_db"
    using exec_evidence by (simp add: exec_request_def)
  ultimately show ?thesis
    by (rule authorised_execution_reports [OF exec_request_valid exec_profile_valid _ _ _ exec_probe_ready]) simp
qed

section \<open>The default command runner\<close>

text \<open>
  Claim C39. The output of a command is bounded by one shared budget. However the two reader threads, the timeout
  and the kill interleave, the bytes collected from the two pipes together never exceed the cap, each pipe's
  collected bytes are a prefix of what the process wrote there, truncation is flagged only when the cap is
  used up and the process wrote more than the cap, and if nothing was truncated or killed, a finished
  reader holds everything.
\<close>

theorem collected_output_bounded:
  assumes "collect_step\<^sup>*\<^sup>* (start_collector cap written) st" and "0 \<le> cap"
  shows "piped (cl_collected st) \<le> cap \<and> prefix (cl_collected st p) (written p) \<and>
    (cl_truncated st \<longrightarrow> piped (cl_collected st) = cap \<and> cap < piped written) \<and>
    (cl_finished st p \<and> \<not> cl_truncated st \<and> \<not> cl_killed st \<longrightarrow> cl_collected st p = written p) \<and>
    (\<forall>code out. runner_outcome code st = Inr out \<longrightarrow> (overflowed out cap \<longleftrightarrow> cl_truncated st))"
proof -
  have ok: "collector_ok cap written st" by (rule collector_ok_reachable [OF assms])
  then have budget: "0 \<le> cl_budget st" "piped (cl_collected st) + cl_budget st = cap"
    by (simp_all add: collector_ok_def)
  have pre: "prefix (cl_collected st p) (written p)"
    and trunc: "cl_truncated st \<longrightarrow> cl_budget st = 0 \<and> cap < piped written"
    using ok unfolding collector_ok_def by blast+
  have all: "cl_collected st p @ cl_pending st p = written p" "cl_pending st p = []"
    if "cl_finished st p" "\<not> cl_truncated st" "\<not> cl_killed st"
    using ok that unfolding collector_ok_def by blast+
  have "overflowed out cap \<longleftrightarrow> cl_truncated st" if "runner_outcome code st = Inr out" for code out
  proof -
    from that have o: "co_stdout out = boxed st Stdout" "co_stderr out = boxed st Stderr"
        "co_truncated out = cl_truncated st"
      by (auto simp: runner_outcome_def make_command_outcome_def split: if_splits)
    have "length (boxed st q) \<le> length (cl_collected st q)" for q by (simp add: boxed_def)
    then have "int (length (co_stdout out) + length (co_stderr out)) \<le> piped (cl_collected st)"
      unfolding o piped_def by (metis add_mono of_nat_le_iff)
    then show ?thesis using budget o(3) by (auto simp: overflowed_def)
  qed
  then show ?thesis using budget pre trunc all by auto
qed

definition two_lines :: "pipe \<Rightarrow> nat list" where
  "two_lines p = (case p of Stdout \<Rightarrow> [1, 2] | Stderr \<Rightarrow> [3, 4, 5])"

theorem collected_output_bounded_witness:
  "\<exists>st. collect_step\<^sup>*\<^sup>* (start_collector 3 two_lines) st \<and> cl_truncated st \<and>
     cl_collected st Stdout = [] \<and> cl_collected st Stderr = [3, 4, 5] \<and> piped (cl_collected st) = 3 \<and> 3 < piped two_lines"
proof -
  let ?s0 = "start_collector 3 two_lines"
  let ?s1 = "collect_chunk Stderr [3, 4, 5] (?s0\<lparr>cl_pending := (cl_pending ?s0)(Stderr := [])\<rparr>)"
  let ?s2 = "collect_chunk Stdout [1] (?s1\<lparr>cl_pending := (cl_pending ?s1)(Stdout := [2])\<rparr>)"
  have "collect_step ?s0 ?s1"
    by (rule collect_step.read) (simp_all add: start_collector_def two_lines_def chunk_bytes_def)
  moreover have "collect_step ?s1 ?s2"
    by (rule collect_step.read)
      (simp_all add: start_collector_def two_lines_def chunk_bytes_def collect_chunk_def)
  ultimately have reach: "collect_step\<^sup>*\<^sup>* ?s0 ?s2" by auto
  have "cl_truncated ?s2" "cl_collected ?s2 Stdout = []" "cl_collected ?s2 Stderr = [3, 4, 5]"
    by (simp_all add: start_collector_def two_lines_def collect_chunk_def)
  with reach collected_output_bounded [OF reach] show ?thesis by auto
qed

text \<open>
  Collection ends. There is no infinite interleaving of reads, ends of file, kills and losses, and a
  state in which nothing can happen any more has both readers finished.
\<close>

theorem collection_terminates:
  "wfP (\<lambda>st' st. collect_step st st') \<and>
   ((\<exists>st'. collect_step st st') \<or> cl_finished st Stdout \<and> cl_finished st Stderr)"
proof -
  have "wfP (\<lambda>st' st. collect_step st st')"
    unfolding wfp_def
    by (rule wf_subset [OF wf_measure [of collector_work]]) (auto dest: collect_step_decreases)
  then show ?thesis using collect_stuck by blast
qed

end
