(* ===== verification/Canonical_Json.thy ===== *)
theory Canonical_Json
  imports Utf8
begin

text \<open>
  Canonical JSON bytes (\<open>canonical/json_v1.py\<close>) and the domain-separated digest
  (\<open>canonical/digest.py\<close>). A mapping is its list of items; SHA-256 is an argument. The encoding is
  proved unambiguous, so equal digests mean equal values or a collision of the hash.
\<close>

section \<open>The encoder\<close>

datatype cvalue =
    CStr utext
  | CInt int
  | CBool bool
  | CArr "cvalue list"
  | CObj "(utext \<times> cvalue) list"

definition hex_digit :: "nat \<Rightarrow> codepoint" where
  "hex_digit n = (if n < 10 then 48 + n else 87 + n)"

definition escape :: "codepoint \<Rightarrow> utext" where
  "escape c =
     (if c = 34 then [92, 34]
      else if c = 92 then [92, 92]
      else if c = 8 then [92, 98]
      else if c = 9 then [92, 116]
      else if c = 10 then [92, 110]
      else if c = 12 then [92, 102]
      else if c = 13 then [92, 114]
      else if c < 32 then [92, 117, 48, 48, hex_digit (c div 16), hex_digit (c mod 16)]
      else [c])"

text \<open>The loop of \<open>_encode_string\<close>; \<open>None\<close> is \<open>CanonicalJsonErrorV1\<close>.\<close>

fun encode_pieces :: "utext \<Rightarrow> utext option" where
  "encode_pieces [] = Some []"
| "encode_pieces (c # cs) =
     (if 55296 \<le> c \<and> c \<le> 57343 then
        (case cs of
           [] \<Rightarrow> None
         | low # rest \<Rightarrow>
             if c \<le> 56319 \<and> 56320 \<le> low \<and> low \<le> 57343
               then map_option (Cons (65536 + (c - 55296) * 1024 + (low - 56320))) (encode_pieces rest)
             else None)
      else map_option ((@) (escape c)) (encode_pieces cs))"

definition encode_string :: "utext \<Rightarrow> utext option" where
  "encode_string s = map_option (\<lambda>pieces. 34 # pieces @ [34]) (encode_pieces s)"

definition str_int :: "int \<Rightarrow> utext" where
  "str_int i = (if i < 0 then 45 # lit (str_nat (nat (- i))) else lit (str_nat (nat i)))"

fun join_with :: "'a \<Rightarrow> 'a list list \<Rightarrow> 'a list" where
  "join_with d [] = []"
| "join_with d [x] = x"
| "join_with d (x # y # ys) = x @ d # join_with d (y # ys)"

definition encode_item :: "utext \<times> utext option \<Rightarrow> utext option" where
  "encode_item kv =
     (case encode_string (fst kv) of
        None \<Rightarrow> None
      | Some k \<Rightarrow> map_option (\<lambda>v. k @ 58 # v) (snd kv))"

fun encode_value :: "cvalue \<Rightarrow> utext option" where
  "encode_value (CBool b) = Some (lit (if b then ''true'' else ''false''))"
| "encode_value (CInt i) = Some (str_int i)"
| "encode_value (CStr s) = encode_string s"
| "encode_value (CObj kvs) =
     (let items = map (\<lambda>(k, v). (k, encode_value v)) kvs in
      map_option (\<lambda>parts. 123 # join_with 44 parts @ [125]) (those (map encode_item (sort_key fst items))))"
| "encode_value (CArr vs) =
     map_option (\<lambda>parts. 91 # join_with 44 parts @ [93]) (those (map encode_value vs))"

definition canonical_json_bytes :: "cvalue \<Rightarrow> nat list option" where
  "canonical_json_bytes v = map_option encode (encode_value v)"

definition digest_prefix :: "string \<Rightarrow> nat \<Rightarrow> nat list" where
  "digest_prefix object_type schema_version =
     lit ''VesperCode'' @ 0 # lit object_type @ 0 # lit (str_nat schema_version) @ [0]"

text \<open>\<open>domain_digest\<close> of a declared ASCII type name; \<open>None\<close> is the encoder's error.\<close>

definition domain_digest :: "(nat list \<Rightarrow> string) \<Rightarrow> string \<Rightarrow> nat \<Rightarrow> cvalue \<Rightarrow> string option" where
  "domain_digest sha256 object_type schema_version v =
     map_option (\<lambda>bytes. sha256 (digest_prefix object_type schema_version @ bytes)) (canonical_json_bytes v)"

section \<open>Normal form\<close>

text \<open>The value with the items of every mapping in key order; two mappings are equal when these are.\<close>

fun normal :: "cvalue \<Rightarrow> cvalue" where
  "normal (CObj kvs) = CObj (sort_key fst (map (\<lambda>(k, v). (k, normal v)) kvs))"
| "normal (CArr vs) = CArr (map normal vs)"
| "normal v = v"

fun scalar_value :: "cvalue \<Rightarrow> bool" where
  "scalar_value (CStr s) = list_all scalar s"
| "scalar_value (CObj kvs) = list_all (\<lambda>(k, v). list_all scalar k \<and> scalar_value v) kvs"
| "scalar_value (CArr vs) = list_all scalar_value vs"
| "scalar_value v = True"

text \<open>The encoder without the sorting and without the errors.\<close>

definition plain_string :: "utext \<Rightarrow> utext" where
  "plain_string s = 34 # concat (map escape s) @ [34]"

fun plain_json :: "cvalue \<Rightarrow> utext" where
  "plain_json (CBool b) = lit (if b then ''true'' else ''false'')"
| "plain_json (CInt i) = str_int i"
| "plain_json (CStr s) = plain_string s"
| "plain_json (CObj kvs) = 123 # join_with 44 (map (\<lambda>(k, v). plain_string k @ 58 # plain_json v) kvs) @ [125]"
| "plain_json (CArr vs) = 91 # join_with 44 (map plain_json vs) @ [93]"

lemma encode_pieces_scalar: "list_all scalar s \<Longrightarrow> encode_pieces s = Some (concat (map escape s))"
  by (induction s) (auto simp: scalar_def)

lemma encode_string_scalar: "list_all scalar s \<Longrightarrow> encode_string s = Some (plain_string s)"
  by (simp add: encode_string_def encode_pieces_scalar plain_string_def)

lemma those_map_Some_list: "(\<And>x. x \<in> set xs \<Longrightarrow> f x = Some (g x)) \<Longrightarrow> those (map f xs) = Some (map g xs)"
  by (induction xs) simp_all

lemma sort_key_map_snd: "sort_key fst (map (\<lambda>(k, v). (k, f v)) kvs) = map (\<lambda>(k, v). (k, f v)) (sort_key fst kvs)"
proof -
  have ins: "insort_key fst (k, f v) (map (\<lambda>(k, v). (k, f v)) xs) = map (\<lambda>(k, v). (k, f v)) (insort_key fst (k, v) xs)" for k v xs
    by (induction xs) auto
  show ?thesis by (induction kvs) (auto simp: ins)
qed

lemma encode_value_plain: "scalar_value v \<Longrightarrow> encode_value v = Some (plain_json (normal v))"
proof (induction v rule: encode_value.induct)
  case (4 kvs)
  have v: "encode_value v = Some (plain_json (normal v))" "list_all scalar k" if "(k, v) \<in> set kvs" for k v
    using 4 that by (auto simp: list_all_iff)
  have "those (map encode_item (map (\<lambda>(k, v). (k, encode_value v)) (sort_key fst kvs))) =
      Some (map (\<lambda>(k, v). plain_string k @ 58 # plain_json (normal v)) (sort_key fst kvs))"
    using v by (simp only: map_map) (intro those_map_Some_list, auto simp: encode_item_def encode_string_scalar)
  then show ?case
    unfolding encode_value.simps normal.simps plain_json.simps Let_def sort_key_map_snd
    by (simp add: comp_def case_prod_beta')
next
  case (5 vs)
  then show ?case
    using those_map_Some_list [of vs encode_value "\<lambda>v. plain_json (normal v)"] by (simp add: list_all_iff comp_def)
qed (simp_all add: encode_string_scalar)

section \<open>The encoding is unambiguous\<close>

text \<open>A value is followed by the end of the text, a comma or a closing bracket.\<close>

definition closes :: "utext \<Rightarrow> bool" where
  "closes r \<longleftrightarrow> r = [] \<or> hd r \<in> {44, 93, 125}"

definition unambiguous :: "('a \<Rightarrow> utext) \<Rightarrow> 'a \<Rightarrow> bool" where
  "unambiguous f x \<longleftrightarrow> (\<forall>y r s. closes r \<longrightarrow> closes s \<longrightarrow> f x @ r = f y @ s \<longrightarrow> x = y \<and> r = s)"

lemma hex_digit_inj: "m < 16 \<Longrightarrow> n < 16 \<Longrightarrow> hex_digit m = hex_digit n \<longleftrightarrow> m = n"
  by (auto simp: hex_digit_def)

lemma escape_cases:
  "escape c = [c] \<and> 32 \<le> c \<and> c \<noteq> 34 \<and> c \<noteq> 92 \<or>
   c < 32 \<and> c \<notin> {8, 9, 10, 12, 13} \<and> escape c = [92, 117, 48, 48, hex_digit (c div 16), hex_digit (c mod 16)] \<or>
   (\<exists>d. escape c = [92, d] \<and> (c, d) \<in> {(34, 34), (92, 92), (8, 98), (9, 116), (10, 110), (12, 102), (13, 114)})"
  by (auto simp: escape_def)

lemma escape_prefix:
  assumes "escape c @ r = escape d @ s"
  shows "c = d \<and> r = s"
proof -
  have "c div 16 < 16 \<and> d div 16 < 16" if "c < 32" "d < 32" using that by auto
  moreover have "c = d" if "c div 16 = d div 16" "c mod 16 = d mod 16"
    using that by (metis div_mod_decomp)
  ultimately show ?thesis
    using assms escape_cases [of c] escape_cases [of d]
    by (elim disjE exE conjE) (auto simp: hex_digit_inj)
qed

lemma escape_no_quote: "escape c @ r \<noteq> 34 # s"
  by (simp add: escape_def)

lemma pieces_prefix:
  "concat (map escape s) @ 34 # r = concat (map escape t) @ 34 # q \<Longrightarrow> s = t \<and> r = q"
proof (induction s arbitrary: t)
  case Nil
  then show ?case using escape_no_quote by (cases t) (simp_all add: eq_commute [of "34 # r"])
next
  case (Cons c s)
  then obtain d t' where t: "t = d # t'"
    using escape_no_quote [of c] by (cases t) simp_all
  with Cons.prems have "escape c @ concat (map escape s) @ 34 # r = escape d @ concat (map escape t') @ 34 # q" by simp
  from escape_prefix [OF this] Cons.IH [of t'] t show ?case by simp
qed

lemma plain_string_prefix: "plain_string s @ r = plain_string t @ q \<Longrightarrow> s = t \<and> r = q"
  unfolding plain_string_def using pieces_prefix [of s r t q] by simp

section \<open>Numbers\<close>

definition digit :: "codepoint \<Rightarrow> bool" where
  "digit c \<longleftrightarrow> 48 \<le> c \<and> c \<le> 57"

definition decimal :: "nat \<Rightarrow> utext" where
  "decimal n = lit (str_nat n)"

lemma decimal_rec: "decimal n = (if n < 10 then [48 + n] else decimal (n div 10) @ [48 + n mod 10])"
  unfolding decimal_def by (subst str_nat.simps) (simp add: lit_def ord_def)

lemma decimal_digits: "list_all digit (decimal n) \<and> decimal n \<noteq> []"
proof (induction n rule: less_induct)
  case (less n)
  have "digit (48 + n mod 10)" "n < 10 \<Longrightarrow> digit (48 + n)" by (simp_all add: digit_def)
  then show ?case using less.IH [of "n div 10"] by (subst (1 2) decimal_rec) simp
qed

lemma decimal_value: "foldl (\<lambda>n c. 10 * n + (c - 48)) 0 (decimal n) = n"
proof (induction n rule: less_induct)
  case (less n)
  then show ?case by (subst decimal_rec) simp
qed

lemma decimal_inj: "decimal m = decimal n \<longleftrightarrow> m = n"
  by (metis decimal_value)

lemma closes_no_digit: "closes r \<Longrightarrow> takeWhile digit r = [] \<and> dropWhile digit r = r"
  by (cases r) (auto simp: closes_def digit_def)

lemma digits_prefix:
  assumes "list_all digit a" "list_all digit b" "closes r" "closes s" "a @ r = b @ s"
  shows "a = b \<and> r = s"
proof -
  have "takeWhile digit (a @ r) = a" "takeWhile digit (b @ s) = b"
    using assms(1-4) closes_no_digit by (simp_all add: list_all_iff takeWhile_append2)
  with assms(5) show ?thesis by simp
qed

lemma str_int_prefix:
  assumes "closes r" "closes s" "str_int i @ r = str_int j @ s"
  shows "i = j \<and> r = s"
proof -
  have hd: "decimal n @ q \<noteq> 45 # q'" for n q q'
    using decimal_digits [of n] by (cases "decimal n") (auto simp: digit_def)
  have eq: "decimal m @ r = decimal n @ s \<Longrightarrow> m = n \<and> r = s" for m n
    using digits_prefix [OF _ _ assms(1,2)] decimal_digits decimal_inj by blast
  have int: "str_int k = (if k < 0 then 45 # decimal (nat (- k)) else decimal (nat k))" for k
    by (simp add: str_int_def decimal_def)
  consider "i < 0" "j < 0" | "i < 0" "\<not> j < 0" | "\<not> i < 0" "j < 0" | "\<not> i < 0" "\<not> j < 0" by blast
  then show ?thesis
  proof cases
    case 1
    then show ?thesis using assms(3) eq [of "nat (- i)" "nat (- j)"] unfolding int by auto
  next
    case 2
    then show ?thesis using assms(3) hd [of "nat j" s] unfolding int by (metis append_Cons)
  next
    case 3
    then show ?thesis using assms(3) hd [of "nat i" r] unfolding int by (metis append_Cons)
  next
    case 4
    then show ?thesis using assms(3) eq [of "nat i" "nat j"] unfolding int by auto
  qed
qed

section \<open>Lists of values\<close>

definition opens :: "utext \<Rightarrow> bool" where
  "opens t \<longleftrightarrow> t \<noteq> [] \<and> hd t \<notin> {44, 93, 125}"

lemma join_with_Cons: "join_with d (x # xs) = x @ (if xs = [] then [] else d # join_with d xs)"
  by (cases xs) simp_all

lemma closes_rest: "close \<in> {93, 125} \<Longrightarrow> closes ((if xs = [] then [] else 44 # t) @ close # r)"
  by (auto simp: closes_def)

lemma join_unambiguous:
  assumes "\<forall>x\<in>set xs. unambiguous f x" "\<And>x. opens (f x)" "close \<in> {93, 125}"
    "join_with 44 (map f xs) @ close # r = join_with 44 (map f ys) @ close # s"
  shows "xs = ys \<and> r = s"
  using assms(1,4)
proof (induction xs arbitrary: ys)
  case Nil
  show ?case
  proof (cases ys)
    case (Cons y ys')
    have "opens (f y)" by (rule assms(2))
    then show ?thesis using Nil Cons assms(3) by (cases "f y") (auto simp: join_with_Cons opens_def)
  qed (use Nil in simp)
next
  case (Cons x xs)
  show ?case
  proof (cases ys)
    case Nil
    have "opens (f x)" by (rule assms(2))
    then show ?thesis using Nil Cons assms(3) by (cases "f x") (auto simp: join_with_Cons opens_def)
  next
    case ys: (Cons y ys')
    let ?r = "(if xs = [] then [] else 44 # join_with 44 (map f xs)) @ close # r"
    let ?s = "(if ys' = [] then [] else 44 # join_with 44 (map f ys')) @ close # s"
    have "f x @ ?r = f y @ ?s" using Cons.prems(2) unfolding ys by (simp add: join_with_Cons)
    moreover have "closes ?r" "closes ?s" using closes_rest [OF assms(3)] by blast+
    ultimately have xy: "x = y" "?r = ?s" using Cons.prems(1) by (auto simp: unambiguous_def)
    show ?thesis
    proof (cases "xs = []")
      case True
      with xy(2) assms(3) have "ys' = []" "r = s" by (auto split: if_splits)
      then show ?thesis using True xy(1) ys by simp
    next
      case False
      with xy(2) assms(3) have "join_with 44 (map f xs) @ close # r = join_with 44 (map f ys') @ close # s"
        by (auto split: if_splits)
      with Cons.IH [of ys'] Cons.prems(1) xy(1) ys show ?thesis by simp
    qed
  qed
qed

lemma plain_opens: "opens (plain_json v)"
proof (cases v)
  case (CInt i)
  have "decimal n \<noteq> [] \<and> hd (decimal n) \<notin> {44, 93, 125}" for n
    using decimal_digits [of n] by (cases "decimal n") (auto simp: digit_def)
  then show ?thesis using CInt by (auto simp: opens_def str_int_def decimal_def)
qed (auto simp: opens_def plain_string_def)

definition plain_item :: "utext \<times> cvalue \<Rightarrow> utext" where
  "plain_item kv = plain_string (fst kv) @ 58 # plain_json (snd kv)"

lemma plain_CObj: "plain_json (CObj kvs) = 123 # join_with 44 (map plain_item kvs) @ [125]"
  by (simp add: plain_item_def case_prod_beta' cong: map_cong)

text \<open>The first character of the encoding tells the constructor.\<close>

fun kind_of :: "codepoint \<Rightarrow> nat" where
  "kind_of c = (if c = 34 then 0 else if c = 116 \<or> c = 102 then 1 else if c = 91 then 2 else if c = 123 then 3 else 4)"

fun kind_of_value :: "cvalue \<Rightarrow> nat" where
  "kind_of_value (CStr s) = 0"
| "kind_of_value (CBool b) = 1"
| "kind_of_value (CArr vs) = 2"
| "kind_of_value (CObj kvs) = 3"
| "kind_of_value (CInt i) = 4"

lemma plain_kind: "kind_of (hd (plain_json v @ r)) = kind_of_value v"
proof (cases v)
  case (CInt i)
  have "decimal n \<noteq> [] \<and> kind_of (hd (decimal n)) = 4" for n
    using decimal_digits [of n] by (cases "decimal n") (auto simp: digit_def)
  then show ?thesis using CInt by (auto simp: str_int_def decimal_def simp del: kind_of.simps) simp
qed (simp_all add: plain_string_def)

lemma plain_unambiguous: "unambiguous plain_json v"
proof (induction v rule: plain_json.induct)
  case (1 b)
  show ?case unfolding unambiguous_def
  proof (intro allI impI)
    fix y r s
    assume e: "plain_json (CBool b) @ r = plain_json y @ s"
    then have "kind_of_value y = 1" using plain_kind [of y s] plain_kind [of "CBool b" r] by simp
    then obtain c where "y = CBool c" by (cases y) auto
    with e show "CBool b = y \<and> r = s" by (cases b; cases c) simp_all
  qed
next
  case (2 i)
  show ?case unfolding unambiguous_def
  proof (intro allI impI)
    fix y r s
    assume c: "closes r" "closes s" and e: "plain_json (CInt i) @ r = plain_json y @ s"
    then have "kind_of_value y = 4" using plain_kind [of y s] plain_kind [of "CInt i" r] by simp
    then obtain j where "y = CInt j" by (cases y) auto
    with e str_int_prefix [OF c, of i j] show "CInt i = y \<and> r = s" by simp
  qed
next
  case (3 t)
  show ?case unfolding unambiguous_def
  proof (intro allI impI)
    fix y r s
    assume e: "plain_json (CStr t) @ r = plain_json y @ s"
    then have "kind_of_value y = 0" using plain_kind [of y s] plain_kind [of "CStr t" r] by simp
    then obtain t' where "y = CStr t'" by (cases y) auto
    with e plain_string_prefix [of t r t' s] show "CStr t = y \<and> r = s" by simp
  qed
next
  case (4 kvs)
  have item: "unambiguous plain_item kv" if "kv \<in> set kvs" for kv
    unfolding unambiguous_def
  proof (intro allI impI)
    fix y r s
    assume c: "closes r" "closes s" and e: "plain_item kv @ r = plain_item y @ s"
    then have "fst kv = fst y" "plain_json (snd kv) @ r = plain_json (snd y) @ s"
      using plain_string_prefix [of "fst kv" "58 # plain_json (snd kv) @ r" "fst y" "58 # plain_json (snd y) @ s"]
      by (simp_all add: plain_item_def)
    moreover have "unambiguous plain_json (snd kv)" using 4 that by (metis prod.collapse)
    ultimately have "snd kv = snd y \<and> r = s" using c unfolding unambiguous_def by blast
    with \<open>fst kv = fst y\<close> show "kv = y \<and> r = s" by (simp add: prod_eq_iff)
  qed
  have op: "opens (plain_item kv)" for kv by (simp add: opens_def plain_item_def plain_string_def)
  show ?case unfolding unambiguous_def
  proof (intro allI impI)
    fix y r s
    assume e: "plain_json (CObj kvs) @ r = plain_json y @ s"
    then have "kind_of_value y = 3" using plain_kind [of y s] plain_kind [of "CObj kvs" r] by simp
    then obtain kvs' where y: "y = CObj kvs'" by (cases y) auto
    from e have "join_with 44 (map plain_item kvs) @ 125 # r = join_with 44 (map plain_item kvs') @ 125 # s"
      unfolding y plain_CObj by simp
    from join_unambiguous [OF _ op _ this] item y show "CObj kvs = y \<and> r = s" by simp
  qed
next
  case (5 vs)
  show ?case unfolding unambiguous_def
  proof (intro allI impI)
    fix y r s
    assume e: "plain_json (CArr vs) @ r = plain_json y @ s"
    then have "kind_of_value y = 2" using plain_kind [of y s] plain_kind [of "CArr vs" r] by simp
    then obtain vs' where y: "y = CArr vs'" by (cases y) auto
    from e have "join_with 44 (map plain_json vs) @ 93 # r = join_with 44 (map plain_json vs') @ 93 # s"
      unfolding y by simp
    from join_unambiguous [OF _ plain_opens _ this] 5 y show "CArr vs = y \<and> r = s" by simp
  qed
qed

lemma plain_inj: "plain_json v = plain_json w \<longleftrightarrow> v = w"
proof
  assume "plain_json v = plain_json w"
  then have "plain_json v @ [] = plain_json w @ []" by simp
  moreover have "closes []" by (simp add: closes_def)
  ultimately show "v = w" using plain_unambiguous [of v] unfolding unambiguous_def by blast
qed simp

section \<open>Digests bind their values\<close>

lemma ascii_is_scalar: "c < 128 \<Longrightarrow> scalar c"
  by (simp add: scalar_def)

lemma decimal_scalar: "list_all scalar (decimal n)"
  using decimal_digits [of n] unfolding list_all_iff digit_def by (auto intro!: ascii_is_scalar)

lemma escape_scalar: "scalar c \<Longrightarrow> list_all scalar (escape c)"
proof -
  have "hex_digit n < 128" if "n < 16" for n using that by (simp add: hex_digit_def)
  then have "c < 32 \<Longrightarrow> list_all scalar [92, 117, 48, 48, hex_digit (c div 16), hex_digit (c mod 16)]"
    by (auto intro!: ascii_is_scalar)
  moreover assume "scalar c"
  ultimately show ?thesis unfolding escape_def by (auto intro!: ascii_is_scalar)
qed

lemma plain_string_scalar: "list_all scalar s \<Longrightarrow> list_all scalar (plain_string s)"
  by (induction s) (auto simp: plain_string_def escape_scalar ascii_is_scalar)

lemma join_with_all: "P d \<Longrightarrow> \<forall>x\<in>set xs. list_all P x \<Longrightarrow> list_all P (join_with d xs)"
  by (induction d xs rule: join_with.induct) auto

lemma plain_scalar: "scalar_value v \<Longrightarrow> list_all scalar (plain_json v)"
proof (induction v rule: plain_json.induct)
  case (2 i)
  then show ?case using decimal_scalar by (simp add: str_int_def decimal_def ascii_is_scalar)
next
  case (4 kvs)
  have "list_all scalar (plain_item kv)" if "kv \<in> set kvs" for kv
    using 4 that plain_string_scalar
    by (cases kv) (auto simp: plain_item_def list_all_iff ascii_is_scalar)
  then show ?case
    unfolding plain_CObj by (auto simp: ascii_is_scalar intro!: join_with_all)
next
  case (5 vs)
  then have "\<forall>x\<in>set (map plain_json vs). list_all scalar x" by (auto simp: list_all_iff)
  then show ?case by (auto simp: ascii_is_scalar intro!: join_with_all)
qed (auto simp: ascii_is_scalar plain_string_scalar)

lemma scalar_normal: "scalar_value v \<Longrightarrow> scalar_value (normal v)"
  by (induction v rule: normal.induct) (auto simp: list_all_iff case_prod_beta')

lemma json_bytes_plain: "scalar_value v \<Longrightarrow> canonical_json_bytes v = Some (encode (plain_json (normal v)))"
  by (simp add: canonical_json_bytes_def encode_value_plain)

lemma json_bytes_inj:
  assumes "scalar_value v" "scalar_value w"
  shows "canonical_json_bytes v = canonical_json_bytes w \<longleftrightarrow> normal v = normal w"
proof
  assume "canonical_json_bytes v = canonical_json_bytes w"
  then have "encode (plain_json (normal v)) = encode (plain_json (normal w))" using assms by (simp add: json_bytes_plain)
  moreover have "list_all scalar (plain_json (normal v))" "list_all scalar (plain_json (normal w))"
    using assms plain_scalar scalar_normal by blast+
  ultimately have "plain_json (normal v) = plain_json (normal w)" by (metis decode_strict_encode option.inject)
  then show "normal v = normal w" by (simp add: plain_inj)
qed (use assms in \<open>simp add: json_bytes_plain\<close>)

lemma split_at_zero:
  "0 \<notin> set a \<Longrightarrow> 0 \<notin> set b \<Longrightarrow> a @ (0::nat) # r = b @ 0 # s \<Longrightarrow> a = b \<and> r = s"
  by (induction a arbitrary: b) (auto simp: Cons_eq_append_conv append_eq_Cons_conv)

lemma lit_inj: "lit s = lit t \<longleftrightarrow> s = t"
  unfolding lit_def ord_def by (metis (no_types, lifting) inj_def inj_map_eq_map of_char_eq_iff)

lemma digest_prefix_inj:
  assumes "0 \<notin> set (lit t)" "0 \<notin> set (lit t')"
    "digest_prefix t n @ b = digest_prefix t' n' @ b'"
  shows "t = t' \<and> n = n' \<and> b = b'"
proof -
  have d: "0 \<notin> set (decimal k)" for k using decimal_digits [of k] by (auto simp: list_all_iff digit_def)
  from assms(3) have "lit t @ 0 # decimal n @ 0 # b = lit t' @ 0 # decimal n' @ 0 # b'"
    by (simp add: digest_prefix_def decimal_def)
  from split_at_zero [OF assms(1,2) this] split_at_zero [OF d d, of n b n' b'] show ?thesis
    by (simp add: lit_inj decimal_inj)
qed

text \<open>The bytes that are hashed determine the type name, the version and the value.\<close>

definition digest_input :: "string \<Rightarrow> nat \<Rightarrow> cvalue \<Rightarrow> nat list" where
  "digest_input t n v = digest_prefix t n @ encode (plain_json (normal v))"

lemma domain_digest_input: "scalar_value v \<Longrightarrow> domain_digest sha256 t n v = Some (sha256 (digest_input t n v))"
  by (simp add: domain_digest_def json_bytes_plain digest_input_def)

lemma digest_input_inj:
  assumes "0 \<notin> set (lit t)" "0 \<notin> set (lit t')" "scalar_value v" "scalar_value w"
  shows "digest_input t n v = digest_input t' n' w \<longleftrightarrow> t = t' \<and> n = n' \<and> normal v = normal w"
proof
  assume "digest_input t n v = digest_input t' n' w"
  then have "t = t' \<and> n = n' \<and> encode (plain_json (normal v)) = encode (plain_json (normal w))"
    using digest_prefix_inj assms(1,2) unfolding digest_input_def by blast
  then show "t = t' \<and> n = n' \<and> normal v = normal w"
    using json_bytes_inj [OF assms(3,4)] assms(3,4) by (simp add: json_bytes_plain)
qed (simp add: digest_input_def)

lemma domain_digest_binds:
  assumes "0 \<notin> set (lit t)" "0 \<notin> set (lit t')" "scalar_value v" "scalar_value w"
    "domain_digest sha256 t n v = domain_digest sha256 t' n' w"
    "inj_on sha256 {digest_input t n v, digest_input t' n' w}"
  shows "t = t' \<and> n = n' \<and> normal v = normal w"
proof -
  have "sha256 (digest_input t n v) = sha256 (digest_input t' n' w)"
    using assms(3-5) by (simp add: domain_digest_input)
  then have "digest_input t n v = digest_input t' n' w" by (rule inj_onD [OF assms(6)]) simp_all
  then show ?thesis using digest_input_inj [OF assms(1-4)] by simp
qed

end
