(* ===== verification/Canonical_Path.thy ===== *)
theory Canonical_Path
  imports Utf8
begin

text \<open>
  Canonical repository-relative paths (\<open>canonical/path_v1.py\<close>) on code-point text. The two Unicode
  tables the source consults, full case folding and NFC normalisation, are arguments: every statement
  holds for whatever tables the interpreter carries.
\<close>

section \<open>The Unicode tables\<close>

record unicode_tables =
  ut_casefold :: "utext \<Rightarrow> utext"
  ut_nfc :: "utext \<Rightarrow> utext"

text \<open>\<open>str.isspace\<close> of one code point.\<close>

definition uspace :: "codepoint \<Rightarrow> bool" where
  "uspace n \<longleftrightarrow>
     9 \<le> n \<and> n \<le> 13 \<or> 28 \<le> n \<and> n \<le> 32 \<or> n = 133 \<or> n = 160 \<or> n = 5760 \<or> 8192 \<le> n \<and> n \<le> 8202 \<or>
     n = 8232 \<or> n = 8233 \<or> n = 8239 \<or> n = 8287 \<or> n = 12288"

section \<open>Validation\<close>

datatype path_rejection =
    PATH_EMPTY | PATH_ROOT | PATH_UNC | PATH_ABSOLUTE | PATH_DRIVE | PATH_ADS | PATH_BACKSLASH
  | PATH_INVALID_CHARACTER | PATH_EMPTY_SEGMENT | PATH_DOT | PATH_PARENT | PATH_TRAILING_DOT_OR_SPACE
  | PATH_RESERVED_NAME | PATH_CASE_COLLISION | PATH_UNICODE_COLLISION

definition reserved_device_names :: "utext list" where
  "reserved_device_names =
     map lit [''CON'', ''PRN'', ''AUX'', ''NUL'',
       ''COM1'', ''COM2'', ''COM3'', ''COM4'', ''COM5'', ''COM6'', ''COM7'', ''COM8'', ''COM9'',
       ''LPT1'', ''LPT2'', ''LPT3'', ''LPT4'', ''LPT5'', ''LPT6'', ''LPT7'', ''LPT8'', ''LPT9'']"

definition ascii_letter :: "codepoint \<Rightarrow> bool" where
  "ascii_letter c \<longleftrightarrow> 65 \<le> c \<and> c \<le> 90 \<or> 97 \<le> c \<and> c \<le> 122"

definition drive_prefix :: "utext \<Rightarrow> bool" where
  \<comment> \<open>\<open>^[A-Za-z]:\<close>\<close>
  "drive_prefix p \<longleftrightarrow> (case p of c # d # _ \<Rightarrow> ascii_letter c \<and> d = 58 | _ \<Rightarrow> False)"

definition invalid_character :: "codepoint \<Rightarrow> bool" where
  "invalid_character c \<longleftrightarrow> c \<in> set (lit ''<>\"|?*'') \<or> c < 32"

definition segments :: "utext \<Rightarrow> utext list" where
  "segments p = split_on 47 p"

definition reserved_segment :: "unicode_tables \<Rightarrow> utext \<Rightarrow> bool" where
  "reserved_segment T s \<longleftrightarrow>
     ut_casefold T (takeWhile (\<lambda>c. c \<noteq> 46) s) \<in> set (map (ut_casefold T) reserved_device_names)"

text \<open>The loop over a dictionary of the spellings seen so far, by key.\<close>

fun collides :: "(utext \<Rightarrow> utext) \<Rightarrow> (utext \<Rightarrow> utext option) \<Rightarrow> utext list \<Rightarrow> bool" where
  "collides key seen [] = False"
| "collides key seen (s # ss) =
     (if (case seen (key s) of None \<Rightarrow> False | Some t \<Rightarrow> t \<noteq> s) then True
      else collides key (seen(key s \<mapsto> s)) ss)"

definition check_collisions :: "unicode_tables \<Rightarrow> utext list \<Rightarrow> path_rejection option" where
  "check_collisions T ss =
     (if collides (ut_casefold T) (\<lambda>_. None) ss then Some PATH_CASE_COLLISION
      else if collides (ut_nfc T) (\<lambda>_. None) ss then Some PATH_UNICODE_COLLISION
      else None)"

definition validate_path :: "unicode_tables \<Rightarrow> utext \<Rightarrow> path_rejection option" where
  "validate_path T value =
     (let ss = segments value in
      if value = [] then Some PATH_EMPTY
      else if value \<in> {lit ''.'', lit ''./'', lit ''/''} then Some PATH_ROOT
      else if startswith value (lit ''//'') then Some PATH_UNC
      else if startswith value (lit ''/'') then Some PATH_ABSOLUTE
      else if drive_prefix value then Some PATH_DRIVE
      else if 58 \<in> set value then Some PATH_ADS
      else if 92 \<in> set value then Some PATH_BACKSLASH
      else if list_ex invalid_character value then Some PATH_INVALID_CHARACTER
      else if [] \<in> set ss then Some PATH_EMPTY_SEGMENT
      else if lit ''.'' \<in> set ss then Some PATH_DOT
      else if lit ''..'' \<in> set ss then Some PATH_PARENT
      else if list_ex (\<lambda>s. endswith s (lit ''.'') \<or> endswith s (lit '' '')) ss then Some PATH_TRAILING_DOT_OR_SPACE
      else if list_ex (reserved_segment T) ss then Some PATH_RESERVED_NAME
      else check_collisions T ss)"

text \<open>\<open>CanonicalRelativePathV1(value)\<close> succeeds.\<close>

definition is_canonical_path :: "unicode_tables \<Rightarrow> utext \<Rightarrow> bool" where
  "is_canonical_path T value \<longleftrightarrow> validate_path T value = None"

section \<open>What a canonical path is\<close>

lemma collides_iff:
  assumes "\<And>k s. seen k = Some s \<Longrightarrow> key s = k"
  shows "collides key seen ss \<longleftrightarrow>
    (\<exists>s\<in>set ss. \<exists>t\<in>set ss \<union> ran seen. key s = key t \<and> s \<noteq> t)"
  using assms
proof (induction key seen ss rule: collides.induct)
  case (2 key seen s ss)
  show ?case
  proof (cases "case seen (key s) of None \<Rightarrow> False | Some t \<Rightarrow> t \<noteq> s")
    case True
    then obtain t where "seen (key s) = Some t" "t \<noteq> s" by (auto split: option.splits)
    moreover from this 2(2) have "t \<in> ran seen" "key s = key t" by (auto intro: ranI)
    ultimately have "\<exists>t\<in>set ss \<union> ran seen. key s = key t \<and> s \<noteq> t" by blast
    with True show ?thesis by auto
  next
    case False
    have upd: "(seen(key s \<mapsto> s)) k = Some t \<Longrightarrow> key t = k" for k t
      using 2(2) by (auto split: if_splits)
    have ran: "insert s (ran seen) = ran (seen(key s \<mapsto> s))"
    proof
      have "t \<in> ran (seen(key s \<mapsto> s))" if "t \<in> ran seen" for t
      proof -
        from that obtain k where k: "seen k = Some t" by (auto simp: ran_def)
        show ?thesis
        proof (cases "k = key s")
          case True
          with k False have "t = s" by simp
          then show ?thesis by (auto simp: ran_def)
        next
          case False
          with k have "(seen(key s \<mapsto> s)) k = Some t" by simp
          then show ?thesis by (rule ranI)
        qed
      qed
      moreover have "s \<in> ran (seen(key s \<mapsto> s))" by (rule ranI [of _ "key s"]) simp
      ultimately show "insert s (ran seen) \<subseteq> ran (seen(key s \<mapsto> s))" by blast
    qed (auto simp: ran_def split: if_splits)
    have none: "t \<in> ran seen \<Longrightarrow> key s = key t \<Longrightarrow> s = t" for t
      using False 2(2) by (auto simp: ran_def split: option.splits)
    have "collides key seen (s # ss) = collides key (seen(key s \<mapsto> s)) ss" using False by simp
    also have "\<dots> = (\<exists>r\<in>set ss. \<exists>t\<in>set ss \<union> insert s (ran seen). key r = key t \<and> r \<noteq> t)"
      unfolding ran by (rule 2(1) [OF False]) (rule upd)
    also have "\<dots> = (\<exists>r\<in>set (s # ss). \<exists>t\<in>set (s # ss) \<union> ran seen. key r = key t \<and> r \<noteq> t)"
    proof
      assume "\<exists>r\<in>set (s # ss). \<exists>t\<in>set (s # ss) \<union> ran seen. key r = key t \<and> r \<noteq> t"
      then obtain r t where rt: "r \<in> insert s (set ss)" "t \<in> insert s (set ss) \<union> ran seen" "key r = key t" "r \<noteq> t"
        by auto
      show "\<exists>r\<in>set ss. \<exists>t\<in>set ss \<union> insert s (ran seen). key r = key t \<and> r \<noteq> t"
      proof (cases "r = s")
        case True
        then have "t \<in> set ss" using rt none by auto
        then show ?thesis using rt True by (intro bexI [of _ t] bexI [of _ s]) auto
      next
        case False
        then show ?thesis using rt by (intro bexI [of _ r] bexI [of _ t]) auto
      qed
    qed auto
    finally show ?thesis .
  qed
qed simp

definition distinguishable :: "(utext \<Rightarrow> utext) \<Rightarrow> utext list \<Rightarrow> bool" where
  "distinguishable key ss \<longleftrightarrow> (\<forall>s\<in>set ss. \<forall>t\<in>set ss. key s = key t \<longrightarrow> s = t)"

lemma collides_empty: "\<not> collides key (\<lambda>_. None) ss \<longleftrightarrow> distinguishable key ss"
  using collides_iff [of "\<lambda>_. None" key ss] by (auto simp: distinguishable_def)

definition plain_segment :: "unicode_tables \<Rightarrow> utext \<Rightarrow> bool" where
  "plain_segment T s \<longleftrightarrow>
     s \<noteq> [] \<and> s \<noteq> lit ''.'' \<and> s \<noteq> lit ''..'' \<and> last s \<noteq> 46 \<and> last s \<noteq> 32 \<and>
     (\<forall>c\<in>set s. c \<noteq> 47 \<and> c \<noteq> 58 \<and> c \<noteq> 92 \<and> \<not> invalid_character c) \<and> \<not> reserved_segment T s"

lemma set_split_segments: "set s = (\<Union>p\<in>set (split_on d s). set p) \<union> (if d \<in> set s then {d} else {})"
proof (induction s)
  case (Cons c s)
  then show ?case by (cases "split_on d s") (auto split: if_splits)
qed simp

lemma endswith_last: "s \<noteq> [] \<Longrightarrow> endswith s [c] \<longleftrightarrow> last s = c"
  by (cases s rule: rev_cases) (auto simp: endswith_iff)

lemma not_in_segments: "d \<noteq> 47 \<Longrightarrow> d \<notin> set p \<longleftrightarrow> (\<forall>s\<in>set (segments p). d \<notin> set s)"
  using set_split_segments [of p 47] by (auto simp: segments_def split: if_splits)

lemma segments_hd_Nil: "p \<noteq> [] \<Longrightarrow> hd p = 47 \<Longrightarrow> [] \<in> set (segments p)"
  by (cases p) (auto simp: segments_def)

lemma canonical_path_iff:
  "is_canonical_path T p \<longleftrightarrow>
     (\<forall>s\<in>set (segments p). plain_segment T s) \<and>
     distinguishable (ut_casefold T) (segments p) \<and> distinguishable (ut_nfc T) (segments p)"
  (is "_ \<longleftrightarrow> ?segs \<and> ?fold \<and> ?nfc")
proof
  assume c: "is_canonical_path T p"
  note v = c [unfolded is_canonical_path_def validate_path_def Let_def check_collisions_def]
  have facts: "58 \<notin> set p" "92 \<notin> set p" "\<forall>c\<in>set p. \<not> invalid_character c" "[] \<notin> set (segments p)"
    "lit ''.'' \<notin> set (segments p)" "lit ''..'' \<notin> set (segments p)"
    "\<forall>s\<in>set (segments p). \<not> endswith s (lit ''.'') \<and> \<not> endswith s (lit '' '')"
    "\<forall>s\<in>set (segments p). \<not> reserved_segment T s"
    "\<not> collides (ut_casefold T) (\<lambda>_. None) (segments p)" "\<not> collides (ut_nfc T) (\<lambda>_. None) (segments p)"
    using v by (auto simp: list_ex_iff simp del: lit_simps split: if_splits)
  have "plain_segment T s" if s: "s \<in> set (segments p)" for s
  proof -
    have "s \<noteq> []" using s facts(4) by auto
    then have "last s \<noteq> 46 \<and> last s \<noteq> 32" using s facts(7) by (auto simp: endswith_last)
    moreover have "set s \<subseteq> set p" using s set_split_segments [of p 47] by (auto simp: segments_def)
    moreover have "47 \<notin> set s" using s split_on_no_sep by (simp add: segments_def)
    ultimately show ?thesis using \<open>s \<noteq> []\<close> s facts(1-3,5,6,8) unfolding plain_segment_def by blast
  qed
  then show "?segs \<and> ?fold \<and> ?nfc" using facts(9,10) by (simp add: collides_empty)
next
  assume r: "?segs \<and> ?fold \<and> ?nfc"
  have seg: "plain_segment T s" if "s \<in> set (segments p)" for s using r that by blast
  have "[] \<notin> set (segments p)" using seg [of "[]"] by (auto simp: plain_segment_def)
  then have ne: "p \<noteq> []" by (auto simp: segments_def)
  then have hd: "hd p \<noteq> 47" using segments_hd_Nil [of p] \<open>[] \<notin> set (segments p)\<close> by blast
  have "c \<noteq> 58 \<and> c \<noteq> 92 \<and> \<not> invalid_character c" if c: "c \<in> set p" for c
  proof (cases "c = 47")
    case True
    then show ?thesis by (simp add: invalid_character_def)
  next
    case False
    then obtain s where "s \<in> set (segments p)" "c \<in> set s" using c not_in_segments [of c p] by blast
    then show ?thesis using seg unfolding plain_segment_def by blast
  qed
  moreover have "\<not> startswith p (lit ''/'')" "\<not> startswith p (lit ''//'')"
    using ne hd by (auto simp: startswith_iff)
  moreover have "p \<noteq> lit ''.''" using seg [of "lit ''.''"] by (auto simp: segments_def plain_segment_def)
  moreover have "p \<noteq> lit ''./''" "p \<noteq> lit ''/''"
    using \<open>[] \<notin> set (segments p)\<close> by (auto simp: segments_def)
  moreover have "\<not> drive_prefix p" using calculation(1) by (auto simp: drive_prefix_def split: list.splits)
  moreover have "\<not> (endswith s (lit ''.'') \<or> endswith s (lit '' '')) \<and> \<not> reserved_segment T s \<and>
      s \<noteq> lit ''.'' \<and> s \<noteq> lit ''..''" if "s \<in> set (segments p)" for s
    using seg [OF that] by (auto simp: plain_segment_def endswith_last)
  ultimately show "is_canonical_path T p"
    using ne r \<open>[] \<notin> set (segments p)\<close>
    unfolding is_canonical_path_def validate_path_def Let_def check_collisions_def
    by (auto simp: list_ex_iff collides_empty simp del: lit_simps)
qed

text \<open>The directories of a canonical path are canonical, so listing them never raises.\<close>

definition ancestor :: "nat \<Rightarrow> utext \<Rightarrow> utext" where
  "ancestor n p = join_on 47 (take n (segments p))"

lemma segments_ancestor:
  assumes "0 < n"
  shows "segments (ancestor n p) = take n (segments p)"
  unfolding ancestor_def segments_def
  using assms split_on_no_sep [of _ 47 p] by (intro split_join) (auto dest: in_set_takeD)

lemma ancestor_canonical:
  assumes "is_canonical_path T p" and "0 < n"
  shows "is_canonical_path T (ancestor n p)"
  using assms unfolding canonical_path_iff segments_ancestor [OF assms(2)] distinguishable_def
  by (meson in_set_takeD)

end
