(* ===== verification/Unified_Diff.thy ===== *)
theory Unified_Diff
  imports Canonical_Path
begin

text \<open>
  The strict patch parser (\<open>candidate/unified_diff.py\<close>) on code-point text. Lines are consumed from the
  front of the remaining document instead of by index. An escaping Python exception is the outcome
  \<open>Raised\<close>: the parser has two, a number too long for \<open>int\<close> and the entry record refusing its fields.
  The texts of the reasons are constructors of \<open>parse_reason\<close> with the values they mention.
\<close>

section \<open>Records\<close>

datatype line_kind = CONTEXT_LINE | DELETE_LINE | ADD_LINE

record hunk_line =
  hl_kind :: line_kind
  hl_text :: utext

record hunk =
  hk_old_start :: nat
  hk_old_count :: nat
  hk_new_start :: nat
  hk_new_count :: nat
  hk_lines :: "hunk_line list"

datatype patch_operation = OP_CREATE | OP_REPLACE

record patch_entry =
  pe_operation :: patch_operation
  pe_path :: utext
  pe_old_path :: utext
  pe_new_path :: utext
  pe_hunks :: "hunk list"

datatype parse_error_code = PATCH_SCHEMA_INVALID | UNSUPPORTED_PATCH_OPERATION

datatype parse_reason =
    EMPTY_DOCUMENT | STARTS_WITH_BOM | CR_IN_DOCUMENT | NUL_IN_DOCUMENT | NO_FINAL_NEWLINE
  | EXPECTED_HEADER nat | MALFORMED_ENTRY nat | TRAILING_BLANK | UNEXPECTED_CONTENT nat
  | UNSUPPORTED_OPERATION utext
  | DUPLICATE_ENTRY utext | CASE_COLLIDE utext utext | UNICODE_COLLIDE utext utext

datatype parse_result =
    PATCH_PARSED "patch_entry list"
  | PATCH_PARSE_FAILED parse_error_code parse_reason
  | PARSE_RAISED

datatype 'a parse_step = Got 'a | Malformed | Unsupported utext | Raised

fun old_side :: "hunk_line \<Rightarrow> bool" where
  "old_side l \<longleftrightarrow> hl_kind l \<in> {CONTEXT_LINE, DELETE_LINE}"

fun new_side :: "hunk_line \<Rightarrow> bool" where
  "new_side l \<longleftrightarrow> hl_kind l \<in> {CONTEXT_LINE, ADD_LINE}"

text \<open>The checks of \<open>UnifiedDiffHunkV1\<close> and \<open>ParsedPatchEntryV1\<close>; \<open>None\<close> is the \<open>ValidationError\<close>.\<close>

definition hunk_ok :: "hunk \<Rightarrow> bool" where
  "hunk_ok h \<longleftrightarrow>
     hk_lines h \<noteq> [] \<and>
     hk_old_count h = length (filter old_side (hk_lines h)) \<and>
     hk_new_count h = length (filter new_side (hk_lines h)) \<and>
     (0 < hk_old_count h \<longrightarrow> 1 \<le> hk_old_start h) \<and>
     (0 < hk_new_count h \<longrightarrow> 1 \<le> hk_new_start h)"

definition make_hunk :: "hunk \<Rightarrow> hunk option" where
  "make_hunk h = (if hunk_ok h then Some h else None)"

definition make_entry :: "patch_entry \<Rightarrow> patch_entry option" where
  "make_entry e =
     (if pe_hunks e = [] then None
      else if pe_operation e = OP_CREATE \<and>
        list_ex (\<lambda>h. (hk_old_start h, hk_old_count h) \<noteq> (0, 0)) (pe_hunks e) then None
      else Some e)"

section \<open>Ranges and hunk headers\<close>

definition udigit :: "codepoint \<Rightarrow> bool" where
  "udigit c \<longleftrightarrow> 48 \<le> c \<and> c \<le> 57"

definition max_int_digits :: nat where
  "max_int_digits = 4300"

text \<open>\<open>int(text)\<close> of a text of ASCII digits; \<open>None\<close> is the \<open>ValueError\<close> of the digit limit.\<close>

definition parse_int :: "utext \<Rightarrow> nat option" where
  "parse_int ds = (if length ds > max_int_digits then None else Some (foldl (\<lambda>n c. 10 * n + (c - 48)) 0 ds))"

text \<open>The group \<open>[0-9]+(?:,[0-9]+)?\<close> at the front of a text, and what follows it.\<close>

definition match_range :: "utext \<Rightarrow> (utext \<times> utext) option" where
  "match_range s =
     (let ds = takeWhile udigit s; r = dropWhile udigit s in
      if ds = [] then None
      else (case r of
          [] \<Rightarrow> Some (ds, r)
        | c # cs \<Rightarrow>
            if c = 44 \<and> takeWhile udigit cs \<noteq> []
              then Some (ds @ 44 # takeWhile udigit cs, dropWhile udigit cs)
            else Some (ds, r)))"

definition match_hunk_header :: "utext \<Rightarrow> (utext \<times> utext) option" where
  "match_hunk_header s =
     (if startswith s (lit ''@@ -'') then
        (case match_range (drop 4 s) of
           None \<Rightarrow> None
         | Some (old, r) \<Rightarrow>
             if startswith r (lit '' +'') then
               (case match_range (drop 2 r) of
                  None \<Rightarrow> None
                | Some (new, r') \<Rightarrow> if r' = lit '' @@'' then Some (old, new) else None)
             else None)
      else None)"

definition parse_range :: "utext \<Rightarrow> (nat \<times> nat) parse_step" where
  "parse_range text =
     (let ds = takeWhile udigit text; r = dropWhile udigit text in
      if ds = [] then Malformed
      else if r = [] then (case parse_int ds of None \<Rightarrow> Raised | Some start \<Rightarrow> Got (start, 1))
      else if hd r = 44 \<and> tl r \<noteq> [] \<and> list_all udigit (tl r) then
        (case parse_int ds of
           None \<Rightarrow> Raised
         | Some start \<Rightarrow> (case parse_int (tl r) of None \<Rightarrow> Raised | Some count \<Rightarrow> Got (start, count)))
      else Malformed)"

section \<open>Hunks\<close>

definition known_extended_headers :: "utext list" where
  "known_extended_headers =
     map lit [''old mode '', ''new mode '', ''new file mode '', ''deleted file mode '', ''rename from '',
       ''rename to '', ''copy from '', ''copy to '', ''similarity index '', ''dissimilarity index '',
       ''index '', ''GIT binary patch'']"

definition is_known_extended_header :: "utext \<Rightarrow> bool" where
  "is_known_extended_header line \<longleftrightarrow> list_ex (startswith line) known_extended_headers"

definition first_word :: "utext \<Rightarrow> utext" where
  "first_word line = takeWhile (\<lambda>c. c \<noteq> 32) line"

fun parse_hunk_lines :: "hunk_line list \<Rightarrow> utext list \<Rightarrow> (hunk_line list \<times> utext list) parse_step" where
  "parse_hunk_lines acc [] = Got (acc, [])"
| "parse_hunk_lines acc (line # rest) =
     (if line = [] \<or> startswith line (lit ''@@ -'') \<or> startswith line (lit ''--- '') then Got (acc, line # rest)
      else if startswith line (lit '' '') then
        parse_hunk_lines (acc @ [\<lparr>hl_kind = CONTEXT_LINE, hl_text = drop 1 line\<rparr>]) rest
      else if startswith line (lit ''-'') then
        parse_hunk_lines (acc @ [\<lparr>hl_kind = DELETE_LINE, hl_text = drop 1 line\<rparr>]) rest
      else if startswith line (lit ''+'') then
        parse_hunk_lines (acc @ [\<lparr>hl_kind = ADD_LINE, hl_text = drop 1 line\<rparr>]) rest
      else if is_known_extended_header line then Unsupported (first_word line)
      else Malformed)"

definition finish_hunk ::
    "nat \<times> nat \<Rightarrow> nat \<times> nat \<Rightarrow> hunk_line list \<Rightarrow> utext list \<Rightarrow> (hunk \<times> utext list) parse_step" where
  "finish_hunk old_range new_range lines rest =
     (if lines = [] then Malformed
      else if snd old_range \<noteq> length (filter old_side lines) then Malformed
      else if snd new_range \<noteq> length (filter new_side lines) then Malformed
      else case make_hunk \<lparr>hk_old_start = fst old_range, hk_old_count = snd old_range,
          hk_new_start = fst new_range, hk_new_count = snd new_range, hk_lines = lines\<rparr> of
        None \<Rightarrow> Raised
      | Some h \<Rightarrow> Got (h, rest))"

definition parse_hunk :: "utext \<Rightarrow> utext list \<Rightarrow> (hunk \<times> utext list) parse_step" where
  "parse_hunk header body =
     (case match_hunk_header header of
        None \<Rightarrow> Malformed
      | Some (old, new) \<Rightarrow>
          (case parse_range old of
             Malformed \<Rightarrow> Malformed | Unsupported op \<Rightarrow> Unsupported op | Raised \<Rightarrow> Raised
           | Got old_range \<Rightarrow>
               (case parse_range new of
                  Malformed \<Rightarrow> Malformed | Unsupported op \<Rightarrow> Unsupported op | Raised \<Rightarrow> Raised
                | Got new_range \<Rightarrow>
                    if 0 < snd old_range \<and> fst old_range < 1 then Malformed
                    else if 0 < snd new_range \<and> fst new_range < 1 then Malformed
                    else (case parse_hunk_lines [] body of
                        Malformed \<Rightarrow> Malformed | Unsupported op \<Rightarrow> Unsupported op | Raised \<Rightarrow> Raised
                      | Got (lines, rest) \<Rightarrow> finish_hunk old_range new_range lines rest))))"

lemma parse_hunk_lines_shorter: "parse_hunk_lines acc body = Got (ls, rest) \<Longrightarrow> length rest \<le> length body"
  by (induction acc body rule: parse_hunk_lines.induct) (auto split: if_splits)

lemma finish_hunk_Got:
  "finish_hunk old_range new_range lines rest = Got (h, rest') \<longleftrightarrow>
     hunk_ok h \<and> rest' = rest \<and>
     h = \<lparr>hk_old_start = fst old_range, hk_old_count = snd old_range,
       hk_new_start = fst new_range, hk_new_count = snd new_range, hk_lines = lines\<rparr>"
  by (auto simp: finish_hunk_def make_hunk_def hunk_ok_def split: if_splits)

lemma parse_hunk_Got:
  "parse_hunk header body = Got (h, rest) \<longleftrightarrow>
     (\<exists>old new. match_hunk_header header = Some (old, new) \<and>
        parse_range old = Got (hk_old_start h, hk_old_count h) \<and>
        parse_range new = Got (hk_new_start h, hk_new_count h) \<and>
        parse_hunk_lines [] body = Got (hk_lines h, rest) \<and> hunk_ok h)"
proof -
  have "hunk_ok h \<Longrightarrow> \<not> (0 < hk_old_count h \<and> hk_old_start h < 1) \<and> \<not> (0 < hk_new_count h \<and> hk_new_start h < 1)"
    by (auto simp: hunk_ok_def)
  then show ?thesis
    by (cases h) (auto simp: parse_hunk_def finish_hunk_Got split: option.splits parse_step.splits)
qed

lemma parse_hunk_shorter: "parse_hunk l body = Got (h, rest) \<Longrightarrow> length rest \<le> length body"
  unfolding parse_hunk_Got using parse_hunk_lines_shorter by blast

text \<open>The loop over the hunks of an entry; \<open>prev\<close> is \<open>previous_end\<close>.\<close>

function parse_hunks :: "nat option \<Rightarrow> hunk list \<Rightarrow> utext list \<Rightarrow> (hunk list \<times> utext list) parse_step" where
  "parse_hunks prev acc [] = Got (acc, [])"
| "parse_hunks prev acc (line # body) =
     (if startswith line (lit ''@@ -'') then
        (case parse_hunk line body of
           Malformed \<Rightarrow> Malformed | Unsupported op \<Rightarrow> Unsupported op | Raised \<Rightarrow> Raised
         | Got (h, rest) \<Rightarrow>
             if (case prev of None \<Rightarrow> False | Some e \<Rightarrow> hk_old_start h < e) then Malformed
             else parse_hunks (Some (hk_old_start h + hk_old_count h)) (acc @ [h]) rest)
      else if is_known_extended_header line then Unsupported (first_word line)
      else Got (acc, line # body))"
  by pat_completeness auto
termination
  by (relation "measure (\<lambda>(prev, acc, body). length body)") (auto dest: parse_hunk_shorter)

section \<open>Entries\<close>

definition dev_null :: utext where
  "dev_null = lit ''/dev/null''"

definition canonical_header_path :: "unicode_tables \<Rightarrow> utext \<Rightarrow> utext option" where
  "canonical_header_path T value =
     (if value = [] then None
      else if list_ex uspace value then None
      else if is_canonical_path T value then Some value else None)"

definition parse_headers ::
    "unicode_tables \<Rightarrow> utext \<Rightarrow> utext \<Rightarrow> (utext \<times> utext \<times> utext \<times> patch_operation) parse_step" where
  "parse_headers T old_header new_header =
     (let new_side = (\<lambda>old_path op.
        if new_header = lit ''+++ '' @ dev_null then
          (if op = OP_CREATE then Malformed else Unsupported (lit ''DELETE''))
        else if \<not> startswith new_header (lit ''+++ '' @ lit ''b/'') then Malformed
        else let new_path = drop 4 new_header in
          (case canonical_header_path T (drop 2 new_path) of
             None \<Rightarrow> Malformed
           | Some path \<Rightarrow>
               if op = OP_REPLACE \<and> old_path \<noteq> lit ''a/'' @ path then Unsupported (lit ''RENAME'')
               else Got (old_path, new_path, path, op))) in
      if old_header = lit ''--- '' @ dev_null then new_side dev_null OP_CREATE
      else if startswith old_header (lit ''--- '' @ lit ''a/'') then new_side (drop 4 old_header) OP_REPLACE
      else Malformed)"

definition parse_entry :: "unicode_tables \<Rightarrow> utext \<Rightarrow> utext list \<Rightarrow> (patch_entry \<times> utext list) parse_step" where
  "parse_entry T old_header body =
     (case body of
        [] \<Rightarrow> Malformed
      | new_header # rest \<Rightarrow>
          if \<not> startswith new_header (lit ''+++ '') then Malformed
          else (case parse_headers T old_header new_header of
              Malformed \<Rightarrow> Malformed | Unsupported op \<Rightarrow> Unsupported op | Raised \<Rightarrow> Raised
            | Got (old_path, new_path, path, op) \<Rightarrow>
                (case parse_hunks None [] rest of
                   Malformed \<Rightarrow> Malformed | Unsupported op \<Rightarrow> Unsupported op | Raised \<Rightarrow> Raised
                 | Got (hunks, rest') \<Rightarrow>
                     if hunks = [] then Malformed
                     else (case make_entry \<lparr>pe_operation = op, pe_path = path, pe_old_path = old_path,
                         pe_new_path = new_path, pe_hunks = hunks\<rparr> of
                       None \<Rightarrow> Raised
                     | Some e \<Rightarrow> Got (e, rest')))))"

lemma parse_hunks_shorter: "parse_hunks prev acc body = Got (hs, rest) \<Longrightarrow> length rest \<le> length body"
proof (induction prev acc body rule: parse_hunks.induct)
  case (2 prev acc line body)
  then show ?case
    by (fastforce dest: parse_hunk_shorter split: if_splits parse_step.splits)
qed simp

lemma parse_entry_shorter: "parse_entry T l body = Got (e, rest) \<Longrightarrow> length rest < length body"
  by (auto simp: parse_entry_def dest!: parse_hunks_shorter
      split: list.splits if_splits parse_step.splits option.splits)

section \<open>The document\<close>

definition document_failure :: "utext \<Rightarrow> parse_reason option" where
  "document_failure text =
     (if text = [] then Some EMPTY_DOCUMENT
      else if startswith text [65279] then Some STARTS_WITH_BOM
      else if 13 \<in> set text then Some CR_IN_DOCUMENT
      else if 0 \<in> set text then Some NUL_IN_DOCUMENT
      else if \<not> endswith text [10] then Some NO_FINAL_NEWLINE
      else None)"

function parse_entries :: "unicode_tables \<Rightarrow> nat \<Rightarrow> patch_entry list \<Rightarrow> utext list \<Rightarrow> parse_result" where
  "parse_entries T index acc [] = PATCH_PARSED acc"
| "parse_entries T index acc (line # body) =
     (if \<not> startswith line (lit ''--- '') then PATCH_PARSE_FAILED PATCH_SCHEMA_INVALID (EXPECTED_HEADER (index + 1))
      else (case parse_entry T line body of
          Malformed \<Rightarrow> PATCH_PARSE_FAILED PATCH_SCHEMA_INVALID (MALFORMED_ENTRY (index + 1))
        | Unsupported op \<Rightarrow> PATCH_PARSE_FAILED UNSUPPORTED_PATCH_OPERATION (UNSUPPORTED_OPERATION op)
        | Raised \<Rightarrow> PARSE_RAISED
        | Got (e, rest) \<Rightarrow>
            (let next = index + (Suc (length body) - length rest) in
             case rest of
               [] \<Rightarrow> PATCH_PARSED (acc @ [e])
             | blank # remaining \<Rightarrow>
                 if blank = [] then
                   (if remaining = [] then PATCH_PARSE_FAILED PATCH_SCHEMA_INVALID TRAILING_BLANK
                    else parse_entries T (next + 1) (acc @ [e]) remaining)
                 else PATCH_PARSE_FAILED PATCH_SCHEMA_INVALID (UNEXPECTED_CONTENT (next + 1)))))"
  by pat_completeness auto
termination
  by (relation "measure (\<lambda>(T, index, acc, body). length body)") (auto dest: parse_entry_shorter)

fun entry_uniqueness_failure ::
    "unicode_tables \<Rightarrow> utext set \<Rightarrow> (utext \<Rightarrow> utext option) \<Rightarrow> (utext \<Rightarrow> utext option) \<Rightarrow>
     patch_entry list \<Rightarrow> parse_reason option" where
  "entry_uniqueness_failure T exact folded normalized [] = None"
| "entry_uniqueness_failure T exact folded normalized (e # es) =
     (let path = pe_path e; fold = ut_casefold T path; nfc = ut_nfc T path in
      if path \<in> exact then Some (DUPLICATE_ENTRY path)
      else if (case folded fold of None \<Rightarrow> False | Some q \<Rightarrow> q \<noteq> path)
        then Some (CASE_COLLIDE (the (folded fold)) path)
      else if (case normalized nfc of None \<Rightarrow> False | Some q \<Rightarrow> q \<noteq> path)
        then Some (UNICODE_COLLIDE (the (normalized nfc)) path)
      else entry_uniqueness_failure T (insert path exact) (folded(fold \<mapsto> path)) (normalized(nfc \<mapsto> path)) es)"

definition parse_unified_diff :: "unicode_tables \<Rightarrow> utext \<Rightarrow> parse_result" where
  "parse_unified_diff T text =
     (case document_failure text of
        Some reason \<Rightarrow> PATCH_PARSE_FAILED PATCH_SCHEMA_INVALID reason
      | None \<Rightarrow>
          (case parse_entries T 0 [] (butlast (split_on 10 text)) of
             PATCH_PARSED entries \<Rightarrow>
               (case entry_uniqueness_failure T {} (\<lambda>_. None) (\<lambda>_. None) entries of
                  Some reason \<Rightarrow> PATCH_PARSE_FAILED PATCH_SCHEMA_INVALID reason
                | None \<Rightarrow> PATCH_PARSED entries)
           | failure \<Rightarrow> failure))"

end
