(* ===== verification/Fnmatch.thy ===== *)
theory Fnmatch
  imports Utf8
begin

text \<open>
  The shell patterns of Python's \<open>fnmatch.translate\<close>, which \<open>workspace/path_guard.py\<close> compiles for
  every segment of an ignore pattern and matches in full. A pattern is read into items; a bracket
  expression is read in the steps of the library (hyphen chunks, removal of empty ranges, negation by a
  leading exclamation mark of what is left).
\<close>

datatype set_token = Chr nat | Dash

datatype glob_item = Star | Any_Char | Never | Exact nat | Char_Set bool "(nat \<times> nat) list"

section \<open>Bracket expressions\<close>

definition hyphen_at :: "nat \<Rightarrow> utext \<Rightarrow> nat option" where
  "hyphen_at k s =
     (if 45 \<in> set (drop k s) then Some (k + length (takeWhile (\<lambda>c. c \<noteq> 45) (drop k s))) else None)"

lemma hyphen_at_less: "hyphen_at k s = Some i \<Longrightarrow> i < length s"
proof -
  assume h: "hyphen_at k s = Some i"
  then have m: "45 \<in> set (drop k s)" "i = k + length (takeWhile (\<lambda>c. c \<noteq> 45) (drop k s))"
    by (auto simp: hyphen_at_def split: if_splits)
  then have "length (takeWhile (\<lambda>c. c \<noteq> 45) (drop k s)) < length (drop k s)"
    by (metis (mono_tags, lifting) length_takeWhile_le le_neq_implies_less takeWhile_eq_all_conv takeWhile_eq_take take_all_iff order_refl)
  then show ?thesis using m(2) by simp
qed

function hyphen_chunks :: "nat \<Rightarrow> utext \<Rightarrow> utext list" where
  "hyphen_chunks k s =
     (case hyphen_at k s of None \<Rightarrow> [s] | Some i \<Rightarrow> take i s # hyphen_chunks 2 (drop (i + 1) s))"
  by pat_completeness auto

termination
  by (relation "measure (\<lambda>(k, s). length s)") (auto dest: hyphen_at_less)

declare hyphen_chunks.simps [simp del]

text \<open>A trailing hyphen joins the chunk before it.\<close>

fun close_chunks :: "utext list \<Rightarrow> utext list" where
  "close_chunks [c, []] = [c @ [45]]"
| "close_chunks (c # cs) = c # close_chunks cs"
| "close_chunks [] = []"

fun drop_empty_ranges :: "utext list \<Rightarrow> utext list" where
  "drop_empty_ranges (c # d # cs) =
     (case drop_empty_ranges (d # cs) of
        [] \<Rightarrow> [c]
      | e # es \<Rightarrow> if last c > hd e then (butlast c @ drop 1 e) # es else c # e # es)"
| "drop_empty_ranges cs = cs"

fun set_tokens :: "utext list \<Rightarrow> set_token list" where
  "set_tokens [] = []"
| "set_tokens [c] = map Chr c"
| "set_tokens (c # d # cs) = map Chr c @ Dash # set_tokens (d # cs)"

fun set_ranges :: "set_token list \<Rightarrow> (nat \<times> nat) list" where
  "set_ranges (Chr a # Dash # Chr b # ts) = (a, b) # set_ranges ts"
| "set_ranges (Chr a # ts) = (a, a) # set_ranges ts"
| "set_ranges (Dash # ts) = (45, 45) # set_ranges ts"
| "set_ranges [] = []"

definition bracket_item :: "utext \<Rightarrow> glob_item" where
  "bracket_item stuff =
     (let k = (if take 1 stuff = [33] then 2 else 1);
          ts = set_tokens (drop_empty_ranges (close_chunks (hyphen_chunks k stuff))) in
      if ts = [] then Never
      else if ts = [Chr 33] then Any_Char
      else if hd ts = Chr 33 then Char_Set True (set_ranges (drop 1 ts))
      else Char_Set False (set_ranges ts))"

definition bracket_split :: "utext \<Rightarrow> (utext \<times> utext) option" where
  "bracket_split s =
     (let i = (if take 1 s = [33] then 1 else 0); j = (if take 1 (drop i s) = [93] then i + 1 else i) in
      if 93 \<in> set (drop j s) then
        (let k = j + length (takeWhile (\<lambda>c. c \<noteq> 93) (drop j s)) in Some (take k s, drop (k + 1) s))
      else None)"

lemma bracket_split_shorter: "bracket_split s = Some (stuff, rest) \<Longrightarrow> length rest \<le> length s"
  by (auto simp: bracket_split_def Let_def split: if_splits)

section \<open>Patterns\<close>

function glob_items :: "utext \<Rightarrow> glob_item list" where
  "glob_items [] = []"
| "glob_items (c # cs) =
     (if c = 42 then Star # glob_items cs
      else if c = 63 then Any_Char # glob_items cs
      else if c = 91 then
        (case bracket_split cs of
           None \<Rightarrow> Exact c # glob_items cs
         | Some (stuff, rest) \<Rightarrow> bracket_item stuff # glob_items rest)
      else Exact c # glob_items cs)"
  by pat_completeness auto

termination
  by (relation "measure length") (auto dest: bracket_split_shorter)

fun item_ok :: "glob_item \<Rightarrow> nat \<Rightarrow> bool" where
  "item_ok Star c = False"
| "item_ok Any_Char c = True"
| "item_ok Never c = False"
| "item_ok (Exact d) c = (c = d)"
| "item_ok (Char_Set negated rs) c = (list_ex (\<lambda>(a, b). a \<le> c \<and> c \<le> b) rs \<noteq> negated)"

function items_match :: "glob_item list \<Rightarrow> utext \<Rightarrow> bool" where
  "items_match [] s = (s = [])"
| "items_match (p # ps) s =
     (if p = Star then items_match ps s \<or> (case s of [] \<Rightarrow> False | c # t \<Rightarrow> items_match (Star # ps) t)
      else (case s of [] \<Rightarrow> False | c # t \<Rightarrow> item_ok p c \<and> items_match ps t))"
  by pat_completeness auto

termination
  by (relation "measure (\<lambda>(ps, s). length ps + length s)") auto

definition segment_matches :: "utext \<Rightarrow> utext \<Rightarrow> bool" where
  \<comment> \<open>\<open>_segment_regex(pattern).fullmatch(segment) is not None\<close>\<close>
  "segment_matches pattern s = items_match (glob_items pattern) s"

section \<open>Facts\<close>

lemma star_match: "items_match (Star # ps) s \<longleftrightarrow> (\<exists>a b. s = a @ b \<and> items_match ps b)"
proof (induction s)
  case (Cons c t)
  have "(\<exists>a b. c # t = a @ b \<and> items_match ps b) \<longleftrightarrow> items_match ps (c # t) \<or> (\<exists>a b. t = a @ b \<and> items_match ps b)"
    by (metis append_Cons append_Nil append_eq_Cons_conv)
  then show ?case using Cons by simp
qed simp

lemma exact_match: "items_match (map Exact w @ ps) s \<longleftrightarrow> (\<exists>t. s = w @ t \<and> items_match ps t)"
proof (induction w arbitrary: s)
  case (Cons c w)
  then show ?case by (cases s) auto
qed simp

definition plain_char :: "nat \<Rightarrow> bool" where
  "plain_char c \<longleftrightarrow> c \<notin> {42, 63, 91}"

lemma plain_items: "list_all plain_char w \<Longrightarrow> glob_items (w @ v) = map Exact w @ glob_items v"
  by (induction w) (auto simp: plain_char_def)

text \<open>A pattern without special characters matches only itself; around one star it fixes both ends.\<close>

lemma literal_matches: "list_all plain_char w \<Longrightarrow> segment_matches w s \<longleftrightarrow> s = w"
  using plain_items [of w "[]"] exact_match [of w "[]" s] by (simp add: segment_matches_def)

lemma star_matches:
  assumes "list_all plain_char w" "list_all plain_char v"
  shows "segment_matches (w @ 42 # v) s \<longleftrightarrow> (\<exists>m. s = w @ m @ v)"
proof -
  have "glob_items (w @ 42 # v) = map Exact w @ Star # map Exact v"
    using plain_items [OF assms(1), of "42 # v"] plain_items [OF assms(2), of "[]"] by simp
  moreover have "items_match (map Exact v) t \<longleftrightarrow> t = v" for t
    using exact_match [of v "[]" t] by simp
  ultimately show ?thesis unfolding segment_matches_def by (auto simp add: exact_match star_match simp del: items_match.simps)
qed

end
