(* ===== verification/Path_Tables.thy ===== *)
theory Path_Tables
  imports Canonical_Json Unified_Diff Fnmatch
begin

text \<open>
  The shared path tables (\<open>workspace/path_guard.py\<close>): sensitive paths, protected artifacts and the frozen
  ignore rules, and the one editable-path policy (\<open>profiles/editable.py\<close>). Segments are
  matched by the shell patterns of \<open>Fnmatch\<close>.
\<close>

section \<open>Sensitive and protected paths\<close>

datatype sensitive_rule =
    SENSITIVE_SEGMENT | SENSITIVE_DOTENV | SENSITIVE_DOTENV_PREFIX | SENSITIVE_CREDENTIAL_NAME
  | SENSITIVE_SECRETS_PREFIX | SENSITIVE_CREDENTIAL_EXTENSION

definition sensitive_segments :: "utext list" where
  "sensitive_segments = map lit [''.git'', ''.ssh'', ''.aws'', ''.azure'', ''.gnupg'', ''.kube'']"

definition sensitive_file_names :: "utext list" where
  "sensitive_file_names = map lit [''id_rsa'', ''id_ed25519'', ''credentials.json'']"

definition sensitive_extensions :: "utext list" where
  "sensitive_extensions = map lit [''.pem'', ''.key'', ''.p12'', ''.pfx'']"

definition sensitive_path_rule_id :: "unicode_tables \<Rightarrow> utext \<Rightarrow> sensitive_rule option" where
  "sensitive_path_rule_id T path =
     (let ss = segments path; basename = ut_casefold T (last ss) in
      if list_ex (\<lambda>s. ut_casefold T s \<in> set sensitive_segments) ss then Some SENSITIVE_SEGMENT
      else if basename = lit ''.env'' then Some SENSITIVE_DOTENV
      else if startswith basename (lit ''.env.'') then Some SENSITIVE_DOTENV_PREFIX
      else if basename \<in> set sensitive_file_names then Some SENSITIVE_CREDENTIAL_NAME
      else if startswith basename (lit ''secrets.'') then Some SENSITIVE_SECRETS_PREFIX
      else if list_ex (endswith basename) sensitive_extensions then Some SENSITIVE_CREDENTIAL_EXTENSION
      else None)"

definition protected_root_files :: "utext list" where
  "protected_root_files =
     map lit [''pyproject.toml'', ''requirements.lock'', ''pytest.ini'', ''tox.ini'', ''setup.cfg'', ''mypy.ini'',
       ''.ruff.toml'', ''ruff.toml'', ''poetry.lock'', ''uv.lock'', ''pdm.lock'']"

definition protected_any_level :: "utext list" where
  "protected_any_level =
     map lit [''conftest.py'', ''sitecustomize.py'', ''usercustomize.py'', ''.gitignore'', ''.gitattributes'', ''.gitmodules'']"

definition protected_artifact_path :: "utext \<Rightarrow> bool" where
  "protected_artifact_path path \<longleftrightarrow>
     (let ss = segments path in
      hd ss = lit ''tests'' \<or>
      (length ss = 1 \<and> (path \<in> set protected_root_files \<or> segment_matches (lit ''requirements*.txt'') path)) \<or>
      list_ex (\<lambda>s. s \<in> set protected_any_level) ss)"

section \<open>Ignore rules\<close>

datatype ignore_source = GITIGNORE | INFO_EXCLUDE

record ignore_rule =
  ig_source :: ignore_source
  ig_base_directory :: utext
  ig_pattern :: utext
  ig_negated :: bool
  ig_directory_only :: bool

fun match_sequence :: "utext list \<Rightarrow> utext list \<Rightarrow> bool" where
  "match_sequence [] [] = True"
| "match_sequence (p # ps) (s # ss) = (segment_matches p s \<and> match_sequence ps ss)"
| "match_sequence _ _ = False"

definition match_segments :: "utext \<Rightarrow> utext list \<Rightarrow> bool" where
  "match_segments pattern ss =
     (let parts = segments pattern; stars = lit ''**'' in
      if stars \<in> set parts then
        (if length (filter (\<lambda>p. p = stars) parts) > 1 then True
         else let left = takeWhile (\<lambda>p. p \<noteq> stars) parts; right = drop (length left + 1) parts in
           if length ss < length left + length right then False
           else match_sequence left (take (length left) ss) \<and>
             match_sequence right (drop (length ss - length right) ss))
      else match_sequence parts ss)"

definition rule_matches :: "ignore_rule \<Rightarrow> utext \<Rightarrow> bool" where
  "rule_matches rule path =
     (let base = ig_base_directory rule in
      if base \<noteq> [] \<and> \<not> startswith path (base @ [47]) then False
      else let relative = (if base \<noteq> [] then drop (length base + 1) path else path);
               ss = segments relative;
               anchored = startswith (ig_pattern rule) [47];
               pattern = (if anchored then drop 1 (ig_pattern rule) else ig_pattern rule) in
        if anchored then relative = pattern \<or> startswith relative (pattern @ [47])
        else list_ex (\<lambda>count.
          let prefix = take count ss in
          if 47 \<notin> set pattern then segment_matches pattern (last prefix) else match_segments pattern prefix)
          [1..<length ss + 1])"

definition path_is_ignored :: "ignore_rule list \<Rightarrow> utext \<Rightarrow> bool" where
  "path_is_ignored rules path =
     foldl (\<lambda>ignored rule. if rule_matches rule path then \<not> ig_negated rule else ignored) False rules"

definition rule_encoding :: "ignore_rule \<Rightarrow> utext" where
  "rule_encoding rule =
     lit (case ig_source rule of GITIGNORE \<Rightarrow> ''GITIGNORE'' | INFO_EXCLUDE \<Rightarrow> ''INFO_EXCLUDE'') @ [124] @
     ig_base_directory rule @ [124] @ ig_pattern rule @ [124] @
     lit (if ig_negated rule then ''1'' else ''0'') @ [124] @ lit (if ig_directory_only rule then ''1'' else ''0'')"

text \<open>\<open>None\<close> is the \<open>UnicodeEncodeError\<close> of a rule with a lone surrogate.\<close>

definition ignore_rules_digest :: "(nat list \<Rightarrow> string) \<Rightarrow> ignore_rule list \<Rightarrow> string option" where
  "ignore_rules_digest sha256 rules =
     map_option (\<lambda>rows. sha256 (concat (map (\<lambda>row. row @ [10]) rows)))
       (those (map (\<lambda>r. encode_strict (rule_encoding r)) rules))"

section \<open>The editable-path policy\<close>

definition editable_roots :: "utext list" where
  "editable_roots = [lit ''src'']"

definition allowed_operations :: "patch_operation list" where
  "allowed_operations = [OP_CREATE, OP_REPLACE]"

fun operation_name :: "patch_operation \<Rightarrow> string" where
  "operation_name OP_CREATE = ''CREATE''"
| "operation_name OP_REPLACE = ''REPLACE''"

definition editable_matches :: "utext \<Rightarrow> patch_operation \<Rightarrow> bool" where
  "editable_matches path op \<longleftrightarrow>
     op \<in> set allowed_operations \<and> list_ex (\<lambda>root. startswith path (root @ [47])) editable_roots"

definition editable_policy_value :: cvalue where
  "editable_policy_value =
     CObj [(lit ''schema_version'', CInt 1), (lit ''policy_id'', CStr (lit ''PYTHON_SRC_ONLY_V1'')),
       (lit ''editable_directory_roots'', CArr (map CStr editable_roots)),
       (lit ''allowed_operations'', CArr (map (\<lambda>op. CStr (lit (operation_name op))) allowed_operations))]"

definition editable_policy_digest :: "(nat list \<Rightarrow> string) \<Rightarrow> string option" where
  "editable_policy_digest sha256 = domain_digest sha256 ''EditablePathPolicyV1'' 1 editable_policy_value"

section \<open>Facts\<close>

text \<open>The last rule that matches decides.\<close>

definition decided_by :: "utext \<Rightarrow> ignore_rule list \<Rightarrow> ignore_rule \<Rightarrow> bool" where
  "decided_by path rules rule \<longleftrightarrow>
     (\<exists>before later. rules = before @ rule # later \<and> rule_matches rule path \<and>
        (\<forall>r\<in>set later. \<not> rule_matches r path))"

lemma decided_by_snoc:
  "decided_by path (rules @ [r]) rule \<longleftrightarrow>
     (if rule_matches r path then rule = r else decided_by path rules rule)"
proof (cases "rule_matches r path")
  case True
  have "rule = r" if "decided_by path (rules @ [r]) rule"
  proof -
    from that obtain before later where e: "rules @ [r] = before @ rule # later"
        "\<forall>q\<in>set later. \<not> rule_matches q path" by (auto simp: decided_by_def)
    then show ?thesis using True by (cases later rule: rev_cases) auto
  qed
  moreover have "decided_by path (rules @ [r]) r"
    unfolding decided_by_def using True by (intro exI [of _ rules] exI [of _ "[]"]) simp
  ultimately show ?thesis using True by auto
next
  case False
  have "decided_by path rules rule" if d: "decided_by path (rules @ [r]) rule"
  proof -
    from d obtain before later where e: "rules @ [r] = before @ rule # later" "rule_matches rule path"
        "\<forall>q\<in>set later. \<not> rule_matches q path" by (auto simp: decided_by_def)
    then obtain later' where "later = later' @ [r]" using False by (cases later rule: rev_cases) auto
    with e have "rules = before @ rule # later'" "\<forall>q\<in>set later'. \<not> rule_matches q path" by auto
    with e(2) show ?thesis unfolding decided_by_def by blast
  qed
  moreover have "decided_by path (rules @ [r]) rule" if d: "decided_by path rules rule"
  proof -
    from d obtain before later where "rules = before @ rule # later" "rule_matches rule path"
        "\<forall>q\<in>set later. \<not> rule_matches q path" by (auto simp: decided_by_def)
    with False show ?thesis unfolding decided_by_def
      by (intro exI [of _ before] exI [of _ "later @ [r]"]) simp
  qed
  ultimately show ?thesis using False by auto
qed

lemma path_is_ignored_last:
  "path_is_ignored rules path \<longleftrightarrow> (\<exists>rule. decided_by path rules rule \<and> \<not> ig_negated rule)"
proof (induction rules rule: rev_induct)
  case Nil
  then show ?case by (simp add: path_is_ignored_def decided_by_def)
next
  case (snoc r rules)
  have "path_is_ignored (rules @ [r]) path =
      (if rule_matches r path then \<not> ig_negated r else path_is_ignored rules path)"
    by (simp add: path_is_ignored_def)
  then show ?case using snoc by (simp add: decided_by_snoc)
qed

text \<open>The directory flag plays no part in matching, and an anchored pattern is compared literally.\<close>

lemma directory_flag_ignored:
  "rule_matches (rule\<lparr>ig_directory_only := b\<rparr>) path = rule_matches rule path"
  by (simp add: rule_matches_def Let_def)

lemma anchored_rule_literal:
  assumes "ig_base_directory rule = []" "ig_pattern rule = 47 # pattern"
  shows "rule_matches rule path \<longleftrightarrow> path = pattern \<or> startswith path (pattern @ [47])"
  using assms by (simp add: rule_matches_def Let_def startswith_def)

text \<open>The separator of the rule encoding is not escaped, so two rules can have one encoding.\<close>

lemma rule_encoding_ambiguous:
  "rule_encoding \<lparr>ig_source = GITIGNORE, ig_base_directory = lit ''a'', ig_pattern = lit ''b|c'', ig_negated = False, ig_directory_only = False\<rparr> =
   rule_encoding \<lparr>ig_source = GITIGNORE, ig_base_directory = lit ''a|b'', ig_pattern = lit ''c'', ig_negated = False, ig_directory_only = False\<rparr>"
  by (simp add: rule_encoding_def)

lemma editable_under_src: "editable_matches path op \<longleftrightarrow> startswith path (lit ''src/'')"
  by (cases op) (simp_all add: editable_matches_def allowed_operations_def editable_roots_def)

end
