(* ===== verification/Text_Classifier.thy ===== *)
theory Text_Classifier
  imports Utf8
begin

text \<open>
  Supported text (\<open>trees/text_classifier.py\<close>) and the split of a supported file into its lines
  (\<open>candidate/patch_engine.py\<close>). Bytes are numbers; the exact description of the supported
  files is \<open>classify_iff\<close>, and on them the split inverts the join.
\<close>

datatype text_encoding = UTF8 | UTF8_BOM

datatype newline = LF | CRLF

record text_metadata =
  tm_encoding :: text_encoding
  tm_newline :: newline

datatype classification = TEXT_FILE text_metadata | NON_TEXT_FILE

definition utf8_bom :: "nat list" where
  "utf8_bom = [239, 187, 191]"

fun terminator :: "newline \<Rightarrow> nat list" where
  "terminator LF = [10]"
| "terminator CRLF = [13, 10]"

text \<open>The loop over the body with its flags \<open>has_crlf\<close> and \<open>has_lf\<close>; \<open>None\<close> is the bare CR.\<close>

fun scan_newlines :: "bool \<Rightarrow> bool \<Rightarrow> nat list \<Rightarrow> (bool \<times> bool) option" where
  "scan_newlines has_crlf has_lf [] = Some (has_crlf, has_lf)"
| "scan_newlines has_crlf has_lf (b # bs) =
     (if b = 10 then scan_newlines has_crlf True bs
      else if b = 13 then
        (case bs of
           [] \<Rightarrow> None
         | c # cs \<Rightarrow> if c = 10 then scan_newlines True has_lf cs else None)
      else scan_newlines has_crlf has_lf bs)"

definition classify_supported_text :: "nat list \<Rightarrow> classification" where
  "classify_supported_text raw =
     (let encoding = (if startswith raw utf8_bom then UTF8_BOM else UTF8);
          body = (if startswith raw utf8_bom then drop (length utf8_bom) raw else raw) in
      case decode_strict body of
        None \<Rightarrow> NON_TEXT_FILE
      | Some decoded \<Rightarrow>
          if 0 \<in> set decoded then NON_TEXT_FILE
          else (case scan_newlines False False body of
              None \<Rightarrow> NON_TEXT_FILE
            | Some (has_crlf, has_lf) \<Rightarrow>
                if has_crlf \<and> has_lf then NON_TEXT_FILE
                else let nl = (if has_crlf then CRLF else LF) in
                  if \<not> endswith body (terminator nl) then NON_TEXT_FILE
                  else TEXT_FILE \<lparr>tm_encoding = encoding, tm_newline = nl\<rparr>))"

text \<open>\<open>bytes.split(sep)\<close> for a non-empty separator: leftmost, non-overlapping.\<close>

function split_seq :: "'a list \<Rightarrow> 'a list \<Rightarrow> 'a list list" where
  "split_seq sep [] = [[]]"
| "split_seq sep (c # cs) =
     (if sep \<noteq> [] \<and> startswith (c # cs) sep then [] # split_seq sep (drop (length sep) (c # cs))
      else (case split_seq sep cs of [] \<Rightarrow> [[c]] | p # ps \<Rightarrow> (c # p) # ps))"
  by pat_completeness auto
termination
  by (relation "measure (length \<circ> snd)") auto

text \<open>\<open>_split_lines\<close>; \<open>None\<close> is the \<open>UnicodeDecodeError\<close> of a part.\<close>

definition split_lines :: "nat list \<Rightarrow> nat list \<Rightarrow> utext list option" where
  "split_lines raw sep =
     (let parts = split_seq sep raw;
          kept = (if parts \<noteq> [] \<and> last parts = [] then butlast parts else parts) in
      those (map decode_strict kept))"

section \<open>Lines\<close>

definition line_ok :: "utext \<Rightarrow> bool" where
  "line_ok l \<longleftrightarrow> list_all (\<lambda>c. scalar c \<and> c \<noteq> 0 \<and> c \<noteq> 10 \<and> c \<noteq> 13) l"

definition unlines :: "utext \<Rightarrow> utext list \<Rightarrow> utext" where
  "unlines t ls = concat (map (\<lambda>l. l @ t) ls)"

definition free :: "utext \<Rightarrow> bool" where
  "free l \<longleftrightarrow> 10 \<notin> set l \<and> 13 \<notin> set l"

lemma unlines_simps [simp]: "unlines t [] = []" "unlines t (l # ls) = l @ t @ unlines t ls"
  by (simp_all add: unlines_def)

lemma unlines_append: "unlines t (ls @ ms) = unlines t ls @ unlines t ms"
  by (simp add: unlines_def)

lemma line_ok_free: "line_ok l \<longleftrightarrow> free l \<and> list_all scalar l \<and> 0 \<notin> set l"
  unfolding line_ok_def by (induction l) (auto simp: free_def)

lemma free_scan: "free l \<Longrightarrow> scan_newlines c d (l @ s) = scan_newlines c d s"
  by (induction l) (auto simp: free_def)

lemma scan_unlines_lf: "\<forall>l\<in>set ls. free l \<Longrightarrow> scan_newlines c d (unlines [10] ls) = Some (c, d \<or> ls \<noteq> [])"
  by (induction ls arbitrary: c d) (auto simp: free_scan)

lemma scan_unlines_crlf:
  "\<forall>l\<in>set ls. free l \<Longrightarrow> scan_newlines c d (unlines [13, 10] ls) = Some (c \<or> ls \<noteq> [], d)"
  by (induction ls arbitrary: c d) (auto simp: free_scan)

definition shaped :: "utext \<Rightarrow> utext \<Rightarrow> bool" where
  "shaped t s \<longleftrightarrow> (\<exists>ls tail. s = unlines t ls @ tail \<and> (\<forall>l\<in>set ls. free l) \<and> free tail)"

lemma shaped_Cons:
  assumes "shaped t s" "b \<noteq> 10" "b \<noteq> 13"
  shows "shaped t (b # s)"
proof -
  from assms obtain ls z where s: "s = unlines t ls @ z" "\<forall>l\<in>set ls. free l" "free z"
    by (auto simp: shaped_def)
  show ?thesis
  proof (cases ls)
    case Nil
    then show ?thesis using s assms unfolding shaped_def
      by (intro exI [of _ "[]"] exI [of _ "b # z"]) (simp add: free_def)
  next
    case (Cons l ms)
    then show ?thesis using s assms unfolding shaped_def
      by (intro exI [of _ "(b # l) # ms"] exI [of _ z]) (simp add: free_def)
  qed
qed

lemma shaped_terminator:
  assumes "shaped t s"
  shows "shaped t (t @ s)"
proof -
  from assms obtain ls z where "s = unlines t ls @ z" "\<forall>l\<in>set ls. free l" "free z"
    by (auto simp: shaped_def)
  then show ?thesis unfolding shaped_def
    by (intro exI [of _ "[] # ls"] exI [of _ z]) (simp add: free_def)
qed

lemma shaped_Nil [simp]: "shaped t []"
  unfolding shaped_def by (intro exI [of _ "[]"] exI [of _ "[]"]) (simp add: free_def)

lemma scan_shape:
  "scan_newlines c d s = Some (c', d') \<Longrightarrow>
     (c \<longrightarrow> c') \<and> (d \<longrightarrow> d') \<and> (\<not> c' \<longrightarrow> shaped [10] s) \<and> (\<not> d' \<longrightarrow> shaped [13, 10] s)"
proof (induction c d s rule: scan_newlines.induct)
  case (2 c d b bs)
  consider "b = 10" | "b = 13" | "b \<noteq> 10" "b \<noteq> 13" by blast
  then show ?case
  proof cases
    case 1
    then show ?thesis using 2 shaped_terminator [of "[10]" bs] by simp
  next
    case 2
    with "2.prems" obtain cs where cs: "bs = 10 # cs" by (auto split: list.splits if_splits)
    with 2 "2.prems" "2.IH"(2) [OF _ _ cs] show ?thesis
      using shaped_terminator [of "[13, 10]" cs] by simp
  next
    case 3
    then show ?thesis using "2.IH"(3) "2.prems" shaped_Cons by simp
  qed
qed simp

lemma shaped_endswith:
  assumes "shaped t s" "endswith s t" "t \<noteq> []" "last t = 10"
  obtains ls where "s = unlines t ls" "ls \<noteq> []" "\<forall>l\<in>set ls. free l"
proof -
  from assms(1) obtain ls z where s: "s = unlines t ls @ z" "\<forall>l\<in>set ls. free l" "free z"
    by (auto simp: shaped_def)
  have "s \<noteq> []" "last s = 10" using assms(2-4) by (auto simp: endswith_iff)
  then have "z = []" using s(1,3) by (cases z rule: rev_cases) (auto simp: free_def)
  then have "s = unlines t ls" using s(1) by simp
  moreover from this have "ls \<noteq> []" using \<open>s \<noteq> []\<close> by auto
  ultimately show ?thesis using that s(2) by blast
qed

section \<open>Bytes and text\<close>

lemma encode_char_ascii: "c < 128 \<Longrightarrow> encode_char c = [c]"
  by (simp add: encode_char_def)

lemma encode_char_high: "\<not> c < 128 \<Longrightarrow> b \<in> set (encode_char c) \<Longrightarrow> 128 \<le> b"
  by (auto simp: encode_char_def split: if_splits)

lemma encode_char_not_Nil: "encode_char c \<noteq> []"
  by (simp add: encode_char_def)

lemma scan_high: "\<forall>b\<in>set bs. 128 \<le> b \<Longrightarrow> scan_newlines c d (bs @ rest) = scan_newlines c d rest"
  by (rule free_scan) (auto simp: free_def)

lemma scan_encode: "scan_newlines c d (encode s) = scan_newlines c d s"
proof (induction c d s rule: scan_newlines.induct)
  case (2 c d b bs)
  show ?case
  proof (cases "b < 128")
    case False
    then show ?thesis using 2(3) scan_high [of "encode_char b"] encode_char_high by (auto simp del: encode_simps simp: encode_simps)
  next
    case True
    show ?thesis
    proof (cases "b = 13")
      case True
      show ?thesis
      proof (cases bs)
        case (Cons a as)
        show ?thesis
        proof (cases "a < 128")
          case True
          then show ?thesis using 2(2) [OF _ \<open>b = 13\<close> Cons] Cons \<open>b = 13\<close> by (auto simp: encode_char_ascii)
        next
          case False
          then obtain x xs where "encode_char a = x # xs" "x \<noteq> 10"
            using encode_char_high [of a 10] encode_char_not_Nil [of a]
            by (cases "encode_char a") auto
          then show ?thesis using Cons False \<open>b = 13\<close> by (auto simp: encode_char_ascii)
        qed
      qed (simp add: True encode_char_ascii)
    next
      case False
      then show ?thesis using True 2(1,3) by (auto simp: encode_char_ascii)
    qed
  qed
qed simp

lemma in_encode_ascii: "b < 128 \<Longrightarrow> b \<in> set (encode s) \<longleftrightarrow> b \<in> set s"
proof (induction s)
  case (Cons c s)
  then show ?case using encode_char_high [of c b] by (cases "c < 128") (auto simp: encode_char_ascii)
qed simp

lemma encode_unlines: "list_all (\<lambda>c. c < 128) t \<Longrightarrow> encode (unlines t ls) = unlines t (map encode ls)"
proof -
  assume "list_all (\<lambda>c. c < 128) t"
  then have "encode t = t" by (induction t) (auto simp: encode_char_ascii)
  then show ?thesis by (induction ls) auto
qed

lemma encode_inj: "list_all scalar s \<Longrightarrow> list_all scalar r \<Longrightarrow> encode s = encode r \<longleftrightarrow> s = r"
  by (metis decode_strict_encode option.inject)

section \<open>The supported files, exactly\<close>

lemma terminator_facts [simp]:
  "terminator nl \<noteq> []" "last (terminator nl) = 10" "list_all (\<lambda>c. c < 128) (terminator nl)"
  "list_all scalar (terminator nl)" "0 \<notin> set (terminator nl)" "encode (terminator nl) = terminator nl"
  by (cases nl; simp add: scalar_def encode_char_def)+

lemma line_ok_unlines:
  "\<forall>l\<in>set ls. line_ok l \<Longrightarrow> list_all scalar (unlines (terminator nl) ls) \<and> 0 \<notin> set (unlines (terminator nl) ls)"
  by (induction ls) (auto simp: line_ok_free)

definition body_text :: "newline \<Rightarrow> utext list \<Rightarrow> nat list \<Rightarrow> bool" where
  "body_text nl ls body \<longleftrightarrow> ls \<noteq> [] \<and> (\<forall>l\<in>set ls. line_ok l) \<and> body = encode (unlines (terminator nl) ls)"

definition classify_body :: "nat list \<Rightarrow> newline option" where
  "classify_body body =
     (case decode_strict body of
        None \<Rightarrow> None
      | Some decoded \<Rightarrow>
          if 0 \<in> set decoded then None
          else (case scan_newlines False False body of
              None \<Rightarrow> None
            | Some (has_crlf, has_lf) \<Rightarrow>
                if has_crlf \<and> has_lf then None
                else let nl = (if has_crlf then CRLF else LF) in
                  if \<not> endswith body (terminator nl) then None else Some nl))"

lemma classify_body:
  "classify_supported_text raw =
     (let encoding = (if startswith raw utf8_bom then UTF8_BOM else UTF8);
          body = (if startswith raw utf8_bom then drop (length utf8_bom) raw else raw) in
      case classify_body body of
        None \<Rightarrow> NON_TEXT_FILE
      | Some nl \<Rightarrow> TEXT_FILE \<lparr>tm_encoding = encoding, tm_newline = nl\<rparr>)"
  unfolding classify_supported_text_def classify_body_def
  by (simp add: Let_def split: option.split prod.split)

lemma endswith_encode:
  assumes "list_all scalar s" "list_all scalar t" "endswith (encode s) (encode t)" "\<forall>b\<in>set t. b < 128"
  shows "endswith s t"
  using assms
proof (induction t arbitrary: s rule: rev_induct)
  case Nil
  then show ?case by (simp add: endswith_iff)
next
  case (snoc c t)
  from snoc.prems(3,4) obtain bs where e: "encode s = bs @ encode t @ [c]"
    by (auto simp: endswith_iff encode_char_ascii)
  then obtain s' d where s: "s = s' @ [d]" by (cases s rule: rev_cases) auto
  have "d < 128"
  proof (rule ccontr)
    assume "\<not> d < 128"
    moreover have "c \<in> set (encode_char d)"
      using e s encode_char_not_Nil [of d] by (cases "encode_char d" rule: rev_cases) auto
    ultimately show False using encode_char_high [of d c] snoc.prems(4) by simp
  qed
  with e s have "d = c" "encode s' = bs @ encode t" by (auto simp: encode_char_ascii)
  with snoc.IH [of s'] snoc.prems s have "endswith s' t" by (auto simp: endswith_iff)
  then show ?case using s \<open>d = c\<close> by (auto simp: endswith_iff)
qed

lemma classify_body_Some: "classify_body body = Some nl \<longleftrightarrow> (\<exists>ls. body_text nl ls body)"
proof
  assume "classify_body body = Some nl"
  then obtain s c d where s: "decode_strict body = Some s" "0 \<notin> set s"
      "scan_newlines False False body = Some (c, d)" "\<not> (c \<and> d)" "nl = (if c then CRLF else LF)"
      "endswith body (terminator nl)"
    unfolding classify_body_def by (auto simp: Let_def split: option.splits prod.splits if_splits)
  have b: "body = encode s" "list_all scalar s" using decode_strict_Some [OF s(1)] by auto
  have "scan_newlines False False s = Some (c, d)" using s(3) b(1) by (simp add: scan_encode)
  then have "shaped (terminator nl) s" using scan_shape s(4,5) by (cases c) fastforce+
  moreover have "endswith s (terminator nl)"
    using endswith_encode [of s "terminator nl"] b s(6) by (cases nl) (auto simp: scalar_def encode_char_def)
  ultimately obtain ls where ls: "s = unlines (terminator nl) ls" "ls \<noteq> []" "\<forall>l\<in>set ls. free l"
    by (rule shaped_endswith) simp_all
  have "set l \<subseteq> set s" if "l \<in> set ls" for l using ls(1) that by (auto simp: unlines_def)
  then have "\<forall>l\<in>set ls. line_ok l"
    using ls(3) b(2) s(2) unfolding line_ok_free list_all_iff by blast
  then show "\<exists>ls. body_text nl ls body" using ls(1,2) b(1) by (auto simp: body_text_def)
next
  assume "\<exists>ls. body_text nl ls body"
  then obtain ls where ls: "ls \<noteq> []" "\<forall>l\<in>set ls. line_ok l" "body = encode (unlines (terminator nl) ls)"
    by (auto simp: body_text_def)
  have f: "\<forall>l\<in>set ls. free l" using ls(2) by (simp add: line_ok_free)
  have scan: "scan_newlines False False body = Some (nl = CRLF, nl = LF)"
    unfolding ls(3) scan_encode using f ls(1) scan_unlines_lf [of ls] scan_unlines_crlf [of ls]
    by (cases nl) simp_all
  obtain ms l where m: "ls = ms @ [l]" using ls(1) by (cases ls rule: rev_cases) auto
  then have "endswith body (terminator nl)"
    unfolding ls(3) by (auto simp: unlines_append endswith_iff)
  then show "classify_body body = Some nl"
    unfolding classify_body_def
    using scan line_ok_unlines [OF ls(2), of nl] decode_strict_encode [of "unlines (terminator nl) ls"] ls(3)
    by (cases nl) simp_all
qed

lemma bom_char: "encode_char 65279 = utf8_bom" "line_ok [65279]"
  by (simp_all add: encode_char_def utf8_bom_def line_ok_def scalar_def)

lemma decode_one_bom: "decode_one 239 (187 # 191 # rest) = (Some 65279, rest)"
  by (simp add: decode_one_def second_of_three_def continuation_def)

lemma encode_bom:
  assumes "encode (c # s) = utf8_bom @ body" "scalar c"
  shows "c = 65279 \<and> encode s = body"
proof -
  obtain b bs where b: "encode_char c = b # bs" "\<And>rest. decode_one b (bs @ rest) = (Some c, rest)"
    using decode_one_encode [OF assms(2)] by metis
  then have "b = 239" "bs @ encode s = 187 # 191 # body" using assms(1) by (simp_all add: utf8_bom_def)
  with b(2) [of "encode s"] show ?thesis by (simp add: decode_one_bom)
qed

lemma body_text_bom: "(\<exists>ls. body_text nl ls (utf8_bom @ body)) \<longleftrightarrow> (\<exists>ls. body_text nl ls body)"
proof
  assume "\<exists>ls. body_text nl ls body"
  then obtain l ls where l: "\<forall>l\<in>set (l # ls). line_ok l" "body = encode (unlines (terminator nl) (l # ls))"
    unfolding body_text_def by (metis list.exhaust)
  then have "body_text nl ((65279 # l) # ls) (utf8_bom @ body)"
    using bom_char by (simp add: body_text_def line_ok_def)
  then show "\<exists>ls. body_text nl ls (utf8_bom @ body)" ..
next
  assume "\<exists>ls. body_text nl ls (utf8_bom @ body)"
  then obtain l ls where l: "\<forall>l\<in>set (l # ls). line_ok l" "utf8_bom @ body = encode (unlines (terminator nl) (l # ls))"
    unfolding body_text_def by (metis list.exhaust)
  have "l \<noteq> []"
    using l(2) by (cases nl) (auto simp: utf8_bom_def encode_char_def)
  then obtain c l' where c: "l = c # l'" by (cases l) auto
  then have "c = 65279 \<and> encode (l' @ terminator nl @ unlines (terminator nl) ls) = body"
    using l by (intro encode_bom) (simp_all add: line_ok_def)
  then have "body_text nl (l' # ls) body" using l(1) c by (simp add: body_text_def line_ok_def)
  then show "\<exists>ls. body_text nl ls body" ..
qed

theorem classify_iff:
  "classify_supported_text raw = TEXT_FILE m \<longleftrightarrow>
     (\<exists>ls. body_text (tm_newline m) ls raw) \<and>
     tm_encoding m = (if startswith raw utf8_bom then UTF8_BOM else UTF8)"
proof -
  define body where "body = (if startswith raw utf8_bom then drop (length utf8_bom) raw else raw)"
  have "(\<exists>ls. body_text (tm_newline m) ls raw) \<longleftrightarrow> (\<exists>ls. body_text (tm_newline m) ls body)"
  proof (cases "startswith raw utf8_bom")
    case True
    then have "raw = utf8_bom @ body" by (auto simp: body_def startswith_iff)
    then show ?thesis by (simp add: body_text_bom)
  qed (simp add: body_def)
  moreover have "classify_supported_text raw = TEXT_FILE m \<longleftrightarrow>
      classify_body body = Some (tm_newline m) \<and> tm_encoding m = (if startswith raw utf8_bom then UTF8_BOM else UTF8)"
    by (cases m) (auto simp: classify_body body_def Let_def split: option.splits)
  ultimately show ?thesis by (simp add: classify_body_Some)
qed

section \<open>Splitting inverts joining\<close>

lemma split_seq_line:
  assumes "free p"
  shows "split_seq (terminator nl) (p @ terminator nl @ rest) = p # split_seq (terminator nl) rest"
  using assms
proof (induction p)
  case Nil
  then show ?case by (cases nl) (simp_all add: startswith_def)
next
  case (Cons c p)
  then show ?case by (cases nl) (simp_all add: startswith_def free_def)
qed

lemma split_seq_unlines:
  "\<forall>p\<in>set ps. free p \<Longrightarrow> split_seq (terminator nl) (unlines (terminator nl) ps) = ps @ [[]]"
  by (induction ps) (simp_all add: split_seq_line)

lemma free_encode: "free (encode l) \<longleftrightarrow> free l"
  by (simp add: free_def in_encode_ascii)

lemma those_map_Some: "(\<And>x. x \<in> set xs \<Longrightarrow> f x = Some (g x)) \<Longrightarrow> those (map f xs) = Some (map g xs)"
  by (induction xs) simp_all

lemma split_lines_unlines:
  assumes "\<forall>l\<in>set ls. line_ok l"
  shows "split_lines (encode (unlines (terminator nl) ls)) (terminator nl) = Some ls"
proof -
  have "split_seq (terminator nl) (encode (unlines (terminator nl) ls)) = map encode ls @ [[]]"
    using assms by (simp add: encode_unlines split_seq_unlines free_encode line_ok_free)
  moreover have "those (map decode_strict (map encode ls)) = Some ls"
    using assms those_map_Some [of ls "decode_strict \<circ> encode" "\<lambda>l. l"]
    by (simp add: line_ok_free decode_strict_encode)
  ultimately show ?thesis by (simp add: split_lines_def)
qed

lemma split_body_text: "body_text nl ls raw \<Longrightarrow> split_lines raw (terminator nl) = Some ls"
  by (simp add: body_text_def split_lines_unlines)

lemma body_text_unique:
  assumes "body_text nl ls raw" "body_text nl ms raw"
  shows "ls = ms"
  using split_body_text [OF assms(1)] split_body_text [OF assms(2)] by simp

end
