(* ===== verification/Snapshot_Tree.thy ===== *)
theory Snapshot_Tree
  imports Path_Tables Text_Classifier
begin

text \<open>
  The content-addressed store (\<open>trees/content_store.py\<close>) and the sealed snapshot tree
  (\<open>trees/snapshot.py\<close>). The store is the dictionary it keeps; SHA-256 is an argument. The texts of the
  failures are left out, their codes are kept.
\<close>

section \<open>The content store\<close>

record content_ref =
  cr_sha256 :: string
  cr_byte_count :: nat

type_synonym store = "string \<Rightarrow> nat list option"

datatype store_error = OBJECT_ABSENT | DIGEST_DRIFTED | COUNT_DRIFTED

definition ref_of :: "(nat list \<Rightarrow> string) \<Rightarrow> nat list \<Rightarrow> content_ref" where
  "ref_of sha256 raw = \<lparr>cr_sha256 = sha256 raw, cr_byte_count = length raw\<rparr>"

definition store_put :: "(nat list \<Rightarrow> string) \<Rightarrow> nat list \<Rightarrow> store \<Rightarrow> content_ref \<times> store" where
  "store_put sha256 raw st = (ref_of sha256 raw, st(sha256 raw \<mapsto> raw))"

definition store_get :: "(nat list \<Rightarrow> string) \<Rightarrow> store \<Rightarrow> content_ref \<Rightarrow> store_error + nat list" where
  "store_get sha256 st ref =
     (case st (cr_sha256 ref) of
        None \<Rightarrow> Inl OBJECT_ABSENT
      | Some stored \<Rightarrow>
          if sha256 stored \<noteq> cr_sha256 ref then Inl DIGEST_DRIFTED
          else if length stored \<noteq> cr_byte_count ref then Inl COUNT_DRIFTED
          else Inr stored)"

definition inject_corruption :: "content_ref \<Rightarrow> nat list \<Rightarrow> store \<Rightarrow> store" where
  "inject_corruption ref replacement_bytes st = st(cr_sha256 ref \<mapsto> replacement_bytes)"

section \<open>The snapshot\<close>

record file_entry =
  fe_path :: utext
  fe_size_bytes :: nat
  fe_content_ref :: content_ref
  fe_text_profile :: "text_metadata option"

datatype snapshot_entry = DIRECTORY_ROW utext | FILE_ROW file_entry

record snapshot =
  sn_root_digest :: string
  sn_policy_digest :: string
  sn_entries :: "snapshot_entry list"
  sn_file_bytes :: "(utext \<times> nat list) list"

record sealed_file =
  sf_path :: utext
  sf_content_sha256 :: string
  sf_byte_count :: nat

record accepted_preflight =
  pf_tracked_file_count :: "nat option"
  pf_tracked_byte_count :: "nat option"
  pf_policy_digest :: "string option"
  pf_files :: "sealed_file list"

datatype drift =
    PREFLIGHT_COUNT_DRIFT | PREFLIGHT_BYTES_DRIFT | PREFLIGHT_OBJECT_DRIFT | PREFLIGHT_POLICY_DRIFT
  | PATH_ORDER_DRIFT | PROTECTED_INPUT_DRIFT | SIZE_DRIFT | CONTENT_DRIFT | OBJECT_MISSING_DRIFT
  | POLICY_DRIFT | ROOT_DIGEST_DRIFT

datatype snapshot_error = SnapshotIntegrityError drift | SnapshotJsonError

datatype integrity = INTACT | FAILED_INTEGRITY drift

definition file_rows :: "snapshot_entry list \<Rightarrow> file_entry list" where
  "file_rows entries = concat (map (\<lambda>e. case e of FILE_ROW f \<Rightarrow> [f] | DIRECTORY_ROW _ \<Rightarrow> []) entries)"

definition directory_rows :: "snapshot_entry list \<Rightarrow> utext list" where
  "directory_rows entries = concat (map (\<lambda>e. case e of FILE_ROW _ \<Rightarrow> [] | DIRECTORY_ROW p \<Rightarrow> [p]) entries)"

definition snapshot_files :: "snapshot \<Rightarrow> utext list" where
  \<comment> \<open>\<open>list_file_paths\<close>\<close>
  "snapshot_files s = map fe_path (file_rows (sn_entries s))"

definition snapshot_directories :: "snapshot \<Rightarrow> utext list" where
  \<comment> \<open>\<open>list_directories\<close>\<close>
  "snapshot_directories s = directory_rows (sn_entries s)"

text \<open>\<open>read_bytes\<close>: the first row with the path; \<open>None\<close> is the \<open>KeyError\<close>.\<close>

definition snapshot_read :: "snapshot \<Rightarrow> utext \<Rightarrow> nat list option" where
  "snapshot_read s path = map_of (sn_file_bytes s) path"

definition ancestors :: "utext \<Rightarrow> utext list" where
  "ancestors p = map (\<lambda>n. ancestor n p) [1..<length (segments p)]"

definition directory_paths :: "utext list \<Rightarrow> utext list" where
  "directory_paths paths = sort (remdups (concat (map ancestors paths)))"

section \<open>The root digest\<close>

fun encoding_name :: "text_encoding \<Rightarrow> string" where
  "encoding_name UTF8 = ''UTF8''"
| "encoding_name UTF8_BOM = ''UTF8_BOM''"

fun newline_name :: "newline \<Rightarrow> string" where
  "newline_name LF = ''LF''"
| "newline_name CRLF = ''CRLF''"

definition metadata_value :: "text_metadata \<Rightarrow> cvalue" where
  "metadata_value m =
     CObj [(lit ''encoding'', CStr (lit (encoding_name (tm_encoding m)))),
       (lit ''newline'', CStr (lit (newline_name (tm_newline m)))), (lit ''final_newline'', CBool True)]"

definition ref_value :: "content_ref \<Rightarrow> cvalue" where
  "ref_value r = CObj [(lit ''sha256'', CStr (lit (cr_sha256 r))), (lit ''byte_count'', CInt (int (cr_byte_count r)))]"

fun entry_value :: "snapshot_entry \<Rightarrow> cvalue" where
  "entry_value (DIRECTORY_ROW p) = CObj [(lit ''kind'', CStr (lit ''DIRECTORY'')), (lit ''path'', CStr p)]"
| "entry_value (FILE_ROW f) =
     CObj [(lit ''kind'', CStr (lit (if fe_text_profile f = None then ''NON_TEXT_FILE'' else ''TEXT_FILE''))),
       (lit ''path'', CStr (fe_path f)), (lit ''size_bytes'', CInt (int (fe_size_bytes f))),
       (lit ''content_ref'', ref_value (fe_content_ref f)),
       (lit ''text_profile'',
          case fe_text_profile f of
            Some m \<Rightarrow> CObj [(lit ''kind'', CStr (lit ''PRESENT'')), (lit ''value'', metadata_value m)]
          | None \<Rightarrow> CObj [(lit ''kind'', CStr (lit ''ABSENT''))])]"

definition snapshot_value :: "string \<Rightarrow> snapshot_entry list \<Rightarrow> cvalue" where
  "snapshot_value policy_digest entries =
     CObj [(lit ''schema_version'', CInt 1), (lit ''repository_policy_digest'', CStr (lit policy_digest)),
       (lit ''entries'', CArr (map entry_value entries))]"

definition root_digest :: "(nat list \<Rightarrow> string) \<Rightarrow> string \<Rightarrow> snapshot_entry list \<Rightarrow> string option" where
  "root_digest sha256 policy_digest entries =
     domain_digest sha256 ''SnapshotTreeV1'' 1 (snapshot_value policy_digest entries)"

section \<open>Construction\<close>

definition require_canonical_order :: "utext list \<Rightarrow> drift option" where
  "require_canonical_order paths =
     (if \<not> distinct paths then Some PATH_ORDER_DRIFT
      else if paths \<noteq> sort paths then Some PATH_ORDER_DRIFT
      else if list_ex (\<lambda>(first, second). startswith second (first @ [47])) (zip paths (drop 1 paths))
        then Some PATH_ORDER_DRIFT
      else None)"

fun reject_protected_input ::
    "unicode_tables \<Rightarrow> (utext \<Rightarrow> utext option) \<Rightarrow> (utext \<Rightarrow> utext option) \<Rightarrow> utext list \<Rightarrow> drift option" where
  "reject_protected_input T folded normalized [] = None"
| "reject_protected_input T folded normalized (path # paths) =
     (if sensitive_path_rule_id T path \<noteq> None then Some PROTECTED_INPUT_DRIFT
      else if encode_strict path = None then Some PROTECTED_INPUT_DRIFT
      else if (case folded (ut_casefold T path) of None \<Rightarrow> False | Some q \<Rightarrow> q \<noteq> path) then Some PROTECTED_INPUT_DRIFT
      else if (case normalized (ut_nfc T path) of None \<Rightarrow> False | Some q \<Rightarrow> q \<noteq> path) then Some PROTECTED_INPUT_DRIFT
      else reject_protected_input T (folded(ut_casefold T path \<mapsto> path)) (normalized(ut_nfc T path \<mapsto> path)) paths)"

fun fetch_rows ::
    "(nat list \<Rightarrow> string) \<Rightarrow> store \<Rightarrow> sealed_file list \<Rightarrow> (sealed_file \<times> content_ref \<times> nat list) list option" where
  "fetch_rows sha256 st [] = Some []"
| "fetch_rows sha256 st (row # rows) =
     (let ref = \<lparr>cr_sha256 = sf_content_sha256 row, cr_byte_count = sf_byte_count row\<rparr> in
      case store_get sha256 st ref of
        Inl _ \<Rightarrow> None
      | Inr raw \<Rightarrow> map_option (Cons (row, ref, raw)) (fetch_rows sha256 st rows))"

definition file_entry_from_classification ::
    "sealed_file \<Rightarrow> content_ref \<Rightarrow> classification \<Rightarrow> file_entry" where
  "file_entry_from_classification row ref c =
     \<lparr>fe_path = sf_path row, fe_size_bytes = sf_byte_count row, fe_content_ref = ref,
      fe_text_profile = (case c of TEXT_FILE m \<Rightarrow> Some m | NON_TEXT_FILE \<Rightarrow> None)\<rparr>"

definition seal_snapshot ::
    "(nat list \<Rightarrow> string) \<Rightarrow> string \<Rightarrow> (sealed_file \<times> content_ref \<times> nat list) list \<Rightarrow> snapshot_error + snapshot" where
  "seal_snapshot sha256 policy_digest rows =
     (let entries = map DIRECTORY_ROW (directory_paths (map (\<lambda>(row, ref, raw). sf_path row) rows)) @
            map (\<lambda>(row, ref, raw). FILE_ROW (file_entry_from_classification row ref (classify_supported_text raw))) rows in
      case root_digest sha256 policy_digest entries of
        None \<Rightarrow> Inl SnapshotJsonError
      | Some root \<Rightarrow>
          Inr \<lparr>sn_root_digest = root, sn_policy_digest = policy_digest, sn_entries = entries,
            sn_file_bytes = map (\<lambda>(row, ref, raw). (sf_path row, raw)) rows\<rparr>)"

definition create_snapshot_tree ::
    "unicode_tables \<Rightarrow> (nat list \<Rightarrow> string) \<Rightarrow> accepted_preflight \<Rightarrow> store \<Rightarrow> snapshot_error + snapshot" where
  "create_snapshot_tree T sha256 sealed st =
     (let files = pf_files sealed; paths = map sf_path files in
      if pf_tracked_file_count sealed \<noteq> Some (length files) then Inl (SnapshotIntegrityError PREFLIGHT_COUNT_DRIFT)
      else if pf_tracked_byte_count sealed \<noteq> Some (sum_list (map sf_byte_count files))
        then Inl (SnapshotIntegrityError PREFLIGHT_BYTES_DRIFT)
      else (case require_canonical_order paths of
          Some d \<Rightarrow> Inl (SnapshotIntegrityError d)
        | None \<Rightarrow>
            (case reject_protected_input T (\<lambda>_. None) (\<lambda>_. None) paths of
               Some d \<Rightarrow> Inl (SnapshotIntegrityError d)
             | None \<Rightarrow>
                 (case fetch_rows sha256 st files of
                    None \<Rightarrow> Inl (SnapshotIntegrityError PREFLIGHT_OBJECT_DRIFT)
                  | Some rows \<Rightarrow>
                      (case pf_policy_digest sealed of
                         None \<Rightarrow> Inl (SnapshotIntegrityError PREFLIGHT_POLICY_DRIFT)
                       | Some policy_digest \<Rightarrow> seal_snapshot sha256 policy_digest rows)))))"

section \<open>Verification\<close>

definition hex64 :: "string \<Rightarrow> bool" where
  "hex64 s \<longleftrightarrow> length s = 64 \<and> list_all (\<lambda>c. 48 \<le> ord c \<and> ord c \<le> 57 \<or> 97 \<le> ord c \<and> ord c \<le> 102) s"

definition order_drift :: "snapshot \<Rightarrow> bool" where
  "order_drift s \<longleftrightarrow>
     (let files = file_rows (sn_entries s); dirs = directory_rows (sn_entries s); file_paths = map fe_path files in
      dirs \<noteq> sort dirs \<or> files \<noteq> sort_key fe_path files \<or>
      sn_entries s \<noteq> map DIRECTORY_ROW dirs @ map FILE_ROW files \<or>
      \<not> distinct file_paths \<or> \<not> distinct dirs \<or> set file_paths \<inter> set dirs \<noteq> {} \<or>
      set dirs \<noteq> set (directory_paths file_paths))"

definition verify_snapshot :: "(nat list \<Rightarrow> string) \<Rightarrow> snapshot \<Rightarrow> store \<Rightarrow> integrity" where
  "verify_snapshot sha256 s st =
     (let files = file_rows (sn_entries s);
          sealed = (\<lambda>f. the (map_of (sn_file_bytes s) (fe_path f))) in
      if order_drift s then FAILED_INTEGRITY PATH_ORDER_DRIFT
      else if \<not> distinct (map fst (sn_file_bytes s)) then FAILED_INTEGRITY CONTENT_DRIFT
      else if set (map fst (sn_file_bytes s)) \<noteq> set (map fe_path files) then FAILED_INTEGRITY CONTENT_DRIFT
      else if list_ex (\<lambda>f. fe_size_bytes f \<noteq> cr_byte_count (fe_content_ref f) \<or> fe_size_bytes f \<noteq> length (sealed f)) files
        then FAILED_INTEGRITY SIZE_DRIFT
      else if list_ex (\<lambda>f. sha256 (sealed f) \<noteq> cr_sha256 (fe_content_ref f)) files then FAILED_INTEGRITY CONTENT_DRIFT
      else (case find (\<lambda>f. store_get sha256 st (fe_content_ref f) \<noteq> Inr (sealed f)) files of
          Some f \<Rightarrow>
            (case store_get sha256 st (fe_content_ref f) of
               Inl _ \<Rightarrow> FAILED_INTEGRITY OBJECT_MISSING_DRIFT
             | Inr _ \<Rightarrow> FAILED_INTEGRITY CONTENT_DRIFT)
        | None \<Rightarrow>
            if \<not> hex64 (sn_policy_digest s) then FAILED_INTEGRITY POLICY_DRIFT
            else if root_digest sha256 (sn_policy_digest s) (sn_entries s) \<noteq> Some (sn_root_digest s)
              then FAILED_INTEGRITY ROOT_DIGEST_DRIFT
            else INTACT))"

section \<open>Store laws\<close>

lemma put_get: "store_get sha256 (snd (store_put sha256 raw st)) (fst (store_put sha256 raw st)) = Inr raw"
  by (simp add: store_put_def store_get_def ref_of_def)

lemma get_sound:
  "store_get sha256 st ref = Inr raw \<longleftrightarrow> st (cr_sha256 ref) = Some raw \<and> ref = ref_of sha256 raw"
  by (cases ref) (auto simp: store_get_def ref_of_def split: option.splits)

lemma put_keeps:
  assumes "store_get sha256 st ref = Inr raw"
  shows "store_get sha256 (snd (store_put sha256 new st)) ref = Inr raw \<or> (raw \<noteq> new \<and> sha256 raw = sha256 new)"
  using assms by (auto simp: get_sound store_put_def ref_of_def)

lemma corruption_detected:
  "store_get sha256 (inject_corruption (ref_of sha256 raw) bad st) (ref_of sha256 raw) = Inr got \<Longrightarrow>
     got = bad \<and> sha256 bad = sha256 raw \<and> length bad = length raw"
  by (auto simp: get_sound inject_corruption_def ref_of_def)

section \<open>The contract of the store\<close>

text \<open>
  What the trees rely on: a stored object is returned under its reference, and storing an admissible object
  into a sound store loses nothing. The lemmas are what a batch of stores keeps.
\<close>

locale object_store =
  fixes put :: "'obj \<Rightarrow> 'st \<Rightarrow> 'ref \<times> 'st" and get :: "'st \<Rightarrow> 'ref \<Rightarrow> 'err + 'obj"
    and ref_to :: "'obj \<Rightarrow> 'ref" and sound :: "'st \<Rightarrow> bool" and admissible :: "'obj \<Rightarrow> bool"
  assumes put_ref: "fst (put x st) = ref_to x"
    and put_returned: "get (snd (put x st)) (ref_to x) = Inr x"
    and put_sound: "sound st \<Longrightarrow> admissible x \<Longrightarrow> sound (snd (put x st))"
    and put_kept: "sound st \<Longrightarrow> admissible x \<Longrightarrow> get st ref = Inr y \<Longrightarrow> get (snd (put x st)) ref = Inr y"
begin

lemma batch_sound: "sound st \<Longrightarrow> list_all admissible xs \<Longrightarrow> sound (fold (\<lambda>x st. snd (put x st)) xs st)"
  by (induction xs arbitrary: st) (simp_all add: put_sound)

lemma batch_kept:
  "sound st \<Longrightarrow> list_all admissible xs \<Longrightarrow> get st ref = Inr y \<Longrightarrow> get (fold (\<lambda>x st. snd (put x st)) xs st) ref = Inr y"
  by (induction xs arbitrary: st) (simp_all add: put_sound put_kept)

lemma batch_returned:
  "sound st \<Longrightarrow> list_all admissible xs \<Longrightarrow> x \<in> set xs \<Longrightarrow> get (fold (\<lambda>x st. snd (put x st)) xs st) (ref_to x) = Inr x"
proof (induction xs arbitrary: st)
  case (Cons a xs)
  show ?case
  proof (cases "x \<in> set xs")
    case True
    then show ?thesis using Cons put_sound by simp
  next
    case False
    then have "x = a" using Cons.prems(3) by simp
    then show ?thesis
      using batch_kept [OF put_sound [OF Cons.prems(1)], of a xs "ref_to a" a] put_returned Cons.prems(2) by simp
  qed
qed simp

end

text \<open>The byte strings in \<open>H\<close> have different digests; the store holds only such strings.\<close>

definition store_within :: "(nat list \<Rightarrow> string) \<Rightarrow> nat list set \<Rightarrow> store \<Rightarrow> bool" where
  "store_within sha256 H st \<longleftrightarrow> inj_on sha256 H \<and> ran st \<subseteq> H"

lemma put_within: "store_within sha256 H st \<Longrightarrow> new \<in> H \<Longrightarrow> store_within sha256 H (snd (store_put sha256 new st))"
  by (auto simp: store_within_def store_put_def ran_def)

lemma get_within: "store_within sha256 H st \<Longrightarrow> store_get sha256 st ref = Inr raw \<Longrightarrow> raw \<in> H"
  by (auto simp: get_sound store_within_def ran_def)

lemma put_keeps_within:
  assumes "store_within sha256 H st" "new \<in> H" "store_get sha256 st ref = Inr raw"
  shows "store_get sha256 (snd (store_put sha256 new st)) ref = Inr raw"
proof -
  have "raw = new" if "sha256 raw = sha256 new"
    using assms(1) that get_within [OF assms(1,3)] assms(2) unfolding store_within_def by (blast dest: inj_onD)
  then show ?thesis using put_keeps [OF assms(3), of new] by auto
qed

interpretation shared_store: object_store "store_put sha256" "store_get sha256" "ref_of sha256" "store_within sha256 H" "\<lambda>raw. raw \<in> H"
  for sha256 H
proof
  fix raw :: "nat list" and st :: store
  show "fst (store_put sha256 raw st) = ref_of sha256 raw" by (simp add: store_put_def)
  then show "store_get sha256 (snd (store_put sha256 raw st)) (ref_of sha256 raw) = Inr raw"
    using put_get [of sha256 raw st] by simp
qed (fact put_within, fact put_keeps_within)

section \<open>A created snapshot verifies\<close>

lemma rows_of_seal:
  "file_rows (map DIRECTORY_ROW ds @ map FILE_ROW fs) = fs" "directory_rows (map DIRECTORY_ROW ds @ map FILE_ROW fs) = ds"
  by (induction ds) (simp_all add: file_rows_def directory_rows_def comp_def)

lemma fetch_rows_Some:
  "fetch_rows sha256 st files = Some rows \<Longrightarrow>
     map (\<lambda>(row, ref, raw). row) rows = files \<and>
     (\<forall>(row, ref, raw)\<in>set rows. ref = \<lparr>cr_sha256 = sf_content_sha256 row, cr_byte_count = sf_byte_count row\<rparr> \<and>
        store_get sha256 st ref = Inr raw)"
  by (induction files arbitrary: rows) (auto simp: Let_def split: sum.splits)

lemma directory_paths_set: "set (directory_paths paths) = (\<Union>p\<in>set paths. set (ancestors p))"
  and directory_paths_sorted: "sorted (directory_paths paths)" "distinct (directory_paths paths)"
  by (simp_all add: directory_paths_def)

definition sealed_rows :: "(sealed_file \<times> content_ref \<times> nat list) list \<Rightarrow> file_entry list" where
  "sealed_rows rows = map (\<lambda>(row, ref, raw). file_entry_from_classification row ref (classify_supported_text raw)) rows"

lemma seal_snapshot_Inr:
  assumes "seal_snapshot sha256 policy rows = Inr s"
  defines "paths \<equiv> map (\<lambda>(row, ref, raw). sf_path row) rows"
  shows "sn_entries s = map DIRECTORY_ROW (directory_paths paths) @ map FILE_ROW (sealed_rows rows)"
    "sn_file_bytes s = map (\<lambda>(row, ref, raw). (sf_path row, raw)) rows" "sn_policy_digest s = policy"
    "root_digest sha256 policy (sn_entries s) = Some (sn_root_digest s)"
    "map fe_path (sealed_rows rows) = paths"
  using assms
  by (auto simp: seal_snapshot_def Let_def sealed_rows_def file_entry_from_classification_def comp_def case_prod_beta'
      split: option.splits)

lemma map_of_rows:
  assumes "distinct (map (\<lambda>(row, ref, raw). sf_path row) rows)" "(row, ref, raw) \<in> set rows"
  shows "map_of (map (\<lambda>(row, ref, raw). (sf_path row, raw)) rows) (sf_path row) = Some raw"
  using assms by (intro map_of_is_SomeI) (auto simp: comp_def case_prod_beta' image_iff, force)

lemma sealed_row_facts:
  assumes "fetch_rows sha256 st files = Some rows" "distinct (map (\<lambda>(row, ref, raw). sf_path row) rows)"
    "seal_snapshot sha256 policy rows = Inr s" "f \<in> set (sealed_rows rows)"
  obtains raw where "map_of (sn_file_bytes s) (fe_path f) = Some raw" "fe_size_bytes f = length raw"
    "fe_content_ref f = ref_of sha256 raw" "store_get sha256 st (fe_content_ref f) = Inr raw"
proof -
  from assms(4) obtain row ref raw where m: "(row, ref, raw) \<in> set rows"
      and f: "f = file_entry_from_classification row ref (classify_supported_text raw)"
    by (auto simp: sealed_rows_def)
  have r: "ref = \<lparr>cr_sha256 = sf_content_sha256 row, cr_byte_count = sf_byte_count row\<rparr>" "store_get sha256 st ref = Inr raw"
    using fetch_rows_Some [OF assms(1)] m by auto
  then have "ref = ref_of sha256 raw" by (simp add: get_sound)
  moreover have "sf_byte_count row = length raw" using r(1) calculation by (simp add: ref_of_def)
  ultimately show ?thesis
    using that [of raw] map_of_rows [OF assms(2) m] r(2) seal_snapshot_Inr(2) [OF assms(3)]
    by (simp add: f file_entry_from_classification_def)
qed

lemma create_snapshot_tree_Inr:
  assumes "create_snapshot_tree T sha256 sealed st = Inr s"
  obtains rows policy where
    "distinct (map sf_path (pf_files sealed))" "sorted (map sf_path (pf_files sealed))"
    "reject_protected_input T (\<lambda>_. None) (\<lambda>_. None) (map sf_path (pf_files sealed)) = None"
    "fetch_rows sha256 st (pf_files sealed) = Some rows" "pf_policy_digest sealed = Some policy"
    "seal_snapshot sha256 policy rows = Inr s"
    "map (\<lambda>(row, ref, raw). sf_path row) rows = map sf_path (pf_files sealed)"
proof -
  from assms obtain rows policy where f:
      "require_canonical_order (map sf_path (pf_files sealed)) = None"
      "reject_protected_input T (\<lambda>_. None) (\<lambda>_. None) (map sf_path (pf_files sealed)) = None"
      "fetch_rows sha256 st (pf_files sealed) = Some rows" "pf_policy_digest sealed = Some policy"
      "seal_snapshot sha256 policy rows = Inr s"
    by (auto simp: create_snapshot_tree_def Let_def split: if_splits option.splits)
  have d: "distinct (map sf_path (pf_files sealed))" and eq: "map sf_path (pf_files sealed) = sort (map sf_path (pf_files sealed))"
    using f(1) by (auto simp: require_canonical_order_def split: if_splits)
  have "sorted (map sf_path (pf_files sealed))" by (subst eq) (rule sorted_sort)
  note this d
  moreover have "map (\<lambda>(row, ref, raw). sf_path row) rows = map sf_path (map (\<lambda>(row, ref, raw). row) rows)"
    by auto
  then have "map (\<lambda>(row, ref, raw). sf_path row) rows = map sf_path (pf_files sealed)"
    using fetch_rows_Some [OF f(3)] by simp
  ultimately show ?thesis using that [of rows policy] f(2-5) by blast
qed

lemma created_verifies:
  assumes c: "create_snapshot_tree T sha256 sealed st = Inr s" and h: "hex64 (sn_policy_digest s)"
    and anc: "set (snapshot_files s) \<inter> set (snapshot_directories s) = {}"
  shows "verify_snapshot sha256 s st = INTACT"
proof -
  from c obtain rows policy where paths: "distinct (map sf_path (pf_files sealed))" "sorted (map sf_path (pf_files sealed))"
      and rows: "fetch_rows sha256 st (pf_files sealed) = Some rows"
      and seal: "seal_snapshot sha256 policy rows = Inr s"
      and eq: "map (\<lambda>(row, ref, raw). sf_path row) rows = map sf_path (pf_files sealed)"
    by (rule create_snapshot_tree_Inr)
  note e = seal_snapshot_Inr [OF seal, unfolded eq]
  have fr: "file_rows (sn_entries s) = sealed_rows rows"
      "directory_rows (sn_entries s) = directory_paths (map sf_path (pf_files sealed))"
    unfolding e(1) by (rule rows_of_seal)+
  have "sort_key fe_path (sealed_rows rows) = sealed_rows rows" using paths(2) e(5) by (simp add: sort_key_id_if_sorted)
  moreover have img: "fe_path ` set (sealed_rows rows) = sf_path ` set (pf_files sealed)"
    using arg_cong [OF e(5), of set] by simp
  ultimately have "\<not> order_drift s"
    using paths(1) e(1,5) anc directory_paths_sorted [of "map sf_path (pf_files sealed)"]
    by (simp add: order_drift_def Let_def rows_of_seal snapshot_files_def snapshot_directories_def sorted_sort_id)
  moreover have "map fst (sn_file_bytes s) = map sf_path (pf_files sealed)"
    unfolding e(2) eq [symmetric] by auto
  moreover have row: "\<exists>raw. map_of (sn_file_bytes s) (fe_path f) = Some raw \<and> fe_size_bytes f = length raw \<and>
      fe_content_ref f = ref_of sha256 raw \<and> store_get sha256 st (fe_content_ref f) = Inr raw"
    if "f \<in> set (sealed_rows rows)" for f
    using sealed_row_facts [OF rows _ seal that] paths(1) eq by metis
  moreover have "find (\<lambda>f. store_get sha256 st (fe_content_ref f) \<noteq> Inr (the (map_of (sn_file_bytes s) (fe_path f))))
      (sealed_rows rows) = None"
    unfolding find_None_iff using row by fastforce
  moreover have "\<not> list_ex (\<lambda>f. fe_size_bytes f \<noteq> cr_byte_count (fe_content_ref f) \<or>
      fe_size_bytes f \<noteq> length (the (map_of (sn_file_bytes s) (fe_path f)))) (sealed_rows rows)"
    "\<not> list_ex (\<lambda>f. sha256 (the (map_of (sn_file_bytes s) (fe_path f))) \<noteq> cr_sha256 (fe_content_ref f)) (sealed_rows rows)"
    unfolding list_ex_iff using row by (fastforce simp: ref_of_def)+
  ultimately show ?thesis
    using paths(1) e(3,4,5) h img by (simp add: verify_snapshot_def Let_def fr)
qed

section \<open>What INTACT means\<close>

lemma intact_facts:
  assumes "verify_snapshot sha256 s st = INTACT"
  shows "\<not> order_drift s" "distinct (map fst (sn_file_bytes s))"
    "set (map fst (sn_file_bytes s)) = set (snapshot_files s)"
    "root_digest sha256 (sn_policy_digest s) (sn_entries s) = Some (sn_root_digest s)"
  using assms by (auto simp: verify_snapshot_def Let_def snapshot_files_def split: if_splits option.splits sum.splits)

lemma intact_row:
  assumes v: "verify_snapshot sha256 s st = INTACT" and f: "f \<in> set (file_rows (sn_entries s))"
  obtains raw where "snapshot_read s (fe_path f) = Some raw" "fe_content_ref f = ref_of sha256 raw"
    "fe_size_bytes f = length raw" "store_get sha256 st (fe_content_ref f) = Inr raw"
proof -
  define raw where "raw = the (map_of (sn_file_bytes s) (fe_path f))"
  have "fe_path f \<in> fst ` set (sn_file_bytes s)" using intact_facts(3) [OF v] f by (auto simp: snapshot_files_def)
  then have m: "snapshot_read s (fe_path f) = Some raw"
    unfolding raw_def snapshot_read_def by (metis map_of_eq_None_iff option.collapse)
  have n: "\<not> list_ex (\<lambda>f. fe_size_bytes f \<noteq> cr_byte_count (fe_content_ref f) \<or>
      fe_size_bytes f \<noteq> length (the (map_of (sn_file_bytes s) (fe_path f)))) (file_rows (sn_entries s))"
    "find (\<lambda>f. store_get sha256 st (fe_content_ref f) \<noteq> Inr (the (map_of (sn_file_bytes s) (fe_path f))))
      (file_rows (sn_entries s)) = None"
    using v by (auto simp: verify_snapshot_def Let_def split: if_splits option.splits sum.splits)
  have "store_get sha256 st (fe_content_ref f) = Inr raw"
    using n(2) f unfolding find_None_iff raw_def by blast
  moreover have "fe_size_bytes f = length raw" using n(1) f unfolding list_ex_iff raw_def by blast
  ultimately show ?thesis using that m get_sound by blast
qed

lemma scalar_lit: "list_all scalar (lit s)"
proof -
  have "scalar n" if "n < 256" for n using that by (simp add: scalar_def)
  then have "scalar (ord c)" for c by (simp add: ord_def)
  then show ?thesis by (simp add: lit_def list_all_iff)
qed

definition scalar_paths :: "snapshot_entry list \<Rightarrow> bool" where
  "scalar_paths entries \<longleftrightarrow>
     list_all (\<lambda>e. case e of DIRECTORY_ROW p \<Rightarrow> list_all scalar p | FILE_ROW f \<Rightarrow> list_all scalar (fe_path f)) entries"

lemma entry_value_scalar:
  "(case e of DIRECTORY_ROW p \<Rightarrow> list_all scalar p | FILE_ROW f \<Rightarrow> list_all scalar (fe_path f)) \<Longrightarrow> scalar_value (entry_value e)"
  using scalar_lit
  by (cases e) (auto simp: metadata_value_def ref_value_def simp del: lit_simps split: option.splits)

lemma snapshot_value_scalar: "scalar_paths es \<Longrightarrow> scalar_value (snapshot_value p es)"
  unfolding scalar_paths_def snapshot_value_def
  using scalar_lit entry_value_scalar by (simp add: list.pred_map comp_def list.pred_mono_strong del: lit_simps)

lemma ref_value_inj: "normal (ref_value r) = normal (ref_value q) \<longleftrightarrow> r = q"
  by (cases r; cases q) (auto simp: ref_value_def lit_inj)

lemma metadata_value_inj: "normal (metadata_value m) = normal (metadata_value n) \<longleftrightarrow> m = n"
proof -
  have "encoding_name a = encoding_name b \<longleftrightarrow> a = b" for a b by (cases a; cases b) simp_all
  moreover have "newline_name a = newline_name b \<longleftrightarrow> a = b" for a b by (cases a; cases b) simp_all
  ultimately show ?thesis by (cases m; cases n) (simp add: metadata_value_def lit_inj)
qed

lemma entry_value_inj: "normal (entry_value e) = normal (entry_value d) \<longleftrightarrow> e = d"
proof (cases e; cases d)
  fix f g
  assume e: "e = FILE_ROW f" "d = FILE_ROW g"
  show ?thesis
    unfolding e
    by (cases f; cases g; cases "fe_text_profile f"; cases "fe_text_profile g")
      (auto simp: ref_value_inj metadata_value_inj)
qed auto

lemma snapshot_value_inj:
  assumes "normal (snapshot_value p es) = normal (snapshot_value q fs)"
  shows "p = q \<and> es = fs"
proof -
  from assms have "p = q" and "map (\<lambda>e. normal (entry_value e)) es = map (\<lambda>e. normal (entry_value e)) fs"
    by (simp_all add: snapshot_value_def lit_inj comp_def)
  moreover have "inj (\<lambda>e. normal (entry_value e))" by (rule injI) (simp add: entry_value_inj)
  ultimately show ?thesis by (simp add: inj_map_eq_map)
qed

text \<open>The byte strings that are hashed for a snapshot: its canonical value and the bytes of its files.\<close>

definition snapshot_hashed :: "snapshot \<Rightarrow> nat list set" where
  "snapshot_hashed s =
     insert (digest_input ''SnapshotTreeV1'' 1 (snapshot_value (sn_policy_digest s) (sn_entries s))) (snd ` set (sn_file_bytes s))"

lemma snapshot_read_hashed: "snapshot_read s p = Some raw \<Longrightarrow> raw \<in> snapshot_hashed s"
  unfolding snapshot_read_def snapshot_hashed_def by (drule map_of_SomeD) (simp add: rev_image_eqI)

lemma intact_same_rows:
  assumes v: "verify_snapshot sha256 s st = INTACT" "verify_snapshot sha256 s' st' = INTACT"
    and sc: "scalar_paths (sn_entries s)" "scalar_paths (sn_entries s')"
    and d: "sn_root_digest s = sn_root_digest s'" and inj: "inj_on sha256 (snapshot_hashed s \<union> snapshot_hashed s')"
  shows "sn_policy_digest s = sn_policy_digest s' \<and> sn_entries s = sn_entries s'"
proof -
  have eq: "root_digest sha256 (sn_policy_digest s) (sn_entries s) = root_digest sha256 (sn_policy_digest s') (sn_entries s')"
    using intact_facts(4) [OF v(1)] intact_facts(4) [OF v(2)] d by simp
  have "inj_on sha256 {digest_input ''SnapshotTreeV1'' 1 (snapshot_value (sn_policy_digest s) (sn_entries s)),
      digest_input ''SnapshotTreeV1'' 1 (snapshot_value (sn_policy_digest s') (sn_entries s'))}"
    by (rule inj_on_subset [OF inj]) (simp add: snapshot_hashed_def)
  from domain_digest_binds [OF _ _ snapshot_value_scalar [OF sc(1)] snapshot_value_scalar [OF sc(2)] eq [unfolded root_digest_def] this]
  have "normal (snapshot_value (sn_policy_digest s) (sn_entries s)) = normal (snapshot_value (sn_policy_digest s') (sn_entries s'))"
    by simp
  then show ?thesis by (rule snapshot_value_inj)
qed

lemma intact_same_digest:
  assumes v: "verify_snapshot sha256 s st = INTACT" "verify_snapshot sha256 s' st' = INTACT"
    and sc: "scalar_paths (sn_entries s)" "scalar_paths (sn_entries s')"
    and d: "sn_root_digest s = sn_root_digest s'" and inj: "inj_on sha256 (snapshot_hashed s \<union> snapshot_hashed s')"
  shows "sn_policy_digest s = sn_policy_digest s' \<and> sn_entries s = sn_entries s' \<and> snapshot_read s = snapshot_read s'"
proof -
  note eq = intact_same_rows [OF assms]
  have "snapshot_read s p = snapshot_read s' p" for p
  proof (cases "p \<in> set (snapshot_files s)")
    case True
    then obtain f where f: "f \<in> set (file_rows (sn_entries s))" "p = fe_path f" by (auto simp: snapshot_files_def)
    obtain raw where raw: "snapshot_read s p = Some raw" "fe_content_ref f = ref_of sha256 raw"
      using intact_row [OF v(1) f(1)] f(2) by metis
    obtain raw' where raw': "snapshot_read s' p = Some raw'" "fe_content_ref f = ref_of sha256 raw'"
      using intact_row [OF v(2), of f] f eq by metis
    have "sha256 raw = sha256 raw'" using raw(2) raw'(2) by (simp add: ref_of_def)
    then have "raw = raw'"
      using inj_onD [OF inj] snapshot_read_hashed [OF raw(1)] snapshot_read_hashed [OF raw'(1)] by blast
    with raw raw' show ?thesis by simp
  next
    case False
    then have "p \<notin> fst ` set (sn_file_bytes s)" "p \<notin> fst ` set (sn_file_bytes s')"
      using intact_facts(3) [OF v(1)] intact_facts(3) [OF v(2)] eq by (simp_all add: snapshot_files_def)
    then show ?thesis by (metis map_of_eq_None_iff snapshot_read_def)
  qed
  with eq show ?thesis by auto
qed

end
