(* ===== verification/Candidate_Tree.thy ===== *)
theory Candidate_Tree
  imports Snapshot_Tree
begin

text \<open>
  The candidate tree (\<open>trees/candidate.py\<close>): an overlay of content references over the sealed snapshot, and
  the derivation of a child revision. The run's store is shared and mutable, so it is an argument of every
  read and a result of the derivation. Digests are hexadecimal by construction, which is what the
  \<open>StrictStr\<close> digest validators check; the other validators are \<open>make_tree\<close> and \<open>make_revision\<close>.
\<close>

record postimage =
  po_operation :: patch_operation
  po_path :: utext
  po_raw_bytes :: "nat list"

record overlay_entry =
  ov_operation :: patch_operation
  ov_path :: utext
  ov_content_ref :: content_ref

record candidate_tree =
  ct_snapshot :: snapshot
  ct_overlay :: "overlay_entry list"
  ct_digest :: string

record revision =
  rv_id :: string
  rv_parent :: "string option"
  rv_candidate_digest :: string
  rv_tree :: candidate_tree

datatype candidate_error =
  POSTIMAGE_DUPLICATE_PATH | POSTIMAGE_PATH_EXISTS | POSTIMAGE_PATH_NOT_FOUND | OBJECT_MISSING

datatype tree_error =
  CandidateIntegrityError candidate_error | TreeKeyError | TreeJsonError | TreeValidationError

section \<open>The tree digest\<close>

definition overlay_value :: "overlay_entry \<Rightarrow> cvalue" where
  "overlay_value e =
     CObj [(lit ''operation'', CStr (lit (operation_name (ov_operation e)))), (lit ''path'', CStr (ov_path e)),
       (lit ''content_ref'', ref_value (ov_content_ref e))]"

definition tree_value :: "string \<Rightarrow> overlay_entry list \<Rightarrow> cvalue" where
  "tree_value root overlay =
     CObj [(lit ''schema_version'', CInt 1), (lit ''snapshot_tree_digest'', CStr (lit root)),
       (lit ''overlay'', CArr (map overlay_value overlay))]"

definition digest_candidate_tree :: "(nat list \<Rightarrow> string) \<Rightarrow> string \<Rightarrow> overlay_entry list \<Rightarrow> string option" where
  "digest_candidate_tree sha256 root overlay = domain_digest sha256 ''CandidateTreeV1'' 1 (tree_value root overlay)"

definition make_tree :: "(nat list \<Rightarrow> string) \<Rightarrow> candidate_tree \<Rightarrow> tree_error + candidate_tree" where
  "make_tree sha256 t =
     (let paths = map ov_path (ct_overlay t) in
      if \<not> distinct paths then Inl TreeValidationError
      else if paths \<noteq> sort paths then Inl TreeValidationError
      else (case digest_candidate_tree sha256 (sn_root_digest (ct_snapshot t)) (ct_overlay t) of
          None \<Rightarrow> Inl TreeJsonError
        | Some d \<Rightarrow> if ct_digest t \<noteq> d then Inl TreeValidationError else Inr t))"

definition make_revision :: "revision \<Rightarrow> tree_error + revision" where
  "make_revision r =
     (if rv_id r = [] then Inl TreeValidationError
      else if rv_parent r = Some [] then Inl TreeValidationError
      else if rv_parent r = None \<and> \<not> startswith (rv_id r) ''root:'' then Inl TreeValidationError
      else Inr r)"

section \<open>Reading\<close>

definition tree_files :: "candidate_tree \<Rightarrow> utext list" where
  "tree_files t = sort (remdups (snapshot_files (ct_snapshot t) @ map ov_path (ct_overlay t)))"

definition tree_directories :: "candidate_tree \<Rightarrow> utext list" where
  "tree_directories t = directory_paths (tree_files t)"

text \<open>The dictionary \<open>{entry.path.value: entry}\<close>: a later row wins.\<close>

definition overlay_at :: "overlay_entry list \<Rightarrow> utext \<Rightarrow> overlay_entry option" where
  "overlay_at overlay path = map_of (rev (map (\<lambda>e. (ov_path e, e)) overlay)) path"

definition tree_read :: "(nat list \<Rightarrow> string) \<Rightarrow> store \<Rightarrow> candidate_tree \<Rightarrow> utext \<Rightarrow> tree_error + nat list" where
  "tree_read sha256 st t path =
     (case overlay_at (ct_overlay t) path of
        Some e \<Rightarrow>
          (case store_get sha256 st (ov_content_ref e) of
             Inl _ \<Rightarrow> Inl (CandidateIntegrityError OBJECT_MISSING)
           | Inr raw \<Rightarrow> Inr raw)
      | None \<Rightarrow>
          (case snapshot_read (ct_snapshot t) path of None \<Rightarrow> Inl TreeKeyError | Some raw \<Rightarrow> Inr raw))"

section \<open>Collisions\<close>

text \<open>
  A dictionary from key to one of the existing paths, filled with \<open>setdefault\<close> from a set; which path it
  keeps does not matter, because the exact path has been ruled out before.
\<close>

definition aliased :: "(utext \<Rightarrow> utext) \<Rightarrow> utext list \<Rightarrow> utext \<Rightarrow> bool" where
  "aliased key existing path =
     (case find (\<lambda>e. key e = key path) existing of None \<Rightarrow> False | Some e \<Rightarrow> e \<noteq> path)"

definition path_collides_with_tree :: "unicode_tables \<Rightarrow> candidate_tree \<Rightarrow> utext \<Rightarrow> bool" where
  "path_collides_with_tree T t path =
     (let files = tree_files t; directories = tree_directories t in
      if path \<in> set files \<or> path \<in> set directories then True
      else if list_ex (\<lambda>prefix. prefix \<in> set files \<or> aliased (ut_casefold T) files prefix \<or> aliased (ut_nfc T) files prefix)
          (ancestors path) then True
      else aliased (ut_casefold T) (files @ directories) path \<or> aliased (ut_nfc T) (files @ directories) path)"

section \<open>Revisions\<close>

definition root_candidate_revision :: "(nat list \<Rightarrow> string) \<Rightarrow> snapshot \<Rightarrow> tree_error + revision" where
  "root_candidate_revision sha256 s =
     (case digest_candidate_tree sha256 (sn_root_digest s) [] of
        None \<Rightarrow> Inl TreeJsonError
      | Some d \<Rightarrow>
          (case make_tree sha256 \<lparr>ct_snapshot = s, ct_overlay = [], ct_digest = d\<rparr> of
             Inl e \<Rightarrow> Inl e
           | Inr tree \<Rightarrow>
               make_revision \<lparr>rv_id = ''root:'' @ sn_root_digest s, rv_parent = None, rv_candidate_digest = d,
                 rv_tree = tree\<rparr>))"

definition check_postimage :: "unicode_tables \<Rightarrow> candidate_tree \<Rightarrow> postimage \<Rightarrow> candidate_error option" where
  "check_postimage T t p =
     (if po_operation p = OP_CREATE then
        (if path_collides_with_tree T t (po_path p) then Some POSTIMAGE_PATH_EXISTS else None)
      else if po_path p \<notin> set (tree_files t) then Some POSTIMAGE_PATH_NOT_FOUND else None)"

fun first_failure :: "('a \<Rightarrow> 'b option) \<Rightarrow> 'a list \<Rightarrow> 'b option" where
  "first_failure f [] = None"
| "first_failure f (x # xs) = (case f x of None \<Rightarrow> first_failure f xs | Some e \<Rightarrow> Some e)"

text \<open>\<open>existing[path] = entry\<close> on the dictionary of rows.\<close>

definition set_row :: "overlay_entry \<Rightarrow> overlay_entry list \<Rightarrow> overlay_entry list" where
  "set_row e rows = e # filter (\<lambda>r. ov_path r \<noteq> ov_path e) rows"

fun stage_postimages ::
    "(nat list \<Rightarrow> string) \<Rightarrow> postimage list \<Rightarrow> overlay_entry list \<Rightarrow> store \<Rightarrow> overlay_entry list \<times> store" where
  "stage_postimages sha256 [] rows st = (rows, st)"
| "stage_postimages sha256 (p # ps) rows st =
     (let (ref, st1) = store_put sha256 (po_raw_bytes p) st in
      stage_postimages sha256 ps
        (set_row \<lparr>ov_operation = po_operation p, ov_path = po_path p, ov_content_ref = ref\<rparr> rows) st1)"

definition child_id :: "(nat list \<Rightarrow> string) \<Rightarrow> string \<Rightarrow> string \<Rightarrow> string" where
  "child_id sha256 parent_id digest = sha256 (encode (lit parent_id @ 0 # lit digest))"

definition derive_candidate_revision ::
    "unicode_tables \<Rightarrow> (nat list \<Rightarrow> string) \<Rightarrow> revision \<Rightarrow> postimage list \<Rightarrow> store \<Rightarrow> (tree_error + revision) \<times> store" where
  "derive_candidate_revision T sha256 parent postimages st =
     (let t = rv_tree parent in
      if \<not> distinct (map po_path postimages) then (Inl (CandidateIntegrityError POSTIMAGE_DUPLICATE_PATH), st)
      else (case first_failure (check_postimage T t) postimages of
          Some e \<Rightarrow> (Inl (CandidateIntegrityError e), st)
        | None \<Rightarrow>
            (let (rows, st1) = stage_postimages sha256 postimages (ct_overlay t) st;
                 ordered = sort_key ov_path rows in
             case digest_candidate_tree sha256 (sn_root_digest (ct_snapshot t)) ordered of
               None \<Rightarrow> (Inl TreeJsonError, st1)
             | Some d \<Rightarrow>
                 (case make_tree sha256 \<lparr>ct_snapshot = ct_snapshot t, ct_overlay = ordered, ct_digest = d\<rparr> of
                    Inl e \<Rightarrow> (Inl e, st1)
                  | Inr tree \<Rightarrow>
                      (make_revision \<lparr>rv_id = child_id sha256 (rv_id parent) d, rv_parent = Some (rv_id parent),
                         rv_candidate_digest = d, rv_tree = tree\<rparr>, st1)))))"

section \<open>Rows\<close>

lemma first_failure_None: "first_failure f xs = None \<longleftrightarrow> (\<forall>x\<in>set xs. f x = None)"
  by (induction xs) (auto split: option.splits)

lemma overlay_at_iff:
  "distinct (map ov_path rows) \<Longrightarrow> overlay_at rows p = Some e \<longleftrightarrow> e \<in> set rows \<and> ov_path e = p"
  unfolding overlay_at_def by (subst map_of_eq_Some_iff) (auto simp: rev_map [symmetric] comp_def)

lemma overlay_at_None: "overlay_at rows p = None \<longleftrightarrow> p \<notin> ov_path ` set rows"
  unfolding overlay_at_def map_of_eq_None_iff by force

definition row_of :: "(nat list \<Rightarrow> string) \<Rightarrow> postimage \<Rightarrow> overlay_entry" where
  "row_of sha256 p = \<lparr>ov_operation = po_operation p, ov_path = po_path p, ov_content_ref = ref_of sha256 (po_raw_bytes p)\<rparr>"

lemma stage_step:
  "stage_postimages sha256 (p # ps) rows st =
     stage_postimages sha256 ps (set_row (row_of sha256 p) rows) (st(sha256 (po_raw_bytes p) \<mapsto> po_raw_bytes p))"
  by (simp add: store_put_def row_of_def)

lemma set_row_distinct: "distinct (map ov_path rows) \<Longrightarrow> distinct (map ov_path (set_row e rows))"
  by (auto simp: set_row_def distinct_map inj_on_def)

lemma stage_rows:
  assumes "distinct (map po_path ps)" "distinct (map ov_path rows)" "stage_postimages sha256 ps rows st = (rows', st')"
  shows "distinct (map ov_path rows') \<and>
    set rows' = row_of sha256 ` set ps \<union> {e \<in> set rows. ov_path e \<notin> po_path ` set ps}"
  using assms
proof (induction ps arbitrary: rows st)
  case (Cons p ps)
  have "stage_postimages sha256 ps (set_row (row_of sha256 p) rows) (st(sha256 (po_raw_bytes p) \<mapsto> po_raw_bytes p)) = (rows', st')"
    using Cons.prems(3) unfolding stage_step .
  from Cons.IH [OF _ set_row_distinct [OF Cons.prems(2)] this] Cons.prems(1) show ?case
    by (auto simp: set_row_def row_of_def)
qed auto

text \<open>Staging stores the postimages one after another, so the contract of the store carries over.\<close>

lemma stage_fold:
  "stage_postimages sha256 ps rows st = (rows', st') \<Longrightarrow>
     st' = fold (\<lambda>raw st. snd (store_put sha256 raw st)) (map po_raw_bytes ps) st"
  by (induction ps arbitrary: rows st) (auto simp: Let_def split: prod.splits)

lemma all_in: "po_raw_bytes ` set ps \<subseteq> H \<Longrightarrow> list_all (\<lambda>raw. raw \<in> H) (map po_raw_bytes ps)"
  by (auto simp: list_all_iff)

lemma stage_within:
  assumes "store_within sha256 H st" "po_raw_bytes ` set ps \<subseteq> H" "stage_postimages sha256 ps rows st = (rows', st')"
  shows "store_within sha256 H st'"
  unfolding stage_fold [OF assms(3)] by (rule shared_store.batch_sound [OF assms(1) all_in [OF assms(2)]])

lemma stage_keeps:
  assumes "store_within sha256 H st" "po_raw_bytes ` set ps \<subseteq> H" "stage_postimages sha256 ps rows st = (rows', st')"
    "store_get sha256 st ref = Inr raw"
  shows "store_get sha256 st' ref = Inr raw"
  unfolding stage_fold [OF assms(3)] by (rule shared_store.batch_kept [OF assms(1) all_in [OF assms(2)] assms(4)])

lemma stage_backs:
  assumes "store_within sha256 H st" "po_raw_bytes ` set ps \<subseteq> H" "stage_postimages sha256 ps rows st = (rows', st')" "p \<in> set ps"
  shows "store_get sha256 st' (ref_of sha256 (po_raw_bytes p)) = Inr (po_raw_bytes p)"
  unfolding stage_fold [OF assms(3)]
  by (rule shared_store.batch_returned [OF assms(1) all_in [OF assms(2)]]) (simp add: assms(4))

section \<open>A tree is a map of files\<close>

definition files_of :: "(nat list \<Rightarrow> string) \<Rightarrow> store \<Rightarrow> candidate_tree \<Rightarrow> utext \<Rightarrow> nat list option" where
  "files_of sha256 st t path = (case tree_read sha256 st t path of Inl _ \<Rightarrow> None | Inr raw \<Rightarrow> Some raw)"

definition backed :: "(nat list \<Rightarrow> string) \<Rightarrow> store \<Rightarrow> candidate_tree \<Rightarrow> bool" where
  "backed sha256 st t \<longleftrightarrow> (\<forall>e\<in>set (ct_overlay t). \<exists>raw. store_get sha256 st (ov_content_ref e) = Inr raw)"

definition tree_wf :: "(nat list \<Rightarrow> string) \<Rightarrow> candidate_tree \<Rightarrow> bool" where
  "tree_wf sha256 t \<longleftrightarrow> make_tree sha256 t = Inr t"

lemma tree_wf_iff:
  "tree_wf sha256 t \<longleftrightarrow>
     distinct (map ov_path (ct_overlay t)) \<and> sorted (map ov_path (ct_overlay t)) \<and>
     digest_candidate_tree sha256 (sn_root_digest (ct_snapshot t)) (ct_overlay t) = Some (ct_digest t)"
proof -
  have "map ov_path (ct_overlay t) = sort (map ov_path (ct_overlay t)) \<longleftrightarrow> sorted (map ov_path (ct_overlay t))"
    by (metis sorted_sort sorted_sort_id)
  then show ?thesis by (auto simp: tree_wf_def make_tree_def Let_def split: option.splits if_splits)
qed

lemma derive_Inr:
  assumes "derive_candidate_revision T sha256 parent ps st = (Inr child, st')"
  obtains rows where "distinct (map po_path ps)" "\<forall>p\<in>set ps. check_postimage T (rv_tree parent) p = None"
    "stage_postimages sha256 ps (ct_overlay (rv_tree parent)) st = (rows, st')"
    "ct_overlay (rv_tree child) = sort_key ov_path rows" "ct_snapshot (rv_tree child) = ct_snapshot (rv_tree parent)"
    "tree_wf sha256 (rv_tree child)" "rv_parent child = Some (rv_id parent)"
    "rv_candidate_digest child = ct_digest (rv_tree child)"
    "rv_id child = child_id sha256 (rv_id parent) (ct_digest (rv_tree child))"
proof -
  obtain rows st1 where s: "stage_postimages sha256 ps (ct_overlay (rv_tree parent)) st = (rows, st1)" by fastforce
  have mt: "make_tree sha256 t = Inr t' \<Longrightarrow> t' = t" for t t'
    by (auto simp: make_tree_def Let_def split: if_splits option.splits)
  have mr: "make_revision r = Inr r' \<Longrightarrow> r' = r" for r r'
    by (auto simp: make_revision_def split: if_splits)
  from assms s obtain d tree where f: "distinct (map po_path ps)"
      "first_failure (check_postimage T (rv_tree parent)) ps = None" "st1 = st'"
      and t: "make_tree sha256 \<lparr>ct_snapshot = ct_snapshot (rv_tree parent), ct_overlay = sort_key ov_path rows, ct_digest = d\<rparr> = Inr tree"
      and r: "make_revision \<lparr>rv_id = child_id sha256 (rv_id parent) d, rv_parent = Some (rv_id parent),
         rv_candidate_digest = d, rv_tree = tree\<rparr> = Inr child"
    by (auto simp: derive_candidate_revision_def Let_def split: if_splits option.splits sum.splits)
  note tree = mt [OF t] and child = mr [OF r]
  show ?thesis
    using that [of rows] f s t by (simp add: tree child first_failure_None tree_wf_def)
qed

lemma derive_refines:
  assumes d: "derive_candidate_revision T sha256 parent ps st = (Inr child, st')"
    and H: "store_within sha256 H st" "po_raw_bytes ` set ps \<subseteq> H"
    and w: "tree_wf sha256 (rv_tree parent)" and b: "backed sha256 st (rv_tree parent)"
  shows "files_of sha256 st' (rv_tree child) =
      files_of sha256 st (rv_tree parent) ++ map_of (map (\<lambda>p. (po_path p, po_raw_bytes p)) ps)"
    and "files_of sha256 st' (rv_tree parent) = files_of sha256 st (rv_tree parent)"
    and "backed sha256 st' (rv_tree child)"
proof -
  from d obtain rows where dp: "distinct (map po_path ps)"
      and sg: "stage_postimages sha256 ps (ct_overlay (rv_tree parent)) st = (rows, st')"
      and ov: "ct_overlay (rv_tree child) = sort_key ov_path rows"
      and sn: "ct_snapshot (rv_tree child) = ct_snapshot (rv_tree parent)" and wc: "tree_wf sha256 (rv_tree child)"
    by (rule derive_Inr)
  have dr: "distinct (map ov_path (ct_overlay (rv_tree parent)))" "distinct (map ov_path (ct_overlay (rv_tree child)))"
    using w wc by (simp_all add: tree_wf_iff)
  have rows: "set (ct_overlay (rv_tree child)) =
      row_of sha256 ` set ps \<union> {e \<in> set (ct_overlay (rv_tree parent)). ov_path e \<notin> po_path ` set ps}"
    using stage_rows [OF dp dr(1) sg] ov by simp
  note keep = stage_keeps [OF H sg] and new = stage_backs [OF H sg]
  show bc: "backed sha256 st' (rv_tree child)"
    using b keep new unfolding backed_def rows by (fastforce simp: row_of_def)
  have same: "tree_read sha256 st' (rv_tree parent) p = tree_read sha256 st (rv_tree parent) p" for p
  proof (cases "overlay_at (ct_overlay (rv_tree parent)) p")
    case (Some e)
    then obtain raw where "store_get sha256 st (ov_content_ref e) = Inr raw"
      using b dr(1) by (auto simp: backed_def overlay_at_iff)
    with Some keep [OF this] show ?thesis by (simp add: tree_read_def)
  qed (simp add: tree_read_def)
  then show "files_of sha256 st' (rv_tree parent) = files_of sha256 st (rv_tree parent)"
    by (auto simp: files_of_def)
  show "files_of sha256 st' (rv_tree child) =
      files_of sha256 st (rv_tree parent) ++ map_of (map (\<lambda>p. (po_path p, po_raw_bytes p)) ps)"
  proof
    fix q
    show "files_of sha256 st' (rv_tree child) q =
      (files_of sha256 st (rv_tree parent) ++ map_of (map (\<lambda>p. (po_path p, po_raw_bytes p)) ps)) q"
    proof (cases "q \<in> po_path ` set ps")
      case True
      then obtain p where p: "p \<in> set ps" "q = po_path p" by blast
      then have "overlay_at (ct_overlay (rv_tree child)) q = Some (row_of sha256 p)"
        using dr(2) rows by (simp add: overlay_at_iff row_of_def)
      moreover have "map_of (map (\<lambda>p. (po_path p, po_raw_bytes p)) ps) q = Some (po_raw_bytes p)"
        using dp p by (intro map_of_is_SomeI) (auto simp: comp_def)
      ultimately show ?thesis using new [OF p(1)] by (simp add: files_of_def tree_read_def row_of_def map_add_def)
    next
      case False
      then have "map_of (map (\<lambda>p. (po_path p, po_raw_bytes p)) ps) q = None"
        by (auto simp: map_of_eq_None_iff)
      moreover have "overlay_at (ct_overlay (rv_tree child)) q = overlay_at (ct_overlay (rv_tree parent)) q"
      proof (cases "overlay_at (ct_overlay (rv_tree parent)) q")
        case None
        then have "overlay_at (ct_overlay (rv_tree child)) q = None"
          unfolding overlay_at_None rows using False by (auto simp: row_of_def)
        with None show ?thesis by simp
      next
        case (Some e)
        then have "e \<in> set (ct_overlay (rv_tree parent))" "ov_path e = q" using dr(1) by (simp_all add: overlay_at_iff)
        then show ?thesis unfolding Some overlay_at_iff [OF dr(2)] rows using False by auto
      qed
      ultimately have "tree_read sha256 st' (rv_tree child) q = tree_read sha256 st' (rv_tree parent) q"
        unfolding tree_read_def sn by simp
      then show ?thesis using same \<open>map_of _ q = None\<close> by (simp add: files_of_def map_add_def)
    qed
  qed
qed

section \<open>The shape of a tree\<close>

text \<open>No path is both a file and a directory.\<close>

definition shaped_tree :: "candidate_tree \<Rightarrow> bool" where
  "shaped_tree t \<longleftrightarrow> set (tree_files t) \<inter> set (tree_directories t) = {}"

lemma tree_files_set: "set (tree_files t) = set (snapshot_files (ct_snapshot t)) \<union> ov_path ` set (ct_overlay t)"
  by (auto simp: tree_files_def)

lemma tree_directories_set: "set (tree_directories t) = (\<Union>f\<in>set (tree_files t). set (ancestors f))"
  by (simp add: tree_directories_def directory_paths_set)

lemma derive_files:
  assumes "derive_candidate_revision T sha256 parent ps st = (Inr child, st')" "tree_wf sha256 (rv_tree parent)"
  shows "set (tree_files (rv_tree child)) = set (tree_files (rv_tree parent)) \<union> po_path ` set ps"
proof -
  from assms(1) obtain rows where dp: "distinct (map po_path ps)"
      and sg: "stage_postimages sha256 ps (ct_overlay (rv_tree parent)) st = (rows, st')"
      and ov: "ct_overlay (rv_tree child) = sort_key ov_path rows"
      and sn: "ct_snapshot (rv_tree child) = ct_snapshot (rv_tree parent)"
    by (rule derive_Inr)
  have path: "ov_path (row_of sha256 p) = po_path p" for p by (simp add: row_of_def)
  have "set rows = row_of sha256 ` set ps \<union> {e \<in> set (ct_overlay (rv_tree parent)). ov_path e \<notin> po_path ` set ps}"
    using stage_rows [OF dp _ sg] assms(2) by (simp add: tree_wf_iff)
  then have "ov_path ` set rows = po_path ` set ps \<union>
      ov_path ` {e \<in> set (ct_overlay (rv_tree parent)). ov_path e \<notin> po_path ` set ps}"
    by (simp add: image_Un image_image path)
  also have "\<dots> = po_path ` set ps \<union> ov_path ` set (ct_overlay (rv_tree parent))" by auto
  finally show ?thesis by (auto simp: tree_files_set ov sn)
qed

lemma not_own_ancestor: "p \<notin> set (ancestors p)"
proof
  assume "p \<in> set (ancestors p)"
  then obtain n where n: "n \<in> {1..<length (segments p)}" and e: "p = ancestor n p"
    unfolding ancestors_def set_map set_upt by (rule imageE)
  have "segments (ancestor n p) = take n (segments p)" using n by (intro segments_ancestor) simp
  from arg_cong [OF this, of length] n show False unfolding e [symmetric] by simp
qed

lemma no_collision_facts:
  assumes "\<not> path_collides_with_tree T t p"
  shows "p \<notin> set (tree_files t)" "p \<notin> set (tree_directories t)" "set (ancestors p) \<inter> set (tree_files t) = {}"
  using assms by (auto simp: path_collides_with_tree_def Let_def list_ex_iff split: if_splits)

lemma derive_shaped:
  assumes d: "derive_candidate_revision T sha256 parent ps st = (Inr child, st')" and w: "tree_wf sha256 (rv_tree parent)"
    and sh: "shaped_tree (rv_tree parent)" and one: "length (filter (\<lambda>p. po_operation p = OP_CREATE) ps) \<le> 1"
  shows "shaped_tree (rv_tree child)"
proof -
  have chk: "\<forall>p\<in>set ps. check_postimage T (rv_tree parent) p = None" by (rule derive_Inr [OF d])
  let ?files = "set (tree_files (rv_tree parent))"
  have old: "po_path p \<in> ?files" if "p \<in> set ps" "po_operation p \<noteq> OP_CREATE" for p
    using chk that by (auto simp: check_postimage_def split: if_splits)
  have new: "\<not> path_collides_with_tree T (rv_tree parent) (po_path p)" if "p \<in> set ps" "po_operation p = OP_CREATE" for p
    using chk that by (auto simp: check_postimage_def split: if_splits)
  have files: "set (tree_files (rv_tree child)) = ?files \<union> po_path ` set ps" by (rule derive_files [OF d w])
  show ?thesis
  proof (cases "filter (\<lambda>p. po_operation p = OP_CREATE) ps")
    case Nil
    then have "po_path ` set ps \<subseteq> ?files" using old by (auto simp: filter_empty_conv)
    then have "set (tree_files (rv_tree child)) = ?files" using files by blast
    then show ?thesis using sh by (simp add: shaped_tree_def tree_directories_set)
  next
    case (Cons p qs)
    with one have qs: "filter (\<lambda>p. po_operation p = OP_CREATE) ps = [p]" by simp
    have "p \<in> set (filter (\<lambda>p. po_operation p = OP_CREATE) ps)" unfolding qs by simp
    then have p: "p \<in> set ps" "po_operation p = OP_CREATE" by auto
    have "q = p" if "q \<in> set ps" "po_operation q = OP_CREATE" for q
    proof -
      have "q \<in> set (filter (\<lambda>p. po_operation p = OP_CREATE) ps)" using that by simp
      then show ?thesis unfolding qs by simp
    qed
    then have "po_path ` set ps \<subseteq> insert (po_path p) ?files" using old by blast
    then have "set (tree_files (rv_tree child)) = insert (po_path p) ?files" using files p(1) by auto
    then show ?thesis
      using sh no_collision_facts [OF new [OF p]] not_own_ancestor [of "po_path p"]
      unfolding shaped_tree_def tree_directories_set by auto
  qed
qed

end
