(* ===== verification/Patch_Syntax.thy ===== *)
theory Patch_Syntax
  imports Unified_Diff
begin

text \<open>
  What the patch parser accepts. A well-formed patch has a printed form, \<open>print_patch\<close>; the parser
  returns only well-formed patches and reads every printed one back.
\<close>

section \<open>Printing\<close>

fun line_prefix :: "line_kind \<Rightarrow> codepoint" where
  "line_prefix CONTEXT_LINE = 32"
| "line_prefix DELETE_LINE = 45"
| "line_prefix ADD_LINE = 43"

definition print_line :: "hunk_line \<Rightarrow> utext" where
  "print_line l = line_prefix (hl_kind l) # hl_text l"

definition print_range :: "nat \<Rightarrow> nat \<Rightarrow> utext" where
  "print_range start count = lit (str_nat start) @ 44 # lit (str_nat count)"

definition print_hunk :: "hunk \<Rightarrow> utext list" where
  "print_hunk h =
     (lit ''@@ -'' @ print_range (hk_old_start h) (hk_old_count h) @ lit '' +'' @
      print_range (hk_new_start h) (hk_new_count h) @ lit '' @@'') # map print_line (hk_lines h)"

definition print_entry :: "patch_entry \<Rightarrow> utext list" where
  "print_entry e =
     (lit ''--- '' @ pe_old_path e) # (lit ''+++ '' @ pe_new_path e) # concat (map print_hunk (pe_hunks e))"

fun print_entries :: "patch_entry list \<Rightarrow> utext list" where
  "print_entries [] = []"
| "print_entries [e] = print_entry e"
| "print_entries (e # f # es) = print_entry e @ [] # print_entries (f # es)"

definition print_patch :: "patch_entry list \<Rightarrow> utext" where
  "print_patch es = concat (map (\<lambda>l. l @ [10]) (print_entries es))"

section \<open>Well-formed patches\<close>

definition max_number :: nat where
  "max_number = 10 ^ max_int_digits"

definition wf_line :: "hunk_line \<Rightarrow> bool" where
  "wf_line l \<longleftrightarrow> \<not> (hl_kind l = DELETE_LINE \<and> startswith (hl_text l) (lit ''-- ''))"

definition wf_hunk :: "hunk \<Rightarrow> bool" where
  "wf_hunk h \<longleftrightarrow>
     hunk_ok h \<and> list_all wf_line (hk_lines h) \<and>
     hk_old_start h < max_number \<and> hk_old_count h < max_number \<and>
     hk_new_start h < max_number \<and> hk_new_count h < max_number"

fun chained :: "nat option \<Rightarrow> hunk list \<Rightarrow> bool" where
  "chained prev [] = True"
| "chained prev (h # hs) =
     ((case prev of None \<Rightarrow> True | Some e \<Rightarrow> e \<le> hk_old_start h) \<and>
      chained (Some (hk_old_start h + hk_old_count h)) hs)"

definition wf_entry :: "unicode_tables \<Rightarrow> patch_entry \<Rightarrow> bool" where
  "wf_entry T e \<longleftrightarrow>
     pe_hunks e \<noteq> [] \<and> list_all wf_hunk (pe_hunks e) \<and> chained None (pe_hunks e) \<and>
     is_canonical_path T (pe_path e) \<and> \<not> list_ex uspace (pe_path e) \<and>
     pe_new_path e = lit ''b/'' @ pe_path e \<and>
     (case pe_operation e of
        OP_CREATE \<Rightarrow> pe_old_path e = dev_null \<and>
          list_all (\<lambda>h. hk_old_start h = 0 \<and> hk_old_count h = 0) (pe_hunks e)
      | OP_REPLACE \<Rightarrow> pe_old_path e = lit ''a/'' @ pe_path e)"

section \<open>Hunk lines\<close>

definition stop_line :: "utext \<Rightarrow> bool" where
  "stop_line l \<longleftrightarrow> l = [] \<or> startswith l (lit ''@@ -'') \<or> startswith l (lit ''--- '')"

lemma stop_print_line: "stop_line (print_line l) \<longleftrightarrow> \<not> wf_line l"
  by (cases "hl_kind l") (simp_all add: stop_line_def print_line_def wf_line_def startswith_def)

lemma content_line:
  assumes "\<not> stop_line l"
  shows "startswith l [32] \<longleftrightarrow> l = print_line \<lparr>hl_kind = CONTEXT_LINE, hl_text = drop 1 l\<rparr>"
    "startswith l [45] \<longleftrightarrow> l = print_line \<lparr>hl_kind = DELETE_LINE, hl_text = drop 1 l\<rparr>"
    "startswith l [43] \<longleftrightarrow> l = print_line \<lparr>hl_kind = ADD_LINE, hl_text = drop 1 l\<rparr>"
  using assms by (cases l; simp add: stop_line_def print_line_def startswith_def eq_commute)+

lemma parse_hunk_lines_step:
  "wf_line l \<Longrightarrow> parse_hunk_lines acc (print_line l # body) = parse_hunk_lines (acc @ [l]) body"
  using stop_print_line [of l]
  by (cases l; cases "hl_kind l") (simp_all add: stop_line_def print_line_def startswith_def)

lemma parse_hunk_lines_print:
  "list_all wf_line ls \<Longrightarrow> rest = [] \<or> stop_line (hd rest) \<Longrightarrow>
     parse_hunk_lines acc (map print_line ls @ rest) = Got (acc @ ls, rest)"
proof (induction ls arbitrary: acc)
  case Nil
  then show ?case by (cases rest) (auto simp: stop_line_def)
qed (simp add: parse_hunk_lines_step del: parse_hunk_lines.simps)

lemma parse_hunk_lines_Got:
  "parse_hunk_lines acc body = Got (ls, rest) \<Longrightarrow>
     \<exists>new. ls = acc @ new \<and> body = map print_line new @ rest \<and> list_all wf_line new"
proof (induction acc body rule: parse_hunk_lines.induct)
  case (2 acc line body)
  show ?case
  proof (cases "stop_line line")
    case True
    then show ?thesis using "2.prems" by (auto simp: stop_line_def intro!: exI [of _ "[]"])
  next
    case False
    have step: ?thesis if "parse_hunk_lines (acc @ [l]) body = Got (ls, rest)" "line = print_line l"
      "\<exists>new. ls = (acc @ [l]) @ new \<and> body = map print_line new @ rest \<and> list_all wf_line new" for l
    proof -
      from that obtain new where "ls = (acc @ [l]) @ new" "body = map print_line new @ rest" "list_all wf_line new"
        by blast
      then show ?thesis using that(2) False stop_print_line [of l] by (intro exI [of _ "l # new"]) auto
    qed
    from False "2.prems" show ?thesis
      unfolding parse_hunk_lines.simps
      using content_line [OF False] step "2.IH"
      by (auto simp: stop_line_def split: if_splits)
  qed
qed simp

section \<open>Numbers and ranges\<close>

definition dec :: "nat \<Rightarrow> utext" where
  "dec n = lit (str_nat n)"

lemma lit_append: "lit (s @ t) = lit s @ lit t"
  by (simp add: lit_def)

lemma dec_rec: "dec n = (if n < 10 then [48 + n] else dec (n div 10) @ [48 + n mod 10])"
  unfolding dec_def by (subst str_nat.simps) (simp add: lit_append)

lemma dec_digits: "list_all udigit (dec n)"
proof (induction n rule: less_induct)
  case (less n)
  have "udigit (48 + n mod 10)" "n < 10 \<Longrightarrow> udigit (48 + n)" by (simp_all add: udigit_def)
  then show ?case using less.IH [of "n div 10"] by (subst dec_rec) simp
qed

lemma max_int_digits_pos [simp]: "0 < max_int_digits"
  by (simp add: max_int_digits_def)

lemma max_number_one: "1 < max_number"
  unfolding max_number_def by (rule one_less_power) simp_all

lemma dec_not_Nil [simp]: "dec n \<noteq> []"
  by (subst dec_rec) simp

lemma dec_value: "foldl (\<lambda>n c. 10 * n + (c - 48)) 0 (dec n) = n"
proof (induction n rule: less_induct)
  case (less n)
  then show ?case by (subst dec_rec) simp
qed

lemma dec_length: "n < 10 ^ k \<Longrightarrow> 0 < k \<Longrightarrow> length (dec n) \<le> k"
proof (induction n arbitrary: k rule: less_induct)
  case (less n)
  show ?case
  proof (cases "n < 10")
    case True
    then show ?thesis using less.prems by (subst dec_rec) simp
  next
    case False
    then obtain j where k: "k = Suc j" "0 < j" using less.prems by (cases k; cases "k - 1") auto
    then have "n div 10 < 10 ^ j" using less.prems(1) by (simp add: less_mult_imp_div_less mult.commute)
    then have "length (dec (n div 10)) \<le> j" using less.IH [of "n div 10" j] False k(2) by simp
    then show ?thesis using False k(1) by (subst dec_rec) simp
  qed
qed

lemma parse_int_dec: "n < max_number \<Longrightarrow> parse_int (dec n) = Some n"
  using dec_length [of n max_int_digits] by (simp add: parse_int_def dec_value max_number_def)

lemma digits_bound: "list_all udigit ds \<Longrightarrow> foldl (\<lambda>n c. 10 * n + (c - 48)) 0 ds < (10::nat) ^ length ds"
proof (induction ds rule: rev_induct)
  case (snoc c ds)
  then have "foldl (\<lambda>n c. 10 * n + (c - 48)) 0 ds < (10::nat) ^ length ds" "c - 48 \<le> 9" by (auto simp: udigit_def)
  then show ?case by simp
qed simp

lemma parse_int_bound:
  assumes "list_all udigit ds" "parse_int ds = Some n"
  shows "n < max_number"
proof -
  have "n < 10 ^ length ds" "length ds \<le> max_int_digits"
    using assms digits_bound by (auto simp: parse_int_def split: if_splits)
  moreover have "(10::nat) ^ length ds \<le> 10 ^ max_int_digits"
    using calculation(2) by (intro power_increasing) auto
  ultimately show ?thesis unfolding max_number_def by linarith
qed

lemma takeWhile_digits: "list_all udigit (takeWhile udigit s)"
  by (metis list_all_iff set_takeWhileD)

lemma parse_range_bound:
  assumes "parse_range s = Got (start, count)"
  shows "start < max_number \<and> count < max_number"
  using assms takeWhile_digits [of s] parse_int_bound max_number_one
  by (auto simp: parse_range_def Let_def split: if_splits option.splits)

lemma span_digits:
  assumes "list_all udigit ds" "rest = [] \<or> \<not> udigit (hd rest)"
  shows "takeWhile udigit (ds @ rest) = ds" "dropWhile udigit (ds @ rest) = rest"
  using assms
  by (cases rest; simp add: list_all_iff takeWhile_append2 dropWhile_append2)+

lemma print_range_eq: "print_range a b = dec a @ 44 # dec b"
  by (simp add: print_range_def dec_def)

lemma parse_range_print:
  "a < max_number \<Longrightarrow> b < max_number \<Longrightarrow> parse_range (print_range a b) = Got (a, b)"
  unfolding parse_range_def print_range_eq Let_def
  using span_digits [OF dec_digits, of "44 # dec b" a]
  by (simp add: udigit_def [of 44] parse_int_dec dec_digits)

lemma match_range_print:
  "rest = [] \<or> \<not> udigit (hd rest) \<Longrightarrow> match_range (print_range a b @ rest) = Some (print_range a b, rest)"
  unfolding match_range_def print_range_eq Let_def
  using span_digits [OF dec_digits, of "44 # dec b @ rest" a] span_digits [OF dec_digits, of rest b]
  by (simp add: udigit_def)

lemma match_hunk_header_print:
  "match_hunk_header (lit ''@@ -'' @ print_range a b @ lit '' +'' @ print_range c d @ lit '' @@'') =
     Some (print_range a b, print_range c d)"
  unfolding match_hunk_header_def
  using match_range_print [of "lit '' +'' @ print_range c d @ lit '' @@''" a b]
    match_range_print [of "lit '' @@''" c d]
  by (simp add: startswith_def udigit_def)

section \<open>Reading a printed patch\<close>

definition ends_entry :: "utext list \<Rightarrow> bool" where
  "ends_entry rest \<longleftrightarrow> rest = [] \<or> hd rest = []"

lemma parse_hunk_print:
  assumes "wf_hunk h" "rest = [] \<or> stop_line (hd rest)" "print_hunk h = x # xs"
  shows "parse_hunk x (xs @ rest) = Got (h, rest) \<and> startswith x (lit ''@@ -'')"
proof -
  have "match_hunk_header x = Some (print_range (hk_old_start h) (hk_old_count h), print_range (hk_new_start h) (hk_new_count h))"
    using assms(3) match_hunk_header_print by (auto simp: print_hunk_def simp del: lit_simps)
  moreover have "xs = map print_line (hk_lines h)" "startswith x (lit ''@@ -'')"
    using assms(3) by (auto simp: print_hunk_def startswith_def)
  ultimately show ?thesis
    using assms(1,2) unfolding parse_hunk_Got wf_hunk_def
    by (simp add: parse_range_print parse_hunk_lines_print)
qed

lemma stop_next:
  "ends_entry rest \<Longrightarrow>
     concat (map print_hunk hs) @ rest = [] \<or> stop_line (hd (concat (map print_hunk hs) @ rest))"
  by (cases hs) (auto simp: ends_entry_def stop_line_def hd_append print_hunk_def startswith_def)

lemma parse_hunks_print:
  "list_all wf_hunk hs \<Longrightarrow> chained prev hs \<Longrightarrow> ends_entry rest \<Longrightarrow>
     parse_hunks prev acc (concat (map print_hunk hs) @ rest) = Got (acc @ hs, rest)"
proof (induction hs arbitrary: prev acc)
  case Nil
  then show ?case
    by (cases rest) (auto simp: ends_entry_def startswith_def is_known_extended_header_def known_extended_headers_def)
next
  case (Cons h hs)
  define following where "following = concat (map print_hunk hs) @ rest"
  obtain x xs where x: "print_hunk h = x # xs" by (simp add: print_hunk_def)
  have "parse_hunk x (xs @ following) = Got (h, following)" "startswith x (lit ''@@ -'')"
    using parse_hunk_print [of h following x xs] Cons.prems stop_next [of rest hs] x by (simp_all add: following_def)
  then show ?case
    using Cons x by (cases prev) (simp_all add: following_def)
qed

lemma canonical_nonempty: "is_canonical_path T p \<Longrightarrow> p \<noteq> []"
  by (auto simp: is_canonical_path_def validate_path_def)

lemma parse_headers_print:
  assumes "wf_entry T e"
  shows "parse_headers T (lit ''--- '' @ pe_old_path e) (lit ''+++ '' @ pe_new_path e) =
    Got (pe_old_path e, pe_new_path e, pe_path e, pe_operation e)"
proof -
  have "canonical_header_path T (pe_path e) = Some (pe_path e)"
    using assms canonical_nonempty by (auto simp: wf_entry_def canonical_header_path_def)
  moreover have "lit ''b/'' @ pe_path e \<noteq> dev_null" "lit ''a/'' @ pe_path e \<noteq> dev_null"
    by (simp_all add: dev_null_def)
  ultimately show ?thesis
    using assms unfolding wf_entry_def
    by (cases "pe_operation e") (simp_all add: parse_headers_def startswith_def dev_null_def)
qed

lemma parse_entry_print:
  assumes "wf_entry T e" "ends_entry rest" "print_entry e = x # xs"
  shows "parse_entry T x (xs @ rest) = Got (e, rest) \<and> startswith x (lit ''--- '')"
proof -
  have "parse_hunks None [] (concat (map print_hunk (pe_hunks e)) @ rest) = Got (pe_hunks e, rest)"
    using parse_hunks_print [of "pe_hunks e" None rest "[]"] assms by (simp add: wf_entry_def)
  moreover have "make_entry \<lparr>pe_operation = pe_operation e, pe_path = pe_path e, pe_old_path = pe_old_path e,
      pe_new_path = pe_new_path e, pe_hunks = pe_hunks e\<rparr> = Some e"
    using assms(1) by (cases e) (auto simp: make_entry_def wf_entry_def list_all_iff list_ex_iff)
  moreover have "x = lit ''--- '' @ pe_old_path e"
      "xs = (lit ''+++ '' @ pe_new_path e) # concat (map print_hunk (pe_hunks e))"
    using assms(3) by (simp_all add: print_entry_def)
  moreover have "startswith (lit ''+++ '' @ pe_new_path e) (lit ''+++ '')"
      "startswith (lit ''--- '' @ pe_old_path e) (lit ''--- '')"
    by (simp_all add: startswith_def)
  moreover have "pe_hunks e \<noteq> []" using assms(1) by (simp add: wf_entry_def)
  ultimately show ?thesis
    using parse_headers_print [OF assms(1)] by (simp add: parse_entry_def del: lit_simps)
qed

lemma print_entries_Cons:
  "print_entries (e # es) = print_entry e @ (if es = [] then [] else [] # print_entries es)"
  by (cases es) simp_all

lemma print_entries_not_Nil: "print_entries es = [] \<longleftrightarrow> es = []"
  by (cases es) (simp_all add: print_entries_Cons print_entry_def)

lemma parse_entries_print:
  "list_all (wf_entry T) es \<Longrightarrow> parse_entries T index acc (print_entries es) = PATCH_PARSED (acc @ es)"
proof (induction es arbitrary: index acc)
  case (Cons e es)
  define rest where "rest = (if es = [] then [] else [] # print_entries es)"
  obtain x xs where x: "print_entry e = x # xs" by (simp add: print_entry_def)
  have "parse_entry T x (xs @ rest) = Got (e, rest)" "startswith x (lit ''--- '')"
    using parse_entry_print [OF _ _ x, of T rest] Cons.prems by (simp_all add: ends_entry_def rest_def)
  moreover have "print_entries (e # es) = x # xs @ rest"
    using x by (simp add: print_entries_Cons rest_def)
  ultimately show ?case
    using Cons.prems Cons.IH by (cases "es = []") (simp_all add: rest_def print_entries_not_Nil Let_def)
qed simp

section \<open>Entry paths\<close>

definition distinct_paths :: "unicode_tables \<Rightarrow> patch_entry list \<Rightarrow> bool" where
  "distinct_paths T es \<longleftrightarrow>
     distinct (map pe_path es) \<and>
     distinguishable (ut_casefold T) (map pe_path es) \<and> distinguishable (ut_nfc T) (map pe_path es)"

definition paths_seen ::
    "unicode_tables \<Rightarrow> utext list \<Rightarrow> utext set \<Rightarrow> (utext \<Rightarrow> utext option) \<Rightarrow> (utext \<Rightarrow> utext option) \<Rightarrow> bool" where
  "paths_seen T ps exact folded normalized \<longleftrightarrow>
     exact = set ps \<and>
     (\<forall>k p. folded k = Some p \<longrightarrow> p \<in> set ps \<and> ut_casefold T p = k) \<and> (\<forall>p\<in>set ps. folded (ut_casefold T p) = Some p) \<and>
     (\<forall>k p. normalized k = Some p \<longrightarrow> p \<in> set ps \<and> ut_nfc T p = k) \<and> (\<forall>p\<in>set ps. normalized (ut_nfc T p) = Some p)"

lemma paths_seen_step:
  assumes "paths_seen T ps exact folded normalized"
  shows "p \<notin> exact \<and> (case folded (ut_casefold T p) of None \<Rightarrow> True | Some q \<Rightarrow> q = p) \<and>
      (case normalized (ut_nfc T p) of None \<Rightarrow> True | Some q \<Rightarrow> q = p) \<longleftrightarrow>
    p \<notin> set ps \<and> (\<forall>q\<in>set ps. ut_casefold T q \<noteq> ut_casefold T p \<and> ut_nfc T q \<noteq> ut_nfc T p)"
proof -
  have "folded (ut_casefold T p) = None \<longleftrightarrow> (\<forall>q\<in>set ps. ut_casefold T q \<noteq> ut_casefold T p)"
    "normalized (ut_nfc T p) = None \<longleftrightarrow> (\<forall>q\<in>set ps. ut_nfc T q \<noteq> ut_nfc T p)"
    using assms unfolding paths_seen_def by (metis option.exhaust option.distinct(1))+
  moreover have "folded (ut_casefold T p) = Some q \<Longrightarrow> q \<in> set ps" "normalized (ut_nfc T p) = Some q \<Longrightarrow> q \<in> set ps" for q
    using assms unfolding paths_seen_def by blast+
  moreover have "exact = set ps" using assms by (simp add: paths_seen_def)
  ultimately show ?thesis by (auto split: option.splits)
qed

lemma paths_seen_insert:
  assumes "paths_seen T ps exact folded normalized"
    "\<forall>q\<in>set ps. ut_casefold T q \<noteq> ut_casefold T p \<and> ut_nfc T q \<noteq> ut_nfc T p"
  shows "paths_seen T (ps @ [p]) (insert p exact) (folded(ut_casefold T p \<mapsto> p)) (normalized(ut_nfc T p \<mapsto> p))"
  using assms unfolding paths_seen_def by auto

lemma entry_uniqueness:
  assumes "paths_seen T ps exact folded normalized"
    "distinct ps" "distinguishable (ut_casefold T) ps" "distinguishable (ut_nfc T) ps"
  shows "entry_uniqueness_failure T exact folded normalized es = None \<longleftrightarrow>
    distinct (ps @ map pe_path es) \<and>
    distinguishable (ut_casefold T) (ps @ map pe_path es) \<and> distinguishable (ut_nfc T) (ps @ map pe_path es)"
  using assms
proof (induction es arbitrary: ps exact folded normalized)
  case (Cons e es)
  define p where "p = pe_path e"
  let ?new = "p \<notin> set ps \<and> (\<forall>q\<in>set ps. ut_casefold T q \<noteq> ut_casefold T p \<and> ut_nfc T q \<noteq> ut_nfc T p)"
  show ?case
  proof (cases ?new)
    case True
    then have "entry_uniqueness_failure T exact folded normalized (e # es) =
        entry_uniqueness_failure T (insert p exact) (folded(ut_casefold T p \<mapsto> p)) (normalized(ut_nfc T p \<mapsto> p)) es"
      using paths_seen_step [OF Cons.prems(1), of p] by (auto simp: Let_def p_def split: option.splits)
    moreover have "distinguishable (ut_casefold T) (ps @ [p])" "distinguishable (ut_nfc T) (ps @ [p])" "distinct (ps @ [p])"
      using True Cons.prems(2-4) unfolding distinguishable_def by auto
    note Cons.IH [OF paths_seen_insert [OF Cons.prems(1)] this(3,1,2)]
    moreover have "ps @ map pe_path (e # es) = (ps @ [p]) @ map pe_path es" by (simp add: p_def)
    ultimately show ?thesis using True by presburger
  next
    case False
    then have "entry_uniqueness_failure T exact folded normalized (e # es) \<noteq> None"
      using paths_seen_step [OF Cons.prems(1), of p] by (auto simp: Let_def p_def split: option.splits)
    moreover have "\<not> (distinct (ps @ map pe_path (e # es)) \<and>
      distinguishable (ut_casefold T) (ps @ map pe_path (e # es)) \<and> distinguishable (ut_nfc T) (ps @ map pe_path (e # es)))"
    proof -
      have sub: "p \<in> set (ps @ map pe_path (e # es))" "\<And>q. q \<in> set ps \<Longrightarrow> q \<in> set (ps @ map pe_path (e # es))"
        by (simp_all add: p_def)
      show ?thesis
      proof (cases "p \<in> set ps")
        case True
        then show ?thesis by (auto simp: p_def)
      next
        case notin: False
        with False obtain q where q: "q \<in> set ps" "ut_casefold T q = ut_casefold T p \<or> ut_nfc T q = ut_nfc T p"
          by blast
        then have "q \<noteq> p" using notin by auto
        with q sub show ?thesis unfolding distinguishable_def by blast
      qed
    qed
    ultimately show ?thesis by blast
  qed
qed simp

lemma uniqueness_iff:
  "entry_uniqueness_failure T {} (\<lambda>_. None) (\<lambda>_. None) es = None \<longleftrightarrow> distinct_paths T es"
  using entry_uniqueness [of T "[]" "{}" "\<lambda>_. None" "\<lambda>_. None" es]
  by (simp add: paths_seen_def distinct_paths_def distinguishable_def)

section \<open>What the parser returns is well-formed\<close>

definition chars :: "utext list \<Rightarrow> codepoint set" where
  "chars body = (\<Union>l\<in>set body. set l)"

definition hunk_chars :: "hunk list \<Rightarrow> codepoint set" where
  "hunk_chars hs = (\<Union>h\<in>set hs. chars (map hl_text (hk_lines h)))"

lemma chars_simps [simp]: "chars [] = {}" "chars (l # ls) = set l \<union> chars ls" "chars (ls @ ms) = chars ls \<union> chars ms"
  by (auto simp: chars_def)

lemma hunk_chars_simps [simp]: "hunk_chars [] = {}"
  "hunk_chars (h # hs) = chars (map hl_text (hk_lines h)) \<union> hunk_chars hs"
  by (auto simp: hunk_chars_def)

lemma chars_print_lines: "chars (map hl_text ls) \<subseteq> chars (map print_line ls)"
  by (induction ls) (auto simp: print_line_def)

lemma parse_hunk_sound:
  assumes "parse_hunk header body = Got (h, rest)"
  shows "wf_hunk h \<and> chars (map hl_text (hk_lines h)) \<subseteq> chars body \<and> chars rest \<subseteq> chars body"
proof -
  from assms obtain old new where h: "parse_range old = Got (hk_old_start h, hk_old_count h)"
      "parse_range new = Got (hk_new_start h, hk_new_count h)" "hunk_ok h"
      and ls: "parse_hunk_lines [] body = Got (hk_lines h, rest)"
    by (auto simp: parse_hunk_Got)
  from parse_hunk_lines_Got [OF ls] have "list_all wf_line (hk_lines h)" "body = map print_line (hk_lines h) @ rest"
    by auto
  moreover note chars_print_lines [of "hk_lines h"]
  ultimately show ?thesis using h parse_range_bound by (auto simp: wf_hunk_def)
qed

lemma parse_hunks_sound:
  "parse_hunks prev acc body = Got (hs, rest) \<Longrightarrow>
     \<exists>new. hs = acc @ new \<and> list_all wf_hunk new \<and> chained prev new \<and>
       hunk_chars new \<subseteq> chars body \<and> chars rest \<subseteq> chars body"
proof (induction prev acc body rule: parse_hunks.induct)
  case (2 prev acc line body)
  show ?case
  proof (cases "startswith line (lit ''@@ -'')")
    case True
    with "2.prems" obtain h rest1 where h: "parse_hunk line body = Got (h, rest1)"
        "\<not> (case prev of None \<Rightarrow> False | Some e \<Rightarrow> hk_old_start h < e)"
        "parse_hunks (Some (hk_old_start h + hk_old_count h)) (acc @ [h]) rest1 = Got (hs, rest)"
      by (auto split: parse_step.splits if_splits)
    from "2.IH" [OF True h(1) refl h(2,3)] obtain new where new: "hs = (acc @ [h]) @ new" "list_all wf_hunk new"
        "chained (Some (hk_old_start h + hk_old_count h)) new" "hunk_chars new \<subseteq> chars rest1" "chars rest \<subseteq> chars rest1"
      by blast
    show ?thesis
      using new h(2) parse_hunk_sound [OF h(1)]
      by (intro exI [of _ "h # new"]) (auto split: option.splits)
  next
    case False
    with "2.prems" show ?thesis by (auto split: if_splits intro!: exI [of _ "[]"])
  qed
qed (auto intro!: exI [of _ "[]"])

lemma parse_headers_sound:
  assumes "parse_headers T old_header new_header = Got (old_path, new_path, path, op)"
  shows "is_canonical_path T path \<and> \<not> list_ex uspace path \<and> new_path = lit ''b/'' @ path \<and>
    old_path = (if op = OP_CREATE then dev_null else lit ''a/'' @ path)"
proof -
  have f: "startswith new_header (lit ''+++ '' @ lit ''b/'')" "new_path = drop 4 new_header"
    "canonical_header_path T (drop 2 (drop 4 new_header)) = Some path"
    "old_path = (if op = OP_CREATE then dev_null else lit ''a/'' @ path)"
    using assms by (auto simp: parse_headers_def Let_def simp del: lit_simps drop_drop split: if_splits option.splits)
  from f(1) obtain t where "new_header = lit ''+++ '' @ lit ''b/'' @ t" by (auto simp: startswith_iff)
  with f show ?thesis by (auto simp: canonical_header_path_def split: if_splits)
qed

lemma parse_entry_sound:
  assumes "parse_entry T old_header body = Got (e, rest)"
  shows "wf_entry T e \<and> hunk_chars (pe_hunks e) \<subseteq> chars body \<and> chars rest \<subseteq> chars body"
proof -
  from assms obtain new_header more old_path new_path path op hunks where
      body: "body = new_header # more"
      and hd: "parse_headers T old_header new_header = Got (old_path, new_path, path, op)"
      and hs: "parse_hunks None [] more = Got (hunks, rest)" "hunks \<noteq> []"
      and e: "e = \<lparr>pe_operation = op, pe_path = path, pe_old_path = old_path, pe_new_path = new_path, pe_hunks = hunks\<rparr>"
        "make_entry e = Some e"
    by (auto simp: parse_entry_def make_entry_def split: list.splits if_splits parse_step.splits option.splits)
  have "op = OP_CREATE \<Longrightarrow> list_all (\<lambda>h. hk_old_start h = 0 \<and> hk_old_count h = 0) hunks"
    using e by (auto simp: make_entry_def list_ex_iff list_all_iff split: if_splits)
  with parse_headers_sound [OF hd] parse_hunks_sound [OF hs(1)] hs(2) show ?thesis
    unfolding wf_entry_def e(1) body by (cases op) auto
qed

lemma parse_entries_sound:
  "parse_entries T index acc body = PATCH_PARSED es \<Longrightarrow>
     \<exists>new. es = acc @ new \<and> (body \<noteq> [] \<longrightarrow> new \<noteq> []) \<and>
       (\<forall>e\<in>set new. wf_entry T e \<and> hunk_chars (pe_hunks e) \<subseteq> chars body)"
proof (induction T index acc body rule: parse_entries.induct)
  case (2 T index acc line body)
  from "2.prems" obtain e rest where hd: "startswith line (lit ''--- '')" and e: "parse_entry T line body = Got (e, rest)"
    by (auto split: if_splits parse_step.splits)
  note s = parse_entry_sound [OF e]
  show ?case
  proof (cases rest)
    case Nil
    with "2.prems" hd e s show ?thesis by (intro exI [of _ "[e]"]) auto
  next
    case (Cons blank remaining)
    with "2.prems" hd e have "blank = []" "remaining \<noteq> []"
      "parse_entries T (index + (Suc (length body) - length rest) + 1) (acc @ [e]) remaining = PATCH_PARSED es"
      by (auto simp: Let_def split: if_splits)
    with "2.IH" [of "(e, rest)" e rest _ blank remaining] hd e Cons obtain new where
        "es = (acc @ [e]) @ new" "\<forall>f\<in>set new. wf_entry T f \<and> hunk_chars (pe_hunks f) \<subseteq> chars remaining"
      by auto
    moreover have "chars remaining \<subseteq> chars (line # body)" using s Cons by auto
    ultimately show ?thesis using s by (intro exI [of _ "e # new"]) auto
  qed
qed simp

definition control :: "codepoint set" where
  "control = {0, 10, 13}"

definition wf_patch :: "unicode_tables \<Rightarrow> patch_entry list \<Rightarrow> bool" where
  "wf_patch T es \<longleftrightarrow>
     es \<noteq> [] \<and> list_all (wf_entry T) es \<and> distinct_paths T es \<and>
     (\<forall>e\<in>set es. hunk_chars (pe_hunks e) \<inter> control = {})"

lemma split_final_newline:
  assumes "endswith text [d]"
  shows "text = concat (map (\<lambda>l. l @ [d]) (butlast (split_on d text)))"
    "chars (butlast (split_on d text)) \<subseteq> set text - {d}" "butlast (split_on d text) \<noteq> []"
proof -
  from assms obtain s where s: "text = s @ [d]" by (auto simp: endswith_iff)
  then have b: "butlast (split_on d text) = split_on d s" by (simp add: split_on_append)
  have "concat (map (\<lambda>l. l @ [d]) ps) = join_on d ps @ [d]" if "ps \<noteq> []" for ps
    using that by (induction d ps rule: join_on.induct) auto
  then show "text = concat (map (\<lambda>l. l @ [d]) (butlast (split_on d text)))" unfolding b using s by simp
  show "chars (butlast (split_on d text)) \<subseteq> set text - {d}"
    unfolding b using s set_split_segments [of s d] split_on_no_sep [of _ d s] by (auto simp: chars_def)
  show "butlast (split_on d text) \<noteq> []" unfolding b by simp
qed

lemma parse_sound:
  assumes "parse_unified_diff T text = PATCH_PARSED es"
  shows "wf_patch T es \<and> (\<forall>e\<in>set es. hunk_chars (pe_hunks e) \<subseteq> set text)"
proof -
  from assms have doc: "document_failure text = None"
      and body: "parse_entries T 0 [] (butlast (split_on 10 text)) = PATCH_PARSED es"
      and u: "distinct_paths T es"
    by (auto simp: parse_unified_diff_def uniqueness_iff split: option.splits parse_result.splits)
  from doc have t: "endswith text [10]" "0 \<notin> set text" "13 \<notin> set text"
    by (auto simp: document_failure_def split: if_splits)
  show ?thesis
    using parse_entries_sound [OF body] split_final_newline [OF t(1)] t(2,3) u
    by (fastforce simp: wf_patch_def list_all_iff control_def)
qed

lemma chars_concat: "chars (concat xss) = (\<Union>xs\<in>set xss. chars xs)"
  by (auto simp: chars_def)

lemma control_lit: "set (dec n) \<inter> control = {}"
  using dec_digits [of n] by (auto simp: list_all_iff udigit_def control_def)

lemma control_path: "is_canonical_path T p \<Longrightarrow> set p \<inter> control = {}"
proof -
  assume c: "is_canonical_path T p"
  have "\<not> c < 32" if m: "c \<in> set p" for c
  proof (cases "c = 47")
    case False
    then obtain s where "s \<in> set (segments p)" "c \<in> set s" using m not_in_segments [of c p] by blast
    then show ?thesis using c unfolding canonical_path_iff plain_segment_def invalid_character_def by blast
  qed simp
  then show ?thesis by (force simp: control_def)
qed

lemma chars_print_hunk:
  "chars (map hl_text (hk_lines h)) \<inter> control = {} \<Longrightarrow> chars (print_hunk h) \<inter> control = {}"
proof -
  have "chars (map print_line ls) \<inter> control = {}" if "chars (map hl_text ls) \<inter> control = {}" for ls
    using that
  proof (induction ls)
    case (Cons l ls)
    then show ?case by (cases "hl_kind l") (auto simp: print_line_def control_def)
  qed simp
  moreover assume "chars (map hl_text (hk_lines h)) \<inter> control = {}"
  ultimately have "chars (map print_line (hk_lines h)) \<inter> control = {}" by blast
  then show ?thesis
    using control_lit unfolding print_hunk_def print_range_eq by (auto simp: control_def)
qed

lemma chars_print_entry:
  assumes "wf_entry T e" "hunk_chars (pe_hunks e) \<inter> control = {}"
  shows "chars (print_entry e) \<inter> control = {}"
proof -
  have "chars (concat (map print_hunk (pe_hunks e))) \<inter> control = {}"
    using assms(2) chars_print_hunk by (auto simp: chars_concat hunk_chars_def) blast
  moreover have "set (pe_path e) \<inter> control = {}" using assms(1) control_path by (auto simp: wf_entry_def)
  ultimately show ?thesis
    using assms(1) unfolding print_entry_def wf_entry_def
    by (cases "pe_operation e") (auto simp: dev_null_def control_def)
qed

lemma chars_print_entries:
  "(\<forall>e\<in>set es. chars (print_entry e) \<inter> control = {}) \<Longrightarrow> chars (print_entries es) \<inter> control = {}"
  by (induction es) (auto simp: print_entries_Cons)

lemma split_printed:
  "10 \<notin> chars ls \<Longrightarrow> split_on 10 (concat (map (\<lambda>l. l @ [10]) ls)) = ls @ [[]]"
  by (induction ls) (auto simp: split_on_append split_on_free)

lemma parse_print:
  assumes "wf_patch T es"
  shows "parse_unified_diff T (print_patch es) = PATCH_PARSED es"
proof -
  have c: "chars (print_entries es) \<inter> control = {}"
    using assms by (intro chars_print_entries) (auto simp: wf_patch_def list_all_iff intro!: chars_print_entry)
  have set: "set (print_patch es) \<subseteq> insert 10 (chars (print_entries es))"
    by (auto simp: print_patch_def chars_def)
  obtain e fs where es: "es = e # fs" using assms by (cases es) (auto simp: wf_patch_def)
  obtain s where s: "print_patch es = 45 # s"
    unfolding es print_patch_def by (simp add: print_entries_Cons print_entry_def)
  have "print_entries es \<noteq> []" using es by (simp add: print_entries_not_Nil)
  then obtain ls l where "print_entries es = ls @ [l]" by (cases "print_entries es" rule: rev_cases) auto
  then have "endswith (print_patch es) [10]" by (auto simp: print_patch_def endswith_iff)
  moreover have "0 \<notin> set (print_patch es)" "13 \<notin> set (print_patch es)" using c set by (auto simp: control_def)
  ultimately have "document_failure (print_patch es) = None"
    using s by (simp add: document_failure_def startswith_def)
  moreover have "butlast (split_on 10 (print_patch es)) = print_entries es"
    using c split_printed [of "print_entries es"] by (auto simp: print_patch_def control_def)
  ultimately show ?thesis
    using parse_entries_print [of T es 0 "[]"] assms uniqueness_iff [of T es]
    by (simp add: parse_unified_diff_def wf_patch_def)
qed

end
