(* ===== verification/Patch_Apply.thy ===== *)
theory Patch_Apply
  imports Patch_Syntax Text_Classifier
begin

text \<open>
  Exact application of one patch entry (\<open>_apply_entry\<close> of \<open>candidate/patch_engine.py\<close>). The loops over
  hunks and lines are compared with the relation \<open>patched\<close>, which says what a hunk list means: gaps are
  kept, each old block is found at its declared position and replaced by the new block at its own.
\<close>

section \<open>The loops\<close>

text \<open>The loop over the lines of a hunk: the index into the base and the output; \<open>None\<close> is a mismatch.\<close>

fun apply_lines :: "utext list \<Rightarrow> nat \<Rightarrow> utext list \<Rightarrow> hunk_line list \<Rightarrow> (nat \<times> utext list) option" where
  "apply_lines base i out [] = Some (i, out)"
| "apply_lines base i out (l # ls) =
     (if hl_kind l = ADD_LINE then apply_lines base i (out @ [hl_text l]) ls
      else if i \<ge> length base \<or> base ! i \<noteq> hl_text l then None
      else apply_lines base (Suc i) (if hl_kind l = CONTEXT_LINE then out @ [base ! i] else out) ls)"

definition hunk_index :: "hunk \<Rightarrow> nat" where
  "hunk_index h = (if hk_old_count h = 0 then hk_old_start h else hk_old_start h - 1)"

fun apply_hunks :: "utext list \<Rightarrow> nat \<Rightarrow> utext list \<Rightarrow> hunk list \<Rightarrow> utext list option" where
  "apply_hunks base position out [] = Some (out @ drop position base)"
| "apply_hunks base position out (h # hs) =
     (let i = hunk_index h in
      if i < position then None
      else if (if hk_old_count h = 0 then i > length base else i + hk_old_count h > length base) then None
      else let out1 = out @ take (i - position) (drop position base) in
        if hk_new_start h \<noteq> (if hk_new_count h = 0 then length out1 else length out1 + 1) then None
        else (case apply_lines base i out1 (hk_lines h) of
            None \<Rightarrow> None
          | Some (j, out2) \<Rightarrow> apply_hunks base j out2 hs))"

fun join_seq :: "'a list \<Rightarrow> 'a list list \<Rightarrow> 'a list" where
  "join_seq t [] = []"
| "join_seq t [l] = l"
| "join_seq t (l # m # ls) = l @ t @ join_seq t (m # ls)"

section \<open>One entry\<close>

datatype text_contract = BASE_NOT_TEXT | RESULT_NOT_TEXT | NEW_FILE_STYLE | STYLE_CHANGED

datatype entry_application =
    POSTIMAGE "nat list"
  | CONTEXT_MISMATCH
  | TEXT_CONTRACT text_contract
  | APPLY_RAISED

text \<open>The tail of the function: join, encode, classify and compare with the base metadata.\<close>

definition seal_postimage :: "text_metadata option \<Rightarrow> newline \<Rightarrow> utext list \<Rightarrow> entry_application" where
  "seal_postimage base_metadata nl out =
     (case encode_strict (join_seq (terminator nl) out @ terminator nl) of
        None \<Rightarrow> APPLY_RAISED
      | Some postimage \<Rightarrow>
          (case classify_supported_text postimage of
             NON_TEXT_FILE \<Rightarrow> TEXT_CONTRACT RESULT_NOT_TEXT
           | TEXT_FILE post \<Rightarrow>
               (case base_metadata of
                  None \<Rightarrow>
                    if (tm_encoding post, tm_newline post) \<noteq> (UTF8, LF) then TEXT_CONTRACT NEW_FILE_STYLE
                    else POSTIMAGE postimage
                | Some base \<Rightarrow>
                    if (tm_encoding post, tm_newline post) \<noteq> (tm_encoding base, tm_newline base)
                      then TEXT_CONTRACT STYLE_CHANGED
                    else POSTIMAGE postimage)))"

text \<open>\<open>raw\<close> is what the tree returned for the path; a CREATE entry does not read it.\<close>

definition apply_entry_bytes :: "patch_entry \<Rightarrow> nat list \<Rightarrow> entry_application" where
  "apply_entry_bytes e raw =
     (case pe_operation e of
        OP_CREATE \<Rightarrow>
          (case apply_hunks [] 0 [] (pe_hunks e) of
             None \<Rightarrow> CONTEXT_MISMATCH
           | Some out \<Rightarrow> seal_postimage None LF out)
      | OP_REPLACE \<Rightarrow>
          (case classify_supported_text raw of
             NON_TEXT_FILE \<Rightarrow> TEXT_CONTRACT BASE_NOT_TEXT
           | TEXT_FILE m \<Rightarrow>
               (case split_lines raw (terminator (tm_newline m)) of
                  None \<Rightarrow> APPLY_RAISED
                | Some base_lines \<Rightarrow>
                    (case apply_hunks base_lines 0 [] (pe_hunks e) of
                       None \<Rightarrow> CONTEXT_MISMATCH
                     | Some out \<Rightarrow> seal_postimage (Some m) (tm_newline m) out))))"

section \<open>What a hunk list means\<close>

definition old_text :: "hunk \<Rightarrow> utext list" where
  "old_text h = map hl_text (filter old_side (hk_lines h))"

definition new_text :: "hunk \<Rightarrow> utext list" where
  "new_text h = map hl_text (filter new_side (hk_lines h))"

definition new_index :: "hunk \<Rightarrow> nat" where
  "new_index h = (if hk_new_count h = 0 then hk_new_start h else hk_new_start h - 1)"

text \<open>\<open>patched i j base hs out\<close>: from line \<open>i\<close> of the old file and line \<open>j\<close> of the new one.\<close>

inductive patched :: "nat \<Rightarrow> nat \<Rightarrow> utext list \<Rightarrow> hunk list \<Rightarrow> utext list \<Rightarrow> bool" where
  patched_end: "patched i j rest [] rest"
| patched_hunk: "patched i j (gap @ old_text h @ base) (h # hs) (gap @ new_text h @ out)"
    if "hunk_index h = i + length gap" and "new_index h = j + length gap"
      and "patched (i + length gap + length (old_text h)) (j + length gap + length (new_text h)) base hs out"

inductive_simps patched_Nil: "patched i j base [] out"
inductive_cases patched_Cons: "patched i j base (h # hs) out"

lemma apply_lines_iff:
  "i \<le> length base \<Longrightarrow>
   apply_lines base i out ls = Some (j, out') \<longleftrightarrow>
     (\<exists>rest. drop i base = map hl_text (filter old_side ls) @ rest) \<and>
     j = i + length (filter old_side ls) \<and> out' = out @ map hl_text (filter new_side ls)"
proof (induction base i out ls rule: apply_lines.induct)
  case (1 base i out)
  then show ?case by auto
next
  case (2 base i out l ls)
  show ?case
  proof (cases "hl_kind l = ADD_LINE")
    case True
    then show ?thesis using 2 by auto
  next
    case False
    show ?thesis
    proof (cases "i \<ge> length base \<or> base ! i \<noteq> hl_text l")
      case True
      then have "drop i base \<noteq> hl_text l # r" for r
        by (metis drop_eq_Nil hd_drop_conv_nth linorder_not_less list.distinct(1) list.sel(1))
      then show ?thesis using False True by (cases "hl_kind l") auto
    next
      case ok: False
      then have d: "drop i base = hl_text l # drop (Suc i) base" by (metis Cons_nth_drop_Suc linorder_not_less)
      show ?thesis using 2(2) [OF False ok] ok False 2(3) unfolding d by (cases "hl_kind l") auto
    qed
  qed
qed

text \<open>The two position checks of the code on a hunk with exact ranges.\<close>

lemma new_position:
  "hunk_ok h \<Longrightarrow> hk_new_start h = (if hk_new_count h = 0 then n else n + 1) \<longleftrightarrow> new_index h = n"
  by (auto simp: hunk_ok_def new_index_def)

lemma hunk_step:
  assumes h: "hunk_ok h" and p: "position \<le> length base"
  shows "apply_hunks base position out (h # hs) = Some res \<longleftrightarrow>
    (\<exists>gap rest. drop position base = gap @ old_text h @ rest \<and>
       hunk_index h = position + length gap \<and> new_index h = length out + length gap \<and>
       apply_hunks base (position + length gap + length (old_text h)) (out @ gap @ new_text h) hs = Some res)"
    (is "?run \<longleftrightarrow> (\<exists>gap rest. ?step gap rest)")
proof
  define i gap where "i = hunk_index h" and "gap = take (i - position) (drop position base)"
  assume run: ?run
  then have pos: "position \<le> i" and len: "\<not> (if hk_old_count h = 0 then i > length base else i + hk_old_count h > length base)"
    and new: "hk_new_start h = (if hk_new_count h = 0 then length (out @ gap) else length (out @ gap) + 1)"
    unfolding i_def gap_def by (auto simp: Let_def split: if_splits)
  have il: "i \<le> length base" using len by (auto split: if_splits)
  then have g: "length gap = i - position" "drop position base = gap @ drop i base"
    using pos unfolding gap_def by (auto simp: add.commute) (metis append_take_drop_id drop_drop le_add_diff_inverse2)
  from run obtain j out2 where l: "apply_lines base i (out @ gap) (hk_lines h) = Some (j, out2)"
      "apply_hunks base j out2 hs = Some res"
    using pos len new unfolding i_def gap_def by (auto simp: Let_def split: option.splits if_splits)
  then obtain rest where "drop i base = old_text h @ rest" "j = i + length (old_text h)" "out2 = out @ gap @ new_text h"
    using apply_lines_iff [OF il] by (auto simp: old_text_def new_text_def)
  then show "\<exists>gap rest. ?step gap rest"
    using g pos l(2) new new_position [OF h, of "length (out @ gap)"] by (intro exI [of _ gap] exI [of _ rest]) (auto simp: i_def)
next
  assume "\<exists>gap rest. ?step gap rest"
  then obtain gap rest where s: "?step gap rest" by blast
  define i where "i = hunk_index h"
  have c: "hk_old_count h = length (old_text h)" using h by (simp add: hunk_ok_def old_text_def)
  have l: "length base = position + length gap + length (old_text h) + length rest"
    using arg_cong [OF conjunct1 [OF s], of length] p by simp
  have i: "i = position + length gap" using s by (simp add: i_def)
  have d: "drop i base = old_text h @ rest"
    using s unfolding i by (metis (no_types) add.commute append_eq_conv_conj drop_drop)
  have "apply_lines base i (out @ gap) (hk_lines h) = Some (i + length (old_text h), out @ gap @ new_text h)"
    using apply_lines_iff [of i base "out @ gap" "hk_lines h"] d i l by (auto simp: old_text_def new_text_def)
  moreover have "take (i - position) (drop position base) = gap" using s i by simp
  ultimately show ?run
    using s i l c new_position [OF h, of "length (out @ gap)"] by (simp add: Let_def i_def)
qed

lemma drop_after:
  assumes "drop n xs = ys @ zs @ rest" "n \<le> length xs"
  shows "n + length ys + length zs \<le> length xs" "drop (n + length ys + length zs) xs = rest"
proof -
  show "n + length ys + length zs \<le> length xs" using arg_cong [OF assms(1), of length] assms(2) by simp
  have "drop (length ys + length zs) (drop n xs) = rest" unfolding assms(1) by simp
  then show "drop (n + length ys + length zs) xs = rest" by (simp add: ac_simps)
qed

lemma apply_hunks_patched:
  assumes "list_all hunk_ok hs" "position \<le> length base"
  shows "apply_hunks base position out hs = Some res \<longleftrightarrow>
    (\<exists>r. res = out @ r \<and> patched position (length out) (drop position base) hs r)"
  using assms
proof (induction hs arbitrary: position out)
  case Nil
  then show ?case by (auto simp: patched_Nil)
next
  case (Cons h hs)
  have h: "hunk_ok h" using Cons.prems by simp
  show ?case
  proof
    assume "apply_hunks base position out (h # hs) = Some res"
    then obtain gap rest where s: "drop position base = gap @ old_text h @ rest"
        "hunk_index h = position + length gap" "new_index h = length out + length gap"
        "apply_hunks base (position + length gap + length (old_text h)) (out @ gap @ new_text h) hs = Some res"
      using hunk_step [OF h Cons.prems(2)] by blast
    let ?p = "position + length gap + length (old_text h)"
    note p = drop_after [OF s(1) Cons.prems(2)]
    from Cons.IH [OF _ p(1)] Cons.prems(1) s(4) obtain r where
        "res = (out @ gap @ new_text h) @ r" "patched ?p (length (out @ gap @ new_text h)) rest hs r"
      unfolding p(2) by auto
    then show "\<exists>r. res = out @ r \<and> patched position (length out) (drop position base) (h # hs) r"
      unfolding s(1) using patched_hunk [OF s(2,3), of rest hs r]
      by (intro exI [of _ "gap @ new_text h @ r"]) (simp add: add.assoc)
  next
    assume "\<exists>r. res = out @ r \<and> patched position (length out) (drop position base) (h # hs) r"
    then obtain r where r: "res = out @ r" "patched position (length out) (drop position base) (h # hs) r" by blast
    from r(2) obtain gap rest r' where s: "drop position base = gap @ old_text h @ rest" "r = gap @ new_text h @ r'"
        "hunk_index h = position + length gap" "new_index h = length out + length gap"
        "patched (position + length gap + length (old_text h)) (length out + length gap + length (new_text h)) rest hs r'"
      by (rule patched_Cons) blast
    let ?p = "position + length gap + length (old_text h)"
    note p = drop_after [OF s(1) Cons.prems(2)]
    have "apply_hunks base ?p (out @ gap @ new_text h) hs = Some res"
      using Cons.IH [OF _ p(1), of "out @ gap @ new_text h"] Cons.prems(1) s(5) r(1) s(2) unfolding p(2)
      by (auto simp: add.assoc)
    then show "apply_hunks base position out (h # hs) = Some res"
      using s(1,3,4) unfolding hunk_step [OF h Cons.prems(2)] by blast
  qed
qed

section \<open>Reversing a patch\<close>

fun invert_kind :: "line_kind \<Rightarrow> line_kind" where
  "invert_kind CONTEXT_LINE = CONTEXT_LINE"
| "invert_kind DELETE_LINE = ADD_LINE"
| "invert_kind ADD_LINE = DELETE_LINE"

definition invert_line :: "hunk_line \<Rightarrow> hunk_line" where
  "invert_line l = l\<lparr>hl_kind := invert_kind (hl_kind l)\<rparr>"

definition invert_hunk :: "hunk \<Rightarrow> hunk" where
  "invert_hunk h =
     \<lparr>hk_old_start = hk_new_start h, hk_old_count = hk_new_count h,
      hk_new_start = hk_old_start h, hk_new_count = hk_old_count h, hk_lines = map invert_line (hk_lines h)\<rparr>"

definition invert_entry :: "patch_entry \<Rightarrow> patch_entry" where
  "invert_entry e = e\<lparr>pe_hunks := map invert_hunk (pe_hunks e)\<rparr>"

lemma invert_side: "old_side (invert_line l) = new_side l" "new_side (invert_line l) = old_side l"
  "hl_text (invert_line l) = hl_text l"
  by (cases "hl_kind l"; simp add: invert_line_def)+

lemma filter_invert:
  "map hl_text (filter old_side (map invert_line ls)) = map hl_text (filter new_side ls)"
  "map hl_text (filter new_side (map invert_line ls)) = map hl_text (filter old_side ls)"
  "length (filter old_side (map invert_line ls)) = length (filter new_side ls)"
  "length (filter new_side (map invert_line ls)) = length (filter old_side ls)"
  by (induction ls) (simp_all add: invert_side del: old_side.simps new_side.simps)

lemma invert_text: "old_text (invert_hunk h) = new_text h" "new_text (invert_hunk h) = old_text h"
  "hunk_index (invert_hunk h) = new_index h" "new_index (invert_hunk h) = hunk_index h"
  by (simp_all add: old_text_def new_text_def invert_hunk_def filter_invert hunk_index_def new_index_def)

lemma invert_ok: "hunk_ok (invert_hunk h) \<longleftrightarrow> hunk_ok h"
  unfolding hunk_ok_def invert_hunk_def hunk.simps filter_invert by auto

lemma patched_invert: "patched i j base hs out \<Longrightarrow> patched j i out (map invert_hunk hs) base"
proof (induction rule: patched.induct)
  case (patched_hunk h i gap j base hs out)
  then show ?case
    using patched.patched_hunk [of "invert_hunk h" j gap i out "map invert_hunk hs" base] by (simp add: invert_text)
qed (simp add: patched_end)

section \<open>Bytes in, bytes out\<close>

lemma patched_lines: "patched i j base hs out \<Longrightarrow> set out \<subseteq> set base \<union> (\<Union>h\<in>set hs. set (new_text h))"
  by (induction rule: patched.induct) auto

definition written_lines :: "utext list \<Rightarrow> utext list" where
  "written_lines out = (if out = [] then [[]] else out)"

lemma join_terminated: "join_seq t ls @ t = unlines t (written_lines ls)"
  by (induction t ls rule: join_seq.induct) (simp_all add: written_lines_def)

definition clean_hunks :: "hunk list \<Rightarrow> bool" where
  "clean_hunks hs \<longleftrightarrow> (\<forall>h\<in>set hs. hunk_ok h \<and> (\<forall>l\<in>set (hk_lines h). line_ok (hl_text l)))"

lemma clean_hunks_facts:
  assumes "clean_hunks hs"
  shows "list_all hunk_ok hs" "h \<in> set hs \<Longrightarrow> l \<in> set (new_text h) \<Longrightarrow> line_ok l"
  using assms by (auto simp: clean_hunks_def list_all_iff new_text_def)

lemma clean_invert: "clean_hunks hs \<Longrightarrow> clean_hunks (map invert_hunk hs)"
  by (auto simp: clean_hunks_def invert_ok) (simp add: invert_hunk_def invert_side(3) image_iff; fastforce simp: invert_side(3))

lemma written_line_ok:
  assumes "clean_hunks hs" "patched i j base hs out" "\<forall>l\<in>set base. line_ok l"
  shows "\<forall>l\<in>set (written_lines out). line_ok l"
  using patched_lines [OF assms(2)] assms(3) clean_hunks_facts(2) [OF assms(1)]
  by (auto simp: written_lines_def line_ok_def [of "[]"])

definition bom_style :: "nat list \<Rightarrow> text_encoding" where
  "bom_style raw = (if startswith raw utf8_bom then UTF8_BOM else UTF8)"

lemma newline_unique: "body_text nl ls raw \<Longrightarrow> body_text nl' ms raw \<Longrightarrow> nl = nl'"
  by (metis classify_body_Some option.inject)

lemma seal_postimage_iff:
  fixes nl :: newline
  assumes "\<forall>l\<in>set (written_lines out). line_ok l"
  defines "post \<equiv> encode (unlines (terminator nl) (written_lines out))"
  shows "body_text nl (written_lines out) post"
    "seal_postimage None nl out =
       (if (bom_style post, nl) = (UTF8, LF) then POSTIMAGE post else TEXT_CONTRACT NEW_FILE_STYLE)"
    "seal_postimage (Some m) nl out =
       (if (bom_style post, nl) = (tm_encoding m, tm_newline m) then POSTIMAGE post else TEXT_CONTRACT STYLE_CHANGED)"
proof -
  show b: "body_text nl (written_lines out) post"
    using assms by (simp add: body_text_def written_lines_def)
  then have "classify_supported_text post = TEXT_FILE \<lparr>tm_encoding = bom_style post, tm_newline = nl\<rparr>"
    unfolding classify_iff by (auto simp: bom_style_def)
  moreover have "encode_strict (join_seq (terminator nl) out @ terminator nl) = Some post"
    unfolding join_terminated using line_ok_unlines [OF assms(1), of nl] by (simp add: encode_strict_def post_def)
  ultimately show "seal_postimage None nl out =
       (if (bom_style post, nl) = (UTF8, LF) then POSTIMAGE post else TEXT_CONTRACT NEW_FILE_STYLE)"
    "seal_postimage (Some m) nl out =
       (if (bom_style post, nl) = (tm_encoding m, tm_newline m) then POSTIMAGE post else TEXT_CONTRACT STYLE_CHANGED)"
    by (simp_all add: seal_postimage_def)
qed

lemma replace_iff:
  assumes c: "clean_hunks (pe_hunks e)" and op: "pe_operation e = OP_REPLACE"
  shows "apply_entry_bytes e raw = POSTIMAGE post \<longleftrightarrow>
    (\<exists>nl ls out. body_text nl ls raw \<and> patched 0 0 ls (pe_hunks e) out \<and>
       post = encode (unlines (terminator nl) (written_lines out)) \<and> bom_style post = bom_style raw)"
proof
  assume a: "apply_entry_bytes e raw = POSTIMAGE post"
  then obtain m ls out where m: "classify_supported_text raw = TEXT_FILE m"
      and ls: "split_lines raw (terminator (tm_newline m)) = Some ls"
      and out: "apply_hunks ls 0 [] (pe_hunks e) = Some out"
      and seal: "seal_postimage (Some m) (tm_newline m) out = POSTIMAGE post"
    using op by (auto simp: apply_entry_bytes_def split: classification.splits option.splits)
  from m obtain ms where "body_text (tm_newline m) ms raw" and enc: "tm_encoding m = bom_style raw"
    by (auto simp: classify_iff bom_style_def)
  with ls have b: "body_text (tm_newline m) ls raw" using split_body_text by fastforce
  have p: "patched 0 0 ls (pe_hunks e) out"
    using out apply_hunks_patched [OF clean_hunks_facts(1) [OF c], of 0 ls "[]"] by simp
  have "\<forall>l\<in>set (written_lines out). line_ok l" using written_line_ok [OF c p] b by (simp add: body_text_def)
  from seal_postimage_iff(3) [OF this, where nl = "tm_newline m" and m = m] seal enc b p
  show "\<exists>nl ls out. body_text nl ls raw \<and> patched 0 0 ls (pe_hunks e) out \<and>
       post = encode (unlines (terminator nl) (written_lines out)) \<and> bom_style post = bom_style raw"
    by (intro exI [of _ "tm_newline m"] exI [of _ ls] exI [of _ out]) (auto split: if_splits)
next
  assume "\<exists>nl ls out. body_text nl ls raw \<and> patched 0 0 ls (pe_hunks e) out \<and>
       post = encode (unlines (terminator nl) (written_lines out)) \<and> bom_style post = bom_style raw"
  then obtain nl ls out where b: "body_text nl ls raw" and p: "patched 0 0 ls (pe_hunks e) out"
      and post: "post = encode (unlines (terminator nl) (written_lines out))" and bom: "bom_style post = bom_style raw"
    by blast
  have m: "classify_supported_text raw = TEXT_FILE \<lparr>tm_encoding = bom_style raw, tm_newline = nl\<rparr>"
    using b unfolding classify_iff by (auto simp: bom_style_def)
  have "apply_hunks ls 0 [] (pe_hunks e) = Some out"
    using p apply_hunks_patched [OF clean_hunks_facts(1) [OF c], of 0 ls "[]"] by simp
  moreover have "\<forall>l\<in>set (written_lines out). line_ok l" using written_line_ok [OF c p] b by (simp add: body_text_def)
  ultimately show "apply_entry_bytes e raw = POSTIMAGE post"
    using m op split_body_text [OF b] post bom by (simp add: apply_entry_bytes_def seal_postimage_iff(3))
qed

end
