(* ===== verification/Patch_Engine.thy ===== *)
theory Patch_Engine
  imports Candidate_Tree Patch_Apply
begin

text \<open>
  The atomic patch transaction (\<open>candidate/patch_engine.py\<close>) over the parser, the path tables and the
  candidate tree. An outcome comes with the list of revisions handed to the publisher and the store
  afterwards. An exception that the function does not catch is \<open>PATCH_RAISED\<close>.
\<close>

definition max_patch_text_bytes :: nat where
  "max_patch_text_bytes = 131072"

definition max_single_file_bytes :: nat where
  "max_single_file_bytes = 131072"

definition max_total_postimage_bytes :: nat where
  "max_total_postimage_bytes = 131072"

definition max_net_changed_files :: nat where
  "max_net_changed_files = 3"

definition max_new_files :: nat where
  "max_new_files = 1"

datatype patch_error =
    FROM_PARSER parse_error_code
  | STALE_CANDIDATE | SENSITIVE_PATH | PROTECTED_ARTIFACT_CHANGED | PATCH_PATH_NOT_EDITABLE | PATH_EXISTS
  | PATH_IGNORED | PATCH_CONTEXT_MISMATCH | PATCH_LIMIT_EXCEEDED | TREE_INTEGRITY_FAILED

datatype patch_outcome = PUBLISHED revision | REJECTED_PATCH patch_error | PATCH_RAISED

record patch_action =
  pa_base_candidate_digest :: string
  pa_patch_text :: utext

text \<open>The validators of \<open>ApplyCandidatePatchAction\<close>; \<open>None\<close> is the \<open>ValidationError\<close>.\<close>

definition make_patch_action :: "patch_action \<Rightarrow> patch_action option" where
  "make_patch_action a =
     (if \<not> hex64 (pa_base_candidate_digest a) then None
      else (case encode_strict (pa_patch_text a) of
          None \<Rightarrow> None
        | Some bytes \<Rightarrow> if length bytes > max_patch_text_bytes then None else Some a))"

record patch_context =
  cx_current :: revision
  cx_snapshot :: snapshot
  cx_policy_digest :: string
  cx_ignore_rules :: "ignore_rule list"
  cx_ignore_rules_digest :: string

definition make_patch_context :: "(nat list \<Rightarrow> string) \<Rightarrow> patch_context \<Rightarrow> patch_context option" where
  "make_patch_context sha256 cx =
     (if Some (cx_ignore_rules_digest cx) \<noteq> ignore_rules_digest sha256 (cx_ignore_rules cx) then None else Some cx)"

section \<open>Paths\<close>

definition tree_has_file_path :: "candidate_tree \<Rightarrow> utext \<Rightarrow> bool" where
  "tree_has_file_path t path \<longleftrightarrow> path \<in> set (tree_files t)"

definition entry_path_failure ::
    "unicode_tables \<Rightarrow> candidate_tree \<Rightarrow> patch_context \<Rightarrow> patch_entry \<Rightarrow> patch_error option" where
  "entry_path_failure T t cx e =
     (let path = pe_path e in
      if sensitive_path_rule_id T path \<noteq> None then Some SENSITIVE_PATH
      else if protected_artifact_path path then Some PROTECTED_ARTIFACT_CHANGED
      else if \<not> editable_matches path (pe_operation e) then Some PATCH_PATH_NOT_EDITABLE
      else if pe_operation e = OP_CREATE then
        (if path_collides_with_tree T t path then Some PATH_EXISTS
         else if path_is_ignored (cx_ignore_rules cx) path then Some PATH_IGNORED
         else None)
      else if \<not> tree_has_file_path t path then Some PATCH_CONTEXT_MISMATCH
      else None)"

section \<open>Applying the entries\<close>

definition apply_entry ::
    "(nat list \<Rightarrow> string) \<Rightarrow> store \<Rightarrow> candidate_tree \<Rightarrow> patch_entry \<Rightarrow> tree_error + entry_application" where
  "apply_entry sha256 st t e =
     (case pe_operation e of
        OP_CREATE \<Rightarrow> Inr (apply_entry_bytes e [])
      | OP_REPLACE \<Rightarrow>
          (case tree_read sha256 st t (pe_path e) of Inl err \<Rightarrow> Inl err | Inr raw \<Rightarrow> Inr (apply_entry_bytes e raw)))"

datatype 'a attempt = Done 'a | Rejecting patch_error | Raising

text \<open>What the handler of \<open>CandidateIntegrityError\<close> makes of an error of the trees.\<close>

fun handled :: "tree_error \<Rightarrow> 'a attempt" where
  "handled (CandidateIntegrityError e) = Rejecting TREE_INTEGRITY_FAILED"
| "handled e = Raising"

fun apply_patch_entries ::
    "(nat list \<Rightarrow> string) \<Rightarrow> store \<Rightarrow> candidate_tree \<Rightarrow> postimage list \<Rightarrow> patch_entry list \<Rightarrow> postimage list attempt" where
  "apply_patch_entries sha256 st t acc [] = Done acc"
| "apply_patch_entries sha256 st t acc (e # es) =
     (case apply_entry sha256 st t e of
        Inl err \<Rightarrow> handled err
      | Inr CONTEXT_MISMATCH \<Rightarrow> Rejecting PATCH_CONTEXT_MISMATCH
      | Inr (TEXT_CONTRACT why) \<Rightarrow> Rejecting (FROM_PARSER UNSUPPORTED_PATCH_OPERATION)
      | Inr APPLY_RAISED \<Rightarrow> Raising
      | Inr (POSTIMAGE raw) \<Rightarrow>
          apply_patch_entries sha256 st t
            (acc @ [\<lparr>po_operation = pe_operation e, po_path = pe_path e, po_raw_bytes = raw\<rparr>]) es)"

section \<open>Limits\<close>

definition postimage_at :: "postimage list \<Rightarrow> utext \<Rightarrow> nat list option" where
  "postimage_at ps path = map_of (rev (map (\<lambda>p. (po_path p, po_raw_bytes p)) ps)) path"

fun changed_files ::
    "(nat list \<Rightarrow> string) \<Rightarrow> store \<Rightarrow> candidate_tree \<Rightarrow> snapshot \<Rightarrow> postimage list \<Rightarrow> utext list \<Rightarrow>
     tree_error + (utext \<times> nat \<times> bool) list" where
  "changed_files sha256 st t s ps [] = Inr []"
| "changed_files sha256 st t s ps (path # paths) =
     (case (case postimage_at ps path of Some raw \<Rightarrow> Inr raw | None \<Rightarrow> tree_read sha256 st t path) of
        Inl err \<Rightarrow> Inl err
      | Inr raw \<Rightarrow>
          if path \<notin> set (snapshot_files s) then
            (case changed_files sha256 st t s ps paths of Inl err \<Rightarrow> Inl err | Inr cs \<Rightarrow> Inr ((path, length raw, True) # cs))
          else (case snapshot_read s path of
              None \<Rightarrow> Inl TreeKeyError
            | Some old \<Rightarrow>
                (case changed_files sha256 st t s ps paths of
                   Inl err \<Rightarrow> Inl err
                 | Inr cs \<Rightarrow> Inr (if raw \<noteq> old then (path, length raw, False) # cs else cs))))"

definition limit_failure ::
    "(nat list \<Rightarrow> string) \<Rightarrow> store \<Rightarrow> candidate_tree \<Rightarrow> snapshot \<Rightarrow> postimage list \<Rightarrow> unit attempt" where
  "limit_failure sha256 st t s ps =
     (if list_ex (\<lambda>p. length (po_raw_bytes p) > max_single_file_bytes) ps then Rejecting PATCH_LIMIT_EXCEEDED
      else (case changed_files sha256 st t s ps (sort (remdups (tree_files t @ map po_path ps))) of
          Inl err \<Rightarrow> handled err
        | Inr changed \<Rightarrow>
            if length changed > max_net_changed_files then Rejecting PATCH_LIMIT_EXCEEDED
            else if length (filter (\<lambda>(path, size, is_new). is_new) changed) > max_new_files then Rejecting PATCH_LIMIT_EXCEEDED
            else if sum_list (map (\<lambda>(path, size, is_new). size) changed) > max_total_postimage_bytes
              then Rejecting PATCH_LIMIT_EXCEEDED
            else Done ()))"

section \<open>The transaction\<close>

definition patch_gate ::
    "unicode_tables \<Rightarrow> patch_action \<Rightarrow> revision \<Rightarrow> patch_context \<Rightarrow> patch_entry list attempt" where
  "patch_gate T action current cx =
     (case parse_unified_diff T (pa_patch_text action) of
        PARSE_RAISED \<Rightarrow> Raising
      | PATCH_PARSE_FAILED code reason \<Rightarrow> Rejecting (FROM_PARSER code)
      | PATCH_PARSED entries \<Rightarrow>
          if pa_base_candidate_digest action \<noteq> rv_candidate_digest current then Rejecting STALE_CANDIDATE
          else if rv_candidate_digest (cx_current cx) \<noteq> rv_candidate_digest current \<or>
              ct_digest (rv_tree (cx_current cx)) \<noteq> ct_digest (rv_tree current) then Rejecting STALE_CANDIDATE
          else if sn_policy_digest (cx_snapshot cx) \<noteq> cx_policy_digest cx then Rejecting TREE_INTEGRITY_FAILED
          else if sn_root_digest (cx_snapshot cx) \<noteq> sn_root_digest (ct_snapshot (rv_tree current))
            then Rejecting TREE_INTEGRITY_FAILED
          else (case first_failure (entry_path_failure T (rv_tree current) cx) entries of
              Some code \<Rightarrow> Rejecting code
            | None \<Rightarrow> Done entries))"

definition apply_candidate_patch ::
    "unicode_tables \<Rightarrow> (nat list \<Rightarrow> string) \<Rightarrow> patch_action \<Rightarrow> revision \<Rightarrow> patch_context \<Rightarrow>
     store \<Rightarrow> patch_outcome \<times> revision list \<times> store" where
  "apply_candidate_patch T sha256 action current cx st =
     (case patch_gate T action current cx of
        Rejecting code \<Rightarrow> (REJECTED_PATCH code, [], st)
      | Raising \<Rightarrow> (PATCH_RAISED, [], st)
      | Done entries \<Rightarrow>
          (case apply_patch_entries sha256 st (rv_tree current) [] entries of
             Rejecting code \<Rightarrow> (REJECTED_PATCH code, [], st)
           | Raising \<Rightarrow> (PATCH_RAISED, [], st)
           | Done postimages \<Rightarrow>
               (case limit_failure sha256 st (rv_tree current) (cx_snapshot cx) postimages of
                  Rejecting code \<Rightarrow> (REJECTED_PATCH code, [], st)
                | Raising \<Rightarrow> (PATCH_RAISED, [], st)
                | Done _ \<Rightarrow>
                    (case derive_candidate_revision T sha256 current postimages st of
                       (Inr child, st') \<Rightarrow> (PUBLISHED child, [child], st')
                     | (Inl (CandidateIntegrityError e), st') \<Rightarrow> (REJECTED_PATCH TREE_INTEGRITY_FAILED, [], st')
                     | (Inl e, st') \<Rightarrow> (PATCH_RAISED, [], st')))))"

text \<open>The pre-policy path fact; \<open>None\<close> is \<open>OK\<close>, \<open>Some None\<close> an exception.\<close>

definition patch_path_fact_for_action ::
    "unicode_tables \<Rightarrow> patch_action \<Rightarrow> revision \<Rightarrow> patch_context \<Rightarrow> patch_error option option" where
  "patch_path_fact_for_action T action current cx =
     (case parse_unified_diff T (pa_patch_text action) of
        PARSE_RAISED \<Rightarrow> Some None
      | PATCH_PARSE_FAILED code reason \<Rightarrow> Some (Some TREE_INTEGRITY_FAILED)
      | PATCH_PARSED entries \<Rightarrow>
          map_option Some (first_failure (entry_path_failure T (rv_tree current) cx) entries))"

end
