(* ===== verification/Final_Diff.thy ===== *)
theory Final_Diff
  imports Candidate_Tree
begin

text \<open>
  The net diff of a candidate against its snapshot (\<open>candidate/final_diff.py\<close>) and the three-root identity
  (\<open>candidate/identity.py\<close>). The validators of the rows hold by the way the rows are built; the digests are
  hexadecimal because SHA-256 makes them so.
\<close>

datatype diff_preimage = PREIMAGE_ABSENT | PREIMAGE_PRESENT string text_metadata

record diff_entry =
  de_operation :: patch_operation
  de_path :: utext
  de_preimage :: diff_preimage
  de_postimage_digest :: string
  de_postimage_text_metadata :: text_metadata

record final_diff =
  fd_snapshot_tree_digest :: string
  fd_entries :: "diff_entry list"
  fd_text_bytes :: nat
  fd_digest :: string

datatype diff_code = DIFF_PATH_NOT_EDITABLE | DIFF_LIMIT_EXCEEDED | DIFF_TREE_INTEGRITY_FAILED

datatype diff_error = FinalDiffRejectedError diff_code | DiffKeyError | DiffJsonError | DiffValidationError

definition max_diff_entries :: nat where
  "max_diff_entries = 3"

definition max_diff_bytes :: nat where
  "max_diff_bytes = 131072"

section \<open>The digest\<close>

fun preimage_value :: "diff_preimage \<Rightarrow> cvalue" where
  "preimage_value PREIMAGE_ABSENT = CObj [(lit ''kind'', CStr (lit ''ABSENT''))]"
| "preimage_value (PREIMAGE_PRESENT digest m) =
     CObj [(lit ''kind'', CStr (lit ''PRESENT'')), (lit ''content_digest'', CStr (lit digest)),
       (lit ''text_metadata'', metadata_value m)]"

definition diff_entry_value :: "diff_entry \<Rightarrow> cvalue" where
  "diff_entry_value e =
     CObj [(lit ''operation'', CStr (lit (operation_name (de_operation e)))), (lit ''path'', CStr (de_path e)),
       (lit ''preimage'', preimage_value (de_preimage e)), (lit ''postimage_digest'', CStr (lit (de_postimage_digest e))),
       (lit ''postimage_text_metadata'', metadata_value (de_postimage_text_metadata e))]"

definition final_diff_value :: "string \<Rightarrow> diff_entry list \<Rightarrow> nat \<Rightarrow> cvalue" where
  "final_diff_value root entries text_bytes =
     CObj [(lit ''schema_version'', CInt 1), (lit ''snapshot_tree_digest'', CStr (lit root)),
       (lit ''entries'', CArr (map diff_entry_value entries)),
       (lit ''added_and_replacement_text_bytes'', CInt (int text_bytes))]"

definition final_diff_digest :: "(nat list \<Rightarrow> string) \<Rightarrow> string \<Rightarrow> diff_entry list \<Rightarrow> nat \<Rightarrow> string option" where
  "final_diff_digest sha256 root entries text_bytes =
     domain_digest sha256 ''FinalDiffV1'' 1 (final_diff_value root entries text_bytes)"

definition make_diff_entry :: "diff_entry \<Rightarrow> diff_error + diff_entry" where
  "make_diff_entry e =
     (if de_operation e = OP_CREATE \<and> de_preimage e \<noteq> PREIMAGE_ABSENT then Inl DiffValidationError
      else if de_operation e = OP_REPLACE \<and> de_preimage e = PREIMAGE_ABSENT then Inl DiffValidationError
      else Inr e)"

definition make_final_diff :: "(nat list \<Rightarrow> string) \<Rightarrow> final_diff \<Rightarrow> diff_error + final_diff" where
  "make_final_diff sha256 d =
     (let paths = map de_path (fd_entries d) in
      if length (fd_entries d) > max_diff_entries then Inl DiffValidationError
      else if \<not> distinct paths then Inl DiffValidationError
      else if paths \<noteq> sort paths then Inl DiffValidationError
      else (case final_diff_digest sha256 (fd_snapshot_tree_digest d) (fd_entries d) (fd_text_bytes d) of
          None \<Rightarrow> Inl DiffJsonError
        | Some digest \<Rightarrow> if fd_digest d \<noteq> digest then Inl DiffValidationError else Inr d))"

section \<open>Recomputation\<close>

text \<open>The dictionary of the snapshot's file rows: a later row wins.\<close>

definition snapshot_file_at :: "snapshot \<Rightarrow> utext \<Rightarrow> file_entry option" where
  "snapshot_file_at s path = map_of (rev (map (\<lambda>f. (fe_path f, f)) (file_rows (sn_entries s)))) path"

fun diff_failure :: "tree_error \<Rightarrow> diff_error" where
  "diff_failure (CandidateIntegrityError e) = FinalDiffRejectedError DIFF_TREE_INTEGRITY_FAILED"
| "diff_failure TreeKeyError = DiffKeyError"
| "diff_failure TreeJsonError = DiffJsonError"
| "diff_failure TreeValidationError = DiffValidationError"

text \<open>One round of the loop after the unchanged files were skipped.\<close>

definition changed_entry ::
    "(nat list \<Rightarrow> string) \<Rightarrow> utext \<Rightarrow> patch_operation \<Rightarrow> diff_preimage \<Rightarrow> nat list \<Rightarrow> diff_error + diff_entry" where
  "changed_entry sha256 path op preimage post =
     (case classify_supported_text post of
        NON_TEXT_FILE \<Rightarrow> Inl (FinalDiffRejectedError DIFF_TREE_INTEGRITY_FAILED)
      | TEXT_FILE m \<Rightarrow>
          if \<not> editable_matches path op then Inl (FinalDiffRejectedError DIFF_PATH_NOT_EDITABLE)
          else make_diff_entry
            \<lparr>de_operation = op, de_path = path, de_preimage = preimage, de_postimage_digest = sha256 post,
             de_postimage_text_metadata = m\<rparr>)"

definition path_entry ::
    "(nat list \<Rightarrow> string) \<Rightarrow> snapshot \<Rightarrow> utext \<Rightarrow> nat list \<Rightarrow> diff_error + diff_entry option" where
  "path_entry sha256 s path post =
     (case snapshot_file_at s path of
        None \<Rightarrow> map_sum id Some (changed_entry sha256 path OP_CREATE PREIMAGE_ABSENT post)
      | Some sealed \<Rightarrow>
          (case snapshot_read s path of
             None \<Rightarrow> Inl DiffKeyError
           | Some pre \<Rightarrow>
               if pre = post then Inr None
               else (case fe_text_profile sealed of
                   None \<Rightarrow> Inl (FinalDiffRejectedError DIFF_TREE_INTEGRITY_FAILED)
                 | Some m \<Rightarrow> map_sum id Some (changed_entry sha256 path OP_REPLACE (PREIMAGE_PRESENT (sha256 pre) m) post))))"

fun diff_rows ::
    "(nat list \<Rightarrow> string) \<Rightarrow> store \<Rightarrow> snapshot \<Rightarrow> candidate_tree \<Rightarrow> utext list \<Rightarrow> diff_error + (diff_entry \<times> nat) list" where
  "diff_rows sha256 st s t [] = Inr []"
| "diff_rows sha256 st s t (path # paths) =
     (case tree_read sha256 st t path of
        Inl e \<Rightarrow> Inl (diff_failure e)
      | Inr post \<Rightarrow>
          (case path_entry sha256 s path post of
             Inl e \<Rightarrow> Inl e
           | Inr None \<Rightarrow> diff_rows sha256 st s t paths
           | Inr (Some entry) \<Rightarrow> map_sum id (Cons (entry, length post)) (diff_rows sha256 st s t paths)))"

definition recompute_final_diff ::
    "(nat list \<Rightarrow> string) \<Rightarrow> store \<Rightarrow> snapshot \<Rightarrow> candidate_tree \<Rightarrow> string \<Rightarrow> diff_error + final_diff" where
  "recompute_final_diff sha256 st s t policy_digest =
     (if sn_policy_digest s \<noteq> policy_digest then Inl (FinalDiffRejectedError DIFF_TREE_INTEGRITY_FAILED)
      else if sn_root_digest s \<noteq> sn_root_digest (ct_snapshot t) then Inl (FinalDiffRejectedError DIFF_TREE_INTEGRITY_FAILED)
      else if \<not> set (snapshot_files s) \<subseteq> set (tree_files t) then Inl (FinalDiffRejectedError DIFF_TREE_INTEGRITY_FAILED)
      else (case diff_rows sha256 st s t (sort (remdups (snapshot_files s @ tree_files t))) of
          Inl e \<Rightarrow> Inl e
        | Inr rows \<Rightarrow>
            (let entries = map fst rows; text_bytes = sum_list (map snd rows) in
             if length entries > max_diff_entries then Inl (FinalDiffRejectedError DIFF_LIMIT_EXCEEDED)
             else if text_bytes > max_diff_bytes then Inl (FinalDiffRejectedError DIFF_LIMIT_EXCEEDED)
             else (case final_diff_digest sha256 (sn_root_digest s) entries text_bytes of
                 None \<Rightarrow> Inl DiffJsonError
               | Some digest \<Rightarrow>
                   make_final_diff sha256
                     \<lparr>fd_snapshot_tree_digest = sn_root_digest s, fd_entries = entries, fd_text_bytes = text_bytes,
                      fd_digest = digest\<rparr>))))"

section \<open>The identity\<close>

record diff_identity =
  di_snapshot_tree_digest :: string
  di_candidate_tree_digest :: string
  di_final_diff_digest :: string
  di_digest :: string

definition identity_value :: "string \<Rightarrow> string \<Rightarrow> string \<Rightarrow> cvalue" where
  "identity_value root tree_digest diff_digest =
     CObj [(lit ''schema_version'', CInt 1), (lit ''snapshot_tree_digest'', CStr (lit root)),
       (lit ''candidate_tree_digest'', CStr (lit tree_digest)), (lit ''final_diff_digest'', CStr (lit diff_digest))]"

definition candidate_identity_digest :: "(nat list \<Rightarrow> string) \<Rightarrow> string \<Rightarrow> string \<Rightarrow> string \<Rightarrow> string option" where
  "candidate_identity_digest sha256 root tree_digest diff_digest =
     domain_digest sha256 ''CandidateIdentityV1'' 1 (identity_value root tree_digest diff_digest)"

definition make_diff_identity :: "(nat list \<Rightarrow> string) \<Rightarrow> diff_identity \<Rightarrow> diff_identity option" where
  "make_diff_identity sha256 i =
     (if Some (di_digest i) \<noteq>
        candidate_identity_digest sha256 (di_snapshot_tree_digest i) (di_candidate_tree_digest i) (di_final_diff_digest i)
      then None else Some i)"

definition build_candidate_identity :: "(nat list \<Rightarrow> string) \<Rightarrow> string \<Rightarrow> string \<Rightarrow> string \<Rightarrow> diff_identity option" where
  "build_candidate_identity sha256 root tree_digest diff_digest =
     (case candidate_identity_digest sha256 root tree_digest diff_digest of
        None \<Rightarrow> None
      | Some d \<Rightarrow>
          make_diff_identity sha256
            \<lparr>di_snapshot_tree_digest = root, di_candidate_tree_digest = tree_digest, di_final_diff_digest = diff_digest,
             di_digest = d\<rparr>)"

definition bind_revision_identity :: "(nat list \<Rightarrow> string) \<Rightarrow> revision \<Rightarrow> string \<Rightarrow> revision option" where
  "bind_revision_identity sha256 r diff_digest =
     map_option (\<lambda>i. r\<lparr>rv_candidate_digest := di_digest i\<rparr>)
       (build_candidate_identity sha256 (sn_root_digest (ct_snapshot (rv_tree r))) (ct_digest (rv_tree r)) diff_digest)"

end
