(* ===== verification/Candidate_Chain.thy ===== *)
theory Candidate_Chain
  imports Patch_Engine Final_Diff
begin

text \<open>
  What the patch transaction does to the files of a candidate: an abstract specification on maps from
  paths to bytes, the facts of a published patch, the limits against the snapshot, and the chain of
  revisions that published patches build on the root revision of a sealed snapshot.
\<close>

section \<open>The entries\<close>

definition entry_applied :: "patch_entry \<Rightarrow> (utext \<Rightarrow> nat list option) \<Rightarrow> nat list \<Rightarrow> bool" where
  "entry_applied e files raw \<longleftrightarrow>
     (case pe_operation e of
        OP_CREATE \<Rightarrow> apply_entry_bytes e [] = POSTIMAGE raw
      | OP_REPLACE \<Rightarrow> \<exists>base. files (pe_path e) = Some base \<and> apply_entry_bytes e base = POSTIMAGE raw)"

definition staged_for :: "(utext \<Rightarrow> nat list option) \<Rightarrow> patch_entry \<Rightarrow> postimage \<Rightarrow> bool" where
  "staged_for files e p \<longleftrightarrow>
     po_path p = pe_path e \<and> po_operation p = pe_operation e \<and> entry_applied e files (po_raw_bytes p)"

lemma handled_not_Done [simp]: "handled err \<noteq> Done x"
  by (cases err) simp_all

lemma apply_entry_applied:
  assumes "apply_entry sha256 st t e = Inr (POSTIMAGE raw)"
  shows "entry_applied e (files_of sha256 st t) raw"
  using assms by (auto simp: apply_entry_def entry_applied_def files_of_def split: patch_operation.splits sum.splits)

lemma apply_patch_entries_Done:
  assumes "apply_patch_entries sha256 st t acc es = Done ps"
  obtains qs where "ps = acc @ qs" "list_all2 (staged_for (files_of sha256 st t)) es qs"
  using assms
proof (induction es arbitrary: acc thesis)
  case Nil
  then show ?case by simp
next
  case (Cons e es)
  from Cons.prems(2) obtain raw where a: "apply_entry sha256 st t e = Inr (POSTIMAGE raw)"
      and r: "apply_patch_entries sha256 st t
        (acc @ [\<lparr>po_operation = pe_operation e, po_path = pe_path e, po_raw_bytes = raw\<rparr>]) es = Done ps"
    by (auto split: sum.splits entry_application.splits)
  obtain qs where "ps = acc @ \<lparr>po_operation = pe_operation e, po_path = pe_path e, po_raw_bytes = raw\<rparr> # qs"
      "list_all2 (staged_for (files_of sha256 st t)) es qs"
    using Cons.IH [OF _ r] by auto
  moreover have "staged_for (files_of sha256 st t) e
      \<lparr>po_operation = pe_operation e, po_path = pe_path e, po_raw_bytes = raw\<rparr>"
    using apply_entry_applied [OF a] by (simp add: staged_for_def)
  ultimately show ?case using Cons.prems(1) by simp
qed

text \<open>
  The specification of a published patch on the map of files: every entry's path gets its postimage (a
  created path was absent, a replaced one present), and every other path keeps its bytes.
\<close>

definition patch_result ::
    "patch_entry list \<Rightarrow> (utext \<Rightarrow> nat list option) \<Rightarrow> (utext \<Rightarrow> nat list option) \<Rightarrow> bool" where
  "patch_result es before after \<longleftrightarrow>
     (\<forall>e\<in>set es. (before (pe_path e) = None \<longleftrightarrow> pe_operation e = OP_CREATE) \<and>
        (\<exists>raw. entry_applied e before raw \<and> after (pe_path e) = Some raw)) \<and>
     (\<forall>p. p \<notin> pe_path ` set es \<longrightarrow> after p = before p)"

section \<open>A published patch\<close>

text \<open>The byte strings one transaction hands to the store.\<close>

definition staged_bytes ::
    "unicode_tables \<Rightarrow> (nat list \<Rightarrow> string) \<Rightarrow> patch_action \<Rightarrow> revision \<Rightarrow> patch_context \<Rightarrow> store \<Rightarrow> nat list set" where
  "staged_bytes T sha256 action current cx st =
     (case patch_gate T action current cx of
        Done entries \<Rightarrow>
          (case apply_patch_entries sha256 st (rv_tree current) [] entries of
             Done ps \<Rightarrow> po_raw_bytes ` set ps
           | _ \<Rightarrow> {})
      | _ \<Rightarrow> {})"

lemma published_steps:
  assumes "apply_candidate_patch T sha256 action current cx st = (PUBLISHED child, published, st')"
  obtains entries ps where "patch_gate T action current cx = Done entries"
    "list_all2 (staged_for (files_of sha256 st (rv_tree current))) entries ps"
    "limit_failure sha256 st (rv_tree current) (cx_snapshot cx) ps = Done ()"
    "derive_candidate_revision T sha256 current ps st = (Inr child, st')" "published = [child]"
    "staged_bytes T sha256 action current cx st = po_raw_bytes ` set ps"
proof -
  from assms obtain entries ps where g: "patch_gate T action current cx = Done entries"
      and a: "apply_patch_entries sha256 st (rv_tree current) [] entries = Done ps"
      and l: "limit_failure sha256 st (rv_tree current) (cx_snapshot cx) ps = Done ()"
      and d: "derive_candidate_revision T sha256 current ps st = (Inr child, st')" "published = [child]"
    unfolding apply_candidate_patch_def
    by (auto split: attempt.splits prod.splits sum.splits tree_error.splits)
  have "staged_bytes T sha256 action current cx st = po_raw_bytes ` set ps" using g a by (simp add: staged_bytes_def)
  moreover from a obtain qs where "ps = [] @ qs" "list_all2 (staged_for (files_of sha256 st (rv_tree current))) entries qs"
    by (rule apply_patch_entries_Done)
  ultimately show ?thesis using that g l d by simp
qed

lemma derive_rejected_store:
  "derive_candidate_revision T sha256 parent ps st = (Inl (CandidateIntegrityError e), st') \<Longrightarrow> st' = st"
  by (auto simp: derive_candidate_revision_def make_tree_def make_revision_def Let_def
      split: if_splits option.splits sum.splits prod.splits)

lemma rejected_keeps_store:
  assumes "apply_candidate_patch T sha256 action current cx st = (REJECTED_PATCH code, published, st')"
  shows "published = [] \<and> st' = st"
  using assms unfolding apply_candidate_patch_def
  by (auto split: attempt.splits prod.splits sum.splits tree_error.splits dest: derive_rejected_store)

lemma raised_publishes_nothing:
  assumes "apply_candidate_patch T sha256 action current cx st = (PATCH_RAISED, published, st')"
  shows "published = []"
  using assms unfolding apply_candidate_patch_def
  by (auto split: attempt.splits prod.splits sum.splits tree_error.splits)

lemma gate_Done:
  assumes "patch_gate T action current cx = Done entries"
  shows "parse_unified_diff T (pa_patch_text action) = PATCH_PARSED entries"
    and "pa_base_candidate_digest action = rv_candidate_digest current"
    and "sn_root_digest (cx_snapshot cx) = sn_root_digest (ct_snapshot (rv_tree current))"
    and "\<forall>e\<in>set entries. entry_path_failure T (rv_tree current) cx e = None"
  using assms
  by (auto simp: patch_gate_def first_failure_None split: parse_result.splits if_splits option.splits)

definition editable_path :: "unicode_tables \<Rightarrow> utext \<Rightarrow> bool" where
  "editable_path T p \<longleftrightarrow>
     startswith p (lit ''src/'') \<and> \<not> protected_artifact_path p \<and> sensitive_path_rule_id T p = None"

lemma path_passed:
  assumes "entry_path_failure T t cx e = None"
  shows "editable_path T (pe_path e)"
    and "pe_operation e = OP_CREATE \<Longrightarrow> \<not> path_collides_with_tree T t (pe_path e) \<and> \<not> path_is_ignored (cx_ignore_rules cx) (pe_path e)"
    and "pe_operation e = OP_REPLACE \<Longrightarrow> pe_path e \<in> set (tree_files t)"
  using assms by (auto simp: entry_path_failure_def Let_def editable_path_def editable_under_src tree_has_file_path_def
      split: if_splits)

lemma staged_paths: "list_all2 (staged_for f) es ps \<Longrightarrow> map po_path ps = map pe_path es"
  by (induction rule: list_all2_induct) (simp_all add: staged_for_def)

lemma staged_at:
  assumes "list_all2 (staged_for f) es ps" "e \<in> set es"
  obtains p where "p \<in> set ps" "staged_for f e p"
  using assms by (induction arbitrary: thesis rule: list_all2_induct) auto

lemma staged_of:
  assumes "list_all2 (staged_for f) es ps" "p \<in> set ps"
  obtains e where "e \<in> set es" "staged_for f e p"
  using assms by (induction arbitrary: thesis rule: list_all2_induct) auto

text \<open>A snapshot whose bytes belong to its file rows.\<close>

definition reads_listed :: "snapshot \<Rightarrow> bool" where
  "reads_listed s \<longleftrightarrow> set (map fst (sn_file_bytes s)) = set (snapshot_files s)"

lemma reads_listed_iff: "reads_listed s \<Longrightarrow> snapshot_read s q \<noteq> None \<longleftrightarrow> q \<in> set (snapshot_files s)"
  unfolding reads_listed_def snapshot_read_def by (metis list.set_map map_of_eq_None_iff)

lemma absent_file:
  assumes "p \<notin> set (tree_files t)" "reads_listed (ct_snapshot t)"
  shows "files_of sha256 st t p = None"
proof -
  have "overlay_at (ct_overlay t) p = None" using assms(1) by (simp add: overlay_at_None tree_files_set)
  moreover have "snapshot_read (ct_snapshot t) p = None"
    using assms(1) reads_listed_iff [OF assms(2), of p] unfolding tree_files_set by blast
  ultimately show ?thesis by (simp add: files_of_def tree_read_def)
qed

lemma published_result:
  assumes run: "apply_candidate_patch T sha256 action current cx st = (PUBLISHED child, published, st')"
    and H: "store_within sha256 H st" "staged_bytes T sha256 action current cx st \<subseteq> H"
    and w: "tree_wf sha256 (rv_tree current)" and b: "backed sha256 st (rv_tree current)"
    and rl: "reads_listed (ct_snapshot (rv_tree current))"
  obtains entries where "parse_unified_diff T (pa_patch_text action) = PATCH_PARSED entries"
    "list_all (\<lambda>e. editable_path T (pe_path e)) entries"
    "patch_result entries (files_of sha256 st (rv_tree current)) (files_of sha256 st' (rv_tree child))"
proof -
  from run obtain entries ps where g: "patch_gate T action current cx = Done entries"
      and l2: "list_all2 (staged_for (files_of sha256 st (rv_tree current))) entries ps"
      and d: "derive_candidate_revision T sha256 current ps st = (Inr child, st')"
      and sb: "staged_bytes T sha256 action current cx st = po_raw_bytes ` set ps"
    by (rule published_steps)
  note gate = gate_Done [OF g]
  have dp: "distinct (map po_path ps)" by (rule derive_Inr [OF d])
  note files = derive_refines(1) [OF d H(1) H(2) [unfolded sb] w b]
  let ?F = "files_of sha256 st (rv_tree current)" and ?m = "map_of (map (\<lambda>p. (po_path p, po_raw_bytes p)) ps)"
  have "(?F (pe_path e) = None \<longleftrightarrow> pe_operation e = OP_CREATE) \<and>
      (\<exists>raw. entry_applied e ?F raw \<and> files_of sha256 st' (rv_tree child) (pe_path e) = Some raw)" if e: "e \<in> set entries" for e
  proof -
    from staged_at [OF l2 e] obtain p where p: "p \<in> set ps" "staged_for ?F e p" .
    then have m: "?m (pe_path e) = Some (po_raw_bytes p)"
      using dp by (intro map_of_is_SomeI) (force simp: comp_def staged_for_def)+
    have created: "?F (pe_path e) = None" if "pe_operation e = OP_CREATE"
      using absent_file [OF no_collision_facts(1) rl] path_passed(2) gate(4) e that by blast
    have replaced: "?F (pe_path e) \<noteq> None" if "pe_operation e \<noteq> OP_CREATE"
      using p(2) that by (cases "pe_operation e") (auto simp: staged_for_def entry_applied_def)
    have "files_of sha256 st' (rv_tree child) (pe_path e) = Some (po_raw_bytes p)" using files m by simp
    then show ?thesis using p(2) created replaced unfolding staged_for_def by blast
  qed
  moreover have "files_of sha256 st' (rv_tree child) q = ?F q" if "q \<notin> pe_path ` set entries" for q
  proof -
    have "q \<notin> set (map po_path ps)" using that staged_paths [OF l2] by simp
    then have "?m q = None" by (auto simp: map_of_eq_None_iff)
    then show ?thesis using files by (simp add: map_add_def)
  qed
  ultimately have "patch_result entries ?F (files_of sha256 st' (rv_tree child))" by (simp add: patch_result_def)
  moreover have "list_all (\<lambda>e. editable_path T (pe_path e)) entries"
    unfolding list_all_iff using gate(4) path_passed(1) by blast
  ultimately show ?thesis using that gate(1) by blast
qed

section \<open>Limits\<close>

text \<open>The paths whose bytes differ from the snapshot, and the hard caps on them.\<close>

definition net_changes :: "snapshot \<Rightarrow> (utext \<Rightarrow> nat list option) \<Rightarrow> utext set" where
  "net_changes s files = {p. files p \<noteq> snapshot_read s p}"

definition within_limits :: "snapshot \<Rightarrow> (utext \<Rightarrow> nat list option) \<Rightarrow> bool" where
  "within_limits s files \<longleftrightarrow>
     finite (net_changes s files) \<and> card (net_changes s files) \<le> 3 \<and>
     card {p \<in> net_changes s files. snapshot_read s p = None} \<le> 1 \<and>
     (\<Sum>p\<in>net_changes s files. length (the (files p))) \<le> 131072"

lemma changed_files_Inr:
  assumes "changed_files sha256 st t s ps paths = Inr cs" "reads_listed s"
  defines "G \<equiv> (\<lambda>p. case postimage_at ps p of Some raw \<Rightarrow> Some raw | None \<Rightarrow> files_of sha256 st t p)"
  shows "cs = map (\<lambda>p. (p, length (the (G p)), snapshot_read s p = None)) (filter (\<lambda>p. G p \<noteq> snapshot_read s p) paths)"
  using assms(1)
proof (induction paths arbitrary: cs)
  case (Cons path paths)
  from Cons.prems obtain raw where raw: "(case postimage_at ps path of Some raw \<Rightarrow> Inr raw | None \<Rightarrow> tree_read sha256 st t path) = Inr raw"
    by (auto split: sum.splits)
  then have G: "G path = Some raw" by (auto simp: G_def files_of_def split: option.splits)
  from Cons.prems raw obtain cs' where c: "changed_files sha256 st t s ps paths = Inr cs'"
    by (auto split: if_splits sum.splits option.splits)
  note IH = Cons.IH [OF c]
  show ?case
  proof (cases "path \<in> set (snapshot_files s)")
    case False
    then have "snapshot_read s path = None" using reads_listed_iff [OF assms(2)] by blast
    then show ?thesis using Cons.prems raw c False G IH by simp
  next
    case True
    then obtain old where "snapshot_read s path = Some old" using reads_listed_iff [OF assms(2)] by blast
    then show ?thesis using Cons.prems raw c True G IH by (auto split: if_splits)
  qed
qed simp

lemma limit_Done:
  assumes "limit_failure sha256 st t s ps = Done ()"
  obtains cs where "changed_files sha256 st t s ps (sort (remdups (tree_files t @ map po_path ps))) = Inr cs"
    "length cs \<le> 3" "length (filter (\<lambda>(path, size, is_new). is_new) cs) \<le> 1"
    "sum_list (map (\<lambda>(path, size, is_new). size) cs) \<le> 131072"
  using assms that
  by (auto simp: limit_failure_def max_net_changed_files_def max_new_files_def max_total_postimage_bytes_def not_less
      split: if_splits sum.splits)

lemma map_of_rev_distinct:
  assumes "distinct (map fst xs)"
  shows "map_of (rev xs) = map_of xs"
proof
  fix k
  have "map_of (rev xs) k = Some v \<longleftrightarrow> map_of xs k = Some v" for v
    using assms by (simp add: map_of_eq_Some_iff rev_map [symmetric])
  then show "map_of (rev xs) k = map_of xs k" by (metis not_Some_eq)
qed

lemma postimage_at_distinct:
  "distinct (map po_path ps) \<Longrightarrow> postimage_at ps = map_of (map (\<lambda>p. (po_path p, po_raw_bytes p)) ps)"
  unfolding postimage_at_def by (rule ext, subst map_of_rev_distinct) (simp_all add: comp_def)

lemma limits_hold:
  assumes l: "limit_failure sha256 st t s ps = Done ()" and rl: "reads_listed s"
    and eq: "snapshot_read s = snapshot_read (ct_snapshot t)" and rt: "reads_listed (ct_snapshot t)"
    and dp: "distinct (map po_path ps)"
  shows "within_limits s (files_of sha256 st t ++ map_of (map (\<lambda>p. (po_path p, po_raw_bytes p)) ps))"
    (is "within_limits s ?G")
proof -
  let ?paths = "sort (remdups (tree_files t @ map po_path ps))"
  from l obtain cs where c: "changed_files sha256 st t s ps ?paths = Inr cs" and len: "length cs \<le> 3"
      and new: "length (filter (\<lambda>(path, size, is_new). is_new) cs) \<le> 1"
      and sum: "sum_list (map (\<lambda>(path, size, is_new). size) cs) \<le> 131072"
    by (rule limit_Done)
  have G: "(case postimage_at ps p of Some raw \<Rightarrow> Some raw | None \<Rightarrow> files_of sha256 st t p) = ?G p" for p
    unfolding postimage_at_distinct [OF dp] by (auto simp: map_add_def split: option.splits)
  define ch where "ch = filter (\<lambda>p. ?G p \<noteq> snapshot_read s p) ?paths"
  have cs: "cs = map (\<lambda>p. (p, length (the (?G p)), snapshot_read s p = None)) ch"
    using changed_files_Inr [OF c rl] unfolding G ch_def .
  have out: "?G p = None \<and> snapshot_read s p = None" if "p \<notin> set ?paths" for p
  proof -
    have "p \<notin> set (tree_files t)" "p \<notin> po_path ` set ps" using that by auto
    then have "files_of sha256 st t p = None" "map_of (map (\<lambda>p. (po_path p, po_raw_bytes p)) ps) p = None"
      using absent_file [OF _ rt] by (auto simp: map_of_eq_None_iff)
    moreover have "snapshot_read s p = None"
      unfolding eq using \<open>p \<notin> set (tree_files t)\<close> reads_listed_iff [OF rt, of p] unfolding tree_files_set by blast
    ultimately show ?thesis by (simp add: map_add_def)
  qed
  have "p \<in> set ?paths" if "p \<in> net_changes s ?G" for p
  proof (rule ccontr)
    assume "p \<notin> set ?paths"
    from out [OF this] that show False by (simp add: net_changes_def)
  qed
  then have nets: "net_changes s ?G = set ch" unfolding net_changes_def ch_def set_filter by blast
  have d: "distinct ch" by (simp add: ch_def)
  have "card (set ch) \<le> 3" using len d by (simp add: cs distinct_card)
  moreover have "card {p \<in> set ch. snapshot_read s p = None} \<le> 1"
    using new distinct_card [OF distinct_filter [OF d], of "\<lambda>p. snapshot_read s p = None"]
    by (simp add: cs filter_map comp_def)
  moreover have "(\<Sum>p\<in>set ch. length (the (?G p))) \<le> 131072"
    using sum d by (simp add: cs comp_def sum_list_distinct_conv_sum_set)
  ultimately show ?thesis by (simp add: within_limits_def nets)
qed

section \<open>The chain of revisions\<close>

text \<open>
  The revisions that one sealed snapshot leads to, each with the store of the run: the root revision, the
  child of a published patch, a revision bound to its identity, and the same revision after an unpublished
  patch or after any other object is put into the shared store. The context of a patch carries some verified
  snapshot; that it is the one of the chain is what the digest comparison of the transaction establishes.
  \<open>H\<close> are the byte strings the run hashes, on which SHA-256 is assumed to have no collision.
\<close>

definition intact :: "(nat list \<Rightarrow> string) \<Rightarrow> nat list set \<Rightarrow> snapshot \<Rightarrow> bool" where
  "intact sha256 H s \<longleftrightarrow>
     (\<exists>st. verify_snapshot sha256 s st = INTACT) \<and> scalar_paths (sn_entries s) \<and> snapshot_hashed s \<subseteq> H"

inductive candidate_chain ::
    "unicode_tables \<Rightarrow> (nat list \<Rightarrow> string) \<Rightarrow> nat list set \<Rightarrow> snapshot \<Rightarrow> revision \<Rightarrow> store \<Rightarrow> bool"
  for T sha256 H s where
  chain_root: "candidate_chain T sha256 H s r st"
    if "root_candidate_revision sha256 s = Inr r" and "intact sha256 H s" and "store_within sha256 H st"
| chain_patch: "candidate_chain T sha256 H s child st'"
    if "candidate_chain T sha256 H s r st" and "intact sha256 H (cx_snapshot cx)"
      and "staged_bytes T sha256 action r cx st \<subseteq> H"
      and "apply_candidate_patch T sha256 action r cx st = (PUBLISHED child, published, st')"
| chain_refused: "candidate_chain T sha256 H s r st'"
    if "candidate_chain T sha256 H s r st" and "staged_bytes T sha256 action r cx st \<subseteq> H"
      and "apply_candidate_patch T sha256 action r cx st = (outcome, [], st')"
| chain_bind: "candidate_chain T sha256 H s r' st"
    if "candidate_chain T sha256 H s r st" and "bind_revision_identity sha256 r d = Some r'"
| chain_put: "candidate_chain T sha256 H s r st'"
    if "candidate_chain T sha256 H s r st" and "raw \<in> H" and "store_put sha256 raw st = (ref, st')"

lemma intact_reads: "intact sha256 H s \<Longrightarrow> reads_listed s"
  using intact_facts(3) unfolding intact_def reads_listed_def by blast

lemma intact_same_reads:
  assumes "intact sha256 H s" "intact sha256 H s'" "sn_root_digest s = sn_root_digest s'" "inj_on sha256 H"
  shows "snapshot_read s = snapshot_read s'"
proof -
  have "inj_on sha256 (snapshot_hashed s \<union> snapshot_hashed s')"
    by (rule inj_on_subset [OF assms(4)]) (use assms in \<open>simp add: intact_def\<close>)
  then show ?thesis using intact_same_digest assms(1-3) unfolding intact_def by blast
qed

text \<open>What every step keeps of the tree, and what the store keeps for it.\<close>

lemma kept_tree:
  assumes keep: "\<And>ref raw. store_get sha256 st ref = Inr raw \<Longrightarrow> store_get sha256 st' ref = Inr raw"
    and "backed sha256 st t" "tree_wf sha256 t"
  shows "backed sha256 st' t \<and> files_of sha256 st' t = files_of sha256 st t"
proof
  show "backed sha256 st' t" using keep assms(2) unfolding backed_def by blast
  have "files_of sha256 st' t p = files_of sha256 st t p" for p
  proof (cases "overlay_at (ct_overlay t) p")
    case (Some e)
    then obtain old where "store_get sha256 st (ov_content_ref e) = Inr old"
      using assms(2,3) by (auto simp: backed_def overlay_at_iff tree_wf_iff)
    then show ?thesis using keep Some by (simp add: files_of_def tree_read_def)
  qed (simp add: files_of_def tree_read_def)
  then show "files_of sha256 st' t = files_of sha256 st t" by blast
qed

lemma stage_store:
  assumes "stage_postimages sha256 ps rows st = (rows', st')" "store_within sha256 H st" "po_raw_bytes ` set ps \<subseteq> H"
    and "backed sha256 st t" "tree_wf sha256 t"
  shows "store_within sha256 H st' \<and> backed sha256 st' t \<and> files_of sha256 st' t = files_of sha256 st t"
  using stage_within [OF assms(2,3,1)] kept_tree [OF stage_keeps [OF assms(2,3,1)] assms(4,5)] by blast

lemma put_store:
  assumes "store_put sha256 raw st = (ref, st')" "store_within sha256 H st" "raw \<in> H"
    and "backed sha256 st t" "tree_wf sha256 t"
  shows "store_within sha256 H st' \<and> backed sha256 st' t \<and> files_of sha256 st' t = files_of sha256 st t"
proof -
  have "st' = snd (store_put sha256 raw st)" using assms(1) by simp
  then show ?thesis
    using put_within [OF assms(2,3)] kept_tree [OF put_keeps_within [OF assms(2,3)] assms(4,5)] by blast
qed

lemma derive_store:
  assumes "derive_candidate_revision T sha256 parent ps st = (res, st')"
  shows "st' = st \<or> (\<exists>rows. stage_postimages sha256 ps (ct_overlay (rv_tree parent)) st = (rows, st'))"
  using assms
  by (auto simp: derive_candidate_revision_def Let_def split: if_splits option.splits sum.splits prod.splits)

lemma patch_store:
  assumes "apply_candidate_patch T sha256 action r cx st = (outcome, published, st')"
  shows "st' = st \<or> (\<exists>ps rows. stage_postimages sha256 ps (ct_overlay (rv_tree r)) st = (rows, st') \<and>
      staged_bytes T sha256 action r cx st = po_raw_bytes ` set ps)"
  using assms unfolding apply_candidate_patch_def staged_bytes_def
  by (auto split: attempt.splits prod.splits sum.splits tree_error.splits dest!: derive_store)

lemma patch_keeps_trees:
  assumes "apply_candidate_patch T sha256 action r cx st = (outcome, published, st')"
    and "store_within sha256 H st" "staged_bytes T sha256 action r cx st \<subseteq> H" "backed sha256 st t" "tree_wf sha256 t"
  shows "store_within sha256 H st' \<and> backed sha256 st' t \<and> files_of sha256 st' t = files_of sha256 st t"
  using patch_store [OF assms(1)] stage_store [OF _ assms(2) _ assms(4,5)] assms(2-5) by metis

lemma files_readable:
  assumes "tree_wf sha256 t" "backed sha256 st t" "reads_listed (ct_snapshot t)" "p \<in> set (tree_files t)"
  shows "files_of sha256 st t p \<noteq> None"
proof (cases "overlay_at (ct_overlay t) p")
  case None
  then have "p \<in> set (snapshot_files (ct_snapshot t))" using assms(4) by (simp add: overlay_at_None tree_files_set)
  then show ?thesis using reads_listed_iff [OF assms(3), of p] None by (auto simp: files_of_def tree_read_def)
next
  case (Some e)
  then obtain raw where "store_get sha256 st (ov_content_ref e) = Inr raw"
    using assms(1,2) by (auto simp: backed_def overlay_at_iff tree_wf_iff)
  then show ?thesis using Some by (simp add: files_of_def tree_read_def)
qed

lemma root_facts:
  assumes "root_candidate_revision sha256 s = Inr r"
  shows "ct_snapshot (rv_tree r) = s" "ct_overlay (rv_tree r) = []" "tree_wf sha256 (rv_tree r)"
    "rv_candidate_digest r = ct_digest (rv_tree r)" "rv_id r \<noteq> []"
  using assms
  by (auto simp: root_candidate_revision_def make_tree_def make_revision_def tree_wf_iff Let_def
      split: option.splits if_splits)

lemma root_reads: "ct_overlay t = [] \<Longrightarrow> files_of sha256 st t = snapshot_read (ct_snapshot t)"
  by (auto simp: files_of_def tree_read_def overlay_at_def split: option.splits)

section \<open>The invariant of the chain\<close>

definition confined_to_editable :: "unicode_tables \<Rightarrow> snapshot \<Rightarrow> (utext \<Rightarrow> nat list option) \<Rightarrow> bool" where
  "confined_to_editable T s files \<longleftrightarrow> (\<forall>p. \<not> editable_path T p \<longrightarrow> files p = snapshot_read s p)"

lemma confined_patch:
  assumes "confined_to_editable T s before" "patch_result es before after" "list_all (\<lambda>e. editable_path T (pe_path e)) es"
  shows "confined_to_editable T s after"
  unfolding confined_to_editable_def
proof (intro allI impI)
  fix p assume p: "\<not> editable_path T p"
  then have "p \<notin> pe_path ` set es" using assms(3) by (auto simp: list_all_iff)
  then show "after p = snapshot_read s p" using assms(1,2) p by (simp add: patch_result_def confined_to_editable_def)
qed

lemma published_within:
  assumes run: "apply_candidate_patch T sha256 action r cx st = (PUBLISHED child, published, st')"
    and H: "store_within sha256 H st" "staged_bytes T sha256 action r cx st \<subseteq> H"
    and w: "tree_wf sha256 (rv_tree r)" and b: "backed sha256 st (rv_tree r)"
    and i: "intact sha256 H (cx_snapshot cx)" "intact sha256 H (ct_snapshot (rv_tree r))"
  shows "within_limits (ct_snapshot (rv_tree r)) (files_of sha256 st' (rv_tree child))"
    and "tree_wf sha256 (rv_tree child)" "backed sha256 st' (rv_tree child)"
    "ct_snapshot (rv_tree child) = ct_snapshot (rv_tree r)"
proof -
  from run obtain es ps where g: "patch_gate T action r cx = Done es"
      and l: "limit_failure sha256 st (rv_tree r) (cx_snapshot cx) ps = Done ()"
      and d: "derive_candidate_revision T sha256 r ps st = (Inr child, st')"
      and sb: "staged_bytes T sha256 action r cx st = po_raw_bytes ` set ps"
    by (rule published_steps)
  note refines = derive_refines [OF d H(1) H(2) [unfolded sb] w b]
  have reads: "snapshot_read (cx_snapshot cx) = snapshot_read (ct_snapshot (rv_tree r))"
    using intact_same_reads [OF i gate_Done(3) [OF g]] H(1) by (simp add: store_within_def)
  have "distinct (map po_path ps)" by (rule derive_Inr [OF d])
  from limits_hold [OF l intact_reads [OF i(1)] reads intact_reads [OF i(2)] this]
  show "within_limits (ct_snapshot (rv_tree r)) (files_of sha256 st' (rv_tree child))"
    unfolding refines(1) within_limits_def net_changes_def reads .
  show "tree_wf sha256 (rv_tree child)" by (rule derive_Inr [OF d])
  show "backed sha256 st' (rv_tree child)" by (rule refines(3))
  show "ct_snapshot (rv_tree child) = ct_snapshot (rv_tree r)" by (rule derive_Inr [OF d])
qed

text \<open>A published patch creates at most one file, so it keeps files and directories apart.\<close>

lemma creates_at_most_one:
  assumes d: "derive_candidate_revision T sha256 r ps st = (Inr child, st')"
    and wl: "within_limits (ct_snapshot (rv_tree r)) (files_of sha256 st' (rv_tree child))"
    and files: "files_of sha256 st' (rv_tree child) =
      files_of sha256 st (rv_tree r) ++ map_of (map (\<lambda>p. (po_path p, po_raw_bytes p)) ps)"
    and rl: "reads_listed (ct_snapshot (rv_tree r))"
  shows "length (filter (\<lambda>p. po_operation p = OP_CREATE) ps) \<le> 1"
proof -
  let ?new = "filter (\<lambda>p. po_operation p = OP_CREATE) ps" and ?s = "ct_snapshot (rv_tree r)"
  have dp: "distinct (map po_path ps)" by (rule derive_Inr [OF d])
  have chk: "\<forall>p\<in>set ps. check_postimage T (rv_tree r) p = None" by (rule derive_Inr [OF d])
  have "po_path p \<in> {q \<in> net_changes ?s (files_of sha256 st' (rv_tree child)). snapshot_read ?s q = None}"
    if p: "p \<in> set ?new" for p
  proof -
    have p': "p \<in> set ps" "po_operation p = OP_CREATE" using p by simp_all
    have m: "map_of (map (\<lambda>p. (po_path p, po_raw_bytes p)) ps) (po_path p) = Some (po_raw_bytes p)"
      using dp p'(1) by (intro map_of_is_SomeI) (auto simp: comp_def)
    have "\<not> path_collides_with_tree T (rv_tree r) (po_path p)"
      using bspec [OF chk p'(1)] p'(2) by (simp add: check_postimage_def split: if_splits)
    then have "po_path p \<notin> set (tree_files (rv_tree r))" by (rule no_collision_facts)
    then have "snapshot_read ?s (po_path p) = None"
      using reads_listed_iff [OF rl, of "po_path p"] unfolding tree_files_set by blast
    moreover have "files_of sha256 st' (rv_tree child) (po_path p) = Some (po_raw_bytes p)"
      unfolding files using m by (rule map_add_find_right)
    ultimately show ?thesis by (simp add: net_changes_def)
  qed
  then have sub: "po_path ` set ?new \<subseteq>
      {q \<in> net_changes ?s (files_of sha256 st' (rv_tree child)). snapshot_read ?s q = None}" by (rule image_subsetI)
  have "distinct (map po_path ?new)" using dp by (simp add: distinct_map_filter)
  from distinct_card [OF this] have "card (po_path ` set ?new) = length ?new" unfolding set_map length_map .
  moreover have "finite {q \<in> net_changes ?s (files_of sha256 st' (rv_tree child)). snapshot_read ?s q = None}"
    "card {q \<in> net_changes ?s (files_of sha256 st' (rv_tree child)). snapshot_read ?s q = None} \<le> 1"
    using wl unfolding within_limits_def by simp_all
  ultimately show ?thesis using card_mono [OF _ sub] by linarith
qed

lemma intact_shape:
  assumes "intact sha256 H s" "root_candidate_revision sha256 s = Inr r"
  shows "shaped_tree (rv_tree r)"
proof -
  have "\<not> order_drift s" using assms(1) intact_facts(1) unfolding intact_def by blast
  then have "set (snapshot_files s) \<inter> set (directory_paths (snapshot_files s)) = {}"
    by (auto simp: order_drift_def Let_def snapshot_files_def)
  then show ?thesis
    using root_facts [OF assms(2)] by (simp add: shaped_tree_def tree_directories_set tree_files_set directory_paths_set)
qed

lemma published_shaped:
  assumes run: "apply_candidate_patch T sha256 action r cx st = (PUBLISHED child, published, st')"
    and H: "store_within sha256 H st" "staged_bytes T sha256 action r cx st \<subseteq> H"
    and w: "tree_wf sha256 (rv_tree r)" and b: "backed sha256 st (rv_tree r)"
    and rl: "reads_listed (ct_snapshot (rv_tree r))" and sh: "shaped_tree (rv_tree r)"
    and wl: "within_limits (ct_snapshot (rv_tree r)) (files_of sha256 st' (rv_tree child))"
  shows "shaped_tree (rv_tree child)"
proof -
  from run obtain ps where d: "derive_candidate_revision T sha256 r ps st = (Inr child, st')"
      and sb: "staged_bytes T sha256 action r cx st = po_raw_bytes ` set ps"
    by (rule published_steps)
  show ?thesis
    using derive_shaped [OF d w sh creates_at_most_one [OF d wl derive_refines(1) [OF d H(1) H(2) [unfolded sb] w b] rl]] .
qed

text \<open>The files that a revision changed are supported text, before and after.\<close>

definition is_text :: "nat list \<Rightarrow> bool" where
  "is_text raw \<longleftrightarrow> (\<exists>m. classify_supported_text raw = TEXT_FILE m)"

definition text_changes :: "snapshot \<Rightarrow> (utext \<Rightarrow> nat list option) \<Rightarrow> bool" where
  "text_changes s files \<longleftrightarrow>
     (\<forall>p. files p \<noteq> snapshot_read s p \<longrightarrow>
        (\<forall>raw. files p = Some raw \<longrightarrow> is_text raw) \<and> (\<forall>old. snapshot_read s p = Some old \<longrightarrow> is_text old))"

lemma postimage_text: "apply_entry_bytes e base = POSTIMAGE raw \<Longrightarrow> is_text raw"
  by (auto simp: apply_entry_bytes_def seal_postimage_def is_text_def
      split: patch_operation.splits option.splits classification.splits if_splits)

lemma replaced_text: "apply_entry_bytes e base = POSTIMAGE raw \<Longrightarrow> pe_operation e = OP_REPLACE \<Longrightarrow> is_text base"
  by (auto simp: apply_entry_bytes_def is_text_def split: option.splits classification.splits)

lemma text_changes_patch:
  assumes tc: "text_changes s before" and pr: "patch_result es before after"
    and nl: "\<And>p. before p = None \<Longrightarrow> snapshot_read s p = None"
  shows "text_changes s after"
  unfolding text_changes_def
proof (intro allI impI)
  fix p assume ne: "after p \<noteq> snapshot_read s p"
  show "(\<forall>raw. after p = Some raw \<longrightarrow> is_text raw) \<and> (\<forall>old. snapshot_read s p = Some old \<longrightarrow> is_text old)"
  proof (cases "p \<in> pe_path ` set es")
    case False
    then have "after p = before p" using pr by (simp add: patch_result_def)
    then show ?thesis using tc ne by (simp add: text_changes_def)
  next
    case True
    then obtain e raw where e: "e \<in> set es" "p = pe_path e" "entry_applied e before raw" "after p = Some raw"
        and op: "before p = None \<longleftrightarrow> pe_operation e = OP_CREATE"
      using pr by (auto simp: patch_result_def)
    have new: "is_text raw" using e(3) postimage_text by (auto simp: entry_applied_def split: patch_operation.splits)
    have "is_text old" if old: "snapshot_read s p = Some old" for old
    proof -
      obtain base where base: "before p = Some base" using nl [of p] old by force
      then have "pe_operation e = OP_REPLACE" using op by (cases "pe_operation e") auto
      then have bt: "is_text base" using e base replaced_text by (auto simp: entry_applied_def)
      show ?thesis
      proof (cases "base = old")
        case True
        then show ?thesis using bt by simp
      next
        case False
        then have "before p \<noteq> snapshot_read s p" using base old by simp
        then show ?thesis using tc old unfolding text_changes_def by blast
      qed
    qed
    then show ?thesis using new e(4) by simp
  qed
qed

definition chain_inv ::
    "unicode_tables \<Rightarrow> (nat list \<Rightarrow> string) \<Rightarrow> nat list set \<Rightarrow> snapshot \<Rightarrow> candidate_tree \<Rightarrow> store \<Rightarrow> bool" where
  "chain_inv T sha256 H s t st \<longleftrightarrow>
     intact sha256 H s \<and> store_within sha256 H st \<and> tree_wf sha256 t \<and> backed sha256 st t \<and> ct_snapshot t = s \<and>
     shaped_tree t \<and> confined_to_editable T s (files_of sha256 st t) \<and> within_limits s (files_of sha256 st t) \<and>
     text_changes s (files_of sha256 st t)"

lemma files_cover:
  assumes "chain_inv T sha256 H s t st" "files_of sha256 st t p = None"
  shows "snapshot_read s p = None"
proof (rule ccontr)
  assume a: "snapshot_read s p \<noteq> None"
  have inv: "tree_wf sha256 t" "backed sha256 st t" "ct_snapshot t = s" "reads_listed s"
    using assms(1) intact_reads unfolding chain_inv_def by blast+
  then have "p \<in> set (tree_files t)" using a reads_listed_iff [OF inv(4), of p] unfolding tree_files_set by blast
  then show False using files_readable inv assms(2) by blast
qed

lemma chain_invariant:
  assumes "candidate_chain T sha256 H s r st"
  shows "chain_inv T sha256 H s (rv_tree r) st"
  using assms
proof (induction rule: candidate_chain.induct)
  case (chain_root r st)
  note f = root_facts [OF chain_root(1)]
  show ?case
    using chain_root f root_reads [OF f(2)] intact_shape [OF chain_root(2,1)]
    by (simp add: chain_inv_def backed_def confined_to_editable_def within_limits_def net_changes_def text_changes_def)
next
  case (chain_patch r st cx action child published st')
  note run = chain_patch.hyps(4) and sb = chain_patch.hyps(3) and IH = chain_patch.IH
  have inv: "intact sha256 H s" "store_within sha256 H st" "tree_wf sha256 (rv_tree r)" "backed sha256 st (rv_tree r)"
      "ct_snapshot (rv_tree r) = s" "shaped_tree (rv_tree r)" "confined_to_editable T s (files_of sha256 st (rv_tree r))"
      "text_changes s (files_of sha256 st (rv_tree r))"
    using IH unfolding chain_inv_def by blast+
  have rl: "reads_listed (ct_snapshot (rv_tree r))" unfolding inv(5) by (rule intact_reads [OF inv(1)])
  from run inv(2) sb inv(3,4) rl obtain es where "list_all (\<lambda>e. editable_path T (pe_path e)) es"
      and pr: "patch_result es (files_of sha256 st (rv_tree r)) (files_of sha256 st' (rv_tree child))"
    by (rule published_result)
  then have "confined_to_editable T s (files_of sha256 st' (rv_tree child))" using confined_patch inv(7) by blast
  moreover have "text_changes s (files_of sha256 st' (rv_tree child))"
    using text_changes_patch [OF inv(8) pr files_cover [OF IH]] .
  moreover note within = published_within [OF run inv(2) sb inv(3,4) chain_patch.hyps(2), unfolded inv(5), OF inv(1)]
  moreover have "shaped_tree (rv_tree child)"
    using published_shaped [OF run inv(2) sb inv(3,4) rl inv(6)] within(1) inv(5) by simp
  moreover have "store_within sha256 H st'" using patch_keeps_trees [OF run inv(2) sb inv(4,3)] by simp
  ultimately show ?case using inv(1) by (simp add: chain_inv_def)
next
  case (chain_refused r st action cx outcome st')
  then show ?case using patch_keeps_trees [OF chain_refused.hyps(3)] unfolding chain_inv_def by metis
next
  case (chain_bind r st d r')
  then have "rv_tree r' = rv_tree r" by (auto simp: bind_revision_identity_def)
  then show ?case using chain_bind.IH by simp
next
  case (chain_put r st raw ref st')
  then show ?case using put_store [OF chain_put.hyps(3) _ chain_put.hyps(2)] unfolding chain_inv_def by metis
qed

end
