(* ===== verification/Candidate_Identity.thy ===== *)
theory Candidate_Identity
  imports Candidate_Chain
begin

text \<open>
  The net diff and the identity of the revisions of a chain: the diff can always be recomputed and is the
  reference diff of the two maps of files, and the identity determines the files.
\<close>

section \<open>Values that can be encoded\<close>

fun encodable :: "cvalue \<Rightarrow> bool" where
  "encodable (CStr s) = (encode_pieces s \<noteq> None)"
| "encodable (CObj kvs) = list_all (\<lambda>(k, v). encode_pieces k \<noteq> None \<and> encodable v) kvs"
| "encodable (CArr vs) = list_all encodable vs"
| "encodable v = True"

lemma those_None: "those xs = None \<longleftrightarrow> None \<in> set xs"
proof (induction xs)
  case (Cons x xs)
  then show ?case by (cases x) auto
qed simp

lemma encode_item_None: "encode_item (k, x) = None \<longleftrightarrow> encode_pieces k = None \<or> x = None"
  by (auto simp: encode_item_def encode_string_def split: option.splits)

lemma None_in_map: "None \<in> set (map f xs) \<longleftrightarrow> \<not> list_all (\<lambda>x. f x \<noteq> None) xs"
  by (induction xs) (auto simp: eq_commute)

lemma encode_object_None:
  "encode_value (CObj kvs) = None \<longleftrightarrow> \<not> list_all (\<lambda>kv. encode_item (fst kv, encode_value (snd kv)) \<noteq> None) kvs"
proof -
  have "encode_value (CObj kvs) = None \<longleftrightarrow>
      None \<in> set (map encode_item (sort_key fst (map (\<lambda>(k, v). (k, encode_value v)) kvs)))"
    by (simp only: encode_value.simps Let_def option.map_disc_iff those_None)
  also have "\<dots> \<longleftrightarrow> None \<in> set (map encode_item (map (\<lambda>(k, v). (k, encode_value v)) kvs))"
    by (simp only: set_map set_sort)
  also have "\<dots> \<longleftrightarrow> \<not> list_all (\<lambda>kv. encode_item (fst kv, encode_value (snd kv)) \<noteq> None) kvs"
    unfolding map_map None_in_map comp_def case_prod_beta' ..
  finally show ?thesis .
qed

lemma encode_value_None: "encode_value v = None \<longleftrightarrow> \<not> encodable v"
proof (induction v rule: encodable.induct)
  case (2 kvs)
  have "encode_item (fst kv, encode_value (snd kv)) \<noteq> None \<longleftrightarrow> (case kv of (k, v) \<Rightarrow> encode_pieces k \<noteq> None \<and> encodable v)"
    if "kv \<in> set kvs" for kv
    using 2 [OF that, of "fst kv" "snd kv"] unfolding encode_item_None by (cases kv) simp
  then show ?case unfolding encode_object_None encodable.simps by (simp cong: list.pred_cong)
next
  case (3 vs)
  have "encode_value (CArr vs) = None \<longleftrightarrow> \<not> list_all (\<lambda>v. encode_value v \<noteq> None) vs"
    by (simp only: encode_value.simps option.map_disc_iff those_None None_in_map)
  then show ?case using 3 by (simp cong: list.pred_cong)
qed (simp_all add: encode_string_def)

lemma domain_digest_None: "domain_digest sha256 t n v = None \<longleftrightarrow> \<not> encodable v"
  by (simp add: domain_digest_def canonical_json_bytes_def encode_value_None)

lemma encode_pieces_lit [simp]: "\<exists>y. encode_pieces (lit s) = Some y"
  using encode_pieces_scalar [OF scalar_lit] by blast

section \<open>The reference diff\<close>

definition text_style :: "nat list \<Rightarrow> text_metadata" where
  "text_style raw =
     (case classify_supported_text raw of TEXT_FILE m \<Rightarrow> m | NON_TEXT_FILE \<Rightarrow> \<lparr>tm_encoding = UTF8, tm_newline = LF\<rparr>)"

text \<open>The row of one changed path, from the two maps of files alone.\<close>

definition reference_row :: "(nat list \<Rightarrow> string) \<Rightarrow> snapshot \<Rightarrow> (utext \<Rightarrow> nat list option) \<Rightarrow> utext \<Rightarrow> diff_entry" where
  "reference_row sha256 s files p =
     \<lparr>de_operation = (if snapshot_read s p = None then OP_CREATE else OP_REPLACE), de_path = p,
      de_preimage =
        (case snapshot_read s p of None \<Rightarrow> PREIMAGE_ABSENT | Some old \<Rightarrow> PREIMAGE_PRESENT (sha256 old) (text_style old)),
      de_postimage_digest = sha256 (the (files p)), de_postimage_text_metadata = text_style (the (files p))\<rparr>"

text \<open>A snapshot whose rows carry the text style of their bytes.\<close>

definition profiled :: "snapshot \<Rightarrow> bool" where
  "profiled s \<longleftrightarrow>
     (\<forall>p f raw. snapshot_file_at s p = Some f \<longrightarrow> snapshot_read s p = Some raw \<longrightarrow>
        fe_text_profile f = (if is_text raw then Some (text_style raw) else None))"

lemma snapshot_file_at_None: "snapshot_file_at s p = None \<longleftrightarrow> p \<notin> set (snapshot_files s)"
  unfolding snapshot_file_at_def map_of_eq_None_iff by (force simp: snapshot_files_def)

definition diffable :: "snapshot \<Rightarrow> (utext \<Rightarrow> nat list option) \<Rightarrow> utext \<Rightarrow> bool" where
  "diffable s files p \<longleftrightarrow>
     files p \<noteq> None \<and>
     (files p \<noteq> snapshot_read s p \<longrightarrow>
        startswith p (lit ''src/'') \<and> is_text (the (files p)) \<and> (\<forall>old. snapshot_read s p = Some old \<longrightarrow> is_text old))"

lemma changed_entry_text:
  assumes "is_text post" "startswith path (lit ''src/'')" "preimage = PREIMAGE_ABSENT \<longleftrightarrow> op = OP_CREATE"
  shows "changed_entry sha256 path op preimage post = Inr
    \<lparr>de_operation = op, de_path = path, de_preimage = preimage, de_postimage_digest = sha256 post,
     de_postimage_text_metadata = text_style post\<rparr>"
proof -
  obtain m where "classify_supported_text post = TEXT_FILE m" using assms(1) by (auto simp: is_text_def)
  moreover have "editable_matches path op" unfolding editable_under_src by (rule assms(2))
  ultimately show ?thesis
    using assms(3) by (cases op) (auto simp: changed_entry_def make_diff_entry_def text_style_def)
qed

lemma path_entry_reference:
  assumes rl: "reads_listed s" and pr: "profiled s" and d: "diffable s files p" and post: "files p = Some post"
  shows "path_entry sha256 s p post =
    Inr (if files p \<noteq> snapshot_read s p then Some (reference_row sha256 s files p) else None)"
proof (cases "snapshot_file_at s p")
  case None
  then have "snapshot_read s p = None" using reads_listed_iff [OF rl, of p] unfolding snapshot_file_at_None by blast
  then show ?thesis
    using d post None changed_entry_text [of post p PREIMAGE_ABSENT OP_CREATE sha256]
    by (simp add: path_entry_def reference_row_def diffable_def)
next
  case (Some f)
  then have "p \<in> set (snapshot_files s)" using snapshot_file_at_None [of s p] by simp
  then obtain old where old: "snapshot_read s p = Some old" using reads_listed_iff [OF rl, of p] by blast
  have prof: "fe_text_profile f = (if is_text old then Some (text_style old) else None)"
    using pr Some old by (simp add: profiled_def)
  show ?thesis
  proof (cases "old = post")
    case True
    then show ?thesis using Some old post by (simp add: path_entry_def)
  next
    case False
    then have "is_text post" "is_text old" "startswith p (lit ''src/'')" using d post old by (simp_all add: diffable_def)
    then show ?thesis
      using Some old post prof False changed_entry_text [of post p "PREIMAGE_PRESENT (sha256 old) (text_style old)" OP_REPLACE sha256]
      by (simp add: path_entry_def reference_row_def)
  qed
qed

lemma diff_rows_reference:
  assumes rl: "reads_listed s" and pr: "profiled s" and d: "\<forall>p\<in>set paths. diffable s (files_of sha256 st t) p"
  shows "diff_rows sha256 st s t paths = Inr
    (map (\<lambda>p. (reference_row sha256 s (files_of sha256 st t) p, length (the (files_of sha256 st t p))))
      (filter (\<lambda>p. files_of sha256 st t p \<noteq> snapshot_read s p) paths))"
  using d
proof (induction paths)
  case (Cons p paths)
  have dp: "diffable s (files_of sha256 st t) p" using Cons.prems by simp
  then obtain post where post: "files_of sha256 st t p = Some post" by (auto simp: diffable_def)
  then have r: "tree_read sha256 st t p = Inr post" by (auto simp: files_of_def split: sum.splits)
  show ?case
    using Cons.IH Cons.prems path_entry_reference [OF rl pr dp post, of sha256] r post by simp
qed simp

section \<open>The diff of a chain\<close>

lemma created_profiled:
  assumes "create_snapshot_tree T sha256 sealed st = Inr s"
  shows "profiled s"
proof -
  from assms obtain rows policy where d: "distinct (map sf_path (pf_files sealed))"
      and seal: "seal_snapshot sha256 policy rows = Inr s"
      and eq: "map (\<lambda>(row, ref, raw). sf_path row) rows = map sf_path (pf_files sealed)"
    by (rule create_snapshot_tree_Inr)
  note e = seal_snapshot_Inr [OF seal]
  have fr: "file_rows (sn_entries s) = sealed_rows rows" unfolding e(1) by (rule rows_of_seal)
  show ?thesis
    unfolding profiled_def
  proof (intro allI impI)
    fix p f raw assume f: "snapshot_file_at s p = Some f" and raw: "snapshot_read s p = Some raw"
    from f have "(p, f) \<in> set (rev (map (\<lambda>f. (fe_path f, f)) (sealed_rows rows)))"
      unfolding snapshot_file_at_def fr by (rule map_of_SomeD)
    then obtain row ref b where m: "(row, ref, b) \<in> set rows" and p: "p = sf_path row"
        and fe: "f = file_entry_from_classification row ref (classify_supported_text b)"
      by (auto simp: sealed_rows_def file_entry_from_classification_def)
    have "distinct (map (\<lambda>(row, ref, raw). sf_path row) rows)" unfolding eq by (rule d)
    from map_of_rows [OF this m] have "raw = b" using raw unfolding snapshot_read_def e(2) p by simp
    then show "fe_text_profile f = (if is_text raw then Some (text_style raw) else None)"
      unfolding fe by (auto simp: file_entry_from_classification_def is_text_def text_style_def split: classification.splits)
  qed
qed

lemma chain_diffable:
  assumes inv: "chain_inv T sha256 H s t st" and p: "p \<in> set (tree_files t)"
  shows "diffable s (files_of sha256 st t) p"
proof -
  let ?F = "files_of sha256 st t"
  have i: "tree_wf sha256 t" "backed sha256 st t" "ct_snapshot t = s" "reads_listed s"
      "confined_to_editable T s ?F" "text_changes s ?F"
    using inv intact_reads unfolding chain_inv_def by blast+
  obtain raw where raw: "?F p = Some raw" using files_readable [OF i(1,2) _ p] i(3,4) by auto
  have e: "startswith p (lit ''src/'')" if "?F p \<noteq> snapshot_read s p"
    using i(5) that unfolding confined_to_editable_def editable_path_def by blast
  have "is_text raw \<and> (\<forall>old. snapshot_read s p = Some old \<longrightarrow> is_text old)" if "?F p \<noteq> snapshot_read s p"
    using i(6) that raw unfolding text_changes_def by blast
  with e raw show ?thesis unfolding diffable_def by (metis option.distinct(1) option.sel)
qed

lemma changed_in_overlay:
  assumes "ct_snapshot t = s" "files_of sha256 st t p \<noteq> snapshot_read s p"
  shows "p \<in> ov_path ` set (ct_overlay t)"
proof (rule ccontr)
  assume "p \<notin> ov_path ` set (ct_overlay t)"
  then have "overlay_at (ct_overlay t) p = None" by (simp add: overlay_at_None)
  then have "files_of sha256 st t p = snapshot_read s p"
    using assms(1) by (simp add: files_of_def tree_read_def split: option.splits)
  with assms(2) show False ..
qed

lemma overlay_encodable:
  assumes "tree_wf sha256 t" "e \<in> set (ct_overlay t)"
  shows "encode_pieces (ov_path e) \<noteq> None"
proof -
  have "digest_candidate_tree sha256 (sn_root_digest (ct_snapshot t)) (ct_overlay t) \<noteq> None"
    using assms(1) by (simp add: tree_wf_iff)
  then have "encodable (tree_value (sn_root_digest (ct_snapshot t)) (ct_overlay t))"
    unfolding digest_candidate_tree_def domain_digest_None by simp
  then have "encodable (overlay_value e)" using assms(2) by (simp add: tree_value_def list.pred_map list_all_iff del: lit_simps)
  then show ?thesis by (simp add: overlay_value_def del: lit_simps)
qed

lemma diff_digest_Some:
  assumes "\<forall>e\<in>set es. encode_pieces (de_path e) \<noteq> None"
  shows "\<exists>d. final_diff_digest sha256 root es n = Some d"
proof -
  have m: "encodable (metadata_value m)" for m by (simp add: metadata_value_def del: lit_simps)
  have "encodable (preimage_value p)" for p using m by (cases p) (simp_all del: lit_simps)
  then have "encodable (diff_entry_value e)" if "e \<in> set es" for e
    using assms that m by (simp add: diff_entry_value_def del: lit_simps)
  then have "encodable (final_diff_value root es n)" by (simp add: final_diff_value_def list_all_iff del: lit_simps)
  then show ?thesis unfolding final_diff_digest_def using domain_digest_None [of sha256] by (metis option.exhaust)
qed

lemma filtered_sorted:
  assumes "finite {p. P p}" "{p. P p} \<subseteq> set ps"
  shows "filter P (sort (remdups ps)) = sorted_list_of_set {p. P p}"
proof -
  have "sorted (filter P (sort (remdups ps)))" "distinct (filter P (sort (remdups ps)))" by (simp_all add: sorted_wrt_filter)
  then have "sorted_list_of_set (set (filter P (sort (remdups ps)))) = filter P (sort (remdups ps))"
    by (rule sorted_list_of_set.idem_if_sorted_distinct)
  moreover have "set (filter P (sort (remdups ps))) = {p. P p}" using assms(2) by auto
  ultimately show ?thesis by simp
qed

lemma chain_diff:
  assumes inv: "chain_inv T sha256 H s t st" and pr: "profiled s"
  defines "F \<equiv> files_of sha256 st t" and "changed \<equiv> {p. files_of sha256 st t p \<noteq> snapshot_read s p}"
  obtains d where "recompute_final_diff sha256 st s t (sn_policy_digest s) = Inr d"
    "fd_entries d = map (reference_row sha256 s F) (sorted_list_of_set changed)"
    "fd_text_bytes d = (\<Sum>p\<in>changed. length (the (F p)))"
proof -
  have i: "tree_wf sha256 t" "ct_snapshot t = s" "reads_listed s" "within_limits s F"
    using inv intact_reads unfolding chain_inv_def F_def by blast+
  have sub: "set (snapshot_files s) \<subseteq> set (tree_files t)" unfolding tree_files_set i(2) by simp
  have ch: "changed \<subseteq> set (tree_files t)"
    unfolding changed_def tree_files_set using changed_in_overlay [OF i(2)] by blast
  have wl: "finite changed" "card changed \<le> 3" "(\<Sum>p\<in>changed. length (the (F p))) \<le> 131072"
    using i(4) unfolding within_limits_def net_changes_def changed_def F_def by simp_all
  let ?paths = "sort (remdups (snapshot_files s @ tree_files t))"
  have "\<forall>p\<in>set ?paths. diffable s (files_of sha256 st t) p" using chain_diffable [OF inv] sub by auto
  from diff_rows_reference [OF i(3) pr this, folded F_def] have "diff_rows sha256 st s t ?paths = Inr
      (map (\<lambda>p. (reference_row sha256 s F p, length (the (F p)))) (filter (\<lambda>p. F p \<noteq> snapshot_read s p) ?paths))" .
  moreover have "filter (\<lambda>p. F p \<noteq> snapshot_read s p) ?paths = sorted_list_of_set changed"
    unfolding changed_def F_def by (rule filtered_sorted) (use wl(1) ch in \<open>auto simp: changed_def\<close>)
  ultimately have rows: "diff_rows sha256 st s t ?paths =
      Inr (map (\<lambda>p. (reference_row sha256 s F p, length (the (F p)))) (sorted_list_of_set changed))"
    by simp
  define entries where "entries = map (reference_row sha256 s F) (sorted_list_of_set changed)"
  have paths: "map de_path entries = sorted_list_of_set changed"
    by (simp add: entries_def comp_def reference_row_def)
  have len: "length entries \<le> 3" using wl by (simp add: entries_def)
  have sum: "sum_list (map (\<lambda>p. length (the (F p))) (sorted_list_of_set changed)) = (\<Sum>p\<in>changed. length (the (F p)))"
    using wl(1) by (simp add: sum_list_distinct_conv_sum_set)
  have "\<forall>e\<in>set entries. encode_pieces (de_path e) \<noteq> None"
    using overlay_encodable [OF i(1)] changed_in_overlay [OF i(2)] wl(1)
    by (fastforce simp: entries_def reference_row_def changed_def)
  then obtain g where g: "final_diff_digest sha256 (sn_root_digest s) entries (\<Sum>p\<in>changed. length (the (F p))) = Some g"
    using diff_digest_Some by blast
  have "sort (map de_path entries) = map de_path entries" "distinct (map de_path entries)"
    unfolding paths by (simp_all add: sorted_sort_id)
  then have "recompute_final_diff sha256 st s t (sn_policy_digest s) = Inr
      \<lparr>fd_snapshot_tree_digest = sn_root_digest s, fd_entries = entries,
       fd_text_bytes = (\<Sum>p\<in>changed. length (the (F p))), fd_digest = g\<rparr>"
    using i(2) sub rows len wl(3) g sum
    by (simp add: recompute_final_diff_def make_final_diff_def Let_def comp_def entries_def [symmetric]
        max_diff_entries_def max_diff_bytes_def)
  then show ?thesis using that by (simp add: entries_def)
qed

section \<open>The identity\<close>

definition tree_input :: "candidate_tree \<Rightarrow> nat list" where
  "tree_input t = digest_input ''CandidateTreeV1'' 1 (tree_value (sn_root_digest (ct_snapshot t)) (ct_overlay t))"

definition identity_input :: "candidate_tree \<Rightarrow> string \<Rightarrow> nat list" where
  "identity_input t diff_digest =
     digest_input ''CandidateIdentityV1'' 1 (identity_value (sn_root_digest (ct_snapshot t)) (ct_digest t) diff_digest)"

definition scalar_overlay :: "candidate_tree \<Rightarrow> bool" where
  "scalar_overlay t \<longleftrightarrow> list_all (\<lambda>e. list_all scalar (ov_path e)) (ct_overlay t)"

lemma tree_value_scalar: "scalar_overlay t \<Longrightarrow> scalar_value (tree_value root (ct_overlay t))"
proof -
  assume a: "scalar_overlay t"
  have "scalar_value (overlay_value e)" if "list_all scalar (ov_path e)" for e
    using that scalar_lit by (simp add: overlay_value_def ref_value_def del: lit_simps)
  then show ?thesis
    using a scalar_lit
    by (simp add: scalar_overlay_def tree_value_def list.pred_map comp_def list.pred_mono_strong del: lit_simps)
qed

lemma tree_digest_input: "tree_wf sha256 t \<Longrightarrow> scalar_overlay t \<Longrightarrow> ct_digest t = sha256 (tree_input t)"
  using domain_digest_input [OF tree_value_scalar, of t sha256 "''CandidateTreeV1''" 1 "sn_root_digest (ct_snapshot t)"]
  by (simp add: tree_wf_iff digest_candidate_tree_def tree_input_def)

lemma overlay_value_inj: "normal (overlay_value e) = normal (overlay_value d) \<longleftrightarrow> e = d"
proof -
  have "operation_name a = operation_name b \<longleftrightarrow> a = b" for a b by (cases a; cases b) simp_all
  then show ?thesis by (cases e; cases d) (auto simp: overlay_value_def lit_inj ref_value_inj)
qed

lemma tree_value_inj:
  assumes "normal (tree_value root ov) = normal (tree_value root' ov')"
  shows "root = root' \<and> ov = ov'"
proof -
  from assms have "root = root'" and "map (\<lambda>e. normal (overlay_value e)) ov = map (\<lambda>e. normal (overlay_value e)) ov'"
    by (simp_all add: tree_value_def lit_inj comp_def)
  moreover have "inj (\<lambda>e. normal (overlay_value e))" by (rule injI) (simp add: overlay_value_inj)
  ultimately show ?thesis by (simp add: inj_map_eq_map)
qed

lemma tree_input_inj:
  assumes "scalar_overlay t" "scalar_overlay t'" "tree_input t = tree_input t'"
  shows "sn_root_digest (ct_snapshot t) = sn_root_digest (ct_snapshot t') \<and> ct_overlay t = ct_overlay t'"
proof -
  have "normal (tree_value (sn_root_digest (ct_snapshot t)) (ct_overlay t)) =
      normal (tree_value (sn_root_digest (ct_snapshot t')) (ct_overlay t'))"
    using assms(3) digest_input_inj [OF _ _ tree_value_scalar [OF assms(1)] tree_value_scalar [OF assms(2)],
        of "''CandidateTreeV1''" "''CandidateTreeV1''" 1 "sn_root_digest (ct_snapshot t)" 1 "sn_root_digest (ct_snapshot t')"]
    by (simp add: tree_input_def)
  then show ?thesis by (rule tree_value_inj)
qed

lemma identity_value_scalar: "scalar_value (identity_value a b c)"
  using scalar_lit by (simp add: identity_value_def del: lit_simps)

lemma identity_input_inj:
  assumes "identity_input t d = identity_input t' d'"
  shows "ct_digest t = ct_digest t' \<and> d = d'"
proof -
  have "normal (identity_value (sn_root_digest (ct_snapshot t)) (ct_digest t) d) =
      normal (identity_value (sn_root_digest (ct_snapshot t')) (ct_digest t') d')"
    using assms digest_input_inj [OF _ _ identity_value_scalar identity_value_scalar,
        of "''CandidateIdentityV1''" "''CandidateIdentityV1''" 1 "sn_root_digest (ct_snapshot t)" "ct_digest t" d
          1 "sn_root_digest (ct_snapshot t')" "ct_digest t'" d']
    by (simp add: identity_input_def)
  then show ?thesis by (simp add: identity_value_def lit_inj)
qed

lemma bound_digest:
  assumes "bind_revision_identity sha256 r d = Some b"
  shows "rv_candidate_digest b = sha256 (identity_input (rv_tree r) d)"
  using assms
  by (auto simp: bind_revision_identity_def build_candidate_identity_def make_diff_identity_def
      candidate_identity_digest_def domain_digest_input [OF identity_value_scalar] identity_input_def split: if_splits)

lemma bind_Some: "\<exists>b. bind_revision_identity sha256 r d = Some b"
  by (simp add: bind_revision_identity_def build_candidate_identity_def make_diff_identity_def
      candidate_identity_digest_def domain_digest_input [OF identity_value_scalar])

lemma same_rows_same_files:
  assumes inv: "chain_inv T sha256 H s t st" "chain_inv T' sha256 H s' t' st'"
    and ov: "ct_overlay t = ct_overlay t'" and reads: "snapshot_read s = snapshot_read s'"
  shows "files_of sha256 st t = files_of sha256 st' t'"
proof
  fix p
  have i: "tree_wf sha256 t" "store_within sha256 H st" "store_within sha256 H st'" "backed sha256 st t" "backed sha256 st' t'"
      "ct_snapshot t = s" "ct_snapshot t' = s'"
    using inv unfolding chain_inv_def by blast+
  show "files_of sha256 st t p = files_of sha256 st' t' p"
  proof (cases "overlay_at (ct_overlay t) p")
    case (Some e)
    then have e: "e \<in> set (ct_overlay t)" using i(1) by (simp add: overlay_at_iff tree_wf_iff)
    then obtain raw raw' where g: "store_get sha256 st (ov_content_ref e) = Inr raw"
        "store_get sha256 st' (ov_content_ref e) = Inr raw'"
      using i(4,5) ov unfolding backed_def by metis
    have "sha256 raw = sha256 raw'" using g unfolding get_sound by (simp add: ref_of_def)
    moreover have "raw \<in> H" "raw' \<in> H" using get_within i(2,3) g by blast+
    ultimately have "raw = raw'" using i(2) unfolding store_within_def by (blast dest: inj_onD)
    then show ?thesis using Some ov g by (simp add: files_of_def tree_read_def)
  next
    case None
    then show ?thesis using ov reads i(6,7) by (simp add: files_of_def tree_read_def)
  qed
qed

end
