(* ===== verification/Patch_Properties.thy ===== *)
theory Patch_Properties
  imports Patch_Apply
begin

text \<open>
  The properties of the strict patch parser and of exact application, with the small patch they are
  evaluated on.
\<close>

section \<open>A small patch\<close>

definition ascii_tables :: unicode_tables where
  \<comment> \<open>The tables restricted to ASCII, where case folding is lower case and NFC changes nothing.\<close>
  "ascii_tables =
     \<lparr>ut_casefold = map (\<lambda>c. if 65 \<le> c \<and> c \<le> 90 then c + 32 else c), ut_nfc = (\<lambda>s. s)\<rparr>"

definition one_line_hunk :: hunk where
  "one_line_hunk =
     \<lparr>hk_old_start = 1, hk_old_count = 1, hk_new_start = 1, hk_new_count = 1,
      hk_lines = [\<lparr>hl_kind = DELETE_LINE, hl_text = [97]\<rparr>, \<lparr>hl_kind = ADD_LINE, hl_text = [98]\<rparr>]\<rparr>"

definition one_line_entry :: patch_entry where
  "one_line_entry =
     \<lparr>pe_operation = OP_REPLACE, pe_path = lit ''x'', pe_old_path = lit ''a/x'', pe_new_path = lit ''b/x'',
      pe_hunks = [one_line_hunk]\<rparr>"

lemma x_canonical: "is_canonical_path ascii_tables (lit ''x'')"
  by (simp add: is_canonical_path_def validate_path_def segments_def check_collisions_def ascii_tables_def
      startswith_def endswith_def drive_prefix_def invalid_character_def reserved_segment_def reserved_device_names_def)

lemma small_numbers: "0 < max_number" "1 < max_number" "Suc 0 < max_number"
  using max_number_one by simp_all

lemma one_line_wf: "wf_patch ascii_tables [one_line_entry]"
  using x_canonical small_numbers
  by (simp add: wf_patch_def wf_entry_def wf_hunk_def hunk_ok_def wf_line_def distinct_paths_def distinguishable_def
      one_line_entry_def one_line_hunk_def uspace_def startswith_def control_def)

lemma dec_digit: "n < 10 \<Longrightarrow> dec n = [48 + n]"
  by (subst dec_rec) simp

lemma one_line_ascii: "list_all (\<lambda>c. c < 128) (print_patch [one_line_entry])"
  by (simp add: print_patch_def print_entry_def print_hunk_def print_line_def print_range_eq dec_digit
      one_line_entry_def one_line_hunk_def)

lemma ascii_scalar: "c < 128 \<Longrightarrow> scalar c"
  by (simp add: scalar_def)

lemma one_line_text: "list_all scalar (print_patch [one_line_entry])"
  using one_line_ascii by (rule list.pred_mono_strong) (rule ascii_scalar)

lemma parsed_clean:
  assumes "parse_unified_diff T s = PATCH_PARSED es" "list_all scalar s" "e \<in> set es"
  shows "clean_hunks (pe_hunks e)"
proof -
  have w: "wf_patch T es" and sub: "hunk_chars (pe_hunks e) \<subseteq> set s"
    using parse_sound [OF assms(1)] assms(3) by auto
  have "line_ok (hl_text l)" if "h \<in> set (pe_hunks e)" "l \<in> set (hk_lines h)" for h l
  proof -
    have m: "set (hl_text l) \<subseteq> hunk_chars (pe_hunks e)" using that by (auto simp: hunk_chars_def chars_def)
    have n: "hunk_chars (pe_hunks e) \<inter> control = {}" using w assms(3) by (simp add: wf_patch_def)
    have "scalar c \<and> c \<notin> control" if "c \<in> set (hl_text l)" for c
      using that m n sub assms(2) by (auto simp: list_all_iff)
    then show ?thesis by (simp add: line_ok_def list_all_iff control_def)
  qed
  moreover have "hunk_ok h" if "h \<in> set (pe_hunks e)" for h
    using w assms(3) that by (auto simp: wf_patch_def wf_entry_def wf_hunk_def list_all_iff)
  ultimately show ?thesis by (simp add: clean_hunks_def)
qed

lemma one_line_meaning:
  "\<exists>nl ls out. body_text nl ls [97, 10] \<and> patched 0 0 ls (pe_hunks one_line_entry) out \<and>
     [98, 10] = encode (unlines (terminator nl) (written_lines out)) \<and> bom_style [98, 10] = bom_style [97, 10]"
proof -
  have "body_text LF [[97]] [97, 10]"
    by (simp add: body_text_def line_ok_def scalar_def encode_char_def)
  moreover have "patched 0 0 [[97]] [one_line_hunk] [[98]]"
    using patched_hunk [OF _ _ patched_end, of one_line_hunk 0 "[]" 0 "[]"]
    by (simp add: hunk_index_def new_index_def old_text_def new_text_def one_line_hunk_def)
  ultimately show ?thesis
    by (intro exI [of _ LF] exI [of _ "[[97]]"] exI [of _ "[[98]]"])
      (simp add: one_line_entry_def written_lines_def encode_char_def bom_style_def startswith_def utf8_bom_def)
qed

lemma one_line_parsed: "parse_unified_diff ascii_tables (print_patch [one_line_entry]) = PATCH_PARSED [one_line_entry]"
  using one_line_wf by (rule parse_print)

lemma one_line_applied: "apply_entry_bytes one_line_entry [97, 10] = POSTIMAGE [98, 10]"
  using replace_iff [OF parsed_clean [OF one_line_parsed one_line_text]] one_line_meaning
  by (simp add: one_line_entry_def)

section \<open>Properties\<close>




text \<open>
  Claim C28. Application loses nothing: exchanging the old and new side of every hunk gives an entry that
  turns the postimage back into the base, byte for byte, whenever the postimage is not the single line
  terminator (which the code also writes when every line was deleted).
\<close>

theorem patch_reversible:
  assumes "parse_unified_diff T s = PATCH_PARSED es" and "list_all scalar s"
    and "e \<in> set es" and "pe_operation e = OP_REPLACE"
    and "apply_entry_bytes e raw = POSTIMAGE post" and "post \<notin> {[10], [13, 10]}"
  shows "apply_entry_bytes (invert_entry e) post = POSTIMAGE raw"
proof -
  have c: "clean_hunks (pe_hunks e)" by (rule parsed_clean [OF assms(1-3)])
  obtain nl ls out where b: "body_text nl ls raw" and p: "patched 0 0 ls (pe_hunks e) out"
      and post: "post = encode (unlines (terminator nl) (written_lines out))" and bom: "bom_style post = bom_style raw"
    using assms(5) unfolding replace_iff [OF c assms(4)] by blast
  have out: "written_lines out = out" using post assms(6) by (cases nl) (auto simp: written_lines_def encode_char_def)
  have ls: "written_lines ls = ls" using b by (auto simp: written_lines_def body_text_def)
  have "body_text nl out post"
    using seal_postimage_iff(1) [OF written_line_ok [OF c p], of nl] b post unfolding out by (simp add: body_text_def)
  moreover have "patched 0 0 out (pe_hunks (invert_entry e)) ls"
    using patched_invert [OF p] by (simp add: invert_entry_def)
  moreover have "raw = encode (unlines (terminator nl) (written_lines ls))" unfolding ls using b by (simp add: body_text_def)
  moreover have "clean_hunks (pe_hunks (invert_entry e))" using clean_invert [OF c] by (simp add: invert_entry_def)
  moreover have "pe_operation (invert_entry e) = OP_REPLACE" using assms(4) by (simp add: invert_entry_def)
  ultimately show ?thesis using replace_iff bom by metis
qed

theorem patch_reversible_witness:
  "apply_entry_bytes one_line_entry [97, 10] = POSTIMAGE [98, 10] \<and>
   apply_entry_bytes (invert_entry one_line_entry) [98, 10] = POSTIMAGE [97, 10]"
  using patch_reversible [OF one_line_parsed one_line_text _ _ one_line_applied] one_line_applied
  by (simp add: one_line_entry_def)

text \<open>
  Claim C30. The supported text files are exactly the non-empty sequences of lines of Unicode scalar values
  other than NUL, CR and LF, each ended by the one newline style of the file, in UTF-8; the classifier
  reports that style and whether the bytes begin with the byte order mark, and splitting such a file gives
  those lines back.
\<close>

theorem classification_exact:
  "classify_supported_text raw = TEXT_FILE m \<longleftrightarrow>
     (\<exists>ls. ls \<noteq> [] \<and> list_all line_ok ls \<and> raw = encode (unlines (terminator (tm_newline m)) ls) \<and>
        split_lines raw (terminator (tm_newline m)) = Some ls) \<and>
     tm_encoding m = (if startswith raw utf8_bom then UTF8_BOM else UTF8)"
proof -
  have "(\<exists>ls. body_text (tm_newline m) ls raw) \<longleftrightarrow>
     (\<exists>ls. ls \<noteq> [] \<and> list_all line_ok ls \<and> raw = encode (unlines (terminator (tm_newline m)) ls) \<and>
        split_lines raw (terminator (tm_newline m)) = Some ls)"
    unfolding body_text_def list_all_iff by (metis split_lines_unlines)
  then show ?thesis unfolding classify_iff by simp
qed

text \<open>
  A path is canonical exactly when every component is plain (not empty, a dot name, ending in a
  dot or a blank, a reserved device name, or holding a separator, colon, backslash or control character) and
  no two different components alias under case folding or normalisation; every directory above a canonical
  path is canonical too.
\<close>

theorem canonical_path_exact:
  "is_canonical_path T p \<longleftrightarrow>
     list_all (plain_segment T) (segments p) \<and>
     distinguishable (ut_casefold T) (segments p) \<and> distinguishable (ut_nfc T) (segments p) \<and>
     (\<forall>n. is_canonical_path T (ancestor (Suc n) p))"
  using canonical_path_iff [of T p] ancestor_canonical [of T p] by (auto simp: list_all_iff)

section \<open>Flaws\<close>

lemmas parser_eval =
  parse_entry_def parse_headers_def dev_null_def canonical_header_path_def uspace_def parse_hunk_def
  match_hunk_header_def match_range_def udigit_def parse_range_def parse_int_def max_int_digits_def
  finish_hunk_def make_hunk_def make_entry_def hunk_ok_def is_known_extended_header_def known_extended_headers_def
  startswith_def endswith_def Let_def x_canonical [simplified]

text \<open>Deleting every line leaves one blank line, although the patch declares an empty new side.\<close>

lemma deleting_everything_leaves_a_line:
  assumes "clean_hunks (pe_hunks e)" "pe_operation e = OP_REPLACE"
    "body_text nl ls raw" "bom_style raw = UTF8" "patched 0 0 ls (pe_hunks e) []"
  shows "apply_entry_bytes e raw = POSTIMAGE (terminator nl)"
  unfolding replace_iff [OF assms(1,2)]
  using assms(3-5) by (intro exI [of _ nl] exI [of _ ls] exI [of _ "[]"]) 
    (cases nl; simp add: written_lines_def encode_char_def bom_style_def startswith_def utf8_bom_def)

text \<open>A new-file entry whose hunk declares and deletes old lines makes the parser raise.\<close>

definition created_with_old_side :: utext where
  "created_with_old_side = concat (map (\<lambda>l. lit l @ [10])
     [''--- /dev/null'', ''+++ b/x'', ''@@ -1,1 +1,1 @@'', ''-a'', ''+b''])"

lemma created_with_old_side_raises: "parse_unified_diff ascii_tables created_with_old_side = PARSE_RAISED"
  by (simp add: parse_unified_diff_def document_failure_def created_with_old_side_def parser_eval)

text \<open>A deleted line whose text begins like a header is refused.\<close>

definition deletes_dashes :: utext where
  "deletes_dashes = concat (map (\<lambda>l. lit l @ [10])
     [''--- a/x'', ''+++ b/x'', ''@@ -1,2 +1,1 @@'', ''--- a'', '' b''])"

lemma deletes_dashes_refused:
  "parse_unified_diff ascii_tables deletes_dashes = PATCH_PARSE_FAILED PATCH_SCHEMA_INVALID (MALFORMED_ENTRY 1)"
  by (simp add: parse_unified_diff_def document_failure_def deletes_dashes_def parser_eval)

end
