(* ===== verification/Candidate_Properties.thy ===== *)
theory Candidate_Properties
  imports Candidate_Identity Patch_Properties
begin

text \<open>
  The properties of the candidate patch transaction, of the trees under it and of the digests they are
  compared by, with the small workspace they are evaluated on.
\<close>

section \<open>A small workspace\<close>

text \<open>A function without collisions stands for SHA-256: every byte in unary, ended by a zero.\<close>

definition unary_digest :: "nat list \<Rightarrow> string" where
  "unary_digest bs = CHR ''x'' # concat (map (\<lambda>b. replicate b CHR ''1'' @ ''0'') bs)"

lemma unary_prefix:
  "replicate a CHR ''1'' @ CHR ''0'' # r = replicate b CHR ''1'' @ CHR ''0'' # s \<Longrightarrow> a = b \<and> r = s"
proof (induction a arbitrary: b)
  case 0
  then show ?case by (cases b) auto
next
  case (Suc a)
  then show ?case by (cases b) auto
qed

lemma unary_concat_inj:
  "concat (map (\<lambda>b. replicate b CHR ''1'' @ ''0'') xs) = concat (map (\<lambda>b. replicate b CHR ''1'' @ ''0'') ys) \<Longrightarrow> xs = ys"
proof (induction xs arbitrary: ys)
  case Nil
  then show ?case by (cases ys) auto
next
  case (Cons x xs)
  then obtain y zs where "ys = y # zs" by (cases ys) auto
  with Cons.prems have "replicate x CHR ''1'' @ CHR ''0'' # concat (map (\<lambda>b. replicate b CHR ''1'' @ ''0'') xs) =
      replicate y CHR ''1'' @ CHR ''0'' # concat (map (\<lambda>b. replicate b CHR ''1'' @ ''0'') zs)" by simp
  from unary_prefix [OF this] show ?case using Cons.IH [of zs] \<open>ys = y # zs\<close> by blast
qed

lemma unary_not_empty: "unary_digest bs \<noteq> []"
  by (simp add: unary_digest_def)

lemma unary_inj: "inj_on unary_digest H"
  by (rule inj_onI) (use unary_concat_inj in \<open>auto simp: unary_digest_def\<close>)

definition src_x :: utext where
  "src_x = lit ''src/x''"

definition src_entry :: patch_entry where
  "src_entry =
     \<lparr>pe_operation = OP_REPLACE, pe_path = src_x, pe_old_path = lit ''a/src/x'', pe_new_path = lit ''b/src/x'',
      pe_hunks = [one_line_hunk]\<rparr>"

lemma src_x_canonical: "is_canonical_path ascii_tables (lit ''src/x'')"
  by (simp add: is_canonical_path_def validate_path_def segments_def check_collisions_def ascii_tables_def
      startswith_def endswith_def drive_prefix_def invalid_character_def reserved_segment_def reserved_device_names_def)

lemma src_wf: "wf_patch ascii_tables [src_entry]"
  using src_x_canonical small_numbers
  by (simp add: wf_patch_def wf_entry_def wf_hunk_def hunk_ok_def wf_line_def distinct_paths_def distinguishable_def
      src_entry_def src_x_def one_line_hunk_def uspace_def startswith_def control_def)

lemma src_parsed: "parse_unified_diff ascii_tables (print_patch [src_entry]) = PATCH_PARSED [src_entry]"
  using src_wf by (rule parse_print)

lemma apply_entry_bytes_cong:
  assumes "pe_operation e = pe_operation e'" "pe_hunks e = pe_hunks e'"
  shows "apply_entry_bytes e raw = apply_entry_bytes e' raw"
  unfolding apply_entry_bytes_def assms ..

lemma src_applied: "apply_entry_bytes src_entry [97, 10] = POSTIMAGE [98, 10]"
  using one_line_applied apply_entry_bytes_cong [of src_entry one_line_entry]
  by (simp add: src_entry_def one_line_entry_def)

definition small_policy :: string where
  "small_policy = replicate 64 CHR ''0''"

definition small_preflight :: accepted_preflight where
  "small_preflight =
     \<lparr>pf_tracked_file_count = Some 1, pf_tracked_byte_count = Some 2, pf_policy_digest = Some small_policy,
      pf_files = [\<lparr>sf_path = src_x, sf_content_sha256 = unary_digest [97, 10], sf_byte_count = 2\<rparr>]\<rparr>"

definition small_store :: store where
  "small_store = [unary_digest [97, 10] \<mapsto> [97, 10]]"

definition small_entries :: "snapshot_entry list" where
  "small_entries =
     [DIRECTORY_ROW (lit ''src''),
      FILE_ROW \<lparr>fe_path = src_x, fe_size_bytes = 2, fe_content_ref = \<lparr>cr_sha256 = unary_digest [97, 10], cr_byte_count = 2\<rparr>,
        fe_text_profile = Some \<lparr>tm_encoding = UTF8, tm_newline = LF\<rparr>\<rparr>]"

definition small_snapshot :: snapshot where
  "small_snapshot =
     \<lparr>sn_root_digest = the (root_digest unary_digest small_policy small_entries), sn_policy_digest = small_policy,
      sn_entries = small_entries, sn_file_bytes = [(src_x, [97, 10])]\<rparr>"

lemma root_digest_Some: "scalar_paths es \<Longrightarrow> root_digest sha256 p es \<noteq> None"
  using snapshot_value_scalar by (simp add: root_digest_def domain_digest_def json_bytes_plain)

lemma small_scalar: "scalar_paths small_entries"
  by (simp add: scalar_paths_def small_entries_def src_x_def scalar_def)

lemma small_text: "classify_supported_text [97, 10] = TEXT_FILE \<lparr>tm_encoding = UTF8, tm_newline = LF\<rparr>"
proof -
  have "body_text LF [[97]] [97, 10]" by (simp add: body_text_def line_ok_def scalar_def encode_char_def)
  then show ?thesis unfolding classify_iff by (auto simp: startswith_def utf8_bom_def)
qed

lemma src_x_ancestors: "directory_paths [src_x] = [lit ''src'']"
  by (simp add: directory_paths_def ancestors_def ancestor_def segments_def src_x_def)

lemma src_x_plain: "sensitive_path_rule_id ascii_tables src_x = None" "\<not> protected_artifact_path src_x"
  by (simp_all add: sensitive_path_rule_id_def sensitive_segments_def sensitive_file_names_def sensitive_extensions_def
      protected_artifact_path_def protected_any_level_def segments_def src_x_def ascii_tables_def startswith_def endswith_def Let_def)

lemma small_created: "create_snapshot_tree ascii_tables unary_digest small_preflight small_store = Inr small_snapshot"
proof -
  obtain d where d: "root_digest unary_digest small_policy small_entries = Some d"
    using root_digest_Some [OF small_scalar] by blast
  have "encode_strict src_x \<noteq> None" by (simp add: src_x_def encode_strict_def scalar_def)
  then have r: "reject_protected_input ascii_tables (\<lambda>_. None) (\<lambda>_. None) [src_x] = None"
    by (simp add: src_x_plain)
  have g: "store_get unary_digest small_store \<lparr>cr_sha256 = unary_digest [97, 10], cr_byte_count = 2\<rparr> = Inr [97, 10]"
    by (simp add: store_get_def small_store_def)
  show ?thesis
    using d r g
    by (simp add: create_snapshot_tree_def small_preflight_def require_canonical_order_def seal_snapshot_def src_x_ancestors
        small_text file_entry_from_classification_def small_entries_def small_snapshot_def Let_def)
qed

lemma small_files: "snapshot_files small_snapshot = [src_x]" "snapshot_directories small_snapshot = [lit ''src'']"
  by (simp_all add: snapshot_files_def snapshot_directories_def small_snapshot_def small_entries_def file_rows_def directory_rows_def)

lemma small_verified: "verify_snapshot unary_digest small_snapshot small_store = INTACT"
proof (rule created_verifies [OF small_created])
  show "hex64 (sn_policy_digest small_snapshot)"
    by (simp add: hex64_def small_snapshot_def small_policy_def list_all_iff ord_def)
  show "set (snapshot_files small_snapshot) \<inter> set (snapshot_directories small_snapshot) = {}"
    unfolding small_files by (simp add: src_x_def)
qed

lemma small_intact: "intact unary_digest UNIV small_snapshot"
  using small_verified small_scalar by (auto simp: intact_def small_snapshot_def)

lemma small_within: "store_within unary_digest UNIV st"
  by (simp add: store_within_def unary_inj)

definition small_action :: "revision \<Rightarrow> patch_action" where
  "small_action r = \<lparr>pa_base_candidate_digest = rv_candidate_digest r, pa_patch_text = print_patch [src_entry]\<rparr>"

definition small_context :: "revision \<Rightarrow> patch_context" where
  "small_context r =
     \<lparr>cx_current = r, cx_snapshot = small_snapshot, cx_policy_digest = small_policy, cx_ignore_rules = [],
      cx_ignore_rules_digest = the (ignore_rules_digest unary_digest [])\<rparr>"

lemma tree_digest_Some:
  assumes "scalar_overlay t"
  shows "\<exists>d. digest_candidate_tree sha256 root (ct_overlay t) = Some d"
  using domain_digest_input [OF tree_value_scalar [OF assms]] by (simp add: digest_candidate_tree_def)

lemma small_root: "\<exists>r. root_candidate_revision unary_digest small_snapshot = Inr r"
  using tree_digest_Some [of "\<lparr>ct_snapshot = small_snapshot, ct_overlay = [], ct_digest = []\<rparr>" unary_digest
      "sn_root_digest small_snapshot"]
  by (auto simp: scalar_overlay_def root_candidate_revision_def make_tree_def make_revision_def startswith_def)

lemma small_gate:
  assumes "ct_snapshot (rv_tree r) = small_snapshot"
  shows "patch_gate ascii_tables (small_action r) r (small_context r) = Done [src_entry]"
proof -
  have "src_x \<in> set (tree_files (rv_tree r))" unfolding tree_files_set assms small_files by simp
  moreover have "editable_matches src_x op" for op unfolding editable_under_src by (simp add: src_x_def startswith_def)
  ultimately have "entry_path_failure ascii_tables (rv_tree r) (small_context r) src_entry = None"
    using src_x_plain by (simp add: entry_path_failure_def src_entry_def tree_has_file_path_def)
  then show ?thesis
    using assms by (simp add: patch_gate_def small_action_def small_context_def src_parsed small_snapshot_def)
qed

definition src_postimage :: postimage where
  "src_postimage = \<lparr>po_operation = OP_REPLACE, po_path = src_x, po_raw_bytes = [98, 10]\<rparr>"

lemma small_published:
  assumes "root_candidate_revision unary_digest small_snapshot = Inr r"
  obtains child st' where
    "apply_candidate_patch ascii_tables unary_digest (small_action r) r (small_context r) small_store =
       (PUBLISHED child, [child], st')" "scalar_overlay (rv_tree child)"
proof -
  note f = root_facts [OF assms]
  have sn: "snapshot_read small_snapshot src_x = Some [97, 10]" by (simp add: snapshot_read_def small_snapshot_def)
  have rd: "tree_read unary_digest small_store (rv_tree r) src_x = Inr [97, 10]"
    using f sn by (simp add: tree_read_def overlay_at_def)
  have e: "apply_patch_entries unary_digest small_store (rv_tree r) [] [src_entry] = Done [src_postimage]"
    using rd src_applied by (simp add: apply_entry_def src_entry_def src_postimage_def)
  have tf: "tree_files (rv_tree r) = [src_x]" using f small_files by (simp add: tree_files_def)
  have l: "limit_failure unary_digest small_store (rv_tree r) small_snapshot [src_postimage] = Done ()"
    by (simp add: limit_failure_def tf src_postimage_def postimage_at_def small_files sn max_single_file_bytes_def
        max_net_changed_files_def max_new_files_def max_total_postimage_bytes_def)
  let ?row = "row_of unary_digest src_postimage"
  have so: "scalar_overlay \<lparr>ct_snapshot = small_snapshot, ct_overlay = [?row], ct_digest = d\<rparr>" for d
    by (simp add: scalar_overlay_def row_of_def src_postimage_def src_x_def scalar_def)
  obtain d where d: "digest_candidate_tree unary_digest (sn_root_digest small_snapshot) [?row] = Some d"
    using tree_digest_Some [OF so] by auto
  have "check_postimage ascii_tables (rv_tree r) src_postimage = None"
    by (simp add: check_postimage_def src_postimage_def tf)
  then have "\<exists>child st'. derive_candidate_revision ascii_tables unary_digest r [src_postimage] small_store = (Inr child, st') \<and>
      scalar_overlay (rv_tree child)"
    using f d so
    by (simp add: derive_candidate_revision_def stage_step set_row_def make_tree_def make_revision_def child_id_def
        unary_not_empty Let_def del: stage_postimages.simps(2))
  then show ?thesis
    using that small_gate [OF f(1)] e l by (auto simp: apply_candidate_patch_def small_context_def)
qed

lemma small_chain:
  obtains r child st' where
    "apply_candidate_patch ascii_tables unary_digest (small_action r) r (small_context r) small_store =
       (PUBLISHED child, [child], st')"
    "tree_wf unary_digest (rv_tree r)" "backed unary_digest small_store (rv_tree r)"
    "ct_snapshot (rv_tree r) = small_snapshot" "candidate_chain ascii_tables unary_digest UNIV small_snapshot child st'"
    "files_of unary_digest small_store (rv_tree r) src_x = Some [97, 10]"
    "files_of unary_digest st' (rv_tree child) src_x = Some [98, 10]" "scalar_overlay (rv_tree child)"
proof -
  obtain r where r: "root_candidate_revision unary_digest small_snapshot = Inr r" using small_root by blast
  note f = root_facts [OF r]
  obtain child st' where run: "apply_candidate_patch ascii_tables unary_digest (small_action r) r (small_context r) small_store =
      (PUBLISHED child, [child], st')" and so: "scalar_overlay (rv_tree child)" using small_published [OF r] .
  have b: "backed unary_digest small_store (rv_tree r)" using f by (simp add: backed_def)
  have c: "candidate_chain ascii_tables unary_digest UNIV small_snapshot child st'"
    using chain_patch [OF chain_root [OF r small_intact small_within] _ _ run] small_intact by (simp add: small_context_def)
  have rl: "reads_listed (ct_snapshot (rv_tree r))" using intact_reads [OF small_intact] f by simp
  from run small_within [of small_store] subset_UNIV f(3) b rl obtain es where "parse_unified_diff ascii_tables (pa_patch_text (small_action r)) = PATCH_PARSED es"
      and pr: "patch_result es (files_of unary_digest small_store (rv_tree r)) (files_of unary_digest st' (rv_tree child))"
    by (rule published_result)
  then have "es = [src_entry]" by (simp add: small_action_def src_parsed)
  with pr obtain raw where "entry_applied src_entry (files_of unary_digest small_store (rv_tree r)) raw"
      "files_of unary_digest st' (rv_tree child) src_x = Some raw"
    by (auto simp: patch_result_def src_entry_def)
  moreover have old: "files_of unary_digest small_store (rv_tree r) src_x = Some [97, 10]"
    using root_reads [OF f(2)] f(1) by (simp add: snapshot_read_def small_snapshot_def)
  ultimately have "files_of unary_digest st' (rv_tree child) src_x = Some [98, 10]"
    using src_applied by (simp add: entry_applied_def src_entry_def)
  then show ?thesis using that run f b c old so by blast
qed

section \<open>The patch transaction\<close>

text \<open>
  Claim C7. A published patch does exactly what its text says: the text parses, the base digest names the
  current candidate, one revision is published and its parent is the current one, every entry's path lies
  under \<open>src/\<close> and is neither protected nor sensitive, and the files of the child are those of the parent
  with the exact postimage at every entry's path (a created path was absent, a replaced one present) and
  nothing else changed.
\<close>

theorem published_patch_exact:
  assumes "apply_candidate_patch T sha256 action current cx st = (PUBLISHED child, published, st')"
    and "inj_on sha256 H" and "ran st \<subseteq> H" and "staged_bytes T sha256 action current cx st \<subseteq> H"
    and "tree_wf sha256 (rv_tree current)" and "backed sha256 st (rv_tree current)"
    and "intact sha256 H (ct_snapshot (rv_tree current))"
  shows "published = [child] \<and> rv_parent child = Some (rv_id current) \<and>
    pa_base_candidate_digest action = rv_candidate_digest current \<and>
    (\<exists>entries. parse_unified_diff T (pa_patch_text action) = PATCH_PARSED entries \<and>
       list_all (\<lambda>e. editable_path T (pe_path e)) entries \<and>
       patch_result entries (files_of sha256 st (rv_tree current)) (files_of sha256 st' (rv_tree child)))"
proof -
  from assms(1) obtain entries ps where g: "patch_gate T action current cx = Done entries"
      and d: "derive_candidate_revision T sha256 current ps st = (Inr child, st')" and p: "published = [child]"
    by (rule published_steps)
  have "rv_parent child = Some (rv_id current)" by (rule derive_Inr [OF d])
  moreover have "store_within sha256 H st" using assms(2,3) by (simp add: store_within_def)
  from assms(1) this assms(4-6) intact_reads [OF assms(7)] obtain es where
      "parse_unified_diff T (pa_patch_text action) = PATCH_PARSED es" "list_all (\<lambda>e. editable_path T (pe_path e)) es"
      "patch_result es (files_of sha256 st (rv_tree current)) (files_of sha256 st' (rv_tree child))"
    by (rule published_result)
  ultimately show ?thesis using p gate_Done(2) [OF g] by blast
qed

theorem published_patch_exact_witness:
  "\<exists>(r :: revision) (child :: revision) st'. files_of unary_digest small_store (rv_tree r) src_x = Some [97, 10] \<and>
     files_of unary_digest st' (rv_tree child) src_x = Some [98, 10] \<and>
     patch_result [src_entry] (files_of unary_digest small_store (rv_tree r)) (files_of unary_digest st' (rv_tree child))"
proof -
  obtain r child st' where run: "apply_candidate_patch ascii_tables unary_digest (small_action r) r (small_context r) small_store =
       (PUBLISHED child, [child], st')" and w: "tree_wf unary_digest (rv_tree r)" "backed unary_digest small_store (rv_tree r)"
      and sn: "ct_snapshot (rv_tree r) = small_snapshot"
      and x: "files_of unary_digest small_store (rv_tree r) src_x = Some [97, 10]"
        "files_of unary_digest st' (rv_tree child) src_x = Some [98, 10]"
    using small_chain .
  have "patch_result [src_entry] (files_of unary_digest small_store (rv_tree r)) (files_of unary_digest st' (rv_tree child))"
    using published_patch_exact [OF run unary_inj subset_UNIV subset_UNIV w] small_intact sn by (simp add: small_action_def src_parsed)
  with x show ?thesis by blast
qed

text \<open>
  Claim C9. A patch is published whole or not at all: a published outcome comes with exactly one
  publication, of the revision it reports, whose digest is the digest of its tree; a rejection publishes
  nothing and leaves the store as it was; an exception publishes nothing.
\<close>

theorem patch_all_or_nothing:
  "case apply_candidate_patch T sha256 action current cx st of
     (PUBLISHED child, published, st') \<Rightarrow>
       published = [child] \<and> rv_candidate_digest child = ct_digest (rv_tree child) \<and> tree_wf sha256 (rv_tree child)
   | (REJECTED_PATCH code, published, st') \<Rightarrow> published = [] \<and> st' = st
   | (PATCH_RAISED, published, st') \<Rightarrow> published = []"
proof -
  obtain outcome published st' where run: "apply_candidate_patch T sha256 action current cx st = (outcome, published, st')"
    by (cases "apply_candidate_patch T sha256 action current cx st")
  show ?thesis
  proof (cases outcome)
    case (PUBLISHED child)
    obtain ps where d: "derive_candidate_revision T sha256 current ps st = (Inr child, st')" and p: "published = [child]"
      using run unfolding PUBLISHED by (rule published_steps)
    have "rv_candidate_digest child = ct_digest (rv_tree child)" by (rule derive_Inr [OF d])
    moreover have "tree_wf sha256 (rv_tree child)" by (rule derive_Inr [OF d])
    ultimately show ?thesis using p by (simp add: run PUBLISHED)
  next
    case (REJECTED_PATCH code)
    show ?thesis using rejected_keeps_store [OF run [unfolded REJECTED_PATCH]] by (simp add: run REJECTED_PATCH)
  next
    case PATCH_RAISED
    show ?thesis using raised_publishes_nothing [OF run [unfolded PATCH_RAISED]] by (simp add: run PATCH_RAISED)
  qed
qed

section \<open>Chains of revisions\<close>

text \<open>
  Claim C6. Whatever patches a run proposes, no file outside the editable set ever changes: in every
  revision that published patches build on a verified snapshot, a path that is not under \<open>src/\<close>, or is a
  protected artifact, or is sensitive, has exactly the bytes of the snapshot, or is absent as it was there.
\<close>

theorem candidate_confined:
  assumes "candidate_chain T sha256 H s r st"
    and "\<not> startswith p (lit ''src/'') \<or> protected_artifact_path p \<or> sensitive_path_rule_id T p \<noteq> None"
  shows "files_of sha256 st (rv_tree r) p = snapshot_read s p"
proof -
  have "confined_to_editable T s (files_of sha256 st (rv_tree r))" using chain_invariant [OF assms(1)] by (simp add: chain_inv_def)
  moreover have "\<not> editable_path T p" using assms(2) unfolding editable_path_def by blast
  ultimately show ?thesis by (simp add: confined_to_editable_def)
qed

theorem candidate_confined_witness:
  "\<exists>r st. candidate_chain ascii_tables unary_digest UNIV small_snapshot r st \<and>
     files_of unary_digest st (rv_tree r) src_x = Some [98, 10] \<and>
     files_of unary_digest st (rv_tree r) (lit ''tests'') = None"
proof -
  obtain r st where c: "candidate_chain ascii_tables unary_digest UNIV small_snapshot r st"
      and x: "files_of unary_digest st (rv_tree r) src_x = Some [98, 10]"
    using small_chain .
  have "files_of unary_digest st (rv_tree r) (lit ''tests'') = snapshot_read small_snapshot (lit ''tests'')"
    using c by (rule candidate_confined) (simp add: startswith_def)
  then show ?thesis using c x
    by (intro exI [of _ r] exI [of _ st]) (simp add: snapshot_read_def small_snapshot_def src_x_def)
qed

text \<open>
  Claim C8. The hard caps bind the whole chain and not one patch: in every revision that published patches
  build on a verified snapshot, at most three files differ from the snapshot, at most one of them is new,
  and the differing files have at most 131072 bytes together.
\<close>

theorem candidate_limits:
  assumes "candidate_chain T sha256 H s r st"
  defines "changed \<equiv> {p. files_of sha256 st (rv_tree r) p \<noteq> snapshot_read s p}"
  shows "finite changed \<and> card changed \<le> 3 \<and> card {p \<in> changed. snapshot_read s p = None} \<le> 1 \<and>
    (\<Sum>p\<in>changed. length (the (files_of sha256 st (rv_tree r) p))) \<le> 131072"
  using chain_invariant [OF assms(1)] unfolding changed_def chain_inv_def within_limits_def net_changes_def by simp

theorem candidate_limits_witness:
  "\<exists>(r :: revision) st. files_of unary_digest st (rv_tree r) src_x = Some [98, 10] \<and>
     card {p. files_of unary_digest st (rv_tree r) p \<noteq> snapshot_read small_snapshot p} \<le> 3"
proof -
  obtain r st where c: "candidate_chain ascii_tables unary_digest UNIV small_snapshot r st"
      and x: "files_of unary_digest st (rv_tree r) src_x = Some [98, 10]"
    using small_chain .
  then show ?thesis using candidate_limits [OF c]
    by (intro exI [of _ r] exI [of _ st]) simp
qed

text \<open>
  Claim C24. Every revision of a chain is sound as a file tree: no path is both a file and a directory, every
  listed file can be read from the store, and the digest it carries is the digest of its overlay on the
  snapshot it started from.
\<close>

theorem candidate_tree_sound:
  assumes "candidate_chain T sha256 H s r st"
  shows "set (tree_files (rv_tree r)) \<inter> set (tree_directories (rv_tree r)) = {} \<and>
    set (tree_files (rv_tree r)) = dom (files_of sha256 st (rv_tree r)) \<and>
    digest_candidate_tree sha256 (sn_root_digest s) (ct_overlay (rv_tree r)) = Some (ct_digest (rv_tree r))"
proof -
  note inv = chain_invariant [OF assms, unfolded chain_inv_def]
  have rl: "reads_listed (ct_snapshot (rv_tree r))" using intact_reads inv by auto
  have "p \<in> set (tree_files (rv_tree r)) \<longleftrightarrow> p \<in> dom (files_of sha256 st (rv_tree r))" for p
  proof (cases "p \<in> set (tree_files (rv_tree r))")
    case True
    then show ?thesis using files_readable [OF _ _ rl True] inv by (simp add: domIff)
  next
    case False
    then show ?thesis using absent_file [OF False rl] by (simp add: domIff)
  qed
  then have "set (tree_files (rv_tree r)) = dom (files_of sha256 st (rv_tree r))" by (rule set_eqI)
  moreover have "ct_snapshot (rv_tree r) = s" using inv by simp
  moreover from this have "digest_candidate_tree sha256 (sn_root_digest s) (ct_overlay (rv_tree r)) = Some (ct_digest (rv_tree r))"
    using inv by (auto simp: tree_wf_iff)
  moreover have "shaped_tree (rv_tree r)" using inv by simp
  ultimately show ?thesis unfolding shaped_tree_def by blast
qed

theorem candidate_tree_sound_witness:
  "\<exists>(r :: revision) st. files_of unary_digest st (rv_tree r) src_x = Some [98, 10] \<and>
     set (tree_files (rv_tree r)) = dom (files_of unary_digest st (rv_tree r))"
proof -
  obtain r st where c: "candidate_chain ascii_tables unary_digest UNIV small_snapshot r st"
      and x: "files_of unary_digest st (rv_tree r) src_x = Some [98, 10]"
    using small_chain .
  then show ?thesis using candidate_tree_sound [OF c]
    by (intro exI [of _ r] exI [of _ st]) simp
qed

text \<open>
  Claim C25. Revisions are immutable although they share one mutable store: whatever the transaction does,
  published or not, every tree whose objects were in the store still reads exactly the same files.
\<close>

theorem revisions_immutable:
  assumes "apply_candidate_patch T sha256 action current cx st = (outcome, published, st')"
    and "inj_on sha256 H" and "ran st \<subseteq> H" and "staged_bytes T sha256 action current cx st \<subseteq> H"
    and "tree_wf sha256 t" and "backed sha256 st t"
  shows "files_of sha256 st' t = files_of sha256 st t \<and> backed sha256 st' t"
  using patch_keeps_trees [OF assms(1) _ assms(4,6,5)] assms(2,3) by (simp add: store_within_def)

theorem revisions_immutable_witness:
  "\<exists>(r :: revision) (child :: revision) st'.
     files_of unary_digest st' (rv_tree child) src_x = Some [98, 10] \<and>
     files_of unary_digest st' (rv_tree r) src_x = Some [97, 10]"
proof -
  obtain r child st' where run: "apply_candidate_patch ascii_tables unary_digest (small_action r) r (small_context r) small_store =
       (PUBLISHED child, [child], st')" and w: "tree_wf unary_digest (rv_tree r)" "backed unary_digest small_store (rv_tree r)"
      and x: "files_of unary_digest small_store (rv_tree r) src_x = Some [97, 10]"
        "files_of unary_digest st' (rv_tree child) src_x = Some [98, 10]"
    using small_chain .
  then show ?thesis using revisions_immutable [OF run unary_inj subset_UNIV subset_UNIV w]
    by (intro exI [of _ r] exI [of _ child] exI [of _ st']) simp
qed

section \<open>Digests\<close>

text \<open>
  Claim C23. The candidate digest that a run is approved by determines the files: when two revisions, built
  on any two verified snapshots in any two stores, are bound to the same three-root identity digest, they
  were bound to the same diff digest and hold the same bytes at every path, as long as SHA-256 does not
  collide on the byte strings hashed for them.
\<close>

theorem identity_determines_files:
  assumes "candidate_chain T sha256 H s r st" and "candidate_chain T' sha256 H s' r' st'"
    and "bind_revision_identity sha256 r d = Some b" and "bind_revision_identity sha256 r' d' = Some b'"
    and "rv_candidate_digest b = rv_candidate_digest b'"
    and "scalar_overlay (rv_tree r)" and "scalar_overlay (rv_tree r')"
    and "{identity_input (rv_tree r) d, identity_input (rv_tree r') d', tree_input (rv_tree r), tree_input (rv_tree r')} \<subseteq> H"
  shows "d = d' \<and> files_of sha256 st (rv_tree r) = files_of sha256 st' (rv_tree r')"
proof -
  note inv = chain_invariant [OF assms(1)] chain_invariant [OF assms(2)]
  have i: "inj_on sha256 H" "tree_wf sha256 (rv_tree r)" "tree_wf sha256 (rv_tree r')" "intact sha256 H s" "intact sha256 H s'"
      "ct_snapshot (rv_tree r) = s" "ct_snapshot (rv_tree r') = s'"
    using inv unfolding chain_inv_def store_within_def by blast+
  have "sha256 (identity_input (rv_tree r) d) = sha256 (identity_input (rv_tree r') d')"
    using bound_digest assms(3-5) by metis
  then have "identity_input (rv_tree r) d = identity_input (rv_tree r') d'"
    by (rule inj_onD [OF i(1)]) (use assms(8) in simp_all)
  then have id: "ct_digest (rv_tree r) = ct_digest (rv_tree r')" "d = d'" using identity_input_inj by blast+
  then have "sha256 (tree_input (rv_tree r)) = sha256 (tree_input (rv_tree r'))"
    using tree_digest_input i(2,3) assms(6,7) by metis
  then have "tree_input (rv_tree r) = tree_input (rv_tree r')"
    by (rule inj_onD [OF i(1)]) (use assms(8) in simp_all)
  from tree_input_inj [OF assms(6,7) this]
  have ov: "ct_overlay (rv_tree r) = ct_overlay (rv_tree r')" and root: "sn_root_digest s = sn_root_digest s'"
    using i(6,7) by simp_all
  have "snapshot_read s = snapshot_read s'" using intact_same_reads [OF i(4,5) root i(1)] .
  then show ?thesis using same_rows_same_files [OF inv ov] id(2) by blast
qed

theorem identity_determines_files_witness:
  "\<exists>(r :: revision) (child :: revision) st' d.
     files_of unary_digest st' (rv_tree child) src_x = Some [98, 10] \<and>
     rv_candidate_digest (the (bind_revision_identity unary_digest child d)) \<noteq>
       rv_candidate_digest (the (bind_revision_identity unary_digest r d))"
proof -
  obtain r where r: "root_candidate_revision unary_digest small_snapshot = Inr r" using small_root by blast
  have cr: "candidate_chain ascii_tables unary_digest UNIV small_snapshot r small_store"
    using chain_root [OF r small_intact small_within] .
  have old: "files_of unary_digest small_store (rv_tree r) src_x = Some [97, 10]"
    using root_reads root_facts [OF r] by (simp add: snapshot_read_def small_snapshot_def)
  obtain child st' where c: "candidate_chain ascii_tables unary_digest UNIV small_snapshot child st'"
      and x: "files_of unary_digest st' (rv_tree child) src_x = Some [98, 10]"
      and so: "scalar_overlay (rv_tree child)"
    using small_chain .
  obtain b b' where b: "bind_revision_identity unary_digest child [] = Some b" "bind_revision_identity unary_digest r [] = Some b'"
    using bind_Some by metis
  have "scalar_overlay (rv_tree r)" using root_facts [OF r] by (simp add: scalar_overlay_def)
  then have "rv_candidate_digest b \<noteq> rv_candidate_digest b'"
    using identity_determines_files [OF c cr b _ so] x old by auto
  then show ?thesis using x b by (intro exI [of _ r] exI [of _ child] exI [of _ st'] exI [of _ "[]"]) simp
qed

text \<open>
  Claim C22. The net diff of a revision can always be recomputed: for every revision that published patches
  build on a snapshot sealed by \<open>create_snapshot\<close>, the recomputation succeeds, and its rows are exactly the
  paths whose bytes differ from the snapshot, in path order, each with the operation, the digests and the
  text metadata of its bytes before and after, and its byte count is the size of the changed files.
\<close>

theorem final_diff_complete:
  assumes "create_snapshot_tree T0 sha256 sealed st0 = Inr s" and "candidate_chain T sha256 H s r st"
  defines "changed \<equiv> {p. files_of sha256 st (rv_tree r) p \<noteq> snapshot_read s p}"
  shows "\<exists>d. recompute_final_diff sha256 st s (rv_tree r) (sn_policy_digest s) = Inr d \<and>
    fd_entries d = map (reference_row sha256 s (files_of sha256 st (rv_tree r))) (sorted_list_of_set changed) \<and>
    fd_text_bytes d = (\<Sum>p\<in>changed. length (the (files_of sha256 st (rv_tree r) p)))"
proof -
  obtain d where d: "recompute_final_diff sha256 st s (rv_tree r) (sn_policy_digest s) = Inr d"
      "fd_entries d = map (reference_row sha256 s (files_of sha256 st (rv_tree r))) (sorted_list_of_set changed)"
      "fd_text_bytes d = (\<Sum>p\<in>changed. length (the (files_of sha256 st (rv_tree r) p)))"
    unfolding changed_def using chain_diff [OF chain_invariant [OF assms(2)] created_profiled [OF assms(1)]] .
  then show ?thesis by (intro exI [of _ d] conjI)
qed

theorem final_diff_complete_witness:
  "\<exists>(r :: revision) st d. recompute_final_diff unary_digest st small_snapshot (rv_tree r) small_policy = Inr d \<and>
     src_x \<in> de_path ` set (fd_entries d)"
proof -
  obtain r st where c: "candidate_chain ascii_tables unary_digest UNIV small_snapshot r st"
      and x: "files_of unary_digest st (rv_tree r) src_x = Some [98, 10]"
    using small_chain .
  obtain d where d: "recompute_final_diff unary_digest st small_snapshot (rv_tree r) (sn_policy_digest small_snapshot) = Inr d"
      "fd_entries d = map (reference_row unary_digest small_snapshot (files_of unary_digest st (rv_tree r)))
        (sorted_list_of_set {p. files_of unary_digest st (rv_tree r) p \<noteq> snapshot_read small_snapshot p})"
    using final_diff_complete [OF small_created c] by blast
  have "finite {p. files_of unary_digest st (rv_tree r) p \<noteq> snapshot_read small_snapshot p}"
    using chain_invariant [OF c] unfolding chain_inv_def within_limits_def net_changes_def by blast
  moreover have "files_of unary_digest st (rv_tree r) src_x \<noteq> snapshot_read small_snapshot src_x"
    using x by (simp add: snapshot_read_def small_snapshot_def)
  ultimately have "src_x \<in> de_path ` set (fd_entries d)" unfolding d(2) by (force simp: reference_row_def image_iff)
  then show ?thesis using d(1) by (intro exI [of _ r] exI [of _ st] exI [of _ d]) (simp add: small_snapshot_def)
qed



section \<open>Flaws\<close>

text \<open>
  The order check of the snapshot compares neighbours only, so a file and a file below it pass when another
  path sorts between them; such a snapshot can be created, and its own verification then refuses it.
\<close>

lemma order_check_misses_ancestor:
  "require_canonical_order [lit ''a'', lit ''a-b'', lit ''a/c''] = None"
  "lit ''a'' \<in> set (ancestors (lit ''a/c''))"
  by (simp_all add: require_canonical_order_def ancestors_def ancestor_def segments_def startswith_def)

lemma overlapping_rows_fail:
  assumes "set (snapshot_files s) \<inter> set (snapshot_directories s) \<noteq> {}"
  shows "verify_snapshot sha256 s st = FAILED_INTEGRITY PATH_ORDER_DRIFT"
proof -
  have "order_drift s" using assms by (simp add: order_drift_def Let_def snapshot_files_def snapshot_directories_def)
  then show ?thesis by (simp add: verify_snapshot_def Let_def)
qed

text \<open>
  Created paths are compared with the parent tree and not with each other, so the derivation alone accepts
  a file and a file below it in one batch; only the limit of one new file in the patch transaction
  excludes it.
\<close>

definition new_file :: "string \<Rightarrow> postimage" where
  "new_file path = \<lparr>po_operation = OP_CREATE, po_path = lit path, po_raw_bytes = [97, 10]\<rparr>"

lemma batch_collision_unchecked:
  assumes "tree_files t = [src_x]"
  shows "check_postimage ascii_tables t (new_file ''src/a'') = None" "check_postimage ascii_tables t (new_file ''src/a/b'') = None"
    "po_path (new_file ''src/a'') \<in> set (ancestors (po_path (new_file ''src/a/b'')))"
  using assms src_x_ancestors
  by (simp_all add: check_postimage_def new_file_def path_collides_with_tree_def tree_directories_def aliased_def
      ancestors_def ancestor_def segments_def src_x_def ascii_tables_def Let_def)

end
