(* ===== verification/Path_Guard.thy ===== *)
theory Path_Guard
  imports Patch_Engine
begin

text \<open>
  The handle-bound path guard (\<open>PathGuard\<close> of \<open>workspace/path_guard.py\<close>). The inspection of a workspace
  object is an argument that returns a sealed identity or a rejection code, and \<open>inside\<close> is the comparison of
  two absolute paths by the platform's \<open>normcase\<close> and \<open>commonpath\<close> (false where \<open>commonpath\<close> raises).
  Authorizations are \<open>Inr\<close> the identity or \<open>Inl\<close> the error code.
\<close>

datatype object_kind = FILE_OBJECT | DIRECTORY_OBJECT

record object_identity =
  oi_canonical_relative_path :: utext
  oi_final_absolute_path :: string
  oi_volume_serial_number :: nat
  oi_file_id_128_hex :: string
  oi_object_kind :: object_kind
  oi_link_count :: nat
  oi_reparse_tag :: nat
  oi_has_alternate_data_streams :: bool
  oi_acl_observable :: bool
  oi_root_ancestry_proven :: bool
  oi_digest :: string

record workspace_root =
  wr_canonical_absolute_path :: string
  wr_volume_serial_number :: nat
  wr_final_object_file_id_128_hex :: string
  wr_final_object_kind :: object_kind
  wr_link_count :: nat
  wr_acl_observable :: bool
  wr_digest :: string

datatype guard_error =
    INSPECTION_REJECTED string
  | OBJECT_VOLUME_MISMATCH | OUTSIDE_WORKSPACE | OBJECT_WRONG_KIND | UNSUPPORTED_OBJECT | OBJECT_ACL_UNPROVEN
  | GUARD_PATH_EXISTS | PARENT_NOT_FOUND | PARENT_NOT_DIRECTORY | GUARD_PATH_SENSITIVE | GUARD_PROTECTED_ARTIFACT
  | GUARD_NOT_EDITABLE | GUARD_PATH_IGNORED | GUARD_TREE_INTEGRITY_FAILED

record path_guard =
  pg_ignore_rules :: "ignore_rule list"
  pg_ignore_rules_digest :: string
  pg_repository_policy_digest :: string
  pg_reference_policy_digest :: string

type_synonym inspector = "workspace_root \<Rightarrow> utext \<Rightarrow> string + object_identity"

definition make_path_guard :: "(nat list \<Rightarrow> string) \<Rightarrow> path_guard \<Rightarrow> path_guard option" where
  "make_path_guard sha256 g =
     (if Some (pg_ignore_rules_digest g) \<noteq> ignore_rules_digest sha256 (pg_ignore_rules g) then None else Some g)"

definition policy_binding_mismatch :: "path_guard \<Rightarrow> bool" where
  "policy_binding_mismatch g \<longleftrightarrow> pg_repository_policy_digest g \<noteq> pg_reference_policy_digest g"

definition verify_object_facts ::
    "(string \<Rightarrow> string \<Rightarrow> bool) \<Rightarrow> object_identity \<Rightarrow> workspace_root \<Rightarrow> object_kind \<Rightarrow> guard_error option" where
  "verify_object_facts inside i root expected =
     (if oi_volume_serial_number i \<noteq> wr_volume_serial_number root then Some OBJECT_VOLUME_MISMATCH
      else if \<not> inside (oi_final_absolute_path i) (wr_canonical_absolute_path root) then Some OUTSIDE_WORKSPACE
      else if oi_object_kind i \<noteq> expected then Some OBJECT_WRONG_KIND
      else if oi_reparse_tag i \<noteq> 0 \<or> (oi_object_kind i = FILE_OBJECT \<and> oi_link_count i \<noteq> 1) then Some UNSUPPORTED_OBJECT
      else if oi_has_alternate_data_streams i then Some UNSUPPORTED_OBJECT
      else if \<not> oi_acl_observable i then Some OBJECT_ACL_UNPROVEN
      else None)"

definition authorize_existing ::
    "unicode_tables \<Rightarrow> (string \<Rightarrow> string \<Rightarrow> bool) \<Rightarrow> inspector \<Rightarrow> path_guard \<Rightarrow> workspace_root \<Rightarrow> utext \<Rightarrow> object_kind \<Rightarrow>
     guard_error + object_identity" where
  "authorize_existing T inside inspect g root path expected =
     (if policy_binding_mismatch g then Inl GUARD_TREE_INTEGRITY_FAILED
      else (case inspect root path of
          Inl code \<Rightarrow> Inl (INSPECTION_REJECTED code)
        | Inr i \<Rightarrow>
            (case verify_object_facts inside i root expected of
               Some e \<Rightarrow> Inl e
             | None \<Rightarrow>
                 if sensitive_path_rule_id T path \<noteq> None then Inl GUARD_PATH_SENSITIVE
                 else if protected_artifact_path path then Inl GUARD_PROTECTED_ARTIFACT
                 else if \<not> editable_matches path OP_REPLACE then Inl GUARD_NOT_EDITABLE
                 else Inr i)))"

definition not_found :: string where
  "not_found = ''WORKSPACE_OBJECT_NOT_FOUND''"

text \<open>The loop over the ancestors, from the shortest; \<open>proven\<close> is the deepest identity so far.\<close>

fun prove_parents ::
    "(string \<Rightarrow> string \<Rightarrow> bool) \<Rightarrow> inspector \<Rightarrow> workspace_root \<Rightarrow> object_identity option \<Rightarrow> utext list \<Rightarrow>
     guard_error + object_identity option" where
  "prove_parents inside inspect root proven [] = Inr proven"
| "prove_parents inside inspect root proven (parent # parents) =
     (case inspect root parent of
        Inl code \<Rightarrow> Inl (if code = not_found then PARENT_NOT_FOUND else INSPECTION_REJECTED code)
      | Inr i \<Rightarrow>
          (case verify_object_facts inside i root DIRECTORY_OBJECT of
             Some e \<Rightarrow> Inl (if e = OBJECT_WRONG_KIND then PARENT_NOT_DIRECTORY else e)
           | None \<Rightarrow> prove_parents inside inspect root (Some i) parents))"

definition prove_parent_chain ::
    "(string \<Rightarrow> string \<Rightarrow> bool) \<Rightarrow> inspector \<Rightarrow> workspace_root \<Rightarrow> utext \<Rightarrow> guard_error + object_identity option" where
  "prove_parent_chain inside inspect root path = prove_parents inside inspect root None (ancestors path)"

definition authorize_create ::
    "unicode_tables \<Rightarrow> (string \<Rightarrow> string \<Rightarrow> bool) \<Rightarrow> inspector \<Rightarrow> path_guard \<Rightarrow> workspace_root \<Rightarrow> utext \<Rightarrow>
     guard_error + object_identity" where
  "authorize_create T inside inspect g root path =
     (if policy_binding_mismatch g then Inl GUARD_TREE_INTEGRITY_FAILED
      else (case inspect root path of
          Inr _ \<Rightarrow> Inl GUARD_PATH_EXISTS
        | Inl code \<Rightarrow>
            if code \<noteq> not_found then Inl (INSPECTION_REJECTED code)
            else if sensitive_path_rule_id T path \<noteq> None then Inl GUARD_PATH_SENSITIVE
            else if protected_artifact_path path then Inl GUARD_PROTECTED_ARTIFACT
            else if \<not> editable_matches path OP_CREATE then Inl GUARD_NOT_EDITABLE
            else if path_is_ignored (pg_ignore_rules g) path then Inl GUARD_PATH_IGNORED
            else (case prove_parent_chain inside inspect root path of
                Inl e \<Rightarrow> Inl e
              | Inr None \<Rightarrow> Inl PARENT_NOT_FOUND
              | Inr (Some parent) \<Rightarrow> Inr parent)))"

section \<open>What an authorization means\<close>

definition proven_object :: "(string \<Rightarrow> string \<Rightarrow> bool) \<Rightarrow> workspace_root \<Rightarrow> object_kind \<Rightarrow> object_identity \<Rightarrow> bool" where
  "proven_object inside root kind i \<longleftrightarrow>
     oi_volume_serial_number i = wr_volume_serial_number root \<and>
     inside (oi_final_absolute_path i) (wr_canonical_absolute_path root) \<and> oi_object_kind i = kind \<and>
     oi_reparse_tag i = 0 \<and> (kind = FILE_OBJECT \<longrightarrow> oi_link_count i = 1) \<and>
     \<not> oi_has_alternate_data_streams i \<and> oi_acl_observable i"

lemma verify_object_facts_None: "verify_object_facts inside i root kind = None \<longleftrightarrow> proven_object inside root kind i"
  by (auto simp: verify_object_facts_def proven_object_def)

lemma authorize_existing_iff:
  "authorize_existing T inside inspect g root path kind = Inr i \<longleftrightarrow>
     \<not> policy_binding_mismatch g \<and> inspect root path = Inr i \<and> proven_object inside root kind i \<and>
     sensitive_path_rule_id T path = None \<and> \<not> protected_artifact_path path \<and> startswith path (lit ''src/'')"
  unfolding authorize_existing_def editable_under_src
  by (auto simp: verify_object_facts_None [symmetric] split: sum.splits option.splits if_splits)

lemma prove_parents_Inr:
  "prove_parents inside inspect root proven parents = Inr res \<longleftrightarrow>
     (\<forall>p\<in>set parents. \<exists>i. inspect root p = Inr i \<and> proven_object inside root DIRECTORY_OBJECT i) \<and>
     res = (if parents = [] then proven else case inspect root (last parents) of Inl _ \<Rightarrow> None | Inr i \<Rightarrow> Some i)"
proof (induction parents arbitrary: proven)
  case (Cons p ps)
  show ?case
  proof (cases "\<exists>i. inspect root p = Inr i \<and> proven_object inside root DIRECTORY_OBJECT i")
    case True
    then obtain i where i: "inspect root p = Inr i" "proven_object inside root DIRECTORY_OBJECT i" by blast
    then have "verify_object_facts inside i root DIRECTORY_OBJECT = None" by (simp add: verify_object_facts_None)
    then show ?thesis using i Cons.IH [of "Some i"] by (auto simp: i)
  next
    case False
    then have "\<nexists>r. prove_parents inside inspect root proven (p # ps) = Inr r"
      by (auto simp: verify_object_facts_None [symmetric] split: sum.splits option.splits)
    then show ?thesis using False by auto
  qed
qed auto

text \<open>
  A creation is authorized exactly when nothing is there, the path passes the tables and the ignore rules,
  and every ancestor is a proven directory; the parent is the deepest of them.
\<close>

lemma authorize_create_iff:
  "authorize_create T inside inspect g root path = Inr parent \<longleftrightarrow>
     \<not> policy_binding_mismatch g \<and> inspect root path = Inl not_found \<and>
     sensitive_path_rule_id T path = None \<and> \<not> protected_artifact_path path \<and> startswith path (lit ''src/'') \<and>
     \<not> path_is_ignored (pg_ignore_rules g) path \<and> ancestors path \<noteq> [] \<and>
     (\<forall>p\<in>set (ancestors path). \<exists>i. inspect root p = Inr i \<and> proven_object inside root DIRECTORY_OBJECT i) \<and>
     inspect root (last (ancestors path)) = Inr parent"
proof -
  have "prove_parent_chain inside inspect root path = Inr (Some parent) \<longleftrightarrow>
      (\<forall>p\<in>set (ancestors path). \<exists>i. inspect root p = Inr i \<and> proven_object inside root DIRECTORY_OBJECT i) \<and>
      ancestors path \<noteq> [] \<and> inspect root (last (ancestors path)) = Inr parent"
    unfolding prove_parent_chain_def prove_parents_Inr by (auto split: sum.splits)
  then show ?thesis
    unfolding authorize_create_def editable_under_src
    by (auto split: sum.splits option.splits if_splits)
qed

text \<open>The guard and the patch transaction apply the same tables: what the guard authorizes, the gate lets pass.\<close>

lemma guard_agrees_with_gate:
  assumes "authorize_create T inside inspect g root (pe_path e) = Inr parent" "pe_operation e = OP_CREATE"
    "cx_ignore_rules cx = pg_ignore_rules g" "\<not> path_collides_with_tree T t (pe_path e)"
  shows "entry_path_failure T t cx e = None"
  using assms unfolding authorize_create_iff entry_path_failure_def Let_def editable_under_src by simp

end
