(* ===== verification/Spec2Isabelle.thy ===== *)
theory Spec2Isabelle
  imports Fixtures Service_Steps Contract_Properties Execution_Properties Candidate_Properties Path_Guard
begin

text \<open>
  A verification of VesperCode, a coding-agent harness that lets a language model propose file changes
  and lets them reach the disk only through governed, journaled and recoverable steps: the whole second
  generation, and the candidate pipeline of the first (patches, trees, diffs and digests). The sources
  are under \<open>src/vespercode\<close>.

  The program. An agent loop (\<open>loop/v2_engine.py\<close>, with \<open>memory/v2.py\<close>, \<open>llm/v2.py\<close> and
  \<open>tools/v2_dispatcher.py\<close>) asks the model for actions and stages what the relaxed policy
  (\<open>governance/relaxed_policy.py\<close>) allows in an in-memory workspace. The harness
  (\<open>runtime_v2.py\<close>) turns the staged files into a writeback request. The writeback service
  (\<open>persistence/v2_writeback.py\<close>) checks candidate, approval, policy and secret scanner
  (\<open>governance/v2_secret_scanner.py\<close>), journals the originals in the control database and
  writes through a workspace port (\<open>workspace/v2_disk.py\<close> behind \<open>workspace/v2_boundary.py\<close>).
  The recovery service (\<open>persistence/v2_recovery.py\<close>) completes or undoes an interrupted
  writeback. Separately, the disclosure ledger (\<open>governance/v2_disclosure.py\<close> and the second
  half of \<open>storage/v2_database.py\<close>) charges what may be sent to a provider, and the provider
  call service (\<open>providers/v2_call.py\<close> with \<open>credentials/v2_port.py\<close>) spends one
  authorization on one transport call. The execution boundary (\<open>execution/v2_executor.py\<close> with
  \<open>execution/v2_database_binding.py\<close>, \<open>execution/v2_docker_probe.py\<close> and
  \<open>execution/v2_docker_executor.py\<close>) runs one closed action in an isolated container when the
  database holds a passed validation of the candidate's current revision. All durable facts are rows of the SQLite control database
  (\<open>storage/v2_database.py\<close>).

  The candidate pipeline works on trees and not on the disk. A snapshot (\<open>trees/snapshot.py\<close>) seals the
  files of a repository in a content store (\<open>trees/content_store.py\<close>). A candidate revision
  (\<open>trees/candidate.py\<close>) is an overlay of content references on it. The model proposes a unified diff
  (\<open>candidate/unified_diff.py\<close>); the patch transaction (\<open>candidate/patch_engine.py\<close>) checks its paths
  against the tables of \<open>workspace/path_guard.py\<close> and \<open>profiles/editable.py\<close>, applies it exactly,
  checks the cumulative limits and publishes one child revision or none. The net diff against the snapshot
  (\<open>candidate/final_diff.py\<close>) and a three-root identity (\<open>candidate/identity.py\<close>) over canonical JSON
  digests (\<open>canonical/json_v1.py\<close>, \<open>canonical/digest.py\<close>) name what is approved.

  The theories, in the order they build on one another.
  \<^item> \<open>Prelude\<close>: exceptions as \<open>Inl\<close>, Python strings (Latin-1 code points) and untyped values.
  \<^item> \<open>Tables\<close>: SELECT, UPDATE with rowcount and compare-and-set on lists of rows; the locales
    \<open>keyed_table\<close> and \<open>cas_table\<close> are the contract of every table.
  \<^item> \<open>Control_Records\<close>, \<open>Writeback_Contract\<close>, \<open>Validation_Contract\<close>, \<open>Disclosure\<close>: the
    frozen dataclasses with every check of their constructors, and the mapping parsers.
  \<^item> \<open>Relaxed_Policy\<close>, \<open>Secret_Scanner\<close>: the two pure gates; the regular expressions are
    written out as matchers.
  \<^item> \<open>Database\<close>, \<open>Database_Control\<close>, \<open>Database_Ledger\<close>: the record \<open>database\<close> of all
    tables and one definition per method of \<open>V2Database\<close>; \<open>transaction\<close> is the context
    manager, and an INSERT fails with \<open>IntegrityError\<close> on a key, foreign-key or CHECK violation.
  \<^item> \<open>Database_Edits\<close>, \<open>Database_Invariants\<close>: the step relation \<open>db_step\<close> with a rule per
    writing operation, \<open>reachable\<close>, the decomposition of every operation into \<open>edit\<close>s, the
    invariants and what is final.
  \<^item> \<open>Workspace_Port\<close>: the locale \<open>workspace_port\<close> (what a port promises the services: a
    successful write found the expected original and changes one path; a failed one changes nothing
    or that path) and \<open>reliable_port\<close> (it succeeds where it is ready), interpreted on the
    in-memory port. \<open>Workspace_Disk\<close>: a tree of nodes with injected OS faults, the boundary and
    the local-disk port; both locales are interpreted on it (\<open>local_disk\<close>, \<open>healthy_disk\<close>).
  \<^item> \<open>Writeback_Service\<close>, \<open>Recovery_Service\<close>: the services over any port; their theorems are
    proved in the locales and reach the disk by interpretation. \<open>crash_state\<close> are the states an
    interruption can leave.
  \<^item> \<open>Agent_Loop\<close>: memory, dispatcher, loop, harness. \<open>Provider_Call\<close>: secrets with their
    capabilities, the credential port and the call service.
  \<^item> \<open>Execution_Records\<close>: profiles, requests, results, outcomes and binding facts.
    \<open>Execution_Service\<close>: the service over three injected edges, the database-backed binding and
    the fakes; the locale \<open>execution_edges\<close> is what an edge owes the service, interpreted on the
    fakes here and on the production edges in \<open>Docker_Trace\<close>. \<open>Docker_Executor\<close>: the
    container run, the daemon drift check and the probe over a \<open>docker_edge\<close>, with a log of the
    commands issued. \<open>Docker_Trace\<close>: the abstract specification \<open>docker_trace\<close> of a run, which
    \<open>docker_run\<close> refines. \<open>Command_Runner\<close>: the two reader threads of the default runner as the
    step relation \<open>collect_step\<close>. \<open>Execution_Properties\<close>: the properties of all of them.
  \<^item> \<open>Utf8\<close>: text as lists of code points, strict UTF-8. \<open>Canonical_Path\<close>, \<open>Text_Classifier\<close>,
    \<open>Unified_Diff\<close>: paths, supported text and the strict parser. \<open>Patch_Syntax\<close>: the printer of patches and
    the proof that the parser returns exactly the well-formed ones. \<open>Patch_Apply\<close>: the application of an
    entry and its specification \<open>patched\<close>. \<open>Patch_Properties\<close>: their properties.
  \<^item> \<open>Canonical_Json\<close>: the encoder and the digest, with the proof that the hashed bytes are unambiguous.
    \<open>Fnmatch\<close>, \<open>Path_Tables\<close>: shell patterns, sensitive, protected and ignored paths, the editable policy.
    \<open>Snapshot_Tree\<close>: content store and snapshot; the locale \<open>object_store\<close> is what the trees rely on. \<open>Candidate_Tree\<close>: overlay trees and the derivation of a
    child, which refines the update of a map from paths to bytes (\<open>files_of\<close>). \<open>Patch_Engine\<close>: the
    transaction. \<open>Path_Guard\<close>: the guard over inspected objects. \<open>Final_Diff\<close>: net diff and identity.
  \<^item> \<open>Candidate_Chain\<close>: the specification \<open>patch_result\<close> of a published patch, and the step relation
    \<open>candidate_chain\<close> of the revisions built on one snapshot, with its invariant. \<open>Candidate_Identity\<close>: the
    reference diff, and what the digests determine. \<open>Candidate_Properties\<close>: the properties and a small
    workspace for their witnesses.
  \<^item> \<open>Service_Steps\<close>: the services only ever run database operations. \<open>Contract_Properties\<close>:
    the pure contracts. \<open>Fixtures\<close>: a concrete installation for the witnesses.

  What the theorems show. Writeback and recovery (this theory): a crash at any point can be rolled
  back to the exact contents before the writeback or completed to the requested ones; COMMITTED,
  FAILED and refusals mean what they say; a change made by somebody else is never overwritten; a
  dead approval is refused for ever; blocked or failed recovery is harmless; writes are confined to
  the workspace. Database: keys, references, ownership, life cycles and the accounts of the ledger
  are invariants of every history, final rows never change, and the services preserve all of it.
  Ledger and provider: charges are exact and replays free, an authorization is consumed once, a
  provider is called at most once for it, outcomes are closed, secrets open only with their
  capability. Loop: it ends within its turns, stages only what the policy allows, and its memory is
  scoped to the run; a harness run always ends its run row. Execution: a container starts only for a
  passed validation of the candidate's current revision and only after the daemon reported it
  isolated, every created container is removed, outcomes are closed and sanitised, success is
  reported exactly when the container succeeded, requests cannot inject arguments, profiles are
  isolated, and the collected output is bounded under every interleaving of the reader threads.
  Contracts: scope matching, canonical orders, evidence binding, exact parsing, case-insensitive
  policy and scanner detection. Candidates: the parser's range, exact and reversible application; a
  published patch changes exactly the files its text names, a refused one changes nothing; along every
  chain of patches nothing outside the editable paths changes, the limits hold for the sum of all
  patches, files and directories stay apart, published revisions never change, the net diff can always be
  recomputed and is the true one, and the approved identity determines every byte. Lemmas beside the
  theorems state behaviour that is not intended: a charge that uses a budget up can never be consumed, a
  secret-like path aborts the loop, provider names may end in a newline, and the flaws collected at the
  end of \<open>Patch_Properties\<close>, \<open>Path_Tables\<close> and \<open>Candidate_Properties\<close>.

  Parameters. \<open>Path.resolve\<close> (\<open>resolver\<close>), \<open>datetime.fromisoformat\<close> (\<open>iso_parser\<close>), the
  clock, fresh identifiers, the model (\<open>llm\<close>), the transport, the credential store, the container
  command runner, the JSON reader, the inspection of a workspace object and Unicode case folding and
  normalisation (\<open>unicode_tables\<close>) are arguments of the definitions and nothing is assumed of them.
  SHA-256 is an argument too; where a theorem needs it, it assumes that no two of the byte strings hashed
  in the run have the same digest (\<open>inj_on\<close> on an explicit set \<open>H\<close>). Interference of other processes is a
  parameter (\<open>env\<close>). The disk model's faults are chosen by the disk, one per write.

  Bounds and fuel. No definition uses fuel: \<open>loop_turns\<close> recurses on the number of turns left,
  which is \<open>max_turns\<close>, \<open>decode_replace\<close> on the bytes left, the pattern reader and the parser on the
  text left, and every other recursion is structural.

  Not modelled: opening, creating and checking the SQLite file and its timestamps other than the
  creation times that order results; interpolated values in the texts of exceptions; fsync; pickling
  and printing of secrets; process creation and the pipes of the operating system; the HTTP
  transport, the OS credential store, the shell, the command line and the web console; the run loop,
  governance, validation, persistence and Win32 inspection of the first generation, which is kept frozen;
  the demo, the scripts and the spikes. The pydantic type checks of the first generation's records are the
  types of the model, and their digests are hexadecimal because SHA-256 makes them so.
\<close>

section \<open>Writeback and crash recovery on the local disk\<close>






text \<open>
  Claim C3. What COMMITTED means. A writeback on the local disk that reports COMMITTED had a
  candidate of that run at the requested revision and a pending approval for exactly that
  candidate and revision; its targets are distinct, each one is allowed by the policy and free of
  secret-like content; when nobody interferes, every target now holds exactly the requested
  content and every other path is untouched; the approval is consumed and the transaction is
  COMMITTED.
\<close>

theorem committed_writeback:
  assumes "request_writeback (disk_port B) (\<lambda>_ w. w) resolve workspace req fresh now db w = (Inr out, db', w')"
    and "wr_status out = WB_COMMITTED"
  shows "approved (wq_run_id req) (wq_candidate_id req) (wq_candidate_revision req) (wq_approval_id req) db \<and>
    distinct (map wo_path (wq_operations req)) \<and>
    (\<forall>op\<in>set (wq_operations req). op_allowed resolve workspace op) \<and>
    (\<forall>op\<in>set (wq_operations req). disk_view w' (wo_path op) = Some (wo_content op)) \<and>
    (\<forall>p. p \<notin> wo_path ` set (wq_operations req) \<longrightarrow> disk_view w' p = disk_view w p) \<and>
    (\<exists>a. get_writeback_approval (wq_approval_id req) db' = Some a \<and> ap_status a = AP_CONSUMED) \<and>
    wr_transaction_id out = Some fresh \<and>
    (\<exists>tx. get_transaction fresh db' = Some tx \<and> tx_state tx = COMMITTED)"
  using local_disk.committed [OF assms] by blast

theorem committed_writeback_witness:
  "(\<exists>out. demo_run demo_disk = (Inr out, fst (snd (demo_run demo_disk)), snd (snd (demo_run demo_disk))) \<and>
      wr_status out = WB_COMMITTED) \<and>
   disk_view (snd (snd (demo_run demo_disk))) ''a.txt'' = Some ''new'' \<and>
   disk_view (snd (snd (demo_run demo_disk))) ''b.txt'' = Some ''x''"
proof -
  obtain out where out: "demo_run demo_disk = (Inr out, fst (snd (demo_run demo_disk)), snd (snd (demo_run demo_disk)))"
    "wr_status out = WB_COMMITTED" using run_status_of_Some [OF demo_committed] by blast
  note c = committed_writeback [OF out(1) [unfolded demo_run_def [of demo_disk]] out(2)]
  have "\<forall>op\<in>set (wq_operations demo_request). disk_view (snd (snd (demo_run demo_disk))) (wo_path op) = Some (wo_content op)"
    using c unfolding demo_run_def [symmetric] by blast
  then have "disk_view (snd (snd (demo_run demo_disk))) ''a.txt'' = Some ''new''"
    "disk_view (snd (snd (demo_run demo_disk))) ''b.txt'' = Some ''x''"
    by (simp_all add: demo_request_def)
  with out show ?thesis by blast
qed





section \<open>The local disk\<close>



text \<open>
  Compare and publish. A write that reports success found its expected original (or the
  absence a CREATE expects) at the moment of publication, on whatever the disk held by then, and
  the path now holds the new content; a write that reports a failure either changed nothing or
  published the complete new content over its expected original. A half-written target is
  impossible.
\<close>

theorem compare_and_publish:
  assumes "well_planned pl" and "disk_publish B pl (split_on CHR ''/'' (plan_path pl)) fault cleaned w = (r, w')"
  shows "(if is_ok r then disk_view w (plan_path pl) = pw_expected pl \<and>
      disk_view w' = (disk_view w)(plan_path pl \<mapsto> plan_content pl)
    else disk_view w' = disk_view w \<or> disk_view w (plan_path pl) = pw_expected pl \<and>
      disk_view w' = (disk_view w)(plan_path pl \<mapsto> plan_content pl))"
  using disk_publish_cases [OF assms(1) refl assms(2)] by simp

theorem compare_and_publish_witness:
  "disk_view (snd (disk_publish demo_boundary \<lparr>pw_operation = \<lparr>wo_action = REPLACE, wo_path = ''a.txt'',
       wo_content = ''new''\<rparr>, pw_expected = Some ''stale''\<rparr> [''a.txt''] Healthy True demo_disk)) = disk_view demo_disk"
proof -
  let ?pl = "\<lparr>pw_operation = \<lparr>wo_action = REPLACE, wo_path = ''a.txt'', wo_content = ''new''\<rparr>, pw_expected = Some ''stale''\<rparr>"
  obtain r w' where r: "disk_publish demo_boundary ?pl [''a.txt''] Healthy True demo_disk = (r, w')" by fastforce
  have "canonical_path ''a.txt''" by code_simp
  then have w: "well_planned ?pl" by (simp add: well_planned_def)
  have "disk_view demo_disk ''a.txt'' = Some ''old''" by code_simp
  with compare_and_publish [OF w, of demo_boundary Healthy True demo_disk r w'] r show ?thesis
    by (auto split: if_splits)
qed

section \<open>Recovery\<close>

lemma load_active_refused:
  assumes "load_active tid db = Inl e"
  shows "rollback P tid db w = (Inl (RecordError e), db, w)" and "recovery_apply P tid db w = (Inl (RecordError e), db, w)"
  using assms by (simp_all add: rollback_def recovery_apply_def)


lemma undone_range:
  "undone work v p = v p \<or> (\<exists>(e, it)\<in>set work. je_path e = p \<and> undone work v p = je_original e)"
proof (induction work arbitrary: v)
  case (Cons x work)
  obtain e it where x: "x = (e, it)" by (cases x)
  from Cons [of "if ri_state it = APPLIED then v(je_path e := je_original e) else v"] show ?case
    unfolding x by (auto split: if_splits)
qed simp


lemma demo_crashed_reachable: "reachable F demo_crashed"
proof -
  obtain r db' w' where d: "demo_run demo_faulty = (r, db', w')" by (cases "demo_run demo_faulty")
  then have "db_steps F demo_db db'" unfolding demo_run_def by (rule writeback_steps)
  with demo_db_reachable [of F] d show ?thesis by (simp add: reachable_def demo_crashed_def)
qed

text \<open>
  A failed rollback keeps its promise to try again. Whatever faults the disk has, when
  \<open>rollback\<close> reports FAILED in a reachable database, the transaction is untouched and still
  recoverable, every target of the journal holds what it held or its original, and no other path
  changed.
\<close>

theorem failed_rollback_safe:
  assumes "rollback (disk_port B) tid db w = (Inr out, db', w')" and "rc_status out = RC_FAILED"
    and "reachable F db" and "load_active tid db = Inr (tx, es)" and "distinct (map je_path es)"
  shows "db' = db \<and> (\<forall>e\<in>set es. disk_view w' (je_path e) \<in> {disk_view w (je_path e), je_original e}) \<and>
    (\<forall>p. p \<notin> je_path ` set es \<longrightarrow> disk_view w' p = disk_view w p)"
proof -
  let ?work = "verdicts (disk_port B) w es"
  obtain r v where u: "undo_applied (disk_port B) ?work w = (r, v)" by fastforce
  have keys: "distinct (map tx_transaction_id (t_transactions db))"
    using reachable_ok [OF assms(3)] by (simp add: db_ok_def keys_ok_def)
  have t: "transition_transaction tid (tx_state tx) ROLLED_BACK db = (Inr True, set_tx tid (tx_state tx) ROLLED_BACK db)"
    using keys load_active_Inr(1,2) [OF assms(4)] active_transitions(1) by (intro transition_current) auto
  have "db' = db \<and> (w' = w \<or> w' = v)"
    using assms(1,2,4) u t by (auto simp: rollback_def Let_def rc_outcome_def split: if_splits sum.splits)
  moreover have "\<forall>(e, it)\<in>set ?work. valid_entry e"
    using load_active_Inr(3) [OF assms(4)] by (auto simp: in_verdicts)
  from local_disk.undo_applied_prefix [OF this u] obtain k where k: "disk_view v = undone (take k ?work) (disk_view w)"
    by (metis take_all_iff order_refl)
  have range: "disk_view v p = disk_view w p \<or> (\<exists>e\<in>set es. je_path e = p \<and> disk_view v p = je_original e)" for p
    using undone_range [of "take k ?work" "disk_view w" p] unfolding k
    by (auto dest!: in_set_takeD simp: in_verdicts)
  have "disk_view v (je_path e) \<in> {disk_view w (je_path e), je_original e}" if "e \<in> set es" for e
    using range [of "je_path e"] that assms(5) by (auto simp: distinct_map inj_on_def)
  moreover have "disk_view v p = disk_view w p" if "p \<notin> je_path ` set es" for p
    using range [of p] that by auto
  ultimately show ?thesis by auto
qed

lemma demo_stuck_failed:
  "(case rollback (disk_port demo_boundary) ''t1'' demo_crashed demo_stuck of
      (Inr out, _) \<Rightarrow> rc_status out = RC_FAILED | _ \<Rightarrow> False)"
  by code_simp

theorem failed_rollback_safe_witness:
  "\<exists>out w'. rollback (disk_port demo_boundary) ''t1'' demo_crashed demo_stuck = (Inr out, demo_crashed, w') \<and>
     rc_status out = RC_FAILED \<and> disk_view w' ''a.txt'' \<in> {Some ''new'', Some ''old''}"
proof -
  obtain out db' w' where r: "rollback (disk_port demo_boundary) ''t1'' demo_crashed demo_stuck = (Inr out, db', w')"
    and f: "rc_status out = RC_FAILED"
    using demo_stuck_failed by (auto split: prod.splits sum.splits)
  have d: "distinct (map je_path demo_entries)" "hd demo_entries \<in> set demo_entries"
    "je_path (hd demo_entries) = ''a.txt''" "je_original (hd demo_entries) = Some ''old''"
    by (simp_all add: demo_entries_def)
  have "disk_view demo_stuck ''a.txt'' = Some ''new''" by code_simp
  with failed_rollback_safe [OF r f demo_crashed_reachable demo_loaded d(1)] d r f show ?thesis by force
qed

section \<open>Approvals\<close>

lemma candidate_edit:
  assumes "edit db db'" and "get_candidate cid db = Some c"
  shows "\<exists>c'. get_candidate cid db' = Some c' \<and> cn_revision c \<le> cn_revision c' \<and> cn_run_id c' = cn_run_id c"
  using assms
proof (induction rule: edit.induct)
  case (edit_advance db k n)
  then show ?case
    by (auto simp: get_candidate_def cas_def find_update_rows)
qed (auto simp: get_candidate_def edit_effects find_row_append)

lemma approval_edit:
  assumes "edit db db'" and "get_writeback_approval k db = Some a"
  shows "\<exists>a'. get_writeback_approval k db' = Some a' \<and> ap_candidate_id a' = ap_candidate_id a \<and>
    ap_candidate_revision a' = ap_candidate_revision a \<and> (ap_status a = AP_CONSUMED \<longrightarrow> ap_status a' = AP_CONSUMED)"
  using assms
  by (induction rule: edit.induct)
    (auto simp: get_writeback_approval_def edit_effects find_row_append find_update_rows)

definition dead_approval :: "string \<Rightarrow> database \<Rightarrow> bool" where
  \<comment> \<open>Consumed, or given for a revision the candidate has left behind.\<close>
  "dead_approval k db \<longleftrightarrow> (\<exists>a. get_writeback_approval k db = Some a \<and>
     (ap_status a = AP_CONSUMED \<or>
      (\<exists>c. get_candidate (ap_candidate_id a) db = Some c \<and> ap_candidate_revision a < cn_revision c)))"

lemma dead_approval_edit:
  assumes "edit db db'" and "dead_approval k db"
  shows "dead_approval k db'"
proof -
  from assms(2) obtain a where a: "get_writeback_approval k db = Some a" and
    d: "ap_status a = AP_CONSUMED \<or> (\<exists>c. get_candidate (ap_candidate_id a) db = Some c \<and> ap_candidate_revision a < cn_revision c)"
    by (auto simp: dead_approval_def)
  from approval_edit [OF assms(1) a] obtain a' where a': "get_writeback_approval k db' = Some a'"
    "ap_candidate_id a' = ap_candidate_id a" "ap_candidate_revision a' = ap_candidate_revision a"
    "ap_status a = AP_CONSUMED \<longrightarrow> ap_status a' = AP_CONSUMED" by blast
  have "\<exists>c. get_candidate (ap_candidate_id a) db' = Some c \<and> ap_candidate_revision a < cn_revision c"
    if "get_candidate (ap_candidate_id a) db = Some c" "ap_candidate_revision a < cn_revision c" for c
    using candidate_edit [OF assms(1) that(1)] that(2) by force
  with a' d show ?thesis unfolding dead_approval_def by auto
qed

text \<open>
  Claim C14. An approval is good for one writeback of one revision. Once an approval is consumed, or
  its candidate has advanced past the approved revision, no later writeback request that presents
  it gets anywhere: after any further history of the database every such request is refused with
  DENIED or STALE, consumes nothing, journals nothing and writes nothing.
\<close>

theorem dead_approval_refused:
  assumes "dead_approval (wq_approval_id req) db" and "(db_step F)\<^sup>*\<^sup>* db db1"
  shows "\<exists>out. request_writeback P env resolve workspace req fresh now db1 w = (Inr out, db1, w) \<and>
    wr_status out \<in> {WB_DENIED, WB_STALE} \<and> wr_transaction_id out = None"
proof -
  have "edit\<^sup>*\<^sup>* db db1" using assms(2) by (rule db_steps_edits)
  then have dead: "dead_approval (wq_approval_id req) db1"
    by (induction rule: rtranclp_induct) (use assms(1) dead_approval_edit in auto)
  have "refuse resolve workspace req db1 \<noteq> None"
  proof
    assume "refuse resolve workspace req db1 = None"
    from refuse_None(1) [OF this] dead show False by (auto simp: approved_def dead_approval_def)
  qed
  then obtain out where out: "refuse resolve workspace req db1 = Some out" by blast
  with refuse_early [OF out] show ?thesis by (simp add: request_writeback_def)
qed

theorem dead_approval_refused_witness:
  "\<exists>out. request_writeback (disk_port demo_boundary) (\<lambda>_ w. w) Some [''ws''] demo_request ''t2'' ''3'' demo_crashed demo_disk =
     (Inr out, demo_crashed, demo_disk) \<and> wr_status out \<in> {WB_DENIED, WB_STALE}"
proof -
  have "get_writeback_approval ''a1'' demo_crashed = Some \<lparr>ap_approval_id = ''a1'', ap_run_id = ''r1'',
      ap_candidate_id = ''c1'', ap_candidate_revision = 1, ap_status = AP_CONSUMED\<rparr>" by code_simp
  then have "dead_approval (wq_approval_id demo_request) demo_crashed"
    by (simp add: dead_approval_def demo_request_def)
  from dead_approval_refused [OF this rtranclp.rtrancl_refl, of "disk_port demo_boundary" "\<lambda>_ w. w" Some "[''ws'']"
      "''t2''" "''3''" demo_disk]
  show ?thesis by blast
qed

section \<open>The services and the database\<close>





text \<open>
  The recovery list is complete. In every reachable database the pending transactions are
  exactly those that are neither COMMITTED nor ROLLED_BACK, each once, oldest first.
\<close>

theorem pending_complete:
  assumes "reachable F db"
  shows "distinct (pending_transaction_ids db) \<and>
    (tid \<in> set (pending_transaction_ids db) \<longleftrightarrow>
      (\<exists>tx. get_transaction tid db = Some tx \<and> tx_state tx \<notin> set terminal_transaction_states)) \<and>
    sorted (map (\<lambda>r. (tx_created_at r, tx_transaction_id r)) (list_transactions_in_states active_transaction_states db))"
proof -
  have keys: "distinct (map tx_transaction_id (t_transactions db))"
    using reachable_ok [OF assms] by (simp add: db_ok_def keys_ok_def)
  let ?act = "filter (\<lambda>r. tx_state r \<in> set active_transaction_states) (t_transactions db)"
  have "distinct (map tx_transaction_id ?act)" using keys by (rule distinct_map_filter)
  then have "distinct (pending_transaction_ids db)"
    by (simp add: pending_transaction_ids_def list_transactions_in_states_def distinct_map)
  moreover have "s \<notin> set terminal_transaction_states \<longleftrightarrow> s \<in> set active_transaction_states" for s
    by (cases s) (simp_all add: terminal_transaction_states_def active_transaction_states_def)
  then have "tid \<in> set (pending_transaction_ids db) \<longleftrightarrow>
      (\<exists>tx. get_transaction tid db = Some tx \<and> tx_state tx \<notin> set terminal_transaction_states)"
    using find_row_distinct [OF keys]
    by (auto simp: pending_transaction_ids_def list_transactions_in_states_def get_transaction_def
        dest: find_row_SomeD)
  ultimately show ?thesis by (simp add: list_transactions_in_states_def)
qed

theorem pending_complete_witness: "''t1'' \<in> set (pending_transaction_ids demo_crashed)"
proof -
  have "get_transaction ''t1'' demo_crashed = Some demo_tx" using load_active_Inr(1) [OF demo_loaded] .
  with pending_complete [OF demo_crashed_reachable, where tid = "''t1''"] show ?thesis
    by (simp add: demo_tx_def terminal_transaction_states_def)
qed



section \<open>Runs and validation runs\<close>

text \<open>
  Optimistic concurrency of runs. In a reachable database a transition of an existing run
  succeeds exactly when it is legal, its phase fits and the caller knows the current revision; then
  the row has the new status and phase and the next revision, and otherwise nothing changes.
\<close>

theorem transition_run_exact:
  assumes "reachable F db" and "get_run rid db = Some row"
  shows "\<exists>ok db'. transition_run rid n st ph db = (Inr ok, db') \<and>
    (ok \<longleftrightarrow> (rn_status row, st) \<in> set run_transitions \<and> (st = RUN_RUNNING \<longleftrightarrow> ph \<noteq> None) \<and> n = rn_revision row) \<and>
    (if ok then get_run rid db' = Some (bump_run (st, ph) row) else db' = db)"
proof -
  have keys: "distinct (map rn_run_id (t_runs db))"
    using reachable_ok [OF assms(1)] by (simp add: db_ok_def keys_ok_def)
  have row: "find_row rn_run_id rid (t_runs db) = Some row" using assms(2) by (simp add: get_run_def)
  let ?P = "\<lambda>r. rn_run_id r = rid \<and> rn_revision r = n"
  have same: "r = row" if "r \<in> set (t_runs db)" "rn_run_id r = rid" for r
    using find_row_distinct [OF keys that(1)] that(2) row by simp
  have count: "rowcount ?P (t_runs db) = Suc 0 \<longleftrightarrow> n = rn_revision row"
    using rowcount_key_eq_1 [OF keys, of rid "\<lambda>r. rn_revision r = n"] row by auto
  have idle: "update_rows ?P f (t_runs db) = t_runs db" if "n \<noteq> rn_revision row" for f
    using that same by (intro update_rows_id) auto
  have hit: "find_row rn_run_id rid (update_rows ?P (bump_run (st, ph)) (t_runs db)) = Some (bump_run (st, ph) row)"
    if "n = rn_revision row"
    using that row find_row_SomeD [OF row] by (simp add: run_table.find_update)
  show ?thesis
    using assms(2) count idle hit
    by (auto simp: transition_run_def transaction_def update_run_at_def Let_def get_run_def)
qed

theorem transition_run_exact_witness:
  "\<exists>ok. transition_run ''r1'' 1 RUN_STOPPED None demo_db = (Inr ok, demo_db) \<and> \<not> ok"
proof -
  have g: "get_run ''r1'' demo_db = Some \<lparr>rn_run_id = ''r1'', rn_workspace_path = ''/ws'', rn_status = RUN_RUNNING,
      rn_phase = Some ''EDIT'', rn_revision = 2, rn_created_at = ''1''\<rparr>" by code_simp
  from transition_run_exact [OF demo_db_reachable g, where n = 1 and st = RUN_STOPPED and ph = None] show ?thesis
    by auto
qed

text \<open>
  A validation result is recorded once and only while it is current. If recording a
  result succeeds in a reachable database, the validation run was PENDING and its candidate is of
  its run and still at the validated revision; the run now carries the result, and no later attempt
  with any result changes it.
\<close>

theorem validation_recorded_once:
  assumes "reachable F db" and "record_validation_result vid st err db = (Inr True, db')"
  shows "\<exists>v. find_validation_run vid db = Some v \<and> vr_status v = ''PENDING'' \<and>
    belongs (vr_candidate_id v) (vr_run_id v) (vr_candidate_revision v) db \<and>
    find_validation_run vid db' = Some (complete_validation (st, err) v) \<and>
    (\<forall>st2 err2. snd (record_validation_result vid st2 err2 db') = db' \<and>
       fst (record_validation_result vid st2 err2 db') \<noteq> Inr True)"
proof -
  let ?P = "\<lambda>r. vr_validation_run_id r = vid \<and> vr_status r = ''PENDING''"
  have shape: "check_result_shape st err = Inr ()"
    using assms(2) by (auto simp: record_validation_result_def split: sum.splits)
  obtain v where v: "find_validation_run vid db = Some v"
    using assms(2) shape by (cases "find_validation_run vid db") (auto simp: record_validation_result_def)
  have pend: "vr_status v = ''PENDING''"
    using assms(2) shape v by (auto simp: record_validation_result_def split: if_splits)
  have "belongs (vr_candidate_id v) (vr_run_id v) (vr_candidate_revision v) db \<and>
      db' = db\<lparr>t_validation_runs := update_rows ?P (complete_validation (st, err)) (t_validation_runs db)\<rparr>"
    using assms(2) shape v pend
    by (auto simp: record_validation_result_def belongs_def Let_def split: if_splits option.splits sum.splits)
  moreover from this have now: "find_validation_run vid db' = Some (complete_validation (st, err) v)"
    using v pend find_row_SomeD [OF v [unfolded find_validation_run_def]]
    by (simp add: find_validation_run_def validation_table.find_update)
  moreover have "st \<noteq> ''PENDING''" using shape by (auto simp: check_result_shape_def)
  then have "snd (record_validation_result vid st2 err2 db') = db' \<and>
      fst (record_validation_result vid st2 err2 db') \<noteq> Inr True" for st2 err2
    using now by (auto simp: record_validation_result_def transaction_def split: sum.splits)
  ultimately show ?thesis using v pend by blast
qed

definition demo_validation :: database where
  "demo_validation = perform
     [\<lambda>d. snd (create_reference_profile demo_profile d),
      \<lambda>d. snd (create_validation_run ''r1'' ''c1'' 1 ''p1'' 0 None ''v1'' d)] demo_db"

lemma demo_validation_reachable: "reachable F demo_validation"
proof -
  have "db_steps F demo_db demo_validation" unfolding demo_validation_def
    by (rule perform_steps) (auto intro: db_step.intros [OF prod.collapse [symmetric]])
  with demo_db_reachable [of F] show ?thesis by (simp add: reachable_def)
qed

theorem validation_recorded_once_witness:
  "\<exists>db' v. record_validation_result ''v1'' ''PASSED'' None demo_validation = (Inr True, db') \<and>
     find_validation_run ''v1'' db' = Some v \<and> vr_status v = ''PASSED'' \<and>
     fst (record_validation_result ''v1'' ''FAILED'' (Some ''x'') db') \<noteq> Inr True"
proof -
  have "fst (record_validation_result ''v1'' ''PASSED'' None demo_validation) = Inr True" by code_simp
  then obtain db' where r: "record_validation_result ''v1'' ''PASSED'' None demo_validation = (Inr True, db')"
    by (metis fst_conv surj_pair)
  from validation_recorded_once [OF demo_validation_reachable r] obtain v where
    "find_validation_run ''v1'' db' = Some (complete_validation (''PASSED'', None) v)"
    "fst (record_validation_result ''v1'' ''FAILED'' (Some ''x'') db') \<noteq> Inr True" by blast
  with r show ?thesis by auto
qed

section \<open>Staging\<close>

text \<open>
  Staging is faithful. The operations the harness makes of its staged files are one per
  staged path, in ascending order of the paths, each with the staged content, and REPLACE exactly
  where the port sees a file.
\<close>

theorem staged_operations_exact:
  assumes "staged_operations P w staging = Inr ops" and "distinct (map fst staging)"
  shows "map wo_path ops = sort (map fst staging) \<and>
    (\<forall>op\<in>set ops. map_of staging (wo_path op) = Some (wo_content op) \<and> canonical_path (wo_path op) \<and>
       file_exists P (wo_path op) w = Inr (wo_action op = REPLACE))"
proof -
  let ?s = "sort_key fst staging"
  have one: "wo_path op = fst kv \<and> wo_content op = snd kv \<and> canonical_path (fst kv) \<and>
      file_exists P (fst kv) w = Inr (wo_action op = REPLACE)" if "staged_operation P w kv = Inr op" for kv op
    using that by (auto simp: staged_operation_def make_write_operation_eq_Inr split: sum.splits if_splits)
      (cases "wo_action op", auto)+
  have all: "list_all2 (\<lambda>kv op. staged_operation P w kv = Inr op) kvs ops" if "rmap (staged_operation P w) kvs = Inr ops" for kvs ops
    using that by (induction kvs arbitrary: ops) auto
  from all [of ?s ops] assms(1) have l: "list_all2 (\<lambda>kv op. staged_operation P w kv = Inr op) ?s ops"
    by (simp add: staged_operations_def)
  then have "map wo_path ops = map fst ?s" by (induction rule: list_all2_induct) (auto dest: one)
  moreover have "sort (map fst staging) = map fst ?s" by (rule properties_for_sort) simp_all
  moreover have "map_of staging (wo_path op) = Some (wo_content op) \<and> canonical_path (wo_path op) \<and>
      file_exists P (wo_path op) w = Inr (wo_action op = REPLACE)" if "op \<in> set ops" for op
  proof -
    from l that obtain kv where "kv \<in> set ?s" "staged_operation P w kv = Inr op"
      by (metis (mono_tags, lifting) in_set_conv_nth list_all2_conv_all_nth)
    with one [of kv op] assms(2) show ?thesis by (cases kv) simp
  qed
  ultimately show ?thesis by simp
qed

theorem staged_operations_exact_witness:
  "\<exists>ops. staged_operations memory_port [(''a.txt'', ''old'')] [(''b.txt'', ''x''), (''a.txt'', ''new'')] = Inr ops \<and>
     map wo_path ops = [''a.txt'', ''b.txt'']"
proof -
  let ?st = "[(''b.txt'', ''x''), (''a.txt'', ''new'')]"
  have "is_ok (staged_operations memory_port [(''a.txt'', ''old'')] ?st)" by code_simp
  then obtain ops where o: "staged_operations memory_port [(''a.txt'', ''old'')] ?st = Inr ops"
    by (auto simp: is_ok_def split: sum.splits)
  have "sort (map fst ?st) = [''a.txt'', ''b.txt'']" "distinct (map fst ?st)" by code_simp+
  with staged_operations_exact [OF o] o show ?thesis by auto
qed

end
